(* ===== verification/Vk_Prelude.thy ===== *)
theory Vk_Prelude
  imports Main "HOL-Library.Sublist"
begin

text \<open>
  What every component of the development shares: the types that stand for Rust's
  (\<open>uuid\<close>, \<open>timestamp\<close>), the part of Rust's string library that the sources use, and
  tables of records with a key, which is how the SQL tables are modelled.

  A Rust \<open>String\<close> is a \<open>string\<close> holding its UTF-8 bytes. Case mapping and white space
  are the ASCII ones: \<open>str_lower\<close> is \<open>to_lowercase\<close> and \<open>str_trim\<close> is \<open>trim\<close> on
  text whose letters with case and whose white space are ASCII; bytes above 127 are kept,
  so the Chinese condition texts of the shipped templates pass through unchanged, as they
  do in Rust.
\<close>

named_theorems table_simps \<open>lookups in tables after updates\<close>

section \<open>Identifiers and time\<close>

type_synonym uuid = nat
type_synonym timestamp = nat

section \<open>Strings\<close>

definition ascii_ws :: "char \<Rightarrow> bool" where
  "ascii_ws c = (let n = of_char c :: nat in (9 \<le> n \<and> n \<le> 13) \<or> n = 32)"

definition lower_char :: "char \<Rightarrow> char" where
  "lower_char c = (let n = of_char c :: nat in if 65 \<le> n \<and> n \<le> 90 then char_of (n + 32) else c)"

definition upper_char :: "char \<Rightarrow> char" where
  "upper_char c = (if 97 \<le> (of_char c :: nat) \<and> (of_char c :: nat) \<le> 122 then char_of (of_char c - 32 :: nat) else c)"

definition str_lower :: "string \<Rightarrow> string" where
  "str_lower s = map lower_char s"

definition trim_start :: "string \<Rightarrow> string" where
  "trim_start s = dropWhile ascii_ws s"

definition str_trim :: "string \<Rightarrow> string" where
  "str_trim s = rev (trim_start (rev (trim_start s)))"

fun strip_prefix :: "string \<Rightarrow> string \<Rightarrow> string option" where
  "strip_prefix [] s = Some s"
| "strip_prefix (p # ps) [] = None"
| "strip_prefix (p # ps) (c # cs) = (if p = c then strip_prefix ps cs else None)"

fun str_contains :: "string \<Rightarrow> string \<Rightarrow> bool" where
  \<comment> \<open>\<open>hay.contains(needle)\<close>, written \<open>str_contains needle hay\<close>\<close>
  "str_contains p [] = (p = [])"
| "str_contains p (c # cs) = (strip_prefix p (c # cs) \<noteq> None \<or> str_contains p cs)"

fun str_split :: "char \<Rightarrow> string \<Rightarrow> string list" where
  "str_split c [] = [[]]"
| "str_split c (x # xs) = (if x = c then [] # str_split c xs
     else (case str_split c xs of [] \<Rightarrow> [[x]] | y # ys \<Rightarrow> (x # y) # ys))"

definition nl :: string where
  "nl = [CHR 0x0A]"

definition utf8 :: "nat list \<Rightarrow> string" where
  \<comment> \<open>the bytes of a text outside ASCII\<close>
  "utf8 bs = map char_of bs"

text \<open>
  \<open>chars()\<close>: a scalar value is its lead byte with the continuation bytes after it
  (\<open>10xxxxxx\<close>), so the characters of a text are the chunks that start at the other bytes.
\<close>

definition utf8_cont :: "char \<Rightarrow> bool" where
  "utf8_cont c = (let n = of_char c :: nat in 128 \<le> n \<and> n < 192)"

fun utf8_chars :: "string \<Rightarrow> string list" where
  "utf8_chars [] = []"
| "utf8_chars (c # cs) =
     (case cs of [] \<Rightarrow> [[c]]
      | d # _ \<Rightarrow> (if utf8_cont d then (c # hd (utf8_chars cs)) # tl (utf8_chars cs)
                 else [c] # utf8_chars cs))"

definition char_count :: "string \<Rightarrow> nat" where
  "char_count s = length (utf8_chars s)"

lemma concat_utf8_chars [simp]: "concat (utf8_chars s) = s"
proof (induction s)
  case (Cons c cs)
  show ?case
  proof (cases cs)
    case (Cons d ds)
    then have "utf8_chars cs \<noteq> []" using Cons.IH by (metis concat.simps(1) list.distinct(1))
    then obtain u us where us: "utf8_chars cs = u # us" by (cases "utf8_chars cs") auto
    then have "u @ concat us = cs" using Cons.IH by simp
    moreover have "utf8_chars (c # cs)
        = (if utf8_cont d then (c # hd (utf8_chars cs)) # tl (utf8_chars cs) else [c] # utf8_chars cs)"
      using Cons by simp
    ultimately show ?thesis using us by (simp split: if_splits)
  qed simp
qed simp

fun join_with :: "string \<Rightarrow> string list \<Rightarrow> string" where
  "join_with sep [] = []"
| "join_with sep [x] = x"
| "join_with sep (x # y # zs) = x @ sep @ join_with sep (y # zs)"

fun ws_words :: "string \<Rightarrow> string \<Rightarrow> string list" where
  \<comment> \<open>\<open>split_whitespace\<close>, with the word so far\<close>
  "ws_words w [] = (if w = [] then [] else [w])"
| "ws_words w (c # cs) = (if ascii_ws c then (if w = [] then ws_words [] cs else w # ws_words [] cs)
     else ws_words (w @ [c]) cs)"

fun str_replace :: "string \<Rightarrow> string \<Rightarrow> nat \<Rightarrow> string \<Rightarrow> string" where
  \<comment> \<open>\<open>s.replace(pat, text)\<close> for a pattern that is not empty, with the bytes of a match still to skip\<close>
  "str_replace pat text k [] = []"
| "str_replace pat text (Suc k) (c # cs) = str_replace pat text k cs"
| "str_replace pat text 0 (c # cs) =
     (if strip_prefix pat (c # cs) = None then c # str_replace pat text 0 cs
      else text @ str_replace pat text (length pat - 1) cs)"

definition trim_nonempty :: "string option \<Rightarrow> string option" where
  \<comment> \<open>the idiom \<open>.map(str::trim).filter(|s| !s.is_empty())\<close>\<close>
  "trim_nonempty s = (case s of None \<Rightarrow> None
     | Some x \<Rightarrow> (if str_trim x = [] then None else Some (str_trim x)))"

definition opt_or :: "'a option \<Rightarrow> 'a option \<Rightarrow> 'a option" where
  "opt_or a b = (case a of None \<Rightarrow> b | Some x \<Rightarrow> Some x)"

definition unwrap_or :: "'a option \<Rightarrow> 'a \<Rightarrow> 'a" where
  "unwrap_or a d = (case a of None \<Rightarrow> d | Some x \<Rightarrow> x)"

definition patch_field :: "'a option option \<Rightarrow> 'a option \<Rightarrow> 'a option" where
  \<comment> \<open>\<open>CASE WHEN $clear THEN NULL WHEN $set IS NOT NULL THEN $set ELSE column END\<close>, where
    \<open>clear\<close> is \<open>Some None\<close> and \<open>set\<close> is the flattened option\<close>
  "patch_field p old = (case p of None \<Rightarrow> old | Some None \<Rightarrow> None | Some (Some x) \<Rightarrow> Some x)"

lemma patch_field_simps [simp]:
  "patch_field None old = old" "patch_field (Some v) old = v"
  by (simp_all add: patch_field_def split: option.splits)

lemma opt_or_simps [simp]:
  "opt_or None b = b" "opt_or (Some x) b = Some x"
  by (simp_all add: opt_or_def)

lemma unwrap_or_simps [simp]:
  "unwrap_or None d = d" "unwrap_or (Some x) d = x"
  by (simp_all add: unwrap_or_def)

lemma opt_or_eq_None [simp]: "opt_or a b = None \<longleftrightarrow> a = None \<and> b = None"
  by (cases a) auto

lemma strip_prefix_iff: "strip_prefix p s = Some r \<longleftrightarrow> s = p @ r"
  by (induction p s rule: strip_prefix.induct) auto

lemma strip_prefix_append [simp]: "strip_prefix p (p @ r) = Some r"
  by (simp add: strip_prefix_iff)

lemma strip_prefix_None: "strip_prefix p s = None \<longleftrightarrow> \<not> prefix p s"
  by (induction p s rule: strip_prefix.induct) auto

lemma str_contains_sublist: "str_contains p s \<longleftrightarrow> sublist p s"
  by (induction p s rule: str_contains.induct)
    (auto simp: strip_prefix_None sublist_Cons_right)

lemma str_contains_Nil [simp]: "str_contains [] s"
  by (simp add: str_contains_sublist)

lemma str_contains_append: "str_contains p (a @ p @ b)"
  by (simp add: str_contains_sublist sublist_appendI)

lemma lower_char_idem [simp]: "lower_char (lower_char c) = lower_char c"
proof (cases "65 \<le> (of_char c :: nat) \<and> (of_char c :: nat) \<le> 90")
  case True
  then show ?thesis by (auto simp: lower_char_def Let_def)
next
  case False
  then show ?thesis by (auto simp: lower_char_def Let_def)
qed

lemma str_lower_idem [simp]: "str_lower (str_lower s) = str_lower s"
  by (simp add: str_lower_def)

lemma str_lower_append [simp]: "str_lower (a @ b) = str_lower a @ str_lower b"
  by (simp add: str_lower_def)

lemma str_lower_Nil [simp]: "str_lower [] = []"
  by (simp add: str_lower_def)

text \<open>Decimal digits and the hyphenated lower-case hexadecimal form of a UUID.\<close>

fun show_nat :: "nat \<Rightarrow> string" where
  "show_nat n = (if n < 10 then [char_of (48 + n)]
     else show_nat (n div 10) @ [char_of (48 + n mod 10)])"

declare show_nat.simps [simp del]

definition parse_u64 :: "string \<Rightarrow> nat option" where
  \<comment> \<open>\<open>str::parse::<u64>\<close>\<close>
  "parse_u64 s =
     (let ds = (case s of [] \<Rightarrow> [] | c # cs \<Rightarrow> if c = CHR ''+'' then cs else s);
          digits = map (\<lambda>c. of_char c :: nat) ds;
          n = foldl (\<lambda>acc d. 10 * acc + (d - 48)) 0 digits in
      if ds \<noteq> [] \<and> (\<forall>d \<in> set digits. 48 \<le> d \<and> d \<le> 57) \<and> n < 2 ^ 64 then Some n else None)"

lemma show_nat_chars: "c \<in> set (show_nat n) \<Longrightarrow> 48 \<le> (of_char c :: nat) \<and> (of_char c :: nat) \<le> 57"
proof (induction n rule: show_nat.induct)
  case (1 n)
  have last_digit: "48 + n mod 10 < 256" by simp
  show ?case
    using 1 by (subst (asm) show_nat.simps) (auto simp: last_digit split: if_splits)
qed

lemma show_nat_value: "foldl (\<lambda>acc d. 10 * acc + (d - 48)) 0 (map of_char (show_nat n)) = n"
proof (induction n rule: show_nat.induct)
  case (1 n)
  show ?case using 1 by (subst show_nat.simps) simp
qed

lemma show_nat_inj: "show_nat a = show_nat b \<Longrightarrow> a = b"
  by (metis show_nat_value)

lemma parse_u64_show_nat:
  assumes "n < 2 ^ 64"
  shows "parse_u64 (show_nat n) = Some n"
proof -
  have nonempty: "show_nat n \<noteq> []" by (subst show_nat.simps) simp
  have "CHR ''+'' \<notin> set (show_nat n)" using show_nat_chars [of "CHR ''+''" n] by auto
  then have "(case show_nat n of [] \<Rightarrow> [] | c # cs \<Rightarrow> if c = CHR ''+'' then cs else show_nat n) = show_nat n"
    by (auto split: list.splits)
  then show ?thesis
    using assms show_nat_value [of n] nonempty show_nat_chars [of _ n] unfolding parse_u64_def Let_def by auto
qed

definition show_int :: "int \<Rightarrow> string" where
  "show_int i = (if i < 0 then ''-'' @ show_nat (nat (- i)) else show_nat (nat i))"

definition hex_digit :: "nat \<Rightarrow> char" where
  "hex_digit d = (if d < 10 then char_of (48 + d) else char_of (87 + d))"

fun hex_digits :: "nat \<Rightarrow> nat \<Rightarrow> string" where
  \<comment> \<open>the last \<open>k\<close> hexadecimal digits\<close>
  "hex_digits 0 n = []"
| "hex_digits (Suc k) n = hex_digits k (n div 16) @ [hex_digit (n mod 16)]"

definition show_uuid :: "uuid \<Rightarrow> string" where
  "show_uuid n = (let h = hex_digits 32 n in
     take 8 h @ ''-'' @ take 4 (drop 8 h) @ ''-'' @ take 4 (drop 12 h) @ ''-'' @ take 4 (drop 16 h)
       @ ''-'' @ drop 20 h)"

lemma length_hex_digits [simp]: "length (hex_digits k n) = k"
  by (induction k arbitrary: n) simp_all

lemma length_show_uuid: "length (show_uuid n) = 36"
  by (simp add: show_uuid_def Let_def)

section \<open>Tables: lists of records with a key\<close>

text \<open>
  A table is the list of its rows in insertion order. \<open>tbl_find\<close> is a lookup by primary
  key, \<open>tbl_update\<close> an \<open>UPDATE \<dots> WHERE id = $1\<close>, \<open>tbl_delete\<close> a
  \<open>DELETE \<dots> WHERE id = $1\<close>.
\<close>

definition tbl_find :: "('r \<Rightarrow> 'k) \<Rightarrow> 'k \<Rightarrow> 'r list \<Rightarrow> 'r option" where
  "tbl_find key k rows = List.find (\<lambda>r. key r = k) rows"

lemma find_SomeD: "List.find P xs = Some x \<Longrightarrow> x \<in> set xs \<and> P x"
  by (auto simp: find_Some_iff)

definition tbl_update :: "('r \<Rightarrow> 'k) \<Rightarrow> 'k \<Rightarrow> ('r \<Rightarrow> 'r) \<Rightarrow> 'r list \<Rightarrow> 'r list" where
  "tbl_update key k f rows = map (\<lambda>r. if key r = k then f r else r) rows"

definition tbl_delete :: "('r \<Rightarrow> 'k) \<Rightarrow> 'k \<Rightarrow> 'r list \<Rightarrow> 'r list" where
  "tbl_delete key k rows = filter (\<lambda>r. key r \<noteq> k) rows"

definition tbl_keys_ok :: "('r \<Rightarrow> 'k) \<Rightarrow> 'r list \<Rightarrow> bool" where
  "tbl_keys_ok key rows = distinct (map key rows)"

lemma tbl_find_Some: "tbl_find key k rows = Some r \<Longrightarrow> r \<in> set rows \<and> key r = k"
  by (auto simp: tbl_find_def find_Some_iff)

lemma tbl_find_None: "tbl_find key k rows = None \<longleftrightarrow> k \<notin> key ` set rows"
  by (auto simp: tbl_find_def find_None_iff)

lemma tbl_find_Cons:
  "tbl_find key k (r # rows) = (if key r = k then Some r else tbl_find key k rows)"
  by (simp add: tbl_find_def)

lemma tbl_find_Nil [simp]: "tbl_find key k [] = None"
  by (simp add: tbl_find_def)

lemma tbl_find_in_set:
  "tbl_keys_ok key rows \<Longrightarrow> r \<in> set rows \<Longrightarrow> tbl_find key (key r) rows = Some r"
  by (induction rows) (auto simp: tbl_keys_ok_def tbl_find_Cons)

lemma tbl_find_append:
  "tbl_find key k (xs @ ys) = opt_or (tbl_find key k xs) (tbl_find key k ys)"
  by (induction xs) (auto simp: tbl_find_Cons)

lemma set_tbl_delete: "set (tbl_delete key k rows) = {r \<in> set rows. key r \<noteq> k}"
  by (auto simp: tbl_delete_def)

lemma set_tbl_update:
  "set (tbl_update key k f rows) = (\<lambda>r. if key r = k then f r else r) ` set rows"
  by (auto simp: tbl_update_def)

lemma length_tbl_update [simp]: "length (tbl_update key k f rows) = length rows"
  by (simp add: tbl_update_def)

lemma tbl_keys_ok_delete: "tbl_keys_ok key rows \<Longrightarrow> tbl_keys_ok key (tbl_delete key k rows)"
  by (auto simp: tbl_keys_ok_def tbl_delete_def distinct_map_filter)

lemma tbl_keys_ok_snoc:
  "tbl_keys_ok key rows \<Longrightarrow> tbl_find key (key r) rows = None \<Longrightarrow> tbl_keys_ok key (rows @ [r])"
  by (auto simp: tbl_keys_ok_def tbl_find_None)

section \<open>The interface of a keyed table\<close>

text \<open>
  A repository works on a table whose rows keep their primary key: every update it makes
  preserves the key. What a lookup returns after each kind of statement is proved once
  here; each component's table interprets the locale with its own key and its updates.
\<close>

locale keyed_table =
  fixes key :: "'r \<Rightarrow> 'k"
    and upd :: "'u \<Rightarrow> 'r \<Rightarrow> 'r"
  assumes key_upd: "key (upd u r) = key r"
begin

lemma keys_update: "map key (tbl_update key k (upd u) rows) = map key rows"
  by (simp add: tbl_update_def key_upd)

lemma keys_ok_update: "tbl_keys_ok key rows \<Longrightarrow> tbl_keys_ok key (tbl_update key k (upd u) rows)"
  by (simp add: tbl_keys_ok_def keys_update)

lemma find_update:
  "tbl_find key j (tbl_update key k (upd u) rows) =
     (if j = k then map_option (upd u) (tbl_find key j rows) else tbl_find key j rows)"
  by (induction rows) (auto simp: tbl_update_def tbl_find_Cons key_upd)

lemma find_delete:
  "tbl_find key j (tbl_delete key k rows) = (if j = k then None else tbl_find key j rows)"
  by (induction rows) (auto simp: tbl_delete_def tbl_find_Cons)

lemma find_insert:
  "tbl_find key (key r) rows = None \<Longrightarrow>
   tbl_find key j (rows @ [r]) = (if j = key r then Some r else tbl_find key j rows)"
  by (auto simp: tbl_find_append tbl_find_Cons opt_or_def split: option.splits)

end

section \<open>The interface of a measured machine\<close>

text \<open>
  A machine that runs under an environment: internal events are its own steps, the others
  are the environment's. A measure that every effective internal event lowers and that the
  environment cannot raise bounds the work of every run, whatever the schedule.
\<close>

fun active_count :: "('w \<Rightarrow> 'e \<Rightarrow> 'w) \<Rightarrow> ('e \<Rightarrow> bool) \<Rightarrow> 'w \<Rightarrow> 'e list \<Rightarrow> nat" where
  \<comment> \<open>how many events of a run are internal and change the state\<close>
  "active_count step internal w [] = 0"
| "active_count step internal w (e # es) =
     (if internal e \<and> step w e \<noteq> w then 1 else 0) + active_count step internal (step w e) es"

locale measured_machine =
  fixes step :: "'w \<Rightarrow> 'e \<Rightarrow> 'w"
    and internal :: "'e \<Rightarrow> bool"
    and mu :: "'w \<Rightarrow> nat"
  assumes internal_lowers: "internal e \<Longrightarrow> step w e \<noteq> w \<Longrightarrow> mu (step w e) < mu w"
    and environment_keeps: "\<not> internal e \<Longrightarrow> mu (step w e) \<le> mu w"
begin

lemma step_le: "mu (step w e) \<le> mu w"
  by (cases "internal e"; cases "step w e = w") (auto dest: internal_lowers environment_keeps)

lemma run_le: "mu (foldl step w es) \<le> mu w"
  by (induction es arbitrary: w) (auto intro: order_trans [OF _ step_le])

lemma active_count_le: "active_count step internal w es + mu (foldl step w es) \<le> mu w"
proof (induction es arbitrary: w)
  case (Cons e es)
  have ih: "active_count step internal (step w e) es + mu (foldl step (step w e) es) \<le> mu (step w e)"
    by (rule Cons.IH)
  show ?case
  proof (cases "internal e \<and> step w e \<noteq> w")
    case True
    then show ?thesis using ih internal_lowers [of e w] by simp
  next
    case False
    then have "active_count step internal w (e # es) = active_count step internal (step w e) es"
      by (auto simp del: not_gr_zero)
    then show ?thesis using ih step_le [of w e] by simp
  qed
qed simp

lemma run_lowers:
  assumes "e \<in> set es" "internal e" "step w e \<noteq> w" "\<forall>e \<in> set es. internal e"
  shows "mu (foldl step w es) < mu w"
  using assms
proof (induction es)
  case (Cons f es)
  show ?case
  proof (cases "step w f = w")
    case True
    then show ?thesis using Cons by auto
  next
    case False
    then have "mu (step w f) < mu w" using Cons.prems internal_lowers by simp
    then show ?thesis using run_le [of "step w f" es] by simp
  qed
qed simp

end

section \<open>The interface of a refinement\<close>

text \<open>
  A machine answers every event with an output. It refines a specification when, from every
  state in the invariant, one step keeps the invariant and does what the specification does
  on the abstract state; then the answers to any sequence of events are the same.
\<close>

fun outputs :: "('w \<Rightarrow> 'e \<Rightarrow> 'o \<times> 'w) \<Rightarrow> 'w \<Rightarrow> 'e list \<Rightarrow> 'o list" where
  "outputs step w [] = []"
| "outputs step w (e # es) = fst (step w e) # outputs step (snd (step w e)) es"

fun run_events :: "('w \<Rightarrow> 'e \<Rightarrow> 'o \<times> 'w) \<Rightarrow> 'w \<Rightarrow> 'e list \<Rightarrow> 'w" where
  "run_events step w [] = w"
| "run_events step w (e # es) = run_events step (snd (step w e)) es"

lemma outputs_append: "outputs step w (xs @ ys) = outputs step w xs @ outputs step (run_events step w xs) ys"
  by (induction xs arbitrary: w) auto

locale refinement =
  fixes step :: "'w \<Rightarrow> 'e \<Rightarrow> 'o \<times> 'w"
    and spec :: "'a \<Rightarrow> 'e \<Rightarrow> 'o \<times> 'a"
    and inv :: "'w \<Rightarrow> bool"
    and abst :: "'w \<Rightarrow> 'a"
  assumes inv_step: "inv w \<Longrightarrow> inv (snd (step w e))"
    and refines: "inv w \<Longrightarrow> spec (abst w) e = map_prod id abst (step w e)"
begin

lemma inv_run: "inv w \<Longrightarrow> inv (run_events step w es)"
  by (induction es arbitrary: w) (auto dest: inv_step)

lemma same_outputs: "inv w \<Longrightarrow> outputs step w es = outputs spec (abst w) es"
  by (induction es arbitrary: w) (auto simp: refines dest: inv_step)

lemma same_run: "inv w \<Longrightarrow> abst (run_events step w es) = run_events spec (abst w) es"
  by (induction es arbitrary: w) (auto simp: refines dest: inv_step)

end

end
