(* ===== verification/Squad_Types.thy ===== *)
theory Squad_Types
  imports Vk_Prelude
begin

text \<open>
  The squad data model of crates/api-types/src/squad.rs: the enumerations with their wire
  names (\<open>as_str\<close> and \<open>parse\<close>), the pipeline graph and the run record. Fields that the
  orchestrator never reads (canvas position, entry label, stage) are kept in the record so
  that a node is the source's node.
\<close>

section \<open>Enumerations and their wire names\<close>

datatype squad_target_type = TargetIssue | TargetPath | TargetIssueAndPath

fun target_as_str :: "squad_target_type \<Rightarrow> string" where
  "target_as_str TargetIssue = ''issue''"
| "target_as_str TargetPath = ''path''"
| "target_as_str TargetIssueAndPath = ''issue_and_path''"

definition target_parse :: "string \<Rightarrow> squad_target_type" where
  "target_parse s =
     (if s = ''issue'' then TargetIssue
      else if s = ''issue_and_path'' then TargetIssueAndPath
      else TargetPath)"

fun uses_issue :: "squad_target_type \<Rightarrow> bool" where
  "uses_issue TargetIssue = True"
| "uses_issue TargetIssueAndPath = True"
| "uses_issue TargetPath = False"

fun uses_path :: "squad_target_type \<Rightarrow> bool" where
  "uses_path TargetPath = True"
| "uses_path TargetIssueAndPath = True"
| "uses_path TargetIssue = False"

datatype squad_node_type =
    NodeAgent | NodeIf | NodeWhile | NodeBreak | NodeWait | NodeWaitApproval
  | NodeFork | NodeJoin | NodeScript | NodeGitOp

fun node_type_as_str :: "squad_node_type \<Rightarrow> string" where
  "node_type_as_str NodeAgent = ''agent''"
| "node_type_as_str NodeIf = ''if''"
| "node_type_as_str NodeWhile = ''while''"
| "node_type_as_str NodeBreak = ''break''"
| "node_type_as_str NodeWait = ''wait''"
| "node_type_as_str NodeWaitApproval = ''wait_approval''"
| "node_type_as_str NodeFork = ''fork''"
| "node_type_as_str NodeJoin = ''join''"
| "node_type_as_str NodeScript = ''script''"
| "node_type_as_str NodeGitOp = ''git_op''"

definition is_agent :: "squad_node_type \<Rightarrow> bool" where
  "is_agent t = (t = NodeAgent)"

definition is_control :: "squad_node_type \<Rightarrow> bool" where
  "is_control t = (\<not> is_agent t)"

datatype squad_on_assign = LeaderOnly | FullPipeline

fun on_assign_as_str :: "squad_on_assign \<Rightarrow> string" where
  "on_assign_as_str LeaderOnly = ''leader_only''"
| "on_assign_as_str FullPipeline = ''full_pipeline''"

definition on_assign_parse :: "string \<Rightarrow> squad_on_assign" where
  "on_assign_parse s = (if s = ''full_pipeline'' then FullPipeline else LeaderOnly)"

datatype squad_run_status =
  RunQueued | RunRunning | RunWaitingApproval | RunCompleted | RunFailed | RunCancelled

fun run_status_as_str :: "squad_run_status \<Rightarrow> string" where
  "run_status_as_str RunQueued = ''queued''"
| "run_status_as_str RunRunning = ''running''"
| "run_status_as_str RunWaitingApproval = ''waiting_approval''"
| "run_status_as_str RunCompleted = ''completed''"
| "run_status_as_str RunFailed = ''failed''"
| "run_status_as_str RunCancelled = ''cancelled''"

definition run_status_parse :: "string \<Rightarrow> squad_run_status" where
  "run_status_parse s =
     (if s = ''queued'' then RunQueued
      else if s = ''waiting_approval'' then RunWaitingApproval
      else if s = ''completed'' then RunCompleted
      else if s = ''failed'' then RunFailed
      else if s = ''cancelled'' then RunCancelled
      else RunRunning)"

datatype squad_edge_branch =
  BranchDefault | BranchTrue | BranchFalse | BranchBody | BranchExit | BranchError

fun branch_as_str :: "squad_edge_branch \<Rightarrow> string" where
  "branch_as_str BranchDefault = ''default''"
| "branch_as_str BranchTrue = ''true''"
| "branch_as_str BranchFalse = ''false''"
| "branch_as_str BranchBody = ''body''"
| "branch_as_str BranchExit = ''exit''"
| "branch_as_str BranchError = ''error''"

definition branch_parse :: "string \<Rightarrow> squad_edge_branch" where
  "branch_parse s =
     (if s = ''true'' then BranchTrue
      else if s = ''false'' then BranchFalse
      else if s = ''body'' then BranchBody
      else if s = ''exit'' then BranchExit
      else if s = ''error'' then BranchError
      else BranchDefault)"

section \<open>The pipeline graph\<close>

record squad_loop_config =
  lc_max_iterations :: "int option"
  lc_success_condition :: "string option"
  lc_cron_expression :: "string option"
  lc_enabled :: "bool option"

record squad_node =
  node_id :: string
  node_type :: squad_node_type
  node_agent_id :: "uuid option"
  node_role :: "string option"
  node_prompt :: "string option"
  node_label :: "string option"
  node_position :: "(int \<times> int) option"
  node_condition :: "string option"
  node_max_iterations :: "int option"
  node_wait_seconds :: "int option"
  node_wait_for :: "string option"
  node_join_count :: "int option"
  node_entry_label :: "string option"
  node_stage :: "string option"
  node_approval_kind :: "string option"
  node_prompt_template :: "string option"
  node_command :: "string option"
  node_git_op :: "string option"
  node_working_directory :: "string option"
  node_handoff_diff :: "bool option"

text \<open>\<open>SquadPipelineNode::default()\<close> with an id: an agent step with every option unset.\<close>

definition default_node :: "string \<Rightarrow> squad_node" where
  "default_node i = \<lparr>node_id = i, node_type = NodeAgent, node_agent_id = None,
     node_role = None, node_prompt = None, node_label = None, node_position = None,
     node_condition = None, node_max_iterations = None, node_wait_seconds = None,
     node_wait_for = None, node_join_count = None, node_entry_label = None,
     node_stage = None, node_approval_kind = None, node_prompt_template = None,
     node_command = None, node_git_op = None, node_working_directory = None,
     node_handoff_diff = None\<rparr>"

record squad_edge =
  edge_id :: string
  edge_source :: string
  edge_target :: string
  edge_branch :: "squad_edge_branch option"

record squad_pipeline =
  pl_nodes :: "squad_node list"
  pl_edges :: "squad_edge list"
  pl_loop_config :: "squad_loop_config option"

definition empty_pipeline :: squad_pipeline where
  "empty_pipeline = \<lparr>pl_nodes = [], pl_edges = [], pl_loop_config = None\<rparr>"

record squad =
  sq_id :: uuid
  sq_project_id :: uuid
  sq_name :: string
  sq_leader_agent_id :: "uuid option"
  sq_pipeline :: squad_pipeline
  sq_target_type :: squad_target_type
  sq_issue_id :: "uuid option"
  sq_working_directory :: "string option"
  sq_on_assign :: squad_on_assign
  sq_created_at :: timestamp
  sq_updated_at :: timestamp

record squad_member =
  sm_id :: uuid
  sm_squad_id :: uuid
  sm_agent_id :: "uuid option"
  sm_user_id :: "uuid option"
  sm_created_at :: timestamp

record run_squad_request =
  rq_issue_id :: "uuid option"
  rq_working_directory :: "string option"
  rq_start_from_node_id :: "string option"
  rq_resume_run_id :: "uuid option"

definition default_request :: run_squad_request where
  "default_request = \<lparr>rq_issue_id = None, rq_working_directory = None,
     rq_start_from_node_id = None, rq_resume_run_id = None\<rparr>"

record run_squad_response =
  rs_issue_id :: uuid
  rs_agent_task_ids :: "uuid list"
  rs_ordered_node_ids :: "string list"
  rs_target_type :: squad_target_type
  rs_working_directory :: "string option"
  rs_run_id :: "uuid option"
  rs_status :: "squad_run_status option"
  rs_pause_node_id :: "string option"
  rs_resume_node_id :: "string option"

text \<open>
  A row of \<open>squad_runs\<close>. \<open>status\<close> is text in the table and in the record; the two JSON
  columns are written by the repository but not selected into the API record, so they are
  kept here as the last two fields of the row.
\<close>

record squad_run =
  run_id :: uuid
  run_squad_id :: uuid
  run_issue_id :: uuid
  run_status :: string
  run_start_from_node_id :: "string option"
  run_pause_node_id :: "string option"
  run_resume_node_id :: "string option"
  run_approval_kind :: "string option"
  run_approval_prompt :: "string option"
  run_working_directory :: "string option"
  run_error_message :: "string option"
  run_created_by_user_id :: "uuid option"
  run_started_at :: timestamp
  run_completed_at :: "timestamp option"
  run_created_at :: timestamp
  run_updated_at :: timestamp
  run_agent_task_ids :: "uuid list"
  run_ordered_node_ids :: "string list"

section \<open>Wire names round-trip\<close>

lemma target_parse_as_str [simp]: "target_parse (target_as_str t) = t"
  by (cases t) (simp_all add: target_parse_def)

lemma on_assign_parse_as_str [simp]: "on_assign_parse (on_assign_as_str t) = t"
  by (cases t) (simp_all add: on_assign_parse_def)

lemma run_status_parse_as_str [simp]: "run_status_parse (run_status_as_str t) = t"
  by (cases t) (simp_all add: run_status_parse_def)

lemma branch_parse_as_str [simp]: "branch_parse (branch_as_str t) = t"
  by (cases t) (simp_all add: branch_parse_def)

text \<open>
  The encoders are injective, because a decoder inverts each of them: the wire name
  determines the value, which the status comparisons on text columns rely on.
\<close>

locale wire_codec =
  fixes enc :: "'a \<Rightarrow> string"
    and dec :: "string \<Rightarrow> 'a"
  assumes dec_enc: "dec (enc x) = x"
begin

lemma enc_eq_iff: "enc x = enc y \<longleftrightarrow> x = y"
  by (metis dec_enc)

lemma enc_decode: "s \<in> range enc \<Longrightarrow> enc (dec s) = s"
  by (auto simp: dec_enc)

end

interpretation target_codec: wire_codec target_as_str target_parse
  by unfold_locales simp

interpretation on_assign_codec: wire_codec on_assign_as_str on_assign_parse
  by unfold_locales simp

interpretation run_status_codec: wire_codec run_status_as_str run_status_parse
  by unfold_locales simp

interpretation branch_codec: wire_codec branch_as_str branch_parse
  by unfold_locales simp

lemma target_scope: "uses_issue t \<or> uses_path t"
  by (cases t) simp_all

end
