(* ===== verification/Squad_Graph.thy ===== *)
theory Squad_Graph
  imports Squad_Types "HOL-Library.Multiset"
begin

text \<open>
  The pipeline as a graph: the adjacency that execute_squad_pipeline builds before it walks
  (crates/remote/src/routes/squads.rs), the choice of an outgoing branch, and
  topological_order of crates/remote/src/db/squads.rs, whose queue loop is
  \<open>partial_function (option)\<close>, as nothing in the code bounds it when node ids repeat.
\<close>

section \<open>Adjacency\<close>

definition node_ids :: "squad_pipeline \<Rightarrow> string list" where
  "node_ids p = map node_id (pl_nodes p)"

definition node_lookup :: "squad_pipeline \<Rightarrow> string \<Rightarrow> squad_node option" where
  \<comment> \<open>\<open>nodes_by_id\<close>: collecting into a map keeps the last of several nodes with one id\<close>
  "node_lookup p i = List.find (\<lambda>n. node_id n = i) (rev (pl_nodes p))"

definition valid_edges :: "squad_pipeline \<Rightarrow> squad_edge list" where
  "valid_edges p =
     filter (\<lambda>e. edge_source e \<in> set (node_ids p) \<and> edge_target e \<in> set (node_ids p)) (pl_edges p)"

definition outs :: "squad_pipeline \<Rightarrow> string \<Rightarrow> squad_edge list" where
  "outs p i = filter (\<lambda>e. edge_source e = i) (valid_edges p)"

definition ins :: "squad_pipeline \<Rightarrow> string \<Rightarrow> squad_edge list" where
  "ins p i = filter (\<lambda>e. edge_target e = i) (valid_edges p)"

definition indegree :: "squad_pipeline \<Rightarrow> string \<Rightarrow> nat" where
  "indegree p i = length (ins p i)"

definition graph_roots :: "squad_pipeline \<Rightarrow> string list" where
  "graph_roots p =
     (let rs = map node_id (filter (\<lambda>n. indegree p (node_id n) = 0) (pl_nodes p)) in
      if rs = [] then map node_id (take 1 (pl_nodes p)) else rs)"

definition edges_for_branch :: "squad_edge list \<Rightarrow> squad_edge_branch \<Rightarrow> squad_edge list" where
  "edges_for_branch es want =
     (let exact = filter (\<lambda>e. edge_branch e = Some want) es in
      if exact \<noteq> [] then exact
      else if want = BranchDefault \<or> want = BranchTrue
        then filter (\<lambda>e. edge_branch e = None \<or> edge_branch e = Some BranchDefault) es
      else [])"

lemma edges_for_branch_subset: "set (edges_for_branch es b) \<subseteq> set es"
  by (auto simp: edges_for_branch_def Let_def split: if_splits)

lemma length_edges_for_branch: "length (edges_for_branch es b) \<le> length es"
  by (auto simp: edges_for_branch_def Let_def)

lemma node_lookup_Some: "node_lookup p i = Some n \<Longrightarrow> n \<in> set (pl_nodes p) \<and> node_id n = i"
  unfolding node_lookup_def by (drule find_SomeD) simp

lemma node_lookup_exists: "i \<in> set (node_ids p) \<Longrightarrow> \<exists>n. node_lookup p i = Some n"
  by (cases "node_lookup p i") (auto simp: node_lookup_def find_None_iff node_ids_def)

lemma outs_valid:
  "e \<in> set (outs p i) \<Longrightarrow> edge_source e = i \<and> i \<in> set (node_ids p) \<and> edge_target e \<in> set (node_ids p)"
  by (auto simp: outs_def valid_edges_def)

section \<open>Topological order\<close>

fun relax :: "string list \<Rightarrow> (string \<Rightarrow> nat) \<Rightarrow> string list \<Rightarrow> (string \<Rightarrow> nat) \<times> string list" where
  \<comment> \<open>the inner loop over the neighbours; \<open>-\<close> on \<open>nat\<close> is \<open>saturating_sub\<close>\<close>
  "relax [] d q = (d, q)"
| "relax (n # ns) d q =
     (let d' = d(n := d n - 1) in relax ns d' (if d' n = 0 then q @ [n] else q))"

partial_function (option) kahn_loop ::
  "(string \<Rightarrow> string list) \<Rightarrow> (string \<Rightarrow> nat) \<Rightarrow> string list \<Rightarrow> string list \<Rightarrow> string list option" where
  "kahn_loop adj d q ordered =
     (case q of
        [] \<Rightarrow> Some ordered
      | i # q' \<Rightarrow> (case relax (adj i) d q' of (d', q'') \<Rightarrow> kahn_loop adj d' q'' (ordered @ [i])))"

definition neighbours :: "squad_pipeline \<Rightarrow> string \<Rightarrow> string list" where
  "neighbours p i = map edge_target (outs p i)"

definition append_missing :: "string list \<Rightarrow> string list \<Rightarrow> string list" where
  "append_missing ordered ids = foldl (\<lambda>acc i. if i \<in> set acc then acc else acc @ [i]) ordered ids"

definition topological_order :: "squad_pipeline \<Rightarrow> string list option" where
  "topological_order p =
     (if pl_nodes p = [] then Some []
      else case kahn_loop (neighbours p) (indegree p)
                  (map node_id (filter (\<lambda>n. indegree p (node_id n) = 0) (pl_nodes p))) [] of
             None \<Rightarrow> None
           | Some ordered \<Rightarrow>
               (if length ordered < length (pl_nodes p)
                then Some (append_missing ordered (node_ids p)) else Some ordered))"

section \<open>The relaxation step\<close>

lemma relax_spec:
  assumes "\<And>v. count_list ns v \<le> d v"
  shows "fst (relax ns d q) = (\<lambda>v. d v - count_list ns v) \<and>
     (\<exists>new. snd (relax ns d q) = q @ new \<and> distinct new \<and>
        set new = {v \<in> set ns. d v = count_list ns v})"
  using assms
proof (induction ns arbitrary: d q)
  case (Cons n ns)
  let ?d = "d(n := d n - 1)"
  have le: "\<And>v. count_list ns v \<le> ?d v"
  proof -
    fix v show "count_list ns v \<le> ?d v" using Cons.prems [of v] by (cases "v = n") auto
  qed
  have pos: "0 < d n" using Cons.prems [of n] by simp
  let ?q = "if ?d n = 0 then q @ [n] else q"
  obtain new where new: "snd (relax ns ?d ?q) = ?q @ new" "distinct new"
    "set new = {v \<in> set ns. ?d v = count_list ns v}"
    and d: "fst (relax ns ?d ?q) = (\<lambda>v. ?d v - count_list ns v)"
    using Cons.IH [OF le, of ?q] by blast
  have fst: "fst (relax (n # ns) d q) = (\<lambda>v. d v - count_list (n # ns) v)"
    using d by (auto simp: Let_def fun_eq_iff)
  show ?case
  proof (cases "?d n = 0")
    case True
    then have one: "d n = 1" using pos by simp
    then have "count_list ns n = 0" using le [of n] by simp
    then have nn: "n \<notin> set ns" by (simp add: count_list_0_iff)
    have "snd (relax (n # ns) d q) = q @ (n # new)" using new(1) True by (simp add: Let_def)
    moreover have "distinct (n # new)" using new(2,3) nn by auto
    moreover have "set (n # new) = {v \<in> set (n # ns). d v = count_list (n # ns) v}"
    proof -
      have "{v \<in> set (n # ns). d v = count_list (n # ns) v} = insert n {v \<in> set ns. d v = count_list ns v}"
        using one \<open>count_list ns n = 0\<close> nn by (fastforce split: if_splits)
      moreover have "set new = {v \<in> set ns. d v = count_list ns v}"
        unfolding new(3) using nn by (intro Collect_cong) (auto split: if_splits)
      ultimately show ?thesis by simp
    qed
    ultimately show ?thesis using fst by blast
  next
    case False
    have "snd (relax (n # ns) d q) = q @ new" using new(1) False by (simp add: Let_def)
    moreover have "set new = {v \<in> set (n # ns). d v = count_list (n # ns) v}"
    proof -
      have "n \<in> set ns" if "d n = Suc (count_list ns n)"
        using that False by (metis count_list_0_iff diff_Suc_1 fun_upd_same)
      then show ?thesis using new(3) pos by auto
    qed
    ultimately show ?thesis using fst new(2) by blast
  qed
qed simp

section \<open>The queue loop\<close>

text \<open>
  The loop invariant of Kahn's algorithm over distinct node ids: what is queued or ordered
  has no unprocessed predecessor, every predecessor comes earlier, and the remaining
  indegree counts the edges from unprocessed nodes.
\<close>

definition preds_before :: "squad_edge list \<Rightarrow> string list \<Rightarrow> bool" where
  "preds_before es xs =
     (\<forall>ys v zs. xs = ys @ v # zs \<longrightarrow>
        (\<forall>e \<in> set es. edge_target e = v \<longrightarrow> edge_source e \<in> set ys))"

definition kahn_inv ::
  "squad_pipeline \<Rightarrow> (string \<Rightarrow> nat) \<Rightarrow> string list \<Rightarrow> string list \<Rightarrow> bool" where
  "kahn_inv p d q ordered =
     (distinct (ordered @ q) \<and> set (ordered @ q) \<subseteq> set (node_ids p) \<and>
      (\<forall>v. d v = length (filter (\<lambda>e. edge_source e \<notin> set ordered) (ins p v))) \<and>
      (\<forall>v \<in> set (node_ids p). v \<in> set (ordered @ q) \<longleftrightarrow> d v = 0) \<and>
      preds_before (valid_edges p) (ordered @ q))"

lemma count_neighbours:
  "count_list (neighbours p i) v = length (filter (\<lambda>e. edge_source e = i) (ins p v))"
  by (simp add: neighbours_def outs_def ins_def count_list_eq_length_filter filter_map comp_def
      conj_commute eq_commute)

lemma preds_before_append:
  assumes "preds_before es xs"
    and "\<And>v e. v \<in> set new \<Longrightarrow> e \<in> set es \<Longrightarrow> edge_target e = v \<Longrightarrow> edge_source e \<in> set xs"
  shows "preds_before es (xs @ new)"
  unfolding preds_before_def
proof (intro allI impI ballI)
  fix ys v zs e
  assume eq: "xs @ new = ys @ v # zs" and e: "e \<in> set es" "edge_target e = v"
  show "edge_source e \<in> set ys"
  proof (cases "length ys < length xs")
    case True
    then obtain us where us: "xs = ys @ us" "us @ new = v # zs"
      using eq by (auto simp: append_eq_append_conv2)
    with True obtain zs' where "us = v # zs'" by (cases us) auto
    with us have "xs = ys @ v # zs'" by simp
    then show ?thesis using assms(1) e unfolding preds_before_def by blast
  next
    case False
    then obtain us where "ys = xs @ us" "new = us @ v # zs"
      using eq by (auto simp: append_eq_append_conv2)
    then show ?thesis using assms(2) [of v e] e by auto
  qed
qed

lemma length_filter_split:
  "i \<notin> A \<Longrightarrow> length (filter (\<lambda>e. f e \<notin> A) es)
     = length (filter (\<lambda>e. f e = i) es) + length (filter (\<lambda>e. f e \<notin> insert i A) es)"
  by (induction es) auto

lemma kahn_inv_step:
  assumes inv: "kahn_inv p d (i # q) ordered"
    and step: "relax (neighbours p i) d q = (d', q')"
  shows "kahn_inv p d' q' (ordered @ [i])"
proof -
  have i_new: "i \<notin> set ordered" "i \<in> set (node_ids p)" using inv by (auto simp: kahn_inv_def)
  have d: "d v = length (filter (\<lambda>e. edge_source e \<notin> set ordered) (ins p v))" for v
    using inv by (simp add: kahn_inv_def)
  have split: "d v = count_list (neighbours p i) v
      + length (filter (\<lambda>e. edge_source e \<notin> set (ordered @ [i])) (ins p v))" for v
    unfolding d count_neighbours using length_filter_split [OF i_new(1), of edge_source "ins p v"]
    by simp
  then have le: "\<And>v. count_list (neighbours p i) v \<le> d v" by (metis le_add1)
  obtain new where d': "d' = (\<lambda>v. d v - count_list (neighbours p i) v)"
    and q': "q' = q @ new" and new: "distinct new"
    "set new = {v \<in> set (neighbours p i). d v = count_list (neighbours p i) v}"
    using relax_spec [OF le, of q] step by auto
  have d'_cnt: "d' v = length (filter (\<lambda>e. edge_source e \<notin> set (ordered @ [i])) (ins p v))" for v
    using split [of v] d' by simp
  have nb: "set (neighbours p i) \<subseteq> set (node_ids p)" by (auto simp: neighbours_def dest: outs_valid)
  have new_iff: "v \<in> set new \<longleftrightarrow> d v \<noteq> 0 \<and> d' v = 0" for v
  proof -
    have "v \<in> set new \<longleftrightarrow> count_list (neighbours p i) v \<noteq> 0 \<and> d v = count_list (neighbours p i) v"
      by (simp add: new(2) count_list_0_iff)
    moreover have "d' v = d v - count_list (neighbours p i) v" by (simp only: d')
    ultimately show ?thesis using le [of v] by linarith
  qed
  have old: "\<forall>v \<in> set (node_ids p). v \<in> set (ordered @ i # q) \<longleftrightarrow> d v = 0"
    using inv by (simp add: kahn_inv_def)
  have disj: "v \<notin> set (ordered @ i # q)" if v: "v \<in> set new" for v
  proof -
    have "v \<in> set (node_ids p)" using v new(2) nb by blast
    then have "v \<in> set (ordered @ i # q) \<longleftrightarrow> d v = 0" using old by (rule bspec [rotated])
    moreover have "d v \<noteq> 0" using v new_iff [of v] by simp
    ultimately show ?thesis by simp
  qed
  have "distinct ((ordered @ [i]) @ q')"
    using inv new(1) disj by (auto simp: kahn_inv_def q')
  moreover have "set ((ordered @ [i]) @ q') \<subseteq> set (node_ids p)"
    using inv new(2) nb by (auto simp: kahn_inv_def q')
  moreover have "\<forall>v \<in> set (node_ids p). v \<in> set ((ordered @ [i]) @ q') \<longleftrightarrow> d' v = 0"
  proof
    fix v assume v: "v \<in> set (node_ids p)"
    have "d v = 0 \<Longrightarrow> d' v = 0" by (simp add: d')
    then show "v \<in> set ((ordered @ [i]) @ q') \<longleftrightarrow> d' v = 0"
      using old [rule_format, OF v] new_iff [of v] by (auto simp: q')
  qed
  moreover have "preds_before (valid_edges p) ((ordered @ i # q) @ new)"
  proof (rule preds_before_append)
    show "preds_before (valid_edges p) (ordered @ i # q)" using inv by (simp add: kahn_inv_def)
    fix v e assume v: "v \<in> set new" and e: "e \<in> set (valid_edges p)" "edge_target e = v"
    then have "d' v = 0" using new_iff [of v] by simp
    then have "filter (\<lambda>e. edge_source e \<notin> set (ordered @ [i])) (ins p v) = []"
      using d'_cnt [of v] by simp
    then have "edge_source e \<in> set (ordered @ [i])"
      using e by (auto simp: ins_def filter_empty_conv)
    then show "edge_source e \<in> set (ordered @ i # q)" by auto
  qed
  ultimately show ?thesis
    unfolding kahn_inv_def using d'_cnt by (simp add: q')
qed

text \<open>The loop returns: each turn moves one node to the ordered list.\<close>

lemma kahn_loop_returns:
  assumes "kahn_inv p d q ordered"
  shows "\<exists>r. kahn_loop (neighbours p) d q ordered = Some r \<and> (\<exists>d'. kahn_inv p d' [] r)"
  using assms
proof (induction "card (set (node_ids p)) - length ordered" arbitrary: d q ordered rule: less_induct)
  case less
  show ?case
  proof (cases q)
    case Nil
    have "kahn_loop (neighbours p) d [] ordered = Some ordered" by (subst kahn_loop.simps) simp
    then show ?thesis using less.prems Nil by auto
  next
    case (Cons i q1)
    obtain d' q' where step: "relax (neighbours p i) d q1 = (d', q')" by fastforce
    have inv': "kahn_inv p d' q' (ordered @ [i])"
      using less.prems kahn_inv_step [OF _ step] by (simp add: Cons)
    have "distinct (ordered @ [i])" "set (ordered @ [i]) \<subseteq> set (node_ids p)"
      using inv' by (auto simp: kahn_inv_def)
    then have "length (ordered @ [i]) \<le> card (set (node_ids p))"
      by (metis List.finite_set card_mono distinct_card)
    then have "card (set (node_ids p)) - length (ordered @ [i]) < card (set (node_ids p)) - length ordered"
      by simp
    from less.hyps [OF this inv'] show ?thesis
      unfolding Cons by (subst kahn_loop.simps) (simp add: step)
  qed
qed

lemma kahn_inv_start:
  assumes "distinct (node_ids p)"
  shows "kahn_inv p (indegree p)
    (map node_id (filter (\<lambda>n. indegree p (node_id n) = 0) (pl_nodes p))) []"
proof -
  let ?q = "map node_id (filter (\<lambda>n. indegree p (node_id n) = 0) (pl_nodes p))"
  have q: "?q = filter (\<lambda>i. indegree p i = 0) (node_ids p)"
    by (simp add: node_ids_def filter_map comp_def)
  have "edge_source e \<in> set ys"
    if "?q = ys @ v # zs" "e \<in> set (valid_edges p)" "edge_target e = v" for ys v zs e
  proof -
    have "v \<in> set ?q" using that(1) by simp
    then have "indegree p v = 0" by (simp add: q)
    then show ?thesis using that(2,3) by (auto simp: indegree_def ins_def filter_empty_conv)
  qed
  then have "preds_before (valid_edges p) ?q" by (auto simp: preds_before_def)
  moreover have "distinct ?q" "set ?q = {i \<in> set (node_ids p). indegree p i = 0}"
    using assms by (auto simp: q)
  ultimately show ?thesis by (auto simp: kahn_inv_def indegree_def)
qed

lemma append_missing_spec:
  "set (append_missing ordered ids) = set ordered \<union> set ids \<and>
   (distinct ordered \<longrightarrow> distinct (append_missing ordered ids))"
proof (induction ids arbitrary: ordered)
  case Nil
  then show ?case by (simp add: append_missing_def)
next
  case (Cons i js)
  have "append_missing ordered (i # js)
      = append_missing (if i \<in> set ordered then ordered else ordered @ [i]) js"
    by (simp add: append_missing_def)
  then show ?case using Cons.IH [of "if i \<in> set ordered then ordered else ordered @ [i]"] by auto
qed

lemma topological_order_result:
  assumes "distinct (node_ids p)" "pl_nodes p \<noteq> []"
  obtains r d where "kahn_inv p d [] r"
    "topological_order p =
       Some (if length r < length (pl_nodes p) then append_missing r (node_ids p) else r)"
proof -
  from kahn_loop_returns [OF kahn_inv_start [OF assms(1)]] obtain r d where
    r: "kahn_loop (neighbours p) (indegree p)
       (map node_id (filter (\<lambda>n. indegree p (node_id n) = 0) (pl_nodes p))) [] = Some r"
    "kahn_inv p d [] r" by blast
  show thesis by (rule that [OF r(2)]) (simp add: topological_order_def assms(2) r(1))
qed

lemma topological_order_perm:
  assumes "distinct (node_ids p)"
  shows "\<exists>xs. topological_order p = Some xs \<and> distinct xs \<and> set xs = set (node_ids p)"
proof (cases "pl_nodes p = []")
  case True
  then show ?thesis by (simp add: topological_order_def node_ids_def)
next
  case False
  obtain r d where inv: "kahn_inv p d [] r" and eq: "topological_order p =
     Some (if length r < length (pl_nodes p) then append_missing r (node_ids p) else r)"
    using topological_order_result [OF assms False] .
  have r: "distinct r" "set r \<subseteq> set (node_ids p)" using inv by (auto simp: kahn_inv_def)
  have len: "length (pl_nodes p) = card (set (node_ids p))"
    using assms by (metis distinct_card length_map node_ids_def)
  show ?thesis
  proof (cases "length r < length (pl_nodes p)")
    case True
    then show ?thesis using eq r append_missing_spec [of r "node_ids p"] by auto
  next
    case False
    then have "set r = set (node_ids p)"
      using r len by (metis List.finite_set card_subset_eq card_mono distinct_card le_antisym not_less)
    then show ?thesis using eq r False by auto
  qed
qed

text \<open>On an acyclic graph the queue empties only when every node is ordered.\<close>

definition edge_rel :: "squad_pipeline \<Rightarrow> (string \<times> string) set" where
  "edge_rel p = (\<lambda>e. (edge_source e, edge_target e)) ` set (valid_edges p)"

lemma kahn_inv_acyclic:
  assumes inv: "kahn_inv p d [] r" and acyc: "acyclic (edge_rel p)"
  shows "set r = set (node_ids p)"
proof (rule ccontr)
  assume "set r \<noteq> set (node_ids p)"
  then obtain x where x: "x \<in> set (node_ids p) - set r" using inv by (auto simp: kahn_inv_def)
  have "wf (edge_rel p)" using acyc by (simp add: finite_acyclic_wf edge_rel_def)
  then obtain v where v: "v \<in> set (node_ids p) - set r"
    and min: "\<And>u. (u, v) \<in> edge_rel p \<Longrightarrow> u \<notin> set (node_ids p) - set r"
    using x by (metis wfE_min)
  have "d v \<noteq> 0" using v inv by (auto simp: kahn_inv_def)
  then have "filter (\<lambda>e. edge_source e \<notin> set r) (ins p v) \<noteq> []"
    using inv by (auto simp: kahn_inv_def)
  then obtain e where e: "e \<in> set (ins p v)" "edge_source e \<notin> set r"
    by (auto simp: filter_empty_conv)
  then have "(edge_source e, v) \<in> edge_rel p" "edge_source e \<in> set (node_ids p)"
    by (auto simp: edge_rel_def ins_def valid_edges_def)
  with min e(2) show False by blast
qed

lemma topological_order_acyclic:
  assumes "distinct (node_ids p)" "acyclic (edge_rel p)"
  shows "\<exists>xs. topological_order p = Some xs \<and> preds_before (valid_edges p) xs"
proof (cases "pl_nodes p = []")
  case True
  then show ?thesis by (simp add: topological_order_def preds_before_def)
next
  case False
  obtain r d where inv: "kahn_inv p d [] r" and eq: "topological_order p =
     Some (if length r < length (pl_nodes p) then append_missing r (node_ids p) else r)"
    using topological_order_result [OF assms(1) False] .
  have "set r = set (node_ids p)" using inv assms(2) by (rule kahn_inv_acyclic)
  then have "length r = length (pl_nodes p)"
    using inv assms(1) by (metis append_Nil2 distinct_card kahn_inv_def length_map node_ids_def)
  then show ?thesis using eq inv by (auto simp: kahn_inv_def)
qed

section \<open>Properties\<close>

definition sample_graph :: squad_pipeline where
  "sample_graph = \<lparr>pl_nodes = map default_node [''c'', ''a'', ''b''],
     pl_edges = [\<lparr>edge_id = [], edge_source = ''a'', edge_target = ''b'', edge_branch = None\<rparr>,
                 \<lparr>edge_id = [], edge_source = ''b'', edge_target = ''c'', edge_branch = None\<rparr>],
     pl_loop_config = None\<rparr>"

lemma sample_edge_rel: "edge_rel sample_graph = {(''a'', ''b''), (''b'', ''c'')}"
  by (simp add: edge_rel_def valid_edges_def node_ids_def sample_graph_def default_node_def)

lemma sample_acyclic: "acyclic (edge_rel sample_graph)"
proof -
  have "edge_rel sample_graph \<subseteq> measure (\<lambda>s. if s = ''a'' then 0 else if s = ''b'' then 1 else 2)"
    by (simp add: sample_edge_rel)
  then show ?thesis using wf_acyclic wf_measure acyclic_subset by blast
qed

text \<open>for distinct node ids the topological order returns, lists every node exactly once,
  cycles or not, and on an acyclic graph it puts the source of every edge before its target.\<close>

theorem topological_order_sound:
  assumes "distinct (node_ids p)"
  shows "\<exists>xs. topological_order p = Some xs \<and> distinct xs \<and> set xs = set (node_ids p) \<and>
    (acyclic (edge_rel p) \<longrightarrow> preds_before (valid_edges p) xs)"
  using topological_order_perm [OF assms] topological_order_acyclic [OF assms] by auto

theorem topological_order_sound_witness:
  "\<exists>xs. topological_order sample_graph = Some xs \<and> distinct xs \<and> set xs = set (node_ids sample_graph) \<and>
    (acyclic (edge_rel sample_graph) \<longrightarrow> preds_before (valid_edges sample_graph) xs)
    \<and> acyclic (edge_rel sample_graph)"
proof -
  have "distinct (node_ids sample_graph)" by (simp add: node_ids_def sample_graph_def default_node_def)
  from topological_order_sound [OF this] show ?thesis using sample_acyclic by blast
qed

text \<open>Nothing checks that node ids are distinct. A repeated root enters the queue twice, and the
  saturating decrement then lets the nodes of a cycle push each other back for ever.\<close>

definition repeated_graph :: squad_pipeline where
  "repeated_graph = \<lparr>pl_nodes = map default_node [''r'', ''r'', ''x'', ''y''],
     pl_edges = [\<lparr>edge_id = [], edge_source = ''r'', edge_target = ''x'', edge_branch = None\<rparr>,
                 \<lparr>edge_id = [], edge_source = ''x'', edge_target = ''y'', edge_branch = None\<rparr>,
                 \<lparr>edge_id = [], edge_source = ''y'', edge_target = ''x'', edge_branch = None\<rparr>],
     pl_loop_config = None\<rparr>"

lemma repeated_neighbours:
  "neighbours repeated_graph ''r'' = [''x'']" "neighbours repeated_graph ''x'' = [''y'']"
  "neighbours repeated_graph ''y'' = [''x'']"
  by (simp_all add: neighbours_def outs_def valid_edges_def node_ids_def repeated_graph_def default_node_def)

definition in_cycle ::
  "(string \<Rightarrow> string list) \<Rightarrow> (string \<Rightarrow> nat) \<Rightarrow> string list \<Rightarrow> bool" where
  "in_cycle adj d q =
     (adj = neighbours repeated_graph \<and> d ''x'' = 0 \<and> d ''y'' = 0 \<and> (q = [''x''] \<or> q = [''y'']))"

lemma repeated_loop_diverges:
  assumes "kahn_loop adj d q ordered = Some r"
  shows "\<not> in_cycle adj d q"
  using assms
proof (rule kahn_loop.raw_induct [rotated, where P = "\<lambda>adj d q ordered r. \<not> in_cycle adj d q"])
  fix loop adj d q ordered r
  assume ih: "\<And>adj d q ordered r. loop adj d q ordered = Some r \<Longrightarrow> \<not> in_cycle adj d q"
    and step: "(case q of [] \<Rightarrow> Some ordered
       | i # q' \<Rightarrow> (case relax (adj i) d q' of (d', q'') \<Rightarrow> loop adj d' q'' (ordered @ [i]))) = Some r"
  show "\<not> in_cycle adj d q"
  proof
    assume a: "in_cycle adj d q"
    then consider "q = [''x'']" | "q = [''y'']" by (auto simp: in_cycle_def)
    then show False
    proof cases
      case 1
      then have "loop adj (d(''y'' := 0)) [''y''] (ordered @ [''x'']) = Some r"
        using step a by (simp add: in_cycle_def repeated_neighbours)
      from ih [OF this] show False using a by (simp add: in_cycle_def)
    next
      case 2
      then have "loop adj (d(''x'' := 0)) [''x''] (ordered @ [''y'']) = Some r"
        using step a by (simp add: in_cycle_def repeated_neighbours)
      from ih [OF this] show False using a by (simp add: in_cycle_def)
    qed
  qed
qed

text \<open>with a repeated node id in front of a cycle the topological order never returns.\<close>

theorem topological_order_diverges: "topological_order repeated_graph = None"
proof -
  let ?adj = "neighbours repeated_graph"
  have start: "map node_id (filter (\<lambda>n. indegree repeated_graph (node_id n) = 0) (pl_nodes repeated_graph))
      = [''r'', ''r'']"
    by (simp add: indegree_def ins_def valid_edges_def node_ids_def repeated_graph_def default_node_def)
  have deg: "indegree repeated_graph ''x'' = 2" "indegree repeated_graph ''y'' = 1"
    by (simp_all add: indegree_def ins_def valid_edges_def node_ids_def repeated_graph_def default_node_def)
  have "kahn_loop ?adj d [''x''] ordered = None" if "d ''x'' = 0" "d ''y'' = 0" for d ordered
    using repeated_loop_diverges [of ?adj d "[''x'']" ordered] that
    by (cases "kahn_loop ?adj d [''x''] ordered") (auto simp: in_cycle_def)
  then have step: "kahn_loop ?adj d [''y''] ordered = None" if "d ''x'' = 0" "d ''y'' = 0" for d ordered
    using repeated_loop_diverges [of ?adj d "[''y'']" ordered] that
    by (cases "kahn_loop ?adj d [''y''] ordered") (auto simp: in_cycle_def)
  have "kahn_loop ?adj (indegree repeated_graph) [''r'', ''r''] [] = None"
    apply (subst kahn_loop.simps, simp add: repeated_neighbours deg)
    apply (subst kahn_loop.simps, simp add: repeated_neighbours deg)
    apply (subst kahn_loop.simps, simp add: repeated_neighbours deg)
    apply (rule step; simp)
    done
  then show ?thesis by (simp only: topological_order_def start) (simp add: repeated_graph_def)
qed

end
