(* ===== verification/Remote_Db.thy ===== *)
theory Remote_Db
  imports Squad_Types
begin

text \<open>
  The state the Remote server keeps in PostgreSQL, as far as the board-agent layer reads or
  writes it, and what its repositories and handlers share: database errors, HTTP errors and
  the membership check in front of every handler (crates/remote/src/routes/error.rs,
  crates/remote/src/routes/organization_members.rs).

  \<open>db_now\<close> is the value \<open>NOW()\<close> returns; the environment moves it on. \<open>Uuid::new_v4\<close> is
  \<open>fresh_uuid\<close>: a value that no row of the table has and that was not handed out before.
  Columns the modelled code never reads (sort order, priorities, avatars) are left out of
  the records of issues and workspaces.
\<close>

section \<open>Rows\<close>

datatype agent_task_status =
  Queued | Dispatched | Running | Completed | Failed | Cancelled

datatype agent_task_trigger =
  Assign | Mention | Manual | Copilot | Autopilot | Feishu | Review

record agent_task =
  at_id :: uuid
  at_agent_id :: uuid
  at_issue_id :: uuid
  at_status :: agent_task_status
  at_trigger :: agent_task_trigger
  at_priority :: int
  at_attempt :: int
  at_max_attempts :: int
  at_failure_reason :: "string option"
  at_local_workspace_id :: "uuid option"
  at_local_session_id :: "uuid option"
  at_claimed_by_host :: "string option"
  at_claimed_at :: "timestamp option"
  at_started_at :: "timestamp option"
  at_completed_at :: "timestamp option"
  at_force_fresh_session :: bool
  at_resume_session_id :: "uuid option"
  at_squad_id :: "uuid option"
  at_is_leader_task :: bool
  at_preferred_repo_id :: "string option"
  at_execution_prompt :: "string option"
  at_executor_note :: "string option"
  at_reviews_task_id :: "uuid option"
  at_created_at :: timestamp
  at_updated_at :: timestamp

record agent =
  ag_id :: uuid
  ag_project_id :: uuid
  ag_name :: string
  ag_instructions :: string
  ag_default_executor :: "string option"
  ag_max_concurrent_tasks :: int
  ag_reviewer_agent_id :: "uuid option"

record issue =
  is_id :: uuid
  is_project_id :: uuid
  is_status_id :: uuid
  is_simple_id :: string
  is_title :: string
  is_description :: "string option"
  is_creator_user_id :: "uuid option"

record project =
  pj_id :: uuid
  pj_organization_id :: uuid
  pj_name :: string

record project_status =
  ps_id :: uuid
  ps_project_id :: uuid
  ps_sort_order :: int

record workspace_link =
  ws_issue_id :: "uuid option"
  ws_local_workspace_id :: "uuid option"
  ws_archived :: bool
  ws_created_at :: timestamp

record issue_assignee =
  ia_id :: uuid
  ia_issue_id :: uuid
  ia_user_id :: "uuid option"
  ia_agent_id :: "uuid option"
  ia_squad_id :: "uuid option"

datatype json = JNull | JString string | JObject "(string \<times> json) list"

definition json_uuid :: "uuid option \<Rightarrow> json" where
  "json_uuid u = (case u of None \<Rightarrow> JNull | Some i \<Rightarrow> JString (show_uuid i))"

record inbox_item =
  ib_id :: uuid
  ib_recipient_user_id :: uuid
  ib_project_id :: "uuid option"
  ib_issue_id :: "uuid option"
  ib_type :: string
  ib_title :: string
  ib_body :: string
  ib_payload :: json
  ib_read_at :: "timestamp option"
  ib_archived_at :: "timestamp option"
  ib_created_at :: timestamp

record remote_db =
  db_tasks :: "agent_task list"
  db_agents :: "agent list"
  db_issues :: "issue list"
  db_projects :: "project list"
  db_statuses :: "project_status list"
  db_squads :: "squad list"
  db_members :: "squad_member list"
  db_runs :: "squad_run list"
  db_workspaces :: "workspace_link list"
  db_assignees :: "issue_assignee list"
  db_subscribers :: "(uuid \<times> uuid) list"
  db_org_members :: "(uuid \<times> uuid) list"
  db_comments :: "(uuid \<times> string) list"
  db_inbox :: "inbox_item list"
  db_next_uuid :: uuid
  db_now :: timestamp

section \<open>Errors\<close>

text \<open>The cases of \<open>sqlx::Error\<close> that the handlers tell apart.\<close>

datatype db_error = UniqueViolation | ForeignKeyViolation | RowNotFound | ConnectionError

datatype http_status = BAD_REQUEST | FORBIDDEN | NOT_FOUND | CONFLICT | INTERNAL_SERVER_ERROR

record error_response =
  er_status :: http_status
  er_message :: string

definition error_new :: "http_status \<Rightarrow> string \<Rightarrow> error_response" where
  "error_new s m = \<lparr>er_status = s, er_message = m\<rparr>"

definition db_error_response :: "db_error \<Rightarrow> string \<Rightarrow> error_response" where
  "db_error_response e fallback =
     (case e of
        UniqueViolation \<Rightarrow> error_new CONFLICT ''resource already exists''
      | ForeignKeyViolation \<Rightarrow> error_new NOT_FOUND ''related resource not found''
      | _ \<Rightarrow> error_new INTERNAL_SERVER_ERROR fallback)"

section \<open>Fresh identifiers\<close>

definition fresh_uuid :: "uuid list \<Rightarrow> remote_db \<Rightarrow> uuid" where
  "fresh_uuid used db = foldr (\<lambda>k n. max (Suc k) n) used (db_next_uuid db)"

lemma fresh_above: "k \<in> set used \<Longrightarrow> k < foldr (\<lambda>k n. max (Suc k) n) used (n::nat)"
  by (induction used) auto

lemma fresh_uuid_notin: "fresh_uuid used db \<notin> set used"
  using fresh_above [of "fresh_uuid used db" used "db_next_uuid db"]
  by (auto simp: fresh_uuid_def)

lemma fresh_uuid_notin_map:
  "r \<in> set rows \<Longrightarrow> f r \<noteq> fresh_uuid (map f rows) db"
  by (metis fresh_uuid_notin imageI set_map)

section \<open>The access check\<close>

definition issue_find :: "remote_db \<Rightarrow> uuid \<Rightarrow> issue option" where
  "issue_find db i = tbl_find is_id i (db_issues db)"

definition project_find :: "remote_db \<Rightarrow> uuid \<Rightarrow> project option" where
  "project_find db i = tbl_find pj_id i (db_projects db)"

definition agent_find :: "remote_db \<Rightarrow> uuid \<Rightarrow> agent option" where
  "agent_find db i = tbl_find ag_id i (db_agents db)"

definition issue_organization_id :: "remote_db \<Rightarrow> uuid \<Rightarrow> uuid option" where
  "issue_organization_id db i =
     (case issue_find db i of None \<Rightarrow> None
      | Some iss \<Rightarrow> map_option pj_organization_id (project_find db (is_project_id iss)))"

definition is_member :: "remote_db \<Rightarrow> uuid \<Rightarrow> uuid \<Rightarrow> bool" where
  "is_member db org user = ((org, user) \<in> set (db_org_members db))"

definition ensure_issue_access :: "remote_db \<Rightarrow> uuid \<Rightarrow> uuid \<Rightarrow> error_response + uuid" where
  "ensure_issue_access db user issue =
     (case issue_organization_id db issue of
        None \<Rightarrow> Inl (error_new NOT_FOUND ''issue not found'')
      | Some org \<Rightarrow>
          (if is_member db org user then Inr org
           else Inl (error_new FORBIDDEN ''issue not accessible'')))"

definition ensure_project_access :: "remote_db \<Rightarrow> uuid \<Rightarrow> uuid \<Rightarrow> error_response + uuid" where
  "ensure_project_access db user proj =
     (case project_find db proj of
        None \<Rightarrow> Inl (error_new NOT_FOUND ''project not found'')
      | Some p \<Rightarrow>
          (if is_member db (pj_organization_id p) user then Inr (pj_organization_id p)
           else Inl (error_new FORBIDDEN ''project not accessible'')))"

end
