(* ===== verification/Agent_Task_Queue.thy ===== *)
theory Agent_Task_Queue
  imports Remote_Db "HOL-Library.Product_Lexorder"
begin

text \<open>
  The task queue of the board agents: AgentTaskRepository of
  crates/remote/src/db/agent_tasks.rs over the table \<open>agent_tasks\<close>, with the constraints
  that the migrations put on the table (primary key, foreign keys, the partial unique index
  \<open>agent_tasks_active_unique\<close>). Every repository function is one transaction and is one
  step here, except \<open>claim_next\<close>, whose two statements are also given apart: the server
  runs under PostgreSQL's default READ COMMITTED level, where two claims may overlap.
\<close>

section \<open>Row predicates and constraints\<close>

definition task_active :: "agent_task \<Rightarrow> bool" where
  \<comment> \<open>\<open>status IN ('queued', 'dispatched', 'running')\<close>\<close>
  "task_active t = (at_status t \<in> {Queued, Dispatched, Running})"

definition task_executing :: "agent_task \<Rightarrow> bool" where
  \<comment> \<open>\<open>status IN ('dispatched', 'running')\<close>\<close>
  "task_executing t = (at_status t \<in> {Dispatched, Running})"

definition terminal_status :: "agent_task_status \<Rightarrow> bool" where
  "terminal_status s = (s \<in> {Completed, Failed, Cancelled})"

definition active_solo :: "agent_task \<Rightarrow> bool" where
  "active_solo t = (task_active t \<and> at_squad_id t = None)"

definition active_unique :: "agent_task list \<Rightarrow> bool" where
  \<comment> \<open>the partial unique index on \<open>(agent_id, issue_id)\<close>\<close>
  "active_unique ts =
     distinct (map (\<lambda>t. (at_agent_id t, at_issue_id t)) (filter active_solo ts))"

definition executing_count :: "agent_task list \<Rightarrow> uuid \<Rightarrow> nat" where
  "executing_count ts a = length (filter (\<lambda>t. at_agent_id t = a \<and> task_executing t) ts)"

section \<open>Reads\<close>

definition task_find :: "remote_db \<Rightarrow> uuid \<Rightarrow> agent_task option" where
  "task_find db i = tbl_find at_id i (db_tasks db)"

definition newest_first :: "agent_task list \<Rightarrow> agent_task list" where
  \<comment> \<open>\<open>ORDER BY created_at DESC\<close>\<close>
  "newest_first ts = sort_key (\<lambda>t. - int (at_created_at t)) ts"

definition task_list_by_issue :: "remote_db \<Rightarrow> uuid \<Rightarrow> agent_task list" where
  "task_list_by_issue db i = newest_first (filter (\<lambda>t. at_issue_id t = i) (db_tasks db))"

definition task_list_by_project :: "remote_db \<Rightarrow> uuid \<Rightarrow> agent_task list" where
  "task_list_by_project db p = newest_first
     (filter (\<lambda>t. case issue_find db (at_issue_id t) of None \<Rightarrow> False
                 | Some i \<Rightarrow> is_project_id i = p) (db_tasks db))"

definition latest_local_workspace_for_issue :: "remote_db \<Rightarrow> uuid \<Rightarrow> uuid option" where
  "latest_local_workspace_for_issue db i =
     (case sort_key (\<lambda>t. - int (at_updated_at t))
             (filter (\<lambda>t. at_issue_id t = i \<and> at_local_workspace_id t \<noteq> None) (db_tasks db)) of
        t # _ \<Rightarrow> at_local_workspace_id t
      | [] \<Rightarrow>
          (case sort_key ws_created_at
                  (filter (\<lambda>w. ws_issue_id w = Some i \<and> ws_local_workspace_id w \<noteq> None
                            \<and> \<not> ws_archived w) (db_workspaces db)) of
             w # _ \<Rightarrow> ws_local_workspace_id w
           | [] \<Rightarrow> None))"

section \<open>Enqueue\<close>

definition find_active_solo :: "remote_db \<Rightarrow> uuid \<Rightarrow> uuid \<Rightarrow> agent_task option" where
  "find_active_solo db agent issue =
     List.find (\<lambda>t. at_agent_id t = agent \<and> at_issue_id t = issue \<and> active_solo t) (db_tasks db)"

definition new_task ::
  "timestamp \<Rightarrow> uuid \<Rightarrow> uuid \<Rightarrow> uuid \<Rightarrow> agent_task_trigger \<Rightarrow> int \<Rightarrow> bool \<Rightarrow> uuid option \<Rightarrow>
   bool \<Rightarrow> string option \<Rightarrow> string option \<Rightarrow> uuid option \<Rightarrow> agent_task" where
  \<comment> \<open>the inserted row: the columns not listed in the INSERT take the defaults of the table
    (\<open>status\<close> queued, \<open>attempt\<close> 0, \<open>max_attempts\<close> 3)\<close>
  "new_task now i agent issue trig prio fresh squad leader repo prompt reviews =
     \<lparr>at_id = i, at_agent_id = agent, at_issue_id = issue, at_status = Queued,
      at_trigger = trig, at_priority = prio, at_attempt = 0, at_max_attempts = 3,
      at_failure_reason = None, at_local_workspace_id = None, at_local_session_id = None,
      at_claimed_by_host = None, at_claimed_at = None, at_started_at = None,
      at_completed_at = None, at_force_fresh_session = fresh, at_resume_session_id = None,
      at_squad_id = squad, at_is_leader_task = leader, at_preferred_repo_id = repo,
      at_execution_prompt = prompt, at_executor_note = None, at_reviews_task_id = reviews,
      at_created_at = now, at_updated_at = now\<rparr>"

definition insert_task :: "remote_db \<Rightarrow> agent_task \<Rightarrow> db_error + remote_db" where
  "insert_task db t =
     (if tbl_find at_id (at_id t) (db_tasks db) \<noteq> None then Inl UniqueViolation
      else if \<not> active_unique (db_tasks db @ [t]) then Inl UniqueViolation
      else if agent_find db (at_agent_id t) = None \<or> issue_find db (at_issue_id t) = None
        then Inl ForeignKeyViolation
      else if (case at_squad_id t of None \<Rightarrow> False
               | Some s \<Rightarrow> tbl_find sq_id s (db_squads db) = None)
        then Inl ForeignKeyViolation
      else if (case at_reviews_task_id t of None \<Rightarrow> False | Some r \<Rightarrow> task_find db r = None)
        then Inl ForeignKeyViolation
      else Inr (db\<lparr>db_tasks := db_tasks db @ [t],
                   db_next_uuid := max (Suc (at_id t)) (db_next_uuid db)\<rparr>))"

definition enqueue ::
  "remote_db \<Rightarrow> uuid option \<Rightarrow> uuid \<Rightarrow> uuid \<Rightarrow> agent_task_trigger \<Rightarrow> int \<Rightarrow> bool \<Rightarrow> uuid option \<Rightarrow>
   bool \<Rightarrow> string option \<Rightarrow> string option \<Rightarrow> uuid option \<Rightarrow> db_error + (agent_task \<times> remote_db)" where
  "enqueue db i agent issue trig prio fresh squad leader repo prompt reviews =
     (let tid = unwrap_or i (fresh_uuid (map at_id (db_tasks db)) db);
          existing = (if squad = None then find_active_solo db agent issue else None) in
      case existing of
        Some t \<Rightarrow> Inr (t, db)
      | None \<Rightarrow>
          (let t = new_task (db_now db) tid agent issue trig prio fresh squad leader repo
                     prompt reviews in
           case insert_task db t of Inl e \<Rightarrow> Inl e | Inr db' \<Rightarrow> Inr (t, db')))"

section \<open>Claim\<close>

definition claimable :: "remote_db \<Rightarrow> uuid list \<Rightarrow> agent_task \<Rightarrow> bool" where
  \<comment> \<open>the WHERE clause of the candidate query; \<open>locked\<close> are the rows that \<open>SKIP LOCKED\<close> skips\<close>
  "claimable db locked t =
     (at_status t = Queued \<and> at_id t \<notin> set locked \<and>
      (case agent_find db (at_agent_id t) of None \<Rightarrow> False
       | Some a \<Rightarrow> int (executing_count (db_tasks db) (at_agent_id t)) < ag_max_concurrent_tasks a))"

definition claim_key :: "agent_task \<Rightarrow> int \<times> nat" where
  \<comment> \<open>\<open>ORDER BY t.priority DESC, t.created_at ASC\<close>\<close>
  "claim_key t = (- at_priority t, at_created_at t)"

definition claim_select :: "remote_db \<Rightarrow> uuid list \<Rightarrow> agent_task option" where
  "claim_select db locked =
     (case sort_key claim_key (filter (claimable db locked) (db_tasks db)) of
        [] \<Rightarrow> None | t # _ \<Rightarrow> Some t)"

definition resume_session :: "remote_db \<Rightarrow> agent_task \<Rightarrow> uuid option" where
  \<comment> \<open>\<open>ORDER BY prev.completed_at DESC\<close>, which puts NULL first\<close>
  "resume_session db t =
     (if at_force_fresh_session t then None
      else (case sort_key (\<lambda>p. case at_completed_at p of None \<Rightarrow> (0::nat, 0)
                             | Some c \<Rightarrow> (1, - int c))
              (filter (\<lambda>p. at_agent_id p = at_agent_id t \<and> at_issue_id p = at_issue_id t
                         \<and> at_status p = Completed \<and> at_local_session_id p \<noteq> None)
                 (db_tasks db)) of
              [] \<Rightarrow> None | p # _ \<Rightarrow> at_local_session_id p))"

definition claim_row :: "remote_db \<Rightarrow> string \<Rightarrow> agent_task \<Rightarrow> agent_task" where
  "claim_row db host t =
     t\<lparr>at_status := Dispatched, at_claimed_by_host := Some host,
       at_claimed_at := Some (db_now db), at_attempt := at_attempt t + 1,
       at_resume_session_id := resume_session db t, at_updated_at := db_now db\<rparr>"

definition claim_commit :: "remote_db \<Rightarrow> string \<Rightarrow> uuid \<Rightarrow> remote_db" where
  "claim_commit db host i =
     db\<lparr>db_tasks := tbl_update at_id i (claim_row db host) (db_tasks db)\<rparr>"

definition claim_next :: "remote_db \<Rightarrow> string \<Rightarrow> agent_task option \<times> remote_db" where
  "claim_next db host =
     (case claim_select db [] of
        None \<Rightarrow> (None, db)
      | Some t \<Rightarrow> (let db' = claim_commit db host (at_id t) in (task_find db' (at_id t), db')))"

section \<open>Update and delete\<close>

record task_patch =
  tp_status :: "agent_task_status option"
  tp_failure_reason :: "string option option"
  tp_local_workspace_id :: "uuid option option"
  tp_local_session_id :: "uuid option option"
  tp_claimed_by_host :: "string option option"
  tp_attempt :: "int option"
  tp_executor_note :: "string option option"

definition empty_patch :: task_patch where
  "empty_patch = \<lparr>tp_status = None, tp_failure_reason = None, tp_local_workspace_id = None,
     tp_local_session_id = None, tp_claimed_by_host = None, tp_attempt = None,
     tp_executor_note = None\<rparr>"

definition apply_patch :: "timestamp \<Rightarrow> task_patch \<Rightarrow> agent_task \<Rightarrow> agent_task" where
  "apply_patch now p t =
     t\<lparr>at_status := unwrap_or (tp_status p) (at_status t),
       at_failure_reason := patch_field (tp_failure_reason p) (at_failure_reason t),
       at_local_workspace_id := patch_field (tp_local_workspace_id p) (at_local_workspace_id t),
       at_local_session_id := patch_field (tp_local_session_id p) (at_local_session_id t),
       at_claimed_by_host := patch_field (tp_claimed_by_host p) (at_claimed_by_host t),
       at_attempt := unwrap_or (tp_attempt p) (at_attempt t),
       at_executor_note := patch_field (tp_executor_note p) (at_executor_note t),
       at_started_at := (if tp_status p = Some Running
                         then opt_or (at_started_at t) (Some now) else at_started_at t),
       at_completed_at := (if (case tp_status p of None \<Rightarrow> False | Some s \<Rightarrow> terminal_status s)
                           then Some now else at_completed_at t),
       at_updated_at := now\<rparr>"

definition task_update :: "remote_db \<Rightarrow> uuid \<Rightarrow> task_patch \<Rightarrow> db_error + (agent_task \<times> remote_db)" where
  "task_update db i p =
     (let ts = tbl_update at_id i (apply_patch (db_now db) p) (db_tasks db) in
      case tbl_find at_id i ts of
        None \<Rightarrow> Inl RowNotFound
      | Some t \<Rightarrow>
          (if active_unique ts then Inr (t, db\<lparr>db_tasks := ts\<rparr>) else Inl UniqueViolation))"

definition unlink_review :: "uuid \<Rightarrow> agent_task \<Rightarrow> agent_task" where
  \<comment> \<open>\<open>reviews_task_id \<dots> ON DELETE SET NULL\<close>\<close>
  "unlink_review i t =
     (if at_reviews_task_id t = Some i then t\<lparr>at_reviews_task_id := None\<rparr> else t)"

definition task_delete :: "remote_db \<Rightarrow> uuid \<Rightarrow> remote_db" where
  "task_delete db i = db\<lparr>db_tasks := map (unlink_review i) (tbl_delete at_id i (db_tasks db))\<rparr>"

end
