(* ===== verification/Squad_Condition.thy ===== *)
theory Squad_Condition
  imports Agent_Task_Queue
begin

text \<open>
  The result that one pipeline step hands to the next and the condition language over it:
  \<open>AgentStepResult\<close>, \<open>eval_condition\<close> and the part of \<open>await_agent_task\<close> that builds a
  result (crates/remote/src/routes/squads.rs). The explanation that \<open>eval_condition\<close>
  returns beside the truth value is kept as one constructor per format string.
\<close>

section \<open>Step results\<close>

record agent_step_result =
  sr_status :: agent_task_status
  sr_failure_reason :: "string option"
  sr_summary :: string
  sr_diff :: "string option"

fun debug_status :: "agent_task_status \<Rightarrow> string" where
  \<comment> \<open>the derived \<open>Debug\<close> form\<close>
  "debug_status Queued = ''Queued''"
| "debug_status Dispatched = ''Dispatched''"
| "debug_status Running = ''Running''"
| "debug_status Completed = ''Completed''"
| "debug_status Failed = ''Failed''"
| "debug_status Cancelled = ''Cancelled''"

fun task_status_as_str :: "agent_task_status \<Rightarrow> string" where
  "task_status_as_str Queued = ''queued''"
| "task_status_as_str Dispatched = ''dispatched''"
| "task_status_as_str Running = ''running''"
| "task_status_as_str Completed = ''completed''"
| "task_status_as_str Failed = ''failed''"
| "task_status_as_str Cancelled = ''cancelled''"

definition em_dash :: string where
  "em_dash = utf8 [32, 226, 128, 148, 32]"

definition step_summary :: "uuid \<Rightarrow> agent_task_status \<Rightarrow> string option \<Rightarrow> string" where
  "step_summary tid st reason =
     ''task '' @ show_uuid tid @ '' ended as '' @ debug_status st @
       (case reason of None \<Rightarrow> [] | Some r \<Rightarrow> em_dash @ r)"

definition ended_result :: "agent_task \<Rightarrow> uuid \<Rightarrow> agent_step_result" where
  "ended_result t tid =
     \<lparr>sr_status = at_status t, sr_failure_reason = at_failure_reason t,
      sr_summary = step_summary tid (at_status t) (at_failure_reason t), sr_diff = None\<rparr>"

definition timeout_result :: "uuid \<Rightarrow> nat \<Rightarrow> agent_step_result" where
  "timeout_result tid secs =
     \<lparr>sr_status = Failed,
      sr_failure_reason = Some (''pipeline await timed out after '' @ show_nat secs @ ''s''),
      sr_summary = ''task '' @ show_uuid tid @ '' await timeout'', sr_diff = None\<rparr>"

text \<open>
  One turn of the polling loop of \<open>await_agent_task\<close>: a vanished task is an error, a
  terminal status ends the wait, then the deadline does; otherwise the loop sleeps.
\<close>

datatype await_outcome = TaskGone | Ended agent_step_result | Pending

definition await_poll :: "remote_db \<Rightarrow> uuid \<Rightarrow> nat \<Rightarrow> nat \<Rightarrow> nat \<Rightarrow> await_outcome" where
  "await_poll db tid secs deadline now =
     (case task_find db tid of
        None \<Rightarrow> TaskGone
      | Some t \<Rightarrow>
          (if terminal_status (at_status t) then Ended (ended_result t tid)
           else if deadline \<le> now then Ended (timeout_result tid secs)
           else Pending))"

section \<open>Conditions\<close>

datatype cond_reason =
    EmptyLast agent_task_status bool | EmptyTrue
  | LiteralTrue string | LiteralFalse string
  | VerifiedNoResult | VerifiedNotCompleted agent_task_status | VerifiedCompleted
  | VerifiedNeedle string bool
  | StatusCheck string string bool
  | SuccessCheck bool | FailureCheck bool
  | KeywordMatch string | SuccessConditionMatch string
  | SoftTrue string | LastFailed string
  | KeywordFalse string | DefaultTrue string

definition completed_result :: "agent_step_result option \<Rightarrow> bool" where
  "completed_result prev = (case prev of None \<Rightarrow> False | Some r \<Rightarrow> sr_status r = Completed)"

definition failed_result :: "agent_step_result option \<Rightarrow> bool" where
  "failed_result prev =
     (case prev of None \<Rightarrow> False | Some r \<Rightarrow> sr_status r = Failed \<or> sr_status r = Cancelled)"

definition eval_verified :: "string \<Rightarrow> agent_step_result option \<Rightarrow> bool \<times> cond_reason" where
  "eval_verified needle prev =
     (case prev of
        None \<Rightarrow> (False, VerifiedNoResult)
      | Some r \<Rightarrow>
          (if sr_status r \<noteq> Completed then (False, VerifiedNotCompleted (sr_status r))
           else if needle = [] then (True, VerifiedCompleted)
           else let ok = str_contains (str_lower needle) (str_lower (sr_summary r)) in
                (ok, VerifiedNeedle needle ok)))"

definition eval_status :: "string \<Rightarrow> agent_step_result option \<Rightarrow> bool \<times> cond_reason" where
  "eval_status want prev =
     (let got = (case prev of None \<Rightarrow> ''none'' | Some r \<Rightarrow> task_status_as_str (sr_status r));
          ok = (got = want) in (ok, StatusCheck want got ok))"

definition result_hay :: "agent_step_result \<Rightarrow> string" where
  "result_hay r =
     str_lower (str_lower (sr_summary r) @ '' '' @ unwrap_or (sr_failure_reason r) [])"

definition eval_keyword_false :: "string \<Rightarrow> string \<Rightarrow> bool \<times> cond_reason" where
  "eval_keyword_false raw c =
     (if str_contains ''never'' c \<or> str_contains ''false'' c \<or> str_contains ''fail'' c
      then (False, KeywordFalse raw) else (True, DefaultTrue raw))"

definition eval_needle ::
  "string \<Rightarrow> string \<Rightarrow> string \<Rightarrow> agent_step_result option \<Rightarrow> string option \<Rightarrow> bool \<times> cond_reason" where
  "eval_needle raw c needle prev success =
     (case prev of
        None \<Rightarrow> eval_keyword_false raw c
      | Some r \<Rightarrow>
          (if str_contains needle (result_hay r) then (True, KeywordMatch needle)
           else case trim_nonempty success of
             Some sc \<Rightarrow>
               (if str_contains (str_lower sc) (result_hay r)
                then (True, SuccessConditionMatch sc)
                else if sr_status r = Completed \<and> \<not> str_contains ''never'' c \<and> \<not> str_contains ''false'' c
                  then (True, SoftTrue raw)
                else if sr_status r = Failed \<or> sr_status r = Cancelled then (False, LastFailed raw)
                else eval_keyword_false raw c)
           | None \<Rightarrow>
               (if sr_status r = Completed \<and> \<not> str_contains ''never'' c \<and> \<not> str_contains ''false'' c
                then (True, SoftTrue raw)
                else if sr_status r = Failed \<or> sr_status r = Cancelled then (False, LastFailed raw)
                else eval_keyword_false raw c)))"

definition eval_condition ::
  "string option \<Rightarrow> agent_step_result option \<Rightarrow> string option \<Rightarrow> bool \<times> cond_reason" where
  "eval_condition condition prev success =
     (case trim_nonempty condition of
        None \<Rightarrow>
          (case prev of
             Some r \<Rightarrow> (let ok = (sr_status r = Completed) in (ok, EmptyLast (sr_status r) ok))
           | None \<Rightarrow> (True, EmptyTrue))
      | Some raw \<Rightarrow>
          (let c = str_lower raw in
           if c \<in> set [''true'', ''always'', ''yes'', ''1'', ''ok'', ''pass''] then (True, LiteralTrue raw)
           else if c \<in> set [''false'', ''never'', ''no'', ''0'', ''fail'', ''failed'']
             then (False, LiteralFalse raw)
           else case strip_prefix ''verified:'' c of
             Some rest \<Rightarrow> eval_verified (str_trim rest) prev
           | None \<Rightarrow>
           (case strip_prefix ''status:'' c of
             Some rest \<Rightarrow> eval_status (str_trim rest) prev
           | None \<Rightarrow>
             (let needle = (case strip_prefix ''agent:'' c of
                              Some rest \<Rightarrow> str_trim rest | None \<Rightarrow> c) in
              if needle = ''success'' \<or> needle = ''completed''
                then (completed_result prev, SuccessCheck (completed_result prev))
              else if needle = ''failed'' \<or> needle = ''failure'' \<or> needle = ''error''
                then (failed_result prev, FailureCheck (failed_result prev))
              else eval_needle raw c needle prev success))))"

section \<open>What the conditions mean\<close>

text \<open>
  The strict form is characterised completely: it holds exactly when there is a completed
  previous result whose summary contains the needle, whatever the loop's success condition.
\<close>

lemma strip_verified_status:
  "strip_prefix ''verified:'' (''verified:'' @ rest) = Some rest"
  by (rule strip_prefix_append)

lemma eval_verified_iff:
  "fst (eval_verified needle prev) \<longleftrightarrow>
     (\<exists>r. prev = Some r \<and> sr_status r = Completed \<and>
        str_contains (str_lower needle) (str_lower (sr_summary r)))"
  by (auto simp: eval_verified_def Let_def split: option.splits)

lemma verified_condition:
  assumes "trim_nonempty cond = Some raw" "str_lower raw = ''verified:'' @ rest"
  shows "eval_condition cond prev success = eval_verified (str_trim rest) prev"
  using assms by (simp add: eval_condition_def Let_def)

lemma status_condition:
  assumes "trim_nonempty cond = Some raw" "str_lower raw = ''status:'' @ rest"
  shows "eval_condition cond prev success = eval_status (str_trim rest) prev"
  using assms by (simp add: eval_condition_def Let_def)

text \<open>A summary says no more than the id, the status and the failure reason of a task.\<close>

lemma ended_result_summary:
  assumes "at_failure_reason t = None" "at_status t = Completed"
  shows "sr_summary (ended_result t tid) = ''task '' @ show_uuid tid @ '' ended as Completed''"
  using assms by (simp add: ended_result_def step_summary_def)

text \<open>The bytes of a UUID's text and of that summary are ASCII.\<close>

lemma hex_digit_ascii: "d < 16 \<Longrightarrow> (of_char (hex_digit d) :: nat) < 128"
  by (simp add: hex_digit_def)

lemma hex_digits_ascii: "c \<in> set (hex_digits k n) \<Longrightarrow> (of_char c :: nat) < 128"
  by (induction k arbitrary: n) (auto simp: hex_digit_ascii)

lemma show_uuid_ascii: "c \<in> set (show_uuid n) \<Longrightarrow> (of_char c :: nat) < 128"
  by (auto simp: show_uuid_def Let_def dest: in_set_takeD in_set_dropD intro: hex_digits_ascii)

lemma lower_char_ascii: "(of_char c :: nat) < 128 \<Longrightarrow> (of_char (lower_char c) :: nat) < 128"
  by (auto simp: lower_char_def Let_def)

lemma completed_summary_ascii:
  assumes "c \<in> set (str_lower (step_summary tid Completed None))"
  shows "(of_char c :: nat) < 128"
proof -
  have ascii: "\<forall>c \<in> set (step_summary tid Completed None). (of_char c :: nat) < 128"
    by (simp add: step_summary_def ball_Un show_uuid_ascii)
  from assms obtain d where "d \<in> set (step_summary tid Completed None)" "c = lower_char d"
    by (auto simp: str_lower_def)
  then show ?thesis using ascii lower_char_ascii by blast
qed

lemma lower_char_non_ascii: "\<not> (of_char c :: nat) < 128 \<Longrightarrow> lower_char c = c"
  by (auto simp: lower_char_def Let_def)

text \<open>
  Hence a needle with a character outside ASCII, such as the acceptance word of the shipped
  templates, is never found in the summary of a task that completed without a reason.
\<close>

lemma completed_summary_no_unicode:
  assumes "c \<in> set needle" "\<not> (of_char c :: nat) < 128"
  shows "\<not> str_contains (str_lower needle) (str_lower (step_summary tid Completed None))"
proof
  assume "str_contains (str_lower needle) (str_lower (step_summary tid Completed None))"
  then have "set (str_lower needle) \<subseteq> set (str_lower (step_summary tid Completed None))"
    by (simp add: str_contains_sublist set_mono_sublist)
  moreover have "c \<in> set (str_lower needle)"
    using assms lower_char_non_ascii [OF assms(2)] by (force simp: str_lower_def)
  ultimately show False using completed_summary_ascii assms(2) by blast
qed

section \<open>Properties\<close>

text \<open>the strict condition \<open>verified:needle\<close> holds exactly when there is a completed previous
  step whose summary contains the needle (both in lower case), whatever the loop's success
  condition says: no other branch of \<open>eval_condition\<close> can let it through.\<close>

theorem verified_is_strict:
  assumes "trim_nonempty condition = Some raw" "str_lower raw = ''verified:'' @ rest"
  shows "fst (eval_condition condition prev success) \<longleftrightarrow>
    (\<exists>r. prev = Some r \<and> sr_status r = Completed \<and>
       str_contains (str_lower (str_trim rest)) (str_lower (sr_summary r)))"
  using verified_condition [OF assms] by (simp add: eval_verified_iff)

theorem verified_is_strict_witness:
  "fst (eval_condition (Some '' Verified:ok '') None (Some ''x'')) \<longleftrightarrow>
    (\<exists>r. None = Some r \<and> sr_status r = Completed \<and>
       str_contains (str_lower (str_trim ''ok'')) (str_lower (sr_summary (r :: agent_step_result))))"
  by (rule verified_is_strict [where raw = "''Verified:ok''"]) code_simp+

definition acceptance_word :: string where
  \<comment> \<open>the needle of the conditions in the shipped templates
    (crates/remote/src/routes/workflow_templates.rs)\<close>
  "acceptance_word = utf8 [233, 170, 140, 230, 148, 182, 233, 128, 154, 232, 191, 135]"

text \<open>the condition \<open>verified:\<close> with the Chinese acceptance word, which the shipped templates
  loop on, is never met by an agent or script that completes without a failure reason: the
  summary that the wait builds holds the task id and its status, never the agent's output.\<close>

theorem template_condition_never_met:
  assumes "at_status t = Completed" "at_failure_reason t = None"
  shows "fst (eval_condition (Some (''verified:'' @ acceptance_word)) (Some (ended_result t tid)) success) = False"
proof -
  have trim: "trim_nonempty (Some (''verified:'' @ acceptance_word)) = Some (''verified:'' @ acceptance_word)"
    by code_simp
  have lower: "str_lower (''verified:'' @ acceptance_word) = ''verified:'' @ acceptance_word"
    by code_simp
  have same: "str_trim acceptance_word = acceptance_word" by code_simp
  have "CHR 0xE9 \<in> set acceptance_word" by code_simp
  moreover have "\<not> (of_char (CHR 0xE9) :: nat) < 128" by simp
  ultimately have "\<not> str_contains (str_lower acceptance_word) (str_lower (step_summary tid Completed None))"
    by (rule completed_summary_no_unicode)
  then show ?thesis
    using assms verified_condition [OF trim lower, of "Some (ended_result t tid)" success] same
    by (auto simp: eval_verified_iff ended_result_def)
qed

theorem template_condition_never_met_witness:
  "fst (eval_condition (Some (''verified:'' @ acceptance_word))
     (Some (ended_result ((new_task 0 1 1 1 Manual 0 False None False None None None)\<lparr>at_status := Completed\<rparr>) 1))
     None) = False"
  by (rule template_condition_never_met) (simp_all add: new_task_def)

end
