(* ===== verification/Pipeline_Job.thy ===== *)
theory Pipeline_Job
  imports Vk_Prelude
begin

text \<open>
  The job format of crates/api-types/src/pipeline_job.rs: script and git steps travel from
  the orchestrator to the local watcher inside \<open>execution_prompt\<close>, as a prefix and a JSON
  text. \<open>serde_json\<close> is a third-party library: its two functions are parameters, and what
  the code relies on is that reading inverts writing and that a JSON object is written
  without white space around it.
\<close>

datatype pipeline_job_kind = JobScript | JobGitOp

record pipeline_job_spec =
  job_kind :: pipeline_job_kind
  job_command :: "string option"
  job_op :: "string option"
  job_target_branch :: "string option"
  job_local_workspace_id :: "uuid option"
  job_label :: "string option"

definition pipeline_job_prefix :: string where
  "pipeline_job_prefix = ''__vk_pipeline_job__:''"

definition job_encode ::
  "(pipeline_job_spec \<Rightarrow> string option) \<Rightarrow> pipeline_job_spec \<Rightarrow> string option" where
  "job_encode to_string spec = map_option (\<lambda>json. pipeline_job_prefix @ json) (to_string spec)"

definition job_parse ::
  "(string \<Rightarrow> pipeline_job_spec option) \<Rightarrow> string \<Rightarrow> pipeline_job_spec option" where
  "job_parse from_str prompt =
     (case strip_prefix pipeline_job_prefix (str_trim prompt) of
        None \<Rightarrow> None
      | Some json \<Rightarrow> from_str (str_trim json))"

section \<open>Trimming\<close>

definition trimmed :: "string \<Rightarrow> bool" where
  "trimmed s = (s = [] \<or> (\<not> ascii_ws (hd s) \<and> \<not> ascii_ws (last s)))"

lemma trim_start_id: "s = [] \<or> \<not> ascii_ws (hd s) \<Longrightarrow> trim_start s = s"
  by (cases s) (auto simp: trim_start_def)

lemma str_trim_trimmed: "trimmed s \<Longrightarrow> str_trim s = s"
  by (auto simp: trimmed_def str_trim_def trim_start_id hd_rev)

lemma trimmed_prefix_append:
  assumes "json \<noteq> []" "trimmed json"
  shows "trimmed (pipeline_job_prefix @ json)"
  using assms by (auto simp: trimmed_def pipeline_job_prefix_def ascii_ws_def)

section \<open>Round trip\<close>

lemma job_parse_encode:
  assumes ser: "to_string spec = Some json" and de: "from_str json = Some spec"
    and shape: "json \<noteq> []" "trimmed json"
  shows "\<exists>p. job_encode to_string spec = Some p \<and> job_parse from_str p = Some spec"
  using ser de shape(2) str_trim_trimmed [OF trimmed_prefix_append [OF shape]]
  by (simp add: job_encode_def job_parse_def str_trim_trimmed)

lemma job_parse_requires_prefix:
  "job_parse from_str p = Some spec \<Longrightarrow> prefix pipeline_job_prefix (str_trim p)"
  by (auto simp: job_parse_def strip_prefix_iff split: option.splits)

section \<open>Properties\<close>

definition demo_job :: pipeline_job_spec where
  "demo_job = \<lparr>job_kind = JobScript, job_command = Some ''pnpm run check'', job_op = None,
     job_target_branch = None, job_local_workspace_id = None, job_label = Some ''verify''\<rparr>"

definition demo_json :: string where
  "demo_json = ''{\"kind\":\"script\",\"command\":\"pnpm run check\",\"label\":\"verify\"}''"



end
