(* ===== verification/Agent_Task_Queue_Props.thy ===== *)
theory Agent_Task_Queue_Props
  imports Agent_Task_Queue
begin

text \<open>
  What the task queue guarantees: its table invariant (distinct ids, the unique index on
  active tasks outside squads) under any sequence of repository operations, deduplication of
  assignments, the choice and the effect of a claim, the per-agent concurrency limit, and the
  overlap of two claims that the limit does not survive.
\<close>

section \<open>The table as a keyed table\<close>

interpretation patch_table: keyed_table at_id "apply_patch now" for now
  by unfold_locales (simp add: apply_patch_def)

interpretation claim_table: keyed_table at_id "\<lambda>host. claim_row db host" for db
  by unfold_locales (simp add: claim_row_def)

lemma at_id_unlink [simp]: "at_id (unlink_review i t) = at_id t"
  by (simp add: unlink_review_def)

definition queue_inv :: "remote_db \<Rightarrow> bool" where
  "queue_inv db = (tbl_keys_ok at_id (db_tasks db) \<and> active_unique (db_tasks db))"

lemma queue_inv_tasks: "queue_inv db \<Longrightarrow> db_tasks db' = db_tasks db \<Longrightarrow> queue_inv db'"
  by (simp add: queue_inv_def)

section \<open>One lemma per operation\<close>

lemma insert_task_Inr:
  assumes "insert_task db t = Inr db'"
  shows "db_tasks db' = db_tasks db @ [t]" "tbl_find at_id (at_id t) (db_tasks db) = None"
    "active_unique (db_tasks db @ [t])"
    "db_agents db' = db_agents db" "db_issues db' = db_issues db" "db_squads db' = db_squads db"
    "db_now db' = db_now db"
  using assms by (auto simp: insert_task_def split: if_splits option.splits)

lemma insert_task_inv: "queue_inv db \<Longrightarrow> insert_task db t = Inr db' \<Longrightarrow> queue_inv db'"
  by (auto simp: queue_inv_def insert_task_Inr intro!: tbl_keys_ok_snoc)

lemma new_task_simps [simp]:
  "at_id (new_task now i ag iss tr pr fr sq ld rp pm rv) = i"
  "at_status (new_task now i ag iss tr pr fr sq ld rp pm rv) = Queued"
  "at_agent_id (new_task now i ag iss tr pr fr sq ld rp pm rv) = ag"
  "at_issue_id (new_task now i ag iss tr pr fr sq ld rp pm rv) = iss"
  "at_squad_id (new_task now i ag iss tr pr fr sq ld rp pm rv) = sq"
  "at_priority (new_task now i ag iss tr pr fr sq ld rp pm rv) = pr"
  "at_attempt (new_task now i ag iss tr pr fr sq ld rp pm rv) = 0"
  "at_max_attempts (new_task now i ag iss tr pr fr sq ld rp pm rv) = 3"
  "at_failure_reason (new_task now i ag iss tr pr fr sq ld rp pm rv) = None"
  "at_trigger (new_task now i ag iss tr pr fr sq ld rp pm rv) = tr"
  "at_reviews_task_id (new_task now i ag iss tr pr fr sq ld rp pm rv) = rv"
  by (simp_all add: new_task_def)

lemma enqueue_inv: "queue_inv db \<Longrightarrow> enqueue db i a iss tr pr fr sq ld rp pm rv = Inr (t, db') \<Longrightarrow> queue_inv db'"
  by (auto simp: enqueue_def Let_def split: option.splits sum.splits if_splits intro: insert_task_inv)

lemma find_active_solo_Some:
  assumes "find_active_solo db a iss = Some t"
  shows "t \<in> set (db_tasks db)" "at_agent_id t = a" "at_issue_id t = iss" "active_solo t"
  using assms by (auto simp: find_active_solo_def find_Some_iff)

lemma find_active_solo_exists:
  "t \<in> set (db_tasks db) \<Longrightarrow> at_agent_id t = a \<Longrightarrow> at_issue_id t = iss \<Longrightarrow> active_solo t \<Longrightarrow>
   \<exists>t'. find_active_solo db a iss = Some t'"
  by (cases "find_active_solo db a iss") (auto simp: find_active_solo_def find_None_iff)

text \<open>With the unique index, the active task found is the only one there is.\<close>

lemma active_unique_same:
  assumes "active_unique ts" "t \<in> set ts" "u \<in> set ts" "active_solo t" "active_solo u"
    "at_agent_id t = at_agent_id u" "at_issue_id t = at_issue_id u"
  shows "t = u"
  using assms unfolding active_unique_def distinct_map inj_on_def by auto

lemma active_solo_claim [simp]:
  "at_status t = Queued \<Longrightarrow> active_solo (claim_row db host t) = active_solo t"
  by (simp add: active_solo_def task_active_def claim_row_def)

lemma claim_row_keys [simp]:
  "at_agent_id (claim_row db host t) = at_agent_id t"
  "at_issue_id (claim_row db host t) = at_issue_id t"
  "at_squad_id (claim_row db host t) = at_squad_id t"
  "at_id (claim_row db host t) = at_id t"
  "at_status (claim_row db host t) = Dispatched"
  "at_attempt (claim_row db host t) = at_attempt t + 1"
  "at_max_attempts (claim_row db host t) = at_max_attempts t"
  by (simp_all add: claim_row_def)

lemma active_unique_claim:
  assumes "\<And>t. t \<in> set ts \<Longrightarrow> at_id t = i \<Longrightarrow> at_status t = Queued"
  shows "active_unique (tbl_update at_id i (claim_row db host) ts) = active_unique ts"
proof -
  have "map (\<lambda>t. (at_agent_id t, at_issue_id t))
          (filter active_solo (tbl_update at_id i (claim_row db host) ts))
      = map (\<lambda>t. (at_agent_id t, at_issue_id t)) (filter active_solo ts)"
    using assms by (induction ts) (auto simp: tbl_update_def)
  then show ?thesis by (simp add: active_unique_def)
qed

lemma claim_select_Some:
  assumes "claim_select db locked = Some t"
  shows "t \<in> set (db_tasks db)" "claimable db locked t"
    "\<forall>u \<in> set (db_tasks db). claimable db locked u \<longrightarrow> claim_key t \<le> claim_key u"
proof -
  obtain us where s: "sort_key claim_key (filter (claimable db locked) (db_tasks db)) = t # us"
    using assms by (auto simp: claim_select_def split: list.splits)
  then have set: "set (t # us) = set (filter (claimable db locked) (db_tasks db))"
    by (metis set_sort)
  from s have "sorted (map claim_key (t # us))"
    by (metis sorted_sort_key)
  then have "\<forall>u \<in> set us. claim_key t \<le> claim_key u" by simp
  then have "\<forall>u \<in> set (t # us). claim_key t \<le> claim_key u" by simp
  with set show "\<forall>u \<in> set (db_tasks db). claimable db locked u \<longrightarrow> claim_key t \<le> claim_key u"
    by auto
  from set have "t \<in> set (filter (claimable db locked) (db_tasks db))" by (metis list.set_intros(1))
  then show "t \<in> set (db_tasks db)" "claimable db locked t" by auto
qed

lemma claim_select_None:
  "claim_select db locked = None \<longleftrightarrow> (\<forall>t \<in> set (db_tasks db). \<not> claimable db locked t)"
proof -
  have "claim_select db locked = None \<longleftrightarrow> sort_key claim_key (filter (claimable db locked) (db_tasks db)) = []"
    by (auto simp: claim_select_def split: list.splits)
  also have "\<dots> \<longleftrightarrow> set (filter (claimable db locked) (db_tasks db)) = {}"
    by (metis set_empty set_sort)
  finally show ?thesis by auto
qed

lemma queue_inv_same_row:
  "queue_inv db \<Longrightarrow> t \<in> set (db_tasks db) \<Longrightarrow> u \<in> set (db_tasks db) \<Longrightarrow> at_id u = at_id t \<Longrightarrow> u = t"
  by (auto simp: queue_inv_def tbl_keys_ok_def distinct_map inj_on_def)

lemma claim_commit_inv:
  assumes inv: "queue_inv db" and t: "t \<in> set (db_tasks db)" "at_status t = Queued"
  shows "queue_inv (claim_commit db host (at_id t))"
proof -
  have "\<And>u. u \<in> set (db_tasks db) \<Longrightarrow> at_id u = at_id t \<Longrightarrow> at_status u = Queued"
    using queue_inv_same_row [OF inv t(1)] t(2) by blast
  then have "active_unique (tbl_update at_id (at_id t) (claim_row db host) (db_tasks db))"
    using inv by (simp add: active_unique_claim queue_inv_def)
  then show ?thesis
    using inv by (simp add: queue_inv_def claim_commit_def claim_table.keys_ok_update)
qed

lemma claim_next_inv: "queue_inv db \<Longrightarrow> queue_inv (snd (claim_next db host))"
  by (auto simp: claim_next_def Let_def claimable_def split: option.splits
      intro!: claim_commit_inv dest: claim_select_Some)

lemma task_update_inv: "queue_inv db \<Longrightarrow> task_update db i p = Inr (t, db') \<Longrightarrow> queue_inv db'"
  by (auto simp: task_update_def Let_def queue_inv_def patch_table.keys_ok_update
      split: option.splits if_splits)

lemma active_solo_unlink [simp]: "active_solo (unlink_review i t) = active_solo t"
  by (simp add: active_solo_def task_active_def unlink_review_def)

lemma unlink_keys [simp]:
  "at_agent_id (unlink_review i t) = at_agent_id t"
  "at_issue_id (unlink_review i t) = at_issue_id t"
  by (simp_all add: unlink_review_def)

lemma task_delete_inv: "queue_inv db \<Longrightarrow> queue_inv (task_delete db i)"
proof -
  assume inv: "queue_inv db"
  let ?ts = "tbl_delete at_id i (db_tasks db)"
  have "filter active_solo ?ts = filter (\<lambda>t. at_id t \<noteq> i) (filter active_solo (db_tasks db))"
    by (simp add: tbl_delete_def conj_commute)
  then have "active_unique ?ts"
    using inv by (simp only: queue_inv_def active_unique_def distinct_map_filter)
  moreover have "filter active_solo (map (unlink_review i) ?ts) = map (unlink_review i) (filter active_solo ?ts)"
    by (simp add: filter_map comp_def)
  ultimately have "active_unique (map (unlink_review i) ?ts)"
    by (simp add: active_unique_def comp_def)
  moreover have "tbl_keys_ok at_id (map (unlink_review i) ?ts)"
    using inv by (auto simp: queue_inv_def tbl_keys_ok_def comp_def tbl_delete_def distinct_map_filter)
  ultimately show ?thesis by (simp add: queue_inv_def task_delete_def)
qed

section \<open>Any sequence of operations\<close>

datatype queue_op =
    OpEnqueue "uuid option" uuid uuid agent_task_trigger int bool "uuid option" bool
      "string option" "string option" "uuid option"
  | OpClaim string
  | OpUpdate uuid task_patch
  | OpDelete uuid

text \<open>A failed statement rolls its transaction back.\<close>

fun queue_step :: "remote_db \<Rightarrow> queue_op \<Rightarrow> remote_db" where
  "queue_step db (OpEnqueue i a iss tr pr fr sq ld rp pm rv) =
     (case enqueue db i a iss tr pr fr sq ld rp pm rv of Inl _ \<Rightarrow> db | Inr (_, db') \<Rightarrow> db')"
| "queue_step db (OpClaim host) = snd (claim_next db host)"
| "queue_step db (OpUpdate i p) = (case task_update db i p of Inl _ \<Rightarrow> db | Inr (_, db') \<Rightarrow> db')"
| "queue_step db (OpDelete i) = task_delete db i"

definition queue_run :: "remote_db \<Rightarrow> queue_op list \<Rightarrow> remote_db" where
  "queue_run db ops = foldl queue_step db ops"

lemma queue_step_inv: "queue_inv db \<Longrightarrow> queue_inv (queue_step db op)"
  by (cases op)
    (auto split: sum.splits prod.splits
      intro: enqueue_inv claim_next_inv task_update_inv task_delete_inv)

lemma queue_run_preserves: "queue_inv db \<Longrightarrow> queue_inv (queue_run db ops)"
  unfolding queue_run_def by (induction ops arbitrary: db) (auto intro: queue_step_inv)

section \<open>Counting an agent's executing tasks\<close>

lemma executing_count_claim:
  assumes "tbl_keys_ok at_id ts" "t \<in> set ts" "at_status t = Queued"
  shows "executing_count (tbl_update at_id (at_id t) (claim_row db host) ts) a
     = executing_count ts a + (if a = at_agent_id t then 1 else 0)"
  using assms
proof (induction ts)
  case (Cons u us)
  show ?case
  proof (cases "at_id u = at_id t")
    case True
    from Cons.prems(1) have notin: "at_id u \<notin> at_id ` set us" by (simp add: tbl_keys_ok_def)
    with True Cons.prems(2) have "u = t" by auto
    moreover have "\<forall>x \<in> set us. at_id x \<noteq> at_id t" using notin True by (metis imageI)
    moreover from this have "tbl_update at_id (at_id t) (claim_row db host) us = us"
      by (simp add: tbl_update_def map_idI)
    ultimately show ?thesis
      using Cons.prems(3)
      by (auto simp: tbl_update_def executing_count_def task_executing_def)
  next
    case False
    with Cons show ?thesis
      by (auto simp: tbl_update_def executing_count_def tbl_keys_ok_def)
  qed
qed simp

definition within_limits :: "remote_db \<Rightarrow> bool" where
  "within_limits db =
     (\<forall>a \<in> set (db_agents db). agent_find db (ag_id a) = Some a \<longrightarrow>
        int (executing_count (db_tasks db) (ag_id a)) \<le> ag_max_concurrent_tasks a)"

lemma claim_next_within_limits:
  assumes inv: "queue_inv db" and lim: "within_limits db"
  shows "within_limits (snd (claim_next db host))"
proof (cases "claim_select db []")
  case None
  then show ?thesis using lim by (simp add: claim_next_def)
next
  case (Some t)
  note t = claim_select_Some [OF Some]
  from t(2) obtain a where a: "agent_find db (at_agent_id t) = Some a"
    and room: "int (executing_count (db_tasks db) (at_agent_id t)) < ag_max_concurrent_tasks a"
    and q: "at_status t = Queued"
    by (auto simp: claimable_def split: option.splits)
  have cnt: "executing_count (db_tasks (claim_commit db host (at_id t))) b
      = executing_count (db_tasks db) b + (if b = at_agent_id t then 1 else 0)" for b
    using executing_count_claim [OF _ t(1) q] inv by (simp add: claim_commit_def queue_inv_def)
  have ags: "db_agents (claim_commit db host (at_id t)) = db_agents db"
    "agent_find (claim_commit db host (at_id t)) = agent_find db"
    by (simp_all add: claim_commit_def agent_find_def fun_eq_iff)
  have "within_limits (claim_commit db host (at_id t))"
    unfolding within_limits_def ags cnt
  proof (intro ballI impI)
    fix b assume b: "b \<in> set (db_agents db)" "agent_find db (ag_id b) = Some b"
    show "int (executing_count (db_tasks db) (ag_id b) + (if ag_id b = at_agent_id t then 1 else 0))
        \<le> ag_max_concurrent_tasks b"
      using lim b room a by (auto simp: within_limits_def)
  qed
  then show ?thesis by (simp add: claim_next_def Some Let_def)
qed

section \<open>Properties\<close>

definition demo_agent :: agent where
  "demo_agent = \<lparr>ag_id = 1, ag_project_id = 9, ag_name = ''dev'', ag_instructions = [],
     ag_default_executor = None, ag_max_concurrent_tasks = 1, ag_reviewer_agent_id = None\<rparr>"

definition demo_issue :: "uuid \<Rightarrow> issue" where
  "demo_issue i = \<lparr>is_id = i, is_project_id = 9, is_status_id = 4, is_simple_id = ''VK-1'',
     is_title = ''Login'', is_description = None, is_creator_user_id = None\<rparr>"

definition demo_task :: "uuid \<Rightarrow> uuid \<Rightarrow> int \<Rightarrow> timestamp \<Rightarrow> agent_task" where
  "demo_task i issue prio at = new_task at i 1 issue Assign prio False None False None None None"

definition demo_db :: "agent_task list \<Rightarrow> remote_db" where
  "demo_db ts = \<lparr>db_tasks = ts, db_agents = [demo_agent], db_issues = [demo_issue 2, demo_issue 3],
     db_projects = [], db_statuses = [], db_squads = [], db_members = [], db_runs = [],
     db_workspaces = [], db_assignees = [], db_subscribers = [], db_org_members = [],
     db_comments = [], db_inbox = [], db_next_uuid = 100, db_now = 5\<rparr>"

lemma demo_inv: "queue_inv (demo_db [demo_task 10 2 0 1, demo_task 11 3 4 2])"
  by (simp add: queue_inv_def demo_db_def tbl_keys_ok_def active_unique_def active_solo_def
      task_active_def demo_task_def)



text \<open>C9: assigning again is idempotent: while a task of an agent outside squads is active on an
  issue, enqueueing that agent on that issue returns a task that is active there and leaves
  the database as it is.\<close>

theorem enqueue_deduplicates:
  assumes "enqueue db i a iss tr pr fr None ld rp pm rv = Inr (t, db')"
  shows "\<exists>t'. enqueue db' i' a iss tr' pr' fr' None ld' rp' pm' rv' = Inr (t', db') \<and>
    at_agent_id t' = a \<and> at_issue_id t' = iss \<and> active_solo t'"
proof -
  have "\<exists>u \<in> set (db_tasks db'). at_agent_id u = a \<and> at_issue_id u = iss \<and> active_solo u"
  proof (cases "find_active_solo db a iss")
    case (Some u)
    then show ?thesis using assms find_active_solo_Some [OF Some] by (auto simp: enqueue_def Let_def)
  next
    case None
    then have "db_tasks db' = db_tasks db @ [t]" "active_solo t" "at_agent_id t = a" "at_issue_id t = iss"
      using assms
      by (auto simp: enqueue_def Let_def active_solo_def task_active_def insert_task_Inr split: sum.splits)
    then show ?thesis by auto
  qed
  then obtain t' where t': "find_active_solo db' a iss = Some t'" using find_active_solo_exists by blast
  then show ?thesis using find_active_solo_Some [OF t'] by (auto simp: enqueue_def Let_def)
qed

theorem enqueue_deduplicates_witness:
  "\<exists>t'. enqueue (demo_db [demo_task 10 2 0 1]) None 1 2 Mention 7 True None False None None None
       = Inr (t', demo_db [demo_task 10 2 0 1]) \<and>
    at_agent_id t' = 1 \<and> at_issue_id t' = 2 \<and> active_solo t'"
proof (rule enqueue_deduplicates)
  show "enqueue (demo_db [demo_task 10 2 0 1]) None 1 2 Assign 0 False None False None None None
      = Inr (demo_task 10 2 0 1, demo_db [demo_task 10 2 0 1])"
    by (simp add: enqueue_def Let_def find_active_solo_def demo_db_def demo_task_def active_solo_def
        task_active_def)
qed

text \<open>a claim takes the task that is due: among the queued tasks whose agent has room it
  picks one of the highest priority and, among those, of the earliest creation, dispatches
  it to the host with one more attempt, and takes nothing only when nothing is due.\<close>

theorem claim_takes_what_is_due:
  assumes "queue_inv db"
  shows "(fst (claim_next db host) = None \<longleftrightarrow> (\<forall>t \<in> set (db_tasks db). \<not> claimable db [] t)) \<and>
    (\<forall>r. fst (claim_next db host) = Some r \<longrightarrow>
       (\<exists>t \<in> set (db_tasks db). claimable db [] t \<and> r = claim_row db host t \<and>
          (\<forall>u \<in> set (db_tasks db). claimable db [] u \<longrightarrow> claim_key t \<le> claim_key u) \<and>
          (\<forall>j. task_find (snd (claim_next db host)) j =
             (if j = at_id t then Some r else task_find db j))))"
proof (cases "claim_select db []")
  case None
  then show ?thesis using claim_select_None [of db "[]"] by (simp add: claim_next_def)
next
  case (Some t)
  note sel = claim_select_Some [OF Some]
  have found: "task_find db (at_id t) = Some t"
    using tbl_find_in_set [of at_id "db_tasks db" t] sel(1) assms by (simp add: task_find_def queue_inv_def)
  have look: "task_find (claim_commit db host (at_id t)) j
      = (if j = at_id t then Some (claim_row db host t) else task_find db j)" for j
    using found by (simp add: task_find_def claim_commit_def claim_table.find_update)
  show ?thesis using sel look Some by (auto simp: claim_next_def Let_def)
qed

theorem claim_takes_what_is_due_witness:
  "fst (claim_next (demo_db [demo_task 10 2 0 1, demo_task 11 3 4 2]) ''h'') \<noteq> None \<and>
   (fst (claim_next (demo_db [demo_task 10 2 0 1, demo_task 11 3 4 2]) ''h'') = None \<longleftrightarrow>
     (\<forall>t \<in> set (db_tasks (demo_db [demo_task 10 2 0 1, demo_task 11 3 4 2])).
        \<not> claimable (demo_db [demo_task 10 2 0 1, demo_task 11 3 4 2]) [] t))"
proof -
  have "claimable (demo_db [demo_task 10 2 0 1, demo_task 11 3 4 2]) [] (demo_task 11 3 4 2)"
    by (simp add: claimable_def demo_db_def demo_task_def agent_find_def tbl_find_Cons demo_agent_def
        executing_count_def task_executing_def)
  then show ?thesis using claim_takes_what_is_due [OF demo_inv, of "''h''"]
    by (auto simp: demo_db_def)
qed

text \<open>C10: a claim respects the agents' limits: if no agent executes more than its
  \<open>max_concurrent_tasks\<close>, none does after a claim.\<close>

theorem claim_respects_limits:
  assumes "queue_inv db" "within_limits db"
  shows "within_limits (snd (claim_next db host))"
  using assms by (rule claim_next_within_limits)

theorem claim_respects_limits_witness:
  "within_limits (snd (claim_next (demo_db [demo_task 10 2 0 1, demo_task 11 3 4 2]) ''h''))"
  by (rule claim_respects_limits [OF demo_inv])
    (simp add: within_limits_def demo_db_def executing_count_def task_executing_def demo_task_def
      demo_agent_def)

text \<open>two claims that overlap do not respect them. Under READ COMMITTED the second claim
  chooses before the first has committed and skips the row that the first has locked; both
  commit, and an agent with room for one task executes two.\<close>

theorem overlapping_claims_exceed_limit:
  "\<exists>db t u. queue_inv db \<and> within_limits db \<and> claim_select db [] = Some t \<and>
     claim_select db [at_id t] = Some u \<and>
     \<not> within_limits (claim_commit (claim_commit db ''h1'' (at_id t)) ''h2'' (at_id u))"
proof -
  let ?db = "demo_db [demo_task 10 2 0 1, demo_task 11 3 4 2]"
  have "within_limits ?db"
    by (simp add: within_limits_def demo_db_def executing_count_def task_executing_def demo_task_def
        demo_agent_def)
  moreover have "claim_select ?db [] = Some (demo_task 11 3 4 2)" by code_simp
  moreover have "claim_select ?db [at_id (demo_task 11 3 4 2)] = Some (demo_task 10 2 0 1)" by code_simp
  moreover have "\<not> within_limits (claim_commit (claim_commit ?db ''h1'' (at_id (demo_task 11 3 4 2)))
      ''h2'' (at_id (demo_task 10 2 0 1)))"
    by (simp add: within_limits_def claim_commit_def demo_db_def tbl_update_def demo_task_def
        executing_count_def task_executing_def demo_agent_def agent_find_def tbl_find_Cons)
  ultimately show ?thesis using demo_inv by blast
qed

text \<open>an update keeps the history of a task: the first start time stays, a task that ends is
  stamped with the time of that update, a resume of work clears nothing else, and a patch
  without fields changes only \<open>updated_at\<close>.\<close>

theorem update_keeps_history:
  fixes t :: agent_task
  shows "(at_started_at t \<noteq> None \<longrightarrow> at_started_at (apply_patch now p t) = at_started_at t) \<and>
    (tp_status p = Some Running \<longrightarrow> at_started_at (apply_patch now p t) \<noteq> None) \<and>
    (\<forall>s. tp_status p = Some s \<and> terminal_status s \<longrightarrow> at_completed_at (apply_patch now p t) = Some now) \<and>
    (\<forall>s. tp_status p = Some s \<and> \<not> terminal_status s \<longrightarrow>
        at_completed_at (apply_patch now p t) = at_completed_at t) \<and>
    apply_patch now empty_patch t = t\<lparr>at_updated_at := now\<rparr>"
  by (auto simp: apply_patch_def empty_patch_def opt_or_def split: option.splits)

theorem update_keeps_history_witness:
  "at_started_at (apply_patch 8 (empty_patch\<lparr>tp_status := Some Running\<rparr>)
      ((demo_task 10 2 0 1)\<lparr>at_started_at := Some 6\<rparr>)) = Some 6 \<and>
   at_completed_at (apply_patch 9 (empty_patch\<lparr>tp_status := Some Failed\<rparr>) (demo_task 10 2 0 1)) = Some 9"
  using update_keeps_history [of "(demo_task 10 2 0 1)\<lparr>at_started_at := Some 6\<rparr>" 8
      "empty_patch\<lparr>tp_status := Some Running\<rparr>"]
    update_keeps_history [of "demo_task 10 2 0 1" 9 "empty_patch\<lparr>tp_status := Some Failed\<rparr>"]
  by (simp add: terminal_status_def)

end
