(* ===== verification/Squad_Walk.thy ===== *)
theory Squad_Walk
  imports Squad_Graph Squad_Condition Pipeline_Job Agent_Task_Queue_Props
begin

text \<open>
  The orchestrator: \<open>walk_node\<close>, \<open>follow_edges\<close>, \<open>await_agent_task\<close> and
  \<open>collect_handoff_diff\<close> of execute_squad_pipeline (crates/remote/src/routes/squads.rs).

  The async functions are one machine. A thread is the main walk or one branch future of a
  \<open>fork\<close>; its record has the local variables that live across calls (\<open>while_stack\<close>,
  \<open>visiting\<close>), the stack of callers that still have edges or body edges to follow, and the
  control point. The control points are the points where the code can be suspended
  (\<open>.await\<close> on the database, a sleep, the join barrier) and the entry and return of
  \<open>walk_node\<close>. \<open>SharedWalk\<close> is the record \<open>shared\<close>, the database and the clock with it.
  A fork's futures run on one task, so a step between two control points is atomic; the
  order in which threads step, time passes, the database fails and other clients change the
  task table is the order of the events of a run.
\<close>

section \<open>State\<close>

datatype walk_error =
    MissingNode string | NoAgentNoLeader string | JobNeedsAgent string | ScriptNoCommand string
  | JobEncodeFailed | DbFailed db_error | TaskDisappeared uuid

datatype iter_note = SuccessConditionMet | UntilMet cond_reason | UntilNotMet cond_reason

datatype log_line =
    LogBudgetExhausted
  | LogStartFrom string
  | LogTargetsRepo string "string option"
  | LogAgentEnqueued string uuid uuid
  | LogJobEnqueued squad_node_type string uuid
  | LogFinished agent_task_status string
  | LogDiffCollected nat | LogDiffUnavailable
  | LogErrorEdges | LogStoppingBranch squad_node_type
  | LogWaitSleeping string nat string | LogWaitCapped int | LogWaitRecorded string string
  | LogIf string squad_edge_branch cond_reason | LogNoEdge squad_edge_branch
  | LogWhile string nat | LogIter nat iter_note | LogNoBody
  | LogBreak string | LogExitingWhile string | LogBreakIgnored
  | LogFork string nat | LogForkError walk_error
  | LogJoinArrival string nat nat | LogJoinTimeout string nat nat
  | LogJoinNonLeader string | LogJoinReleased string
  | LogWaitApproval string string "string option"

record join_gate =
  jg_expected :: nat
  jg_arrived :: nat
  jg_leader_taken :: bool

record pipeline_pause =
  pp_pause_node_id :: string
  pp_resume_node_id :: "string option"
  pp_approval_kind :: string
  pp_approval_prompt :: string

record shared =
  sh_db :: remote_db
  sh_clock :: nat
  sh_agent_task_ids :: "uuid list"
  sh_ordered_node_ids :: "string list"
  sh_run_log :: "log_line list"
  sh_step_budget :: nat
  sh_agent_priority :: int
  sh_last_agent_result :: "agent_step_result option"
  sh_join_gates :: "string \<Rightarrow> join_gate option"
  sh_pause :: "pipeline_pause option"

record walk_ctx =
  wc_squad :: squad
  wc_issue_id :: uuid
  wc_preferred_repo :: "string option"
  wc_await_secs :: nat
  wc_loop_success :: "string option"
  wc_to_string :: "pipeline_job_spec \<Rightarrow> string option"

datatype frame =
    KEdges string "squad_edge list"
  | KBody string nat nat "squad_edge list"
  | KRoots "string list"

datatype ctl =
    Visit string
  | EnqAgent string uuid int bool "string option" "string option"
  | AwaitAgent string uuid nat
  | DiffWs string agent_step_result
  | EnqDiff string agent_step_result uuid string
  | AwaitDiff string agent_step_result uuid nat
  | Sleeping string nat
  | AtJoin string nat
  | JobWs string uuid int
  | EnqJob string uuid int string
  | AwaitJob string uuid nat
  | Spawn string "string list"
  | Forked "nat list"
  | Return bool
  | Raise walk_error
  | Done "walk_error + bool"

record thread =
  th_frames :: "frame list"
  th_while_stack :: "(string \<times> bool) list"
  th_visiting :: "string list"
  th_ctl :: ctl

section \<open>Constants\<close>

definition max_sync_wait_secs :: int where "max_sync_wait_secs = 30"
definition join_barrier_timeout :: nat where "join_barrier_timeout = 60 * 60"
definition handoff_diff_max_chars :: nat where "handoff_diff_max_chars = 12000"
definition step_budget :: nat where "step_budget = 256"
definition first_priority :: int where "first_priority = 100"

section \<open>Pieces of \<open>walk_node\<close>\<close>

definition log :: "log_line \<Rightarrow> shared \<Rightarrow> shared" where
  "log l sh = sh\<lparr>sh_run_log := sh_run_log sh @ [l]\<rparr>"

definition pl :: "walk_ctx \<Rightarrow> squad_pipeline" where
  "pl cx = sq_pipeline (wc_squad cx)"

definition node_name :: "squad_node \<Rightarrow> string" where
  "node_name n = unwrap_or (node_label n) (node_id n)"

definition node_repo :: "walk_ctx \<Rightarrow> squad_node \<Rightarrow> string option" where
  "node_repo cx n = opt_or (trim_nonempty (node_working_directory n)) (wc_preferred_repo cx)"

definition step_agent :: "walk_ctx \<Rightarrow> squad_node \<Rightarrow> uuid option" where
  "step_agent cx n = opt_or (node_agent_id n) (sq_leader_agent_id (wc_squad cx))"

fun follow_edges :: "string \<Rightarrow> squad_edge list \<Rightarrow> thread \<Rightarrow> thread" where
  \<comment> \<open>the loop of \<open>follow_edges\<close> up to the next call of \<open>walk_node\<close>\<close>
  "follow_edges from [] th = th\<lparr>th_ctl := Return False\<rparr>"
| "follow_edges from (e # es) th =
     (let key = from @ ''->'' @ edge_target e in
      if key \<in> set (th_visiting th) then follow_edges from es th
      else th\<lparr>th_visiting := key # th_visiting th, th_frames := KEdges from es # th_frames th,
              th_ctl := Visit (edge_target e)\<rparr>)"

definition follow_branch :: "walk_ctx \<Rightarrow> string \<Rightarrow> squad_edge_branch \<Rightarrow> thread \<Rightarrow> thread" where
  "follow_branch cx i b th = follow_edges i (edges_for_branch (outs (pl cx) i) b) th"

definition take_priority :: "shared \<Rightarrow> int \<times> shared" where
  \<comment> \<open>\<open>saturating_sub\<close> on \<open>i32\<close>\<close>
  "take_priority sh =
     (sh_agent_priority sh,
      sh\<lparr>sh_agent_priority := max (- (2 ^ 31)) (sh_agent_priority sh - 1)\<rparr>)"

definition heading :: "string \<Rightarrow> string option \<Rightarrow> string list" where
  "heading title body =
     (case body of None \<Rightarrow> [] | Some b \<Rightarrow> if b = [] then [] else [title @ nl @ b])"

definition handoff_part :: "agent_step_result \<Rightarrow> string" where
  "handoff_part r =
     ''## Previous step handoff'' @ nl @ ''Status: '' @ debug_status (sr_status r) @ nl @
     sr_summary r @ nl @
     (case sr_failure_reason r of None \<Rightarrow> [] | Some f \<Rightarrow> ''Failure: '' @ f)"

definition diff_part :: "string \<Rightarrow> string" where
  "diff_part d =
     ''## Diff from previous step'' @ nl @
     ''Review the actual changes below rather than trusting the summary.'' @ nl @
     ''```diff'' @ nl @ d @ nl @ ''```''"

definition agent_prompt :: "squad_node \<Rightarrow> agent_step_result option \<Rightarrow> string option" where
  "agent_prompt n prev =
     (let parts = heading ''## Role'' (node_role n)
            @ heading ''## Step instructions'' (node_prompt n)
            @ (case prev of None \<Rightarrow> []
               | Some r \<Rightarrow> handoff_part r #
                   (case sr_diff r of None \<Rightarrow> []
                    | Some d \<Rightarrow> if str_trim d = [] then [] else [diff_part d])) in
      if parts = [] then None else Some (join_with (nl @ nl) parts))"

definition script_command :: "squad_node \<Rightarrow> string option" where
  "script_command n =
     (case opt_or (node_command n) (node_prompt n) of
        None \<Rightarrow> None | Some c \<Rightarrow> (if str_trim c = [] then None else Some c))"

definition job_spec_of :: "squad_node \<Rightarrow> uuid option \<Rightarrow> walk_error + pipeline_job_spec" where
  "job_spec_of n ws =
     (if node_type n = NodeScript then
        (case script_command n of
           None \<Rightarrow> Inl (ScriptNoCommand (node_name n))
         | Some c \<Rightarrow> Inr \<lparr>job_kind = JobScript, job_command = Some c, job_op = None,
                 job_target_branch = None, job_local_workspace_id = ws,
                 job_label = Some (node_name n)\<rparr>)
      else Inr \<lparr>job_kind = JobGitOp, job_command = None,
             job_op = Some (unwrap_or (opt_or (node_git_op n) (node_prompt n)) ''rebase''),
             job_target_branch = opt_or (node_wait_for n) (Some ''main''),
             job_local_workspace_id = ws, job_label = Some (node_name n)\<rparr>)"

definition diff_command :: string where
  "diff_command = ''git --no-pager diff --stat HEAD 2>/dev/null; ''
     @ ''echo '' @ [CHR 0x27] @ ''--- PATCH ---'' @ [CHR 0x27] @ ''; ''
     @ ''git --no-pager diff HEAD 2>/dev/null''"

definition diff_job :: "squad_node \<Rightarrow> uuid option \<Rightarrow> pipeline_job_spec" where
  "diff_job n ws = \<lparr>job_kind = JobScript, job_command = Some diff_command, job_op = None,
     job_target_branch = None, job_local_workspace_id = ws,
     job_label = Some (node_name n @ utf8 [32, 194, 183, 32] @ ''collect diff'')\<rparr>"

definition truncate_diff :: "string \<Rightarrow> string" where
  "truncate_diff d =
     (if handoff_diff_max_chars < char_count d
      then concat (take handoff_diff_max_chars (utf8_chars d))
             @ nl @ utf8 [226, 128, 166, 32] @ ''(diff truncated)''
      else d)"

section \<open>\<open>while\<close>\<close>

definition max_iter :: "squad_node \<Rightarrow> nat" where
  "max_iter n = nat (max 1 (min 20 (unwrap_or (node_max_iterations n) 3)))"

definition while_exit :: "walk_ctx \<Rightarrow> string \<Rightarrow> thread \<Rightarrow> thread" where
  "while_exit cx i th =
     (let exit = edges_for_branch (outs (pl cx) i) BranchExit;
          es = (if exit = [] then edges_for_branch (outs (pl cx) i) BranchDefault else exit) in
      follow_edges i es (th\<lparr>th_while_stack := tl (th_while_stack th)\<rparr>))"

definition success_met :: "walk_ctx \<Rightarrow> agent_step_result option \<Rightarrow> bool" where
  "success_met cx prev =
     (case (trim_nonempty (wc_loop_success cx), prev) of
        (Some sc, Some r) \<Rightarrow>
          sr_status r = Completed \<and> str_contains (str_lower sc) (str_lower (sr_summary r))
      | _ \<Rightarrow> False)"

definition while_iter ::
  "walk_ctx \<Rightarrow> squad_node \<Rightarrow> nat \<Rightarrow> nat \<Rightarrow> shared \<Rightarrow> thread \<Rightarrow> shared \<times> thread" where
  \<comment> \<open>the head of the \<open>for\<close> loop at iteration \<open>iter\<close>, up to the first body node\<close>
  "while_iter cx n iter mx sh th =
     (let i = node_id n; prev = sh_last_agent_result sh in
      if mx \<le> iter \<or> (case th_while_stack th of [] \<Rightarrow> False | f # _ \<Rightarrow> snd f)
        then (sh, while_exit cx i th)
      else if success_met cx prev
        then (log (LogIter (iter + 1) SuccessConditionMet) sh, while_exit cx i th)
      else case eval_condition (node_condition n) prev (wc_loop_success cx) of (met, reason) \<Rightarrow>
        (if met then (log (LogIter (iter + 1) (UntilMet reason)) sh, while_exit cx i th)
         else
           (let sh1 = log (LogIter (iter + 1) (UntilNotMet reason)) sh in
            case edges_for_branch (outs (pl cx) i) BranchBody of
              [] \<Rightarrow> (log LogNoBody sh1, while_exit cx i th)
            | e # es \<Rightarrow> (sh1, th\<lparr>th_frames := KBody i iter mx es # th_frames th,
                                th_ctl := Visit (edge_target e)\<rparr>))))"

section \<open>Entry of a node\<close>

definition set_broke :: "thread \<Rightarrow> thread" where
  "set_broke th = th\<lparr>th_while_stack :=
     (case th_while_stack th of [] \<Rightarrow> [] | (i, _) # fs \<Rightarrow> (i, True) # fs)\<rparr>"

definition visit_agent :: "walk_ctx \<Rightarrow> squad_node \<Rightarrow> shared \<Rightarrow> thread \<Rightarrow> shared \<times> thread" where
  "visit_agent cx n sh th =
     (case step_agent cx n of
        None \<Rightarrow> (sh, th\<lparr>th_ctl := Raise (NoAgentNoLeader (node_name n))\<rparr>)
      | Some a \<Rightarrow>
          (let leader = (Some a = sq_leader_agent_id (wc_squad cx) \<and> sh_agent_task_ids sh = []) in
           case take_priority sh of (p, sh1) \<Rightarrow>
             (sh1, th\<lparr>th_ctl := EnqAgent (node_id n) a p leader (node_repo cx n)
                                  (agent_prompt n (sh_last_agent_result sh1))\<rparr>)))"

definition visit_wait :: "walk_ctx \<Rightarrow> squad_node \<Rightarrow> shared \<Rightarrow> thread \<Rightarrow> shared \<times> thread" where
  "visit_wait cx n sh th =
     (let requested = max 0 (unwrap_or (node_wait_seconds n) 0);
          secs = nat (min requested max_sync_wait_secs);
          wait_for = unwrap_or (node_wait_for n) [] in
      if 0 < secs then
        (let sh1 = log (LogWaitSleeping (node_name n) secs wait_for) sh;
             sh2 = (if max_sync_wait_secs < requested then log (LogWaitCapped requested) sh1 else sh1) in
         (sh2, th\<lparr>th_ctl := Sleeping (node_id n) (sh_clock sh + secs)\<rparr>))
      else (log (LogWaitRecorded (node_name n) wait_for) sh,
            follow_branch cx (node_id n) BranchDefault th))"

definition visit_if :: "walk_ctx \<Rightarrow> squad_node \<Rightarrow> shared \<Rightarrow> thread \<Rightarrow> shared \<times> thread" where
  "visit_if cx n sh th =
     (case eval_condition (node_condition n) (sh_last_agent_result sh) (wc_loop_success cx) of
        (take_true, reason) \<Rightarrow>
          (let branch = (if take_true then BranchTrue else BranchFalse);
               es = edges_for_branch (outs (pl cx) (node_id n)) branch;
               taken = (if es = [] \<and> take_true
                        then edges_for_branch (outs (pl cx) (node_id n)) BranchDefault else es);
               sh1 = log (LogIf (node_name n) branch reason) sh;
               sh2 = (if taken = [] then log (LogNoEdge branch) sh1 else sh1) in
           (sh2, follow_edges (node_id n) taken th)))"

definition visit_while :: "walk_ctx \<Rightarrow> squad_node \<Rightarrow> shared \<Rightarrow> thread \<Rightarrow> shared \<times> thread" where
  "visit_while cx n sh th =
     while_iter cx n 0 (max_iter n) (log (LogWhile (node_name n) (max_iter n)) sh)
       (th\<lparr>th_while_stack := (node_id n, False) # th_while_stack th\<rparr>)"

definition visit_break :: "squad_node \<Rightarrow> shared \<Rightarrow> thread \<Rightarrow> shared \<times> thread" where
  "visit_break n sh th =
     (let sh1 = log (LogBreak (node_name n)) sh in
      case th_while_stack th of
        [] \<Rightarrow> (log LogBreakIgnored sh1, th\<lparr>th_ctl := Return False\<rparr>)
      | (i, _) # _ \<Rightarrow> (log (LogExitingWhile i) sh1, (set_broke th)\<lparr>th_ctl := Return True\<rparr>))"

definition visit_fork :: "walk_ctx \<Rightarrow> squad_node \<Rightarrow> shared \<Rightarrow> thread \<Rightarrow> shared \<times> thread" where
  "visit_fork cx n sh th =
     (let branches = edges_for_branch (outs (pl cx) (node_id n)) BranchDefault;
          sh1 = log (LogFork (node_name n) (length branches)) sh in
      if branches = [] then (sh1, th\<lparr>th_ctl := Return False\<rparr>)
      else (sh1, th\<lparr>th_ctl := Spawn (node_id n) (map edge_target branches)\<rparr>))"

definition join_expected :: "walk_ctx \<Rightarrow> squad_node \<Rightarrow> nat" where
  "join_expected cx n =
     (let inbound = max 1 (length (ins (pl cx) (node_id n))) in
      case node_join_count n of
        None \<Rightarrow> inbound
      | Some k \<Rightarrow> nat (max 1 (min (int inbound) k)))"

definition arrive :: "string \<Rightarrow> nat \<Rightarrow> shared \<Rightarrow> join_gate" where
  \<comment> \<open>\<open>entry(..).or_insert_with(..)\<close> and \<open>fetch_add\<close>\<close>
  "arrive i expected sh =
     (let g = (case sh_join_gates sh i of
                 None \<Rightarrow> \<lparr>jg_expected = expected, jg_arrived = 0, jg_leader_taken = False\<rparr>
               | Some g \<Rightarrow> g) in g\<lparr>jg_arrived := jg_arrived g + 1\<rparr>)"

definition visit_join :: "walk_ctx \<Rightarrow> squad_node \<Rightarrow> shared \<Rightarrow> thread \<Rightarrow> shared \<times> thread" where
  "visit_join cx n sh th =
     (let i = node_id n; g = arrive i (join_expected cx n) sh in
      (log (LogJoinArrival (node_name n) (jg_arrived g) (join_expected cx n))
         (sh\<lparr>sh_join_gates := (sh_join_gates sh)(i := Some g)\<rparr>),
       th\<lparr>th_ctl := AtJoin i (sh_clock sh + join_barrier_timeout)\<rparr>))"

definition approval_prompt_default :: "string \<Rightarrow> string" where
  "approval_prompt_default label =
     utf8 [230, 181, 129, 230, 176, 180, 231, 186, 191, 229, 156, 168, 230, 173, 165, 233, 170, 164,
           227, 128, 140] @ label @
     utf8 [227, 128, 141, 231, 173, 137, 229, 190, 133, 228, 189, 160, 231, 154, 132, 231, 161, 174,
           232, 174, 164, 227, 128, 130] @ ''Approve '' @ utf8 [231, 187, 167, 231, 187, 173, 239, 188,
           140] @ ''Reject '' @ utf8 [229, 143, 150, 230, 182, 136, 227, 128, 130]"

definition visit_wait_approval :: "walk_ctx \<Rightarrow> squad_node \<Rightarrow> shared \<Rightarrow> thread \<Rightarrow> shared \<times> thread" where
  "visit_wait_approval cx n sh th =
     (let kind = unwrap_or (opt_or (node_approval_kind n) (node_wait_for n)) ''approval'';
          prompt = unwrap_or (opt_or (node_prompt_template n) (node_prompt n))
                     (approval_prompt_default (node_name n));
          resume = (case edges_for_branch (outs (pl cx) (node_id n)) BranchDefault of
                      [] \<Rightarrow> None | e # _ \<Rightarrow> Some (edge_target e));
          sh1 = log (LogWaitApproval (node_name n) kind resume) sh in
      (sh1\<lparr>sh_pause := Some \<lparr>pp_pause_node_id = node_id n, pp_resume_node_id = resume,
             pp_approval_kind = kind, pp_approval_prompt = prompt\<rparr>\<rparr>,
       th\<lparr>th_ctl := Return False\<rparr>))"

definition visit_job :: "walk_ctx \<Rightarrow> squad_node \<Rightarrow> shared \<Rightarrow> thread \<Rightarrow> shared \<times> thread" where
  "visit_job cx n sh th =
     (case step_agent cx n of
        None \<Rightarrow> (sh, th\<lparr>th_ctl := Raise (JobNeedsAgent (node_name n))\<rparr>)
      | Some a \<Rightarrow>
          (case take_priority sh of (p, sh1) \<Rightarrow> (sh1, th\<lparr>th_ctl := JobWs (node_id n) a p\<rparr>)))"

fun visit_kind ::
  "squad_node_type \<Rightarrow> walk_ctx \<Rightarrow> squad_node \<Rightarrow> shared \<Rightarrow> thread \<Rightarrow> shared \<times> thread" where
  "visit_kind NodeAgent cx n sh th = visit_agent cx n sh th"
| "visit_kind NodeWait cx n sh th = visit_wait cx n sh th"
| "visit_kind NodeIf cx n sh th = visit_if cx n sh th"
| "visit_kind NodeWhile cx n sh th = visit_while cx n sh th"
| "visit_kind NodeBreak cx n sh th = visit_break n sh th"
| "visit_kind NodeFork cx n sh th = visit_fork cx n sh th"
| "visit_kind NodeJoin cx n sh th = visit_join cx n sh th"
| "visit_kind NodeWaitApproval cx n sh th = visit_wait_approval cx n sh th"
| "visit_kind NodeScript cx n sh th = visit_job cx n sh th"
| "visit_kind NodeGitOp cx n sh th = visit_job cx n sh th"

definition walk_node :: "walk_ctx \<Rightarrow> string \<Rightarrow> shared \<Rightarrow> thread \<Rightarrow> shared \<times> thread" where
  "walk_node cx i sh th =
     (if sh_step_budget sh = 0 then (log LogBudgetExhausted sh, th\<lparr>th_ctl := Return False\<rparr>)
      else
        (let sh1 = sh\<lparr>sh_step_budget := sh_step_budget sh - 1\<rparr> in
         case node_lookup (pl cx) i of
           None \<Rightarrow> (sh1, th\<lparr>th_ctl := Raise (MissingNode i)\<rparr>)
         | Some n \<Rightarrow>
             (let sh2 = sh1\<lparr>sh_ordered_node_ids := sh_ordered_node_ids sh1 @ [i]\<rparr>;
                  sh3 = (if node_working_directory n \<noteq> None \<and> node_repo cx n \<noteq> wc_preferred_repo cx
                         then log (LogTargetsRepo (node_name n) (node_repo cx n)) sh2 else sh2) in
              visit_kind (node_type n) cx n sh3 th)))"

end
