(* ===== verification/Squad_Machine.thy ===== *)
theory Squad_Machine
  imports Squad_Walk
begin

text \<open>
  The steps of the orchestrator between its suspension points, the return of a call to the
  loop that made it, and the runs of all threads together under a schedule of events. The
  pieces of \<open>walk_node\<close> that come after an \<open>.await\<close> are here; those before the first one
  are in \<open>Squad_Walk\<close>.
\<close>

section \<open>After an await\<close>

definition node_of :: "walk_ctx \<Rightarrow> string \<Rightarrow> squad_node" where
  \<comment> \<open>the node that a control point inside \<open>walk_node\<close> belongs to; it was found on entry\<close>
  "node_of cx i = (case node_lookup (pl cx) i of None \<Rightarrow> default_node i | Some n \<Rightarrow> n)"

definition step_done ::
  "walk_ctx \<Rightarrow> string \<Rightarrow> agent_step_result \<Rightarrow> shared \<Rightarrow> thread \<Rightarrow> shared \<times> thread" where
  "step_done cx i r sh th =
     (let sh1 = sh\<lparr>sh_last_agent_result := Some r\<rparr>;
          err = edges_for_branch (outs (pl cx) i) BranchError in
      if sr_status r = Completed then (sh1, follow_branch cx i BranchDefault th)
      else if err \<noteq> [] then (log LogErrorEdges sh1, follow_edges i err th)
      else (log (LogStoppingBranch (node_type (node_of cx i))) sh1, th\<lparr>th_ctl := Return False\<rparr>))"

definition agent_enqueue ::
  "walk_ctx \<Rightarrow> string \<Rightarrow> uuid \<Rightarrow> int \<Rightarrow> bool \<Rightarrow> string option \<Rightarrow> string option \<Rightarrow> shared \<Rightarrow> thread \<Rightarrow>
   shared \<times> thread" where
  "agent_enqueue cx i a p leader repo prompt sh th =
     (case enqueue (sh_db sh) None a (wc_issue_id cx) Manual p True (Some (sq_id (wc_squad cx)))
             leader repo prompt None of
        Inl e \<Rightarrow> (sh, th\<lparr>th_ctl := Raise (DbFailed e)\<rparr>)
      | Inr (t, db) \<Rightarrow>
          (log (LogAgentEnqueued (node_name (node_of cx i)) (at_id t) a)
             (sh\<lparr>sh_db := db, sh_agent_task_ids := sh_agent_task_ids sh @ [at_id t]\<rparr>),
           th\<lparr>th_ctl := AwaitAgent i (at_id t) (sh_clock sh + wc_await_secs cx)\<rparr>))"

definition agent_finished ::
  "walk_ctx \<Rightarrow> string \<Rightarrow> agent_step_result \<Rightarrow> shared \<Rightarrow> thread \<Rightarrow> shared \<times> thread" where
  "agent_finished cx i r sh th =
     (let sh1 = log (LogFinished (sr_status r) (sr_summary r)) sh in
      if sr_status r = Completed \<and> unwrap_or (node_handoff_diff (node_of cx i)) False
      then (sh1, th\<lparr>th_ctl := DiffWs i r\<rparr>)
      else step_done cx i r sh1 th)"

definition diff_unavailable ::
  "walk_ctx \<Rightarrow> string \<Rightarrow> agent_step_result \<Rightarrow> shared \<Rightarrow> thread \<Rightarrow> shared \<times> thread" where
  "diff_unavailable cx i r sh th = step_done cx i r (log LogDiffUnavailable sh) th"

definition diff_prepare ::
  "walk_ctx \<Rightarrow> string \<Rightarrow> agent_step_result \<Rightarrow> uuid option \<Rightarrow> shared \<Rightarrow> thread \<Rightarrow> shared \<times> thread" where
  "diff_prepare cx i r ws sh th =
     (case job_encode (wc_to_string cx) (diff_job (node_of cx i) ws) of
        None \<Rightarrow> diff_unavailable cx i r sh th
      | Some prompt \<Rightarrow>
          (case sq_leader_agent_id (wc_squad cx) of
             None \<Rightarrow> diff_unavailable cx i r sh th
           | Some a \<Rightarrow> (sh, th\<lparr>th_ctl := EnqDiff i r a prompt\<rparr>)))"

definition diff_enqueue ::
  "walk_ctx \<Rightarrow> string \<Rightarrow> agent_step_result \<Rightarrow> uuid \<Rightarrow> string \<Rightarrow> shared \<Rightarrow> thread \<Rightarrow> shared \<times> thread" where
  "diff_enqueue cx i r a prompt sh th =
     (case enqueue (sh_db sh) None a (wc_issue_id cx) Manual 0 True (Some (sq_id (wc_squad cx)))
             False (node_repo cx (node_of cx i)) (Some prompt) None of
        Inl e \<Rightarrow> diff_unavailable cx i r sh th
      | Inr (t, db) \<Rightarrow>
          (sh\<lparr>sh_db := db\<rparr>,
           th\<lparr>th_ctl := AwaitDiff i r (at_id t) (sh_clock sh + wc_await_secs cx)\<rparr>))"

definition diff_finished ::
  "walk_ctx \<Rightarrow> string \<Rightarrow> agent_step_result \<Rightarrow> agent_step_result \<Rightarrow> shared \<Rightarrow> thread \<Rightarrow> shared \<times> thread" where
  "diff_finished cx i r r2 sh th =
     (if sr_status r2 \<noteq> Completed then diff_unavailable cx i r sh th
      else let d = truncate_diff (sr_summary r2) in
           step_done cx i (r\<lparr>sr_diff := Some d\<rparr>) (log (LogDiffCollected (char_count d)) sh) th)"

definition job_prepare ::
  "walk_ctx \<Rightarrow> string \<Rightarrow> uuid \<Rightarrow> int \<Rightarrow> uuid option \<Rightarrow> shared \<Rightarrow> thread \<Rightarrow> shared \<times> thread" where
  "job_prepare cx i a p ws sh th =
     (case job_spec_of (node_of cx i) ws of
        Inl e \<Rightarrow> (sh, th\<lparr>th_ctl := Raise e\<rparr>)
      | Inr spec \<Rightarrow>
          (case job_encode (wc_to_string cx) spec of
             None \<Rightarrow> (sh, th\<lparr>th_ctl := Raise JobEncodeFailed\<rparr>)
           | Some prompt \<Rightarrow> (sh, th\<lparr>th_ctl := EnqJob i a p prompt\<rparr>)))"

definition job_enqueue ::
  "walk_ctx \<Rightarrow> string \<Rightarrow> uuid \<Rightarrow> int \<Rightarrow> string \<Rightarrow> shared \<Rightarrow> thread \<Rightarrow> shared \<times> thread" where
  "job_enqueue cx i a p prompt sh th =
     (case enqueue (sh_db sh) None a (wc_issue_id cx) Manual p True (Some (sq_id (wc_squad cx)))
             False (node_repo cx (node_of cx i)) (Some prompt) None of
        Inl e \<Rightarrow> (sh, th\<lparr>th_ctl := Raise (DbFailed e)\<rparr>)
      | Inr (t, db) \<Rightarrow>
          (log (LogJobEnqueued (node_type (node_of cx i)) (node_name (node_of cx i)) (at_id t))
             (sh\<lparr>sh_db := db, sh_agent_task_ids := sh_agent_task_ids sh @ [at_id t],
                 sh_ordered_node_ids := sh_ordered_node_ids sh @ [i]\<rparr>),
           th\<lparr>th_ctl := AwaitJob i (at_id t) (sh_clock sh + wc_await_secs cx)\<rparr>))"

definition job_finished ::
  "walk_ctx \<Rightarrow> string \<Rightarrow> agent_step_result \<Rightarrow> shared \<Rightarrow> thread \<Rightarrow> shared \<times> thread" where
  "job_finished cx i r sh th =
     step_done cx i r (log (LogFinished (sr_status r) (sr_summary r)) sh) th"

definition join_pass :: "walk_ctx \<Rightarrow> string \<Rightarrow> join_gate \<Rightarrow> shared \<Rightarrow> thread \<Rightarrow> shared \<times> thread" where
  \<comment> \<open>after the barrier: \<open>leader_taken.swap(true)\<close>\<close>
  "join_pass cx i g sh th =
     (if jg_leader_taken g
      then (log (LogJoinNonLeader i) sh, th\<lparr>th_ctl := Return False\<rparr>)
      else (log (LogJoinReleased i)
              (sh\<lparr>sh_join_gates := (sh_join_gates sh)(i := Some (g\<lparr>jg_leader_taken := True\<rparr>))\<rparr>),
            follow_branch cx i BranchDefault th))"

definition join_wait :: "walk_ctx \<Rightarrow> string \<Rightarrow> nat \<Rightarrow> shared \<Rightarrow> thread \<Rightarrow> shared \<times> thread" where
  "join_wait cx i deadline sh th =
     (case sh_join_gates sh i of
        None \<Rightarrow> (sh, th)
      | Some g \<Rightarrow>
          (if jg_expected g \<le> jg_arrived g then join_pass cx i g sh th
           else if deadline \<le> sh_clock sh
             then join_pass cx i g
                    (log (LogJoinTimeout i (jg_arrived g) (join_expected cx (node_of cx i))) sh) th
           else (sh, th)))"

section \<open>Returning to the caller\<close>

definition top_broke :: "thread \<Rightarrow> bool" where
  "top_broke th = (case th_while_stack th of [] \<Rightarrow> False | f # _ \<Rightarrow> snd f)"

definition return_to :: "walk_ctx \<Rightarrow> bool \<Rightarrow> shared \<Rightarrow> thread \<Rightarrow> shared \<times> thread" where
  "return_to cx b sh th =
     (case th_frames th of
        [] \<Rightarrow> (sh, th\<lparr>th_ctl := Done (Inr b)\<rparr>)
      | KEdges from es # fs \<Rightarrow>
          (let th1 = th\<lparr>th_frames := fs\<rparr> in
           if b then (sh, th1\<lparr>th_ctl := Return True\<rparr>) else (sh, follow_edges from es th1))
      | KBody i iter mx es # fs \<Rightarrow>
          (let th1 = th\<lparr>th_frames := fs\<rparr> in
           if b \<or> top_broke th then while_iter cx (node_of cx i) (iter + 1) mx sh th1
           else (case es of
               [] \<Rightarrow> while_iter cx (node_of cx i) (iter + 1) mx sh th1
             | e # es' \<Rightarrow> (sh, th\<lparr>th_frames := KBody i iter mx es' # fs,
                                th_ctl := Visit (edge_target e)\<rparr>)))
      | KRoots rs # fs \<Rightarrow>
          (case rs of
             [] \<Rightarrow> (sh, th\<lparr>th_frames := fs, th_ctl := Done (Inr False)\<rparr>)
           | r # rs' \<Rightarrow> (sh, th\<lparr>th_frames := KRoots rs' # fs, th_ctl := Visit r\<rparr>)))"

section \<open>One thread\<close>

fun ctl_step :: "walk_ctx \<Rightarrow> ctl \<Rightarrow> shared \<Rightarrow> thread \<Rightarrow> shared \<times> thread" where
  "ctl_step cx (Visit i) sh th = walk_node cx i sh th"
| "ctl_step cx (EnqAgent i a p leader repo prompt) sh th =
     agent_enqueue cx i a p leader repo prompt sh th"
| "ctl_step cx (AwaitAgent i tid deadline) sh th =
     (case await_poll (sh_db sh) tid (wc_await_secs cx) deadline (sh_clock sh) of
        TaskGone \<Rightarrow> (sh, th\<lparr>th_ctl := Raise (TaskDisappeared tid)\<rparr>)
      | Ended r \<Rightarrow> agent_finished cx i r sh th
      | Pending \<Rightarrow> (sh, th))"
| "ctl_step cx (DiffWs i r) sh th =
     diff_prepare cx i r (latest_local_workspace_for_issue (sh_db sh) (wc_issue_id cx)) sh th"
| "ctl_step cx (EnqDiff i r a prompt) sh th = diff_enqueue cx i r a prompt sh th"
| "ctl_step cx (AwaitDiff i r tid deadline) sh th =
     (case await_poll (sh_db sh) tid (wc_await_secs cx) deadline (sh_clock sh) of
        TaskGone \<Rightarrow> diff_unavailable cx i r sh th
      | Ended r2 \<Rightarrow> diff_finished cx i r r2 sh th
      | Pending \<Rightarrow> (sh, th))"
| "ctl_step cx (Sleeping i until) sh th =
     (if until \<le> sh_clock sh then (sh, follow_branch cx i BranchDefault th) else (sh, th))"
| "ctl_step cx (AtJoin i deadline) sh th = join_wait cx i deadline sh th"
| "ctl_step cx (JobWs i a p) sh th =
     job_prepare cx i a p (latest_local_workspace_for_issue (sh_db sh) (wc_issue_id cx)) sh th"
| "ctl_step cx (EnqJob i a p prompt) sh th = job_enqueue cx i a p prompt sh th"
| "ctl_step cx (AwaitJob i tid deadline) sh th =
     (case await_poll (sh_db sh) tid (wc_await_secs cx) deadline (sh_clock sh) of
        TaskGone \<Rightarrow> (sh, th\<lparr>th_ctl := Raise (TaskDisappeared tid)\<rparr>)
      | Ended r \<Rightarrow> job_finished cx i r sh th
      | Pending \<Rightarrow> (sh, th))"
| "ctl_step cx (Return b) sh th = return_to cx b sh th"
| "ctl_step cx (Raise e) sh th = (sh, th\<lparr>th_frames := [], th_ctl := Done (Inl e)\<rparr>)"
| "ctl_step cx (Spawn i ts) sh th = (sh, th)"
| "ctl_step cx (Forked ids) sh th = (sh, th)"
| "ctl_step cx (Done r) sh th = (sh, th)"

text \<open>A failing database call, at each control point that is one.\<close>

fun ctl_fault :: "walk_ctx \<Rightarrow> db_error \<Rightarrow> ctl \<Rightarrow> shared \<Rightarrow> thread \<Rightarrow> shared \<times> thread" where
  "ctl_fault cx e (EnqAgent i a p leader repo prompt) sh th = (sh, th\<lparr>th_ctl := Raise (DbFailed e)\<rparr>)"
| "ctl_fault cx e (AwaitAgent i tid deadline) sh th = (sh, th\<lparr>th_ctl := Raise (DbFailed e)\<rparr>)"
| "ctl_fault cx e (DiffWs i r) sh th = diff_prepare cx i r None sh th"
| "ctl_fault cx e (EnqDiff i r a prompt) sh th = diff_unavailable cx i r sh th"
| "ctl_fault cx e (AwaitDiff i r tid deadline) sh th = diff_unavailable cx i r sh th"
| "ctl_fault cx e (JobWs i a p) sh th = job_prepare cx i a p None sh th"
| "ctl_fault cx e (EnqJob i a p prompt) sh th = (sh, th\<lparr>th_ctl := Raise (DbFailed e)\<rparr>)"
| "ctl_fault cx e (AwaitJob i tid deadline) sh th = (sh, th\<lparr>th_ctl := Raise (DbFailed e)\<rparr>)"
| "ctl_fault cx e c sh th = (sh, th)"

section \<open>All threads\<close>

type_synonym world = "shared \<times> thread list"

definition branch_thread :: "string \<Rightarrow> string \<Rightarrow> thread" where
  "branch_thread from target =
     \<lparr>th_frames = [], th_while_stack = [], th_visiting = [from @ ''->'' @ target],
      th_ctl = Visit target\<rparr>"

definition is_done :: "thread \<Rightarrow> bool" where
  "is_done th = (case th_ctl th of Done _ \<Rightarrow> True | _ \<Rightarrow> False)"

definition result_of :: "thread \<Rightarrow> walk_error + bool" where
  "result_of th = (case th_ctl th of Done r \<Rightarrow> r | _ \<Rightarrow> Inr False)"

definition log_branch :: "walk_error + bool \<Rightarrow> shared \<Rightarrow> shared" where
  "log_branch r sh = (case r of Inl e \<Rightarrow> log (LogForkError e) sh | Inr _ \<Rightarrow> sh)"

definition joined_all :: "(walk_error + bool) list \<Rightarrow> shared \<Rightarrow> shared" where
  "joined_all rs sh = fold log_branch rs sh"

definition walk_step :: "walk_ctx \<Rightarrow> nat \<Rightarrow> world \<Rightarrow> world" where
  "walk_step cx k w =
     (case w of (sh, ths) \<Rightarrow>
        if k < length ths then
          (let th = ths ! k in
           case th_ctl th of
             Spawn i ts \<Rightarrow>
               (sh, ths[k := th\<lparr>th_ctl := Forked [length ths..<length ths + length ts]\<rparr>]
                      @ map (branch_thread i) ts)
           | Forked ids \<Rightarrow>
               (if \<forall>c \<in> set ids. c < length ths \<and> is_done (ths ! c) then
                  (let rs = map (\<lambda>c. result_of (ths ! c)) ids in
                   (joined_all rs sh, ths[k := th\<lparr>th_ctl := Return (Inr True \<in> set rs)\<rparr>]))
                else (sh, ths))
           | c \<Rightarrow> (case ctl_step cx c sh th of (sh', th') \<Rightarrow> (sh', ths[k := th'])))
        else w)"

definition walk_fault :: "walk_ctx \<Rightarrow> nat \<Rightarrow> db_error \<Rightarrow> world \<Rightarrow> world" where
  "walk_fault cx k e w =
     (case w of (sh, ths) \<Rightarrow>
        if k < length ths then
          (case ctl_fault cx e (th_ctl (ths ! k)) sh (ths ! k) of (sh', th') \<Rightarrow> (sh', ths[k := th']))
        else w)"

datatype walk_event = Step nat | Fault nat db_error | Tick nat | Env queue_op

fun event_step :: "walk_ctx \<Rightarrow> world \<Rightarrow> walk_event \<Rightarrow> world" where
  "event_step cx w (Step k) = walk_step cx k w"
| "event_step cx w (Fault k e) = walk_fault cx k e w"
| "event_step cx (sh, ths) (Tick n) =
     (sh\<lparr>sh_clock := sh_clock sh + n, sh_db := (sh_db sh)\<lparr>db_now := db_now (sh_db sh) + n\<rparr>\<rparr>, ths)"
| "event_step cx (sh, ths) (Env op) = (sh\<lparr>sh_db := queue_step (sh_db sh) op\<rparr>, ths)"

definition walk_run :: "walk_ctx \<Rightarrow> world \<Rightarrow> walk_event list \<Rightarrow> world" where
  "walk_run cx w evs = foldl (event_step cx) w evs"

definition init_shared :: "remote_db \<Rightarrow> nat \<Rightarrow> string option \<Rightarrow> shared" where
  "init_shared db now start =
     \<lparr>sh_db = db, sh_clock = now, sh_agent_task_ids = [], sh_ordered_node_ids = [],
      sh_run_log = (case start of None \<Rightarrow> [] | Some s \<Rightarrow> [LogStartFrom s]),
      sh_step_budget = step_budget, sh_agent_priority = first_priority,
      sh_last_agent_result = None, sh_join_gates = (\<lambda>_. None), sh_pause = None\<rparr>"

definition main_thread :: "string list \<Rightarrow> thread" where
  \<comment> \<open>\<open>for root in &roots\<close>\<close>
  "main_thread roots =
     \<lparr>th_frames = [KRoots (tl roots)], th_while_stack = [], th_visiting = [],
      th_ctl = Visit (hd roots)\<rparr>"

definition init_world :: "remote_db \<Rightarrow> nat \<Rightarrow> string option \<Rightarrow> string list \<Rightarrow> world" where
  "init_world db now start roots = (init_shared db now start, [main_thread roots])"

definition walk_finished :: "world \<Rightarrow> (walk_error + bool) option" where
  \<comment> \<open>the result of the main walk, when it has returned\<close>
  "walk_finished w = (case th_ctl (hd (snd w)) of Done r \<Rightarrow> Some r | _ \<Rightarrow> None)"

end
