(* ===== verification/Squad_Trace_Text.thy ===== *)
theory Squad_Trace_Text
  imports Squad_Machine
begin

text \<open>
  The texts that execute_squad_pipeline writes (crates/remote/src/routes/squads.rs): the
  explanation of a condition, the lines of the execution trace, the errors of a walk, and the
  plan that is posted as an issue comment. The texts of database and serialisation errors
  come from third-party libraries and are parameters.
\<close>

definition show_bool :: "bool \<Rightarrow> string" where
  "show_bool b = (if b then ''true'' else ''false'')"

fun reason_text :: "cond_reason \<Rightarrow> string" where
  "reason_text (EmptyLast st ok) = ''empty '' @ utf8 [226, 134, 146] @ '' last agent status='' @
       debug_status st @ '' '' @ utf8 [226, 134, 146] @ '' '' @ show_bool ok"
| "reason_text EmptyTrue = ''empty '' @ utf8 [226, 134, 146] @ '' true''"
| "reason_text (LiteralTrue raw) = ''literal true ('' @ raw @ '')''"
| "reason_text (LiteralFalse raw) = ''literal false ('' @ raw @ '')''"
| "reason_text VerifiedNoResult = ''verified: no previous step result''"
| "reason_text (VerifiedNotCompleted st) = ''verified: previous step '' @
       debug_status st @ '', not completed''"
| "reason_text VerifiedCompleted = ''verified: previous step completed''"
| "reason_text (VerifiedNeedle needle ok) = ''verified: `'' @ needle @ ''` '' @
       (if ok then ''found'' else ''missing'') @ '' in step output''"
| "reason_text (StatusCheck want got ok) = ''status:'' @ want @ '' vs last='' @ got @ '' '' @
       utf8 [226, 134, 146] @ '' '' @ show_bool ok"
| "reason_text (SuccessCheck ok) = ''success check '' @ utf8 [226, 134, 146] @ '' '' @ show_bool ok"
| "reason_text (FailureCheck ok) = ''failure check '' @ utf8 [226, 134, 146] @ '' '' @ show_bool ok"
| "reason_text (KeywordMatch needle) = ''keyword match in last result (`'' @ needle @ ''`)''"
| "reason_text (SuccessConditionMatch sc) = ''loop success_condition match (`'' @ sc @ ''`)''"
| "reason_text (SoftTrue raw) = ''last completed + no keyword match '' @ utf8 [226, 134, 146] @
       '' soft true (`'' @ raw @ ''`)''"
| "reason_text (LastFailed raw) = ''last failed/cancelled '' @ utf8 [226, 134, 146] @
       '' false (`'' @ raw @ ''`)''"
| "reason_text (KeywordFalse raw) = ''keyword false ('' @ raw @ '')''"
| "reason_text (DefaultTrue raw) = ''default true (no last result for `'' @ raw @ ''`)''"

record error_texts =
  et_db :: "db_error \<Rightarrow> string"
  et_encode :: string

fun walk_error_text :: "error_texts \<Rightarrow> walk_error \<Rightarrow> string" where
  "walk_error_text et (MissingNode i) = ''missing node '' @ i"
| "walk_error_text et (NoAgentNoLeader label) = utf8 [230, 173, 165, 233, 170, 164, 227, 128,
       140] @ label @ utf8 [227, 128, 141, 230, 156, 170, 230, 140, 135, 229, 174, 154] @
       '' Agent'' @ utf8 [239, 188, 140, 228, 184, 148] @ '' Squad '' @ utf8 [230, 151, 160] @
       '' Leader''"
| "walk_error_text et (JobNeedsAgent label) = utf8 [230, 173, 165, 233, 170, 164, 227, 128, 140] @
       label @ utf8 [227, 128, 141, 233, 156, 128, 232, 166, 129] @ '' Agent'' @ utf8 [239, 188,
       136, 230, 136, 150] @ '' Squad Leader'' @ utf8 [239, 188, 137, 228, 187, 165, 230, 140,
       130, 233, 157, 160] @ '' script/git_op '' @ utf8 [228, 187, 187, 229, 138, 161]"
| "walk_error_text et (ScriptNoCommand label) = ''script '' @ utf8 [232, 138, 130, 231, 130, 185,
       227, 128, 140] @ label @ utf8 [227, 128, 141, 231, 188, 186, 229, 176, 145] @ '' command''"
| "walk_error_text et JobEncodeFailed = et_encode et"
| "walk_error_text et (DbFailed e) = et_db et e"
| "walk_error_text et (TaskDisappeared tid) = ''agent task '' @ show_uuid tid @ '' disappeared''"

fun iter_note_text :: "iter_note \<Rightarrow> string" where
  "iter_note_text SuccessConditionMet = ''loop success_condition met '' @ utf8 [226, 128, 148] @
       '' exit''"
| "iter_note_text (UntilMet r) = ''until-condition '' @ utf8 [226, 134, 146] @ '' met '' @
       utf8 [226, 128, 148] @ '' exit ('' @ reason_text r @ '')''"
| "iter_note_text (UntilNotMet r) = ''until-condition '' @ utf8 [226, 134, 146] @ '' not met '' @
       utf8 [226, 128, 148] @ '' body ('' @ reason_text r @ '')''"

fun log_text :: "error_texts \<Rightarrow> walk_ctx \<Rightarrow> log_line \<Rightarrow> string" where
  "log_text et cx LogBudgetExhausted = utf8 [226, 154, 160] @ '' step budget exhausted '' @
       utf8 [226, 128, 148] @ '' stopping walk''"
| "log_text et cx (LogStartFrom s) = ''- starting from node `'' @ s @ ''` (upstream skipped)''"
| "log_text et cx (LogTargetsRepo l repo) = ''- '' @ utf8 [226, 134, 179] @ '' `'' @
       l @ ''` targets repo `'' @ unwrap_or repo ''-'' @ ''`''"
| "log_text et cx (LogAgentEnqueued l t a) = ''- **agent** `'' @ l @ ''` '' @ utf8 [226, 134,
       146] @ '' task `'' @ show_uuid t @ ''` (agent `'' @ show_uuid a @ ''`) '' @ utf8 [226, 128,
       148] @ '' awaiting'' @ utf8 [226, 128, 166]"
| "log_text et cx (LogJobEnqueued k l t) = ''- **'' @ node_type_as_str k @ ''** `'' @ l @ ''` '' @
       utf8 [226, 134, 146] @ '' task `'' @ show_uuid t @ ''` '' @ utf8 [226, 128, 148] @
       '' awaiting local watcher'' @ utf8 [226, 128, 166]"
| "log_text et cx (LogFinished st s) = ''  - finished '' @ debug_status st @ '': '' @ s"
| "log_text et cx (LogDiffCollected n) = ''  - collected diff for handoff ('' @
       show_nat n @ '' chars)''"
| "log_text et cx LogDiffUnavailable = ''  - '' @ utf8 [226, 154, 160] @
       '' diff handoff unavailable '' @ utf8 [226, 128, 148] @ '' passing summary only''"
| "log_text et cx LogErrorEdges = ''  - following `error` edge(s)''"
| "log_text et cx (LogStoppingBranch k) = (if k = NodeAgent then ''  - agent failed/cancelled and no `error` edge '' @ utf8 [226, 128, 148] @ '' stopping this branch''
     else ''  - script/git_op failed and no `error` edge '' @ utf8 [226, 128, 148] @
       '' stopping this branch'')"
| "log_text et cx (LogWaitSleeping l secs w) = ''- **wait** `'' @ l @ ''` sleeping '' @
       show_nat secs @ ''s'' @ (if w = [] then [] else '' (wait_for: '' @ w @ '')'')"
| "log_text et cx (LogWaitCapped req) = ''  - capped from '' @ show_int req @ ''s to '' @
       show_int max_sync_wait_secs @ ''s''"
| "log_text et cx (LogWaitRecorded l w) = ''- **wait** `'' @ l @ ''` recorded'' @
       (if w = [] then [] else '' '' @ utf8 [226, 128, 148] @ '' '' @ w)"
| "log_text et cx (LogIf l b r) = ''- **if** `'' @ l @ ''` '' @ utf8 [226, 134, 146] @ '' '' @
       branch_as_str b @ '' ('' @ reason_text r @ '')''"
| "log_text et cx (LogNoEdge b) = ''  - no `'' @ branch_as_str b @ ''` edge '' @ utf8 [226, 128,
       148] @ '' skipping''"
| "log_text et cx (LogWhile l n) = ''- **while** `'' @ l @ ''` max_iterations='' @ show_nat n"
| "log_text et cx (LogIter k note) = ''  - iter '' @ show_nat k @ '': '' @ iter_note_text note"
| "log_text et cx LogNoBody = ''  - no `body` edge '' @ utf8 [226, 128, 148] @ '' ending while''"
| "log_text et cx (LogBreak l) = ''- **break** `'' @ l @ ''`''"
| "log_text et cx (LogExitingWhile i) = ''  - exiting while `'' @ i @ ''`''"
| "log_text et cx LogBreakIgnored = ''  - no active while '' @ utf8 [226, 128, 148] @ '' ignored''"
| "log_text et cx (LogFork l n) = ''- **fork** `'' @ l @ ''` '' @ utf8 [226, 134, 146] @ '' '' @
       show_nat n @ '' parallel branch(es)''"
| "log_text et cx (LogForkError e) = ''  - fork branch error: '' @ walk_error_text et e"
| "log_text et cx (LogJoinArrival l n m) = ''- **join** `'' @ l @ ''` arrival '' @
       show_nat n @ ''/'' @ show_nat m"
| "log_text et cx (LogJoinTimeout i n m) = ''  - join `'' @
       node_name (node_of cx i) @ ''` timed out after '' @
       show_nat join_barrier_timeout @ ''s ('' @ show_nat n @ ''/'' @
       show_nat m @ '' arrived) '' @ utf8 [226, 128, 148] @ '' continuing''"
| "log_text et cx (LogJoinNonLeader i) = ''  - join `'' @
       node_name (node_of cx i) @ ''` non-leader '' @ utf8 [226, 128, 148] @ '' done''"
| "log_text et cx (LogJoinReleased i) = ''  - join `'' @
       node_name (node_of cx i) @ ''` barrier released '' @ utf8 [226, 128, 148] @ '' continue''"
| "log_text et cx (LogWaitApproval l k r) = ''- **wait_approval** `'' @ l @ ''` kind='' @
       k @ '' resume='' @ unwrap_or r ''(end)''"

definition loop_note :: "squad_loop_config option \<Rightarrow> string" where
  "loop_note lc = (case lc of None \<Rightarrow> []
     | Some c \<Rightarrow> nl @ nl @ ''Loop config: max_iterations='' @
       (case lc_max_iterations c of None \<Rightarrow> ''1'' | Some n \<Rightarrow> show_int n) @ '', success_condition='' @ unwrap_or (lc_success_condition c) ''(none)'')"

definition plan_footer :: string where
  "plan_footer = nl @ nl @ ''_Orchestrator: agent nodes enqueue + await terminal status; Fork fans out concurrently; Join barriers on inbound count (or join_count); if/while use literals, status:, agent:keyword / last-result matching; failed agents follow optional `error` edge else stop branch. Parallel only via Fork. Mid-entry via start_from_node_id; wait_approval pauses for human Approve/Reject._'' @ nl"

definition plan_text ::
  "error_texts \<Rightarrow> walk_ctx \<Rightarrow> string option \<Rightarrow> log_line list \<Rightarrow> string" where
  "plan_text et cx start lines =
     ''## Squad pipeline run'' @ nl @ nl @
     ''Squad: **'' @ sq_name (wc_squad cx) @ ''**'' @ nl @
     ''Target: `'' @ target_as_str (sq_target_type (wc_squad cx)) @ ''`'' @ nl @
     (case wc_preferred_repo cx of None \<Rightarrow> [] | Some wd \<Rightarrow> ''Working directory: `'' @ wd @ ''`'' @ nl) @
     (case start of None \<Rightarrow> [] | Some s \<Rightarrow> ''Started from node: `'' @
       s @ ''`'' @ nl) @
     ''Agent await timeout: '' @ show_nat (wc_await_secs cx) @ ''s'' @ nl @
     nl @ ''### Execution trace'' @ nl @ nl @
     (if lines = [] then ''(no steps executed)'' @ nl
      else concat (map (\<lambda>l. log_text et cx l @ nl) lines)) @
     loop_note (pl_loop_config (pl cx)) @ plan_footer"

end
