(* ===== verification/Squad_Runs.thy ===== *)
theory Squad_Runs
  imports Remote_Db
begin

text \<open>
  SquadRunRepository (crates/remote/src/db/squad_runs.rs) over the table \<open>squad_runs\<close>, and
  InboxRepository (crates/remote/src/db/inbox.rs). A \<open>RETURNING\<close> clause of an UPDATE that
  matches no row makes \<open>fetch_one\<close> fail with RowNotFound.
\<close>

section \<open>Runs\<close>

definition run_find :: "remote_db \<Rightarrow> uuid \<Rightarrow> squad_run option" where
  "run_find db i = tbl_find run_id i (db_runs db)"

definition runs_newest_first :: "squad_run list \<Rightarrow> squad_run list" where
  "runs_newest_first rs = sort_key (\<lambda>r. - int (run_created_at r)) rs"

definition run_list_by_issue :: "remote_db \<Rightarrow> uuid \<Rightarrow> nat \<Rightarrow> squad_run list" where
  "run_list_by_issue db i limit =
     take limit (runs_newest_first (filter (\<lambda>r. run_issue_id r = i) (db_runs db)))"

definition run_active :: "squad_run \<Rightarrow> bool" where
  "run_active r = (run_status r \<in> set [''running'', ''waiting_approval'', ''queued''])"

definition run_list_active_by_issue :: "remote_db \<Rightarrow> uuid \<Rightarrow> squad_run list" where
  "run_list_active_by_issue db i =
     runs_newest_first (filter (\<lambda>r. run_issue_id r = i \<and> run_active r) (db_runs db))"

definition run_list_by_project :: "remote_db \<Rightarrow> uuid \<Rightarrow> nat \<Rightarrow> squad_run list" where
  "run_list_by_project db p limit =
     take limit (runs_newest_first (filter (\<lambda>r.
       run_squad_id r \<in> sq_id ` set (filter (\<lambda>s. sq_project_id s = p) (db_squads db))) (db_runs db)))"

definition new_run ::
  "timestamp \<Rightarrow> uuid \<Rightarrow> uuid \<Rightarrow> uuid \<Rightarrow> squad_run_status \<Rightarrow> string option \<Rightarrow> string option \<Rightarrow>
   uuid option \<Rightarrow> squad_run" where
  "new_run now i squad issue st start wd creator =
     \<lparr>run_id = i, run_squad_id = squad, run_issue_id = issue, run_status = run_status_as_str st,
      run_start_from_node_id = start, run_pause_node_id = None, run_resume_node_id = None,
      run_approval_kind = None, run_approval_prompt = None, run_working_directory = wd,
      run_error_message = None, run_created_by_user_id = creator, run_started_at = now,
      run_completed_at = None, run_created_at = now, run_updated_at = now,
      run_agent_task_ids = [], run_ordered_node_ids = []\<rparr>"

definition run_create ::
  "remote_db \<Rightarrow> uuid \<Rightarrow> uuid \<Rightarrow> squad_run_status \<Rightarrow> string option \<Rightarrow> string option \<Rightarrow> uuid option \<Rightarrow>
   db_error + (squad_run \<times> remote_db)" where
  "run_create db squad issue st start wd creator =
     (if tbl_find sq_id squad (db_squads db) = None \<or> issue_find db issue = None
      then Inl ForeignKeyViolation
      else let i = fresh_uuid (map run_id (db_runs db)) db;
               r = new_run (db_now db) i squad issue st start wd creator in
           Inr (r, db\<lparr>db_runs := db_runs db @ [r], db_next_uuid := max (Suc i) (db_next_uuid db)\<rparr>))"

datatype run_update =
    WaitingApproval string "string option" string string
  | SetStatus squad_run_status "string option"
  | MarkCompleted "uuid list" "string list"

fun apply_run_update :: "timestamp \<Rightarrow> run_update \<Rightarrow> squad_run \<Rightarrow> squad_run" where
  "apply_run_update now (WaitingApproval pause resume kind prompt) r =
     r\<lparr>run_status := run_status_as_str RunWaitingApproval, run_pause_node_id := Some pause,
       run_resume_node_id := resume, run_approval_kind := Some kind,
       run_approval_prompt := Some prompt, run_updated_at := now\<rparr>"
| "apply_run_update now (SetStatus st msg) r =
     r\<lparr>run_status := run_status_as_str st, run_error_message := msg, run_updated_at := now\<rparr>"
| "apply_run_update now (MarkCompleted ids nodes) r =
     r\<lparr>run_status := run_status_as_str RunCompleted, run_completed_at := Some now,
       run_updated_at := now, run_agent_task_ids := ids, run_ordered_node_ids := nodes\<rparr>"

definition run_write :: "remote_db \<Rightarrow> uuid \<Rightarrow> run_update \<Rightarrow> db_error + (squad_run \<times> remote_db)" where
  \<comment> \<open>\<open>UPDATE squad_runs \<dots> WHERE id = $1 RETURNING \<dots>\<close>\<close>
  "run_write db i u =
     (let rs = tbl_update run_id i (apply_run_update (db_now db) u) (db_runs db) in
      case tbl_find run_id i rs of
        None \<Rightarrow> Inl RowNotFound
      | Some r \<Rightarrow> Inr (r, db\<lparr>db_runs := rs\<rparr>))"

definition mark_waiting_approval ::
  "remote_db \<Rightarrow> uuid \<Rightarrow> string \<Rightarrow> string option \<Rightarrow> string \<Rightarrow> string \<Rightarrow> db_error + (squad_run \<times> remote_db)" where
  "mark_waiting_approval db i pause resume kind prompt =
     run_write db i (WaitingApproval pause resume kind prompt)"

definition mark_status ::
  "remote_db \<Rightarrow> uuid \<Rightarrow> squad_run_status \<Rightarrow> string option \<Rightarrow> db_error + (squad_run \<times> remote_db)" where
  "mark_status db i st msg = run_write db i (SetStatus st msg)"

definition mark_completed ::
  "remote_db \<Rightarrow> uuid \<Rightarrow> uuid list \<Rightarrow> string list \<Rightarrow> db_error + (squad_run \<times> remote_db)" where
  "mark_completed db i ids nodes = run_write db i (MarkCompleted ids nodes)"

definition interrupted_message :: string where
  "interrupted_message = ''interrupted: server restarted while this run was in progress''"

definition fail_orphan :: "timestamp \<Rightarrow> squad_run \<Rightarrow> squad_run" where
  "fail_orphan now r =
     (if run_status r = ''running'' \<or> run_status r = ''queued'' then
        r\<lparr>run_status := ''failed'',
          run_error_message := opt_or (run_error_message r) (Some interrupted_message),
          run_completed_at := Some now, run_updated_at := now\<rparr>
      else r)"

definition fail_orphaned_runs :: "remote_db \<Rightarrow> nat \<times> remote_db" where
  "fail_orphaned_runs db =
     (length (filter (\<lambda>r. run_status r = ''running'' \<or> run_status r = ''queued'') (db_runs db)),
      db\<lparr>db_runs := map (fail_orphan (db_now db)) (db_runs db)\<rparr>)"

section \<open>The inbox\<close>

definition inbox_list :: "remote_db \<Rightarrow> uuid \<Rightarrow> bool \<Rightarrow> nat \<Rightarrow> inbox_item list" where
  "inbox_list db user archived limit =
     take limit (sort_key (\<lambda>b. - int (ib_created_at b))
       (filter (\<lambda>b. ib_recipient_user_id b = user \<and> (archived \<or> ib_archived_at b = None)) (db_inbox db)))"

definition unread :: "uuid \<Rightarrow> inbox_item \<Rightarrow> bool" where
  "unread user b = (ib_recipient_user_id b = user \<and> ib_read_at b = None \<and> ib_archived_at b = None)"

definition unread_count :: "remote_db \<Rightarrow> uuid \<Rightarrow> nat" where
  "unread_count db user = length (filter (unread user) (db_inbox db))"

definition inbox_update ::
  "(inbox_item \<Rightarrow> bool) \<Rightarrow> (inbox_item \<Rightarrow> inbox_item) \<Rightarrow> remote_db \<Rightarrow> nat \<times> remote_db" where
  "inbox_update P f db =
     (length (filter P (db_inbox db)), db\<lparr>db_inbox := map (\<lambda>b. if P b then f b else b) (db_inbox db)\<rparr>)"

definition inbox_mark_read :: "remote_db \<Rightarrow> uuid \<Rightarrow> uuid list \<Rightarrow> nat \<times> remote_db" where
  "inbox_mark_read db user ids =
     inbox_update (\<lambda>b. ib_recipient_user_id b = user \<and> ib_id b \<in> set ids \<and> ib_read_at b = None)
       (\<lambda>b. b\<lparr>ib_read_at := Some (db_now db)\<rparr>) db"

definition inbox_mark_all_read :: "remote_db \<Rightarrow> uuid \<Rightarrow> nat \<times> remote_db" where
  "inbox_mark_all_read db user =
     inbox_update (\<lambda>b. ib_recipient_user_id b = user \<and> ib_read_at b = None)
       (\<lambda>b. b\<lparr>ib_read_at := Some (db_now db)\<rparr>) db"

definition inbox_archive :: "remote_db \<Rightarrow> uuid \<Rightarrow> uuid list \<Rightarrow> nat \<times> remote_db" where
  "inbox_archive db user ids =
     inbox_update (\<lambda>b. ib_recipient_user_id b = user \<and> ib_id b \<in> set ids \<and> ib_archived_at b = None)
       (\<lambda>b. b\<lparr>ib_archived_at := Some (db_now db),
               ib_read_at := opt_or (ib_read_at b) (Some (db_now db))\<rparr>) db"

definition inbox_create ::
  "remote_db \<Rightarrow> uuid \<Rightarrow> uuid option \<Rightarrow> uuid option \<Rightarrow> string \<Rightarrow> string \<Rightarrow> string \<Rightarrow> json \<Rightarrow> remote_db" where
  "inbox_create db user proj issue ty title body payload =
     (let i = fresh_uuid (map ib_id (db_inbox db)) db in
      db\<lparr>db_inbox := db_inbox db @ [\<lparr>ib_id = i, ib_recipient_user_id = user,
           ib_project_id = proj, ib_issue_id = issue, ib_type = ty, ib_title = title,
           ib_body = body, ib_payload = payload, ib_read_at = None, ib_archived_at = None,
           ib_created_at = db_now db\<rparr>],
         db_next_uuid := max (Suc i) (db_next_uuid db)\<rparr>)"

section \<open>The table of runs\<close>

interpretation run_table: keyed_table run_id "apply_run_update now" for now
proof
  show "run_id (apply_run_update now u r) = run_id r" for u and r :: squad_run
    by (cases u) simp_all
qed

lemma run_write_Inr:
  "run_find db i = Some r \<Longrightarrow>
   \<exists>db'. run_write db i u = Inr (apply_run_update (db_now db) u r, db') \<and>
     (\<forall>j. run_find db' j = (if j = i then Some (apply_run_update (db_now db) u r) else run_find db j))"
  by (simp add: run_write_def run_find_def run_table.find_update Let_def)

lemma run_write_Inl: "run_find db i = None \<Longrightarrow> run_write db i u = Inl RowNotFound"
  by (simp add: run_write_def run_find_def run_table.find_update Let_def)

lemma run_create_find:
  assumes "run_create db squad issue st start wd creator = Inr (r, db')"
  shows "run_find db' j = (if j = run_id r then Some r else run_find db j)"
    "run_find db (run_id r) = None" "run_status r = run_status_as_str st"
    "run_issue_id r = issue" "run_squad_id r = squad"
proof -
  have r: "r = new_run (db_now db) (fresh_uuid (map run_id (db_runs db)) db) squad issue st start wd creator"
    and db': "db_runs db' = db_runs db @ [r]"
    using assms by (auto simp: run_create_def Let_def split: if_splits)
  have "tbl_find run_id (run_id r) (db_runs db) = None"
    using fresh_uuid_notin [of "map run_id (db_runs db)" db] by (simp add: r new_run_def tbl_find_None)
  then show "run_find db' j = (if j = run_id r then Some r else run_find db j)"
    "run_find db (run_id r) = None"
    by (simp_all add: run_find_def db' run_table.find_insert)
  show "run_status r = run_status_as_str st" "run_issue_id r = issue" "run_squad_id r = squad"
    by (simp_all add: r new_run_def)
qed

section \<open>After a restart\<close>

lemma fail_orphan_terminal: "run_status (fail_orphan now r) \<noteq> ''running'' \<and> run_status (fail_orphan now r) \<noteq> ''queued''"
  by (simp add: fail_orphan_def)

lemma fail_orphan_other: "run_status r \<noteq> ''running'' \<Longrightarrow> run_status r \<noteq> ''queued'' \<Longrightarrow> fail_orphan now r = r"
  by (simp add: fail_orphan_def)

section \<open>The inbox counts what is unread\<close>

lemma inbox_update_count:
  "length (filter Q (db_inbox (snd (inbox_update P f db))))
     = length (filter (\<lambda>b. Q (if P b then f b else b)) (db_inbox db))"
  by (simp add: inbox_update_def filter_map comp_def)

end
