(* ===== verification/Squad_Termination.thy ===== *)
theory Squad_Termination
  imports Squad_Machine
begin

text \<open>
  Every walk ends: a measure on the state of the orchestrator that every step lowers,
  whatever the pipeline, the schedule, the failures and the other clients do. The budget
  pays for the nodes visited; the loops of the callers, the iterations a \<open>while\<close> has left
  and the awaits still ahead pay for the steps between two visits.
\<close>

section \<open>The measure\<close>

definition edge_total :: "walk_ctx \<Rightarrow> nat" where
  "edge_total cx = length (pl_edges (pl cx))"

definition iter_cost :: "walk_ctx \<Rightarrow> nat" where
  "iter_cost cx = 2 * edge_total cx + 5"

definition visit_cost :: "walk_ctx \<Rightarrow> nat" where
  "visit_cost cx = 23 * iter_cost cx + 12"

fun frame_weight :: "walk_ctx \<Rightarrow> frame \<Rightarrow> nat" where
  "frame_weight cx (KEdges i es) = 2 * length es + 1"
| "frame_weight cx (KBody i iter mx es) = (mx - iter) * iter_cost cx + 2 * length es + iter_cost cx"
| "frame_weight cx (KRoots rs) = 2 * length rs + 1"

fun ctl_weight :: "walk_ctx \<Rightarrow> ctl \<Rightarrow> nat" where
  "ctl_weight cx (Visit i) = 2"
| "ctl_weight cx (EnqAgent i a p leader repo prompt) = 2 * edge_total cx + 12"
| "ctl_weight cx (AwaitAgent i tid deadline) = 2 * edge_total cx + 11"
| "ctl_weight cx (DiffWs i r) = 2 * edge_total cx + 10"
| "ctl_weight cx (EnqDiff i r a prompt) = 2 * edge_total cx + 9"
| "ctl_weight cx (AwaitDiff i r tid deadline) = 2 * edge_total cx + 8"
| "ctl_weight cx (Sleeping i until) = 2 * edge_total cx + 8"
| "ctl_weight cx (AtJoin i deadline) = 2 * edge_total cx + 8"
| "ctl_weight cx (JobWs i a p) = 2 * edge_total cx + 10"
| "ctl_weight cx (EnqJob i a p prompt) = 2 * edge_total cx + 9"
| "ctl_weight cx (AwaitJob i tid deadline) = 2 * edge_total cx + 8"
| "ctl_weight cx (Spawn i ts) = 2 * length ts + 4"
| "ctl_weight cx (Forked ids) = 3"
| "ctl_weight cx (Return b) = 1"
| "ctl_weight cx (Raise e) = 1"
| "ctl_weight cx (Done r) = 0"

definition thread_weight :: "walk_ctx \<Rightarrow> thread \<Rightarrow> nat" where
  "thread_weight cx th =
     ctl_weight cx (th_ctl th) + sum_list (map (frame_weight cx) (th_frames th))"

definition local_measure :: "walk_ctx \<Rightarrow> shared \<times> thread \<Rightarrow> nat" where
  "local_measure cx s = sh_step_budget (fst s) * visit_cost cx + thread_weight cx (snd s)"

definition walk_measure :: "walk_ctx \<Rightarrow> world \<Rightarrow> nat" where
  "walk_measure cx w =
     sh_step_budget (fst w) * visit_cost cx + sum_list (map (thread_weight cx) (snd w))"

section \<open>Bounds on the pieces\<close>

lemma length_branch: "length (edges_for_branch (outs (pl cx) i) b) \<le> edge_total cx"
proof -
  have "length (outs (pl cx) i) \<le> edge_total cx"
    unfolding outs_def valid_edges_def edge_total_def
    by (meson length_filter_le order_trans)
  then show ?thesis using length_edges_for_branch order_trans by blast
qed

lemma budget_log [simp]: "sh_step_budget (log l sh) = sh_step_budget sh"
  by (simp add: log_def)

lemma weight_follow_edges:
  "thread_weight cx (follow_edges i es th)
     \<le> sum_list (map (frame_weight cx) (th_frames th)) + 2 * length es + 1"
  by (induction i es th rule: follow_edges.induct) (auto simp: thread_weight_def Let_def)

lemma weight_follow_branch:
  "thread_weight cx (follow_branch cx i b th)
     \<le> sum_list (map (frame_weight cx) (th_frames th)) + 2 * edge_total cx + 1"
  using weight_follow_edges [of cx i "edges_for_branch (outs (pl cx) i) b" th] length_branch [of cx i b]
  by (simp add: follow_branch_def)

lemma weight_while_exit:
  "thread_weight cx (while_exit cx i th)
     \<le> sum_list (map (frame_weight cx) (th_frames th)) + 2 * edge_total cx + 1"
proof -
  let ?es = "if edges_for_branch (outs (pl cx) i) BranchExit = []
    then edges_for_branch (outs (pl cx) i) BranchDefault else edges_for_branch (outs (pl cx) i) BranchExit"
  let ?th = "th\<lparr>th_while_stack := tl (th_while_stack th)\<rparr>"
  have "length ?es \<le> edge_total cx" by (simp add: length_branch)
  then show ?thesis using weight_follow_edges [of cx i ?es ?th] by (simp add: while_exit_def Let_def)
qed

lemma weight_while_iter:
  "thread_weight cx (snd (while_iter cx n iter mx sh th))
     \<le> sum_list (map (frame_weight cx) (th_frames th)) + (mx - iter) * iter_cost cx
       + iter_cost cx + 2 * edge_total cx"
  "sh_step_budget (fst (while_iter cx n iter mx sh th)) = sh_step_budget sh"
proof -
  let ?i = "node_id n"
  have exit: "thread_weight cx (while_exit cx ?i th)
     \<le> sum_list (map (frame_weight cx) (th_frames th)) + (mx - iter) * iter_cost cx
       + iter_cost cx + 2 * edge_total cx"
    using weight_while_exit [of cx ?i th] by (simp add: iter_cost_def)
  have body: "length es + 1 \<le> edge_total cx"
    if "edges_for_branch (outs (pl cx) ?i) BranchBody = e # es" for e es
    using length_branch [of cx ?i BranchBody] that by simp
  show "thread_weight cx (snd (while_iter cx n iter mx sh th))
     \<le> sum_list (map (frame_weight cx) (th_frames th)) + (mx - iter) * iter_cost cx
       + iter_cost cx + 2 * edge_total cx"
    using exit
    by (auto simp: while_iter_def Let_def thread_weight_def split: prod.splits list.splits dest!: body)
  show "sh_step_budget (fst (while_iter cx n iter mx sh th)) = sh_step_budget sh"
    by (auto simp: while_iter_def Let_def split: prod.splits list.splits)
qed

text \<open>The next iteration costs one \<open>iter_cost\<close> less than the frame it came from.\<close>

lemma weight_next_iter:
  "thread_weight cx (snd (while_iter cx n (Suc iter) mx sh th))
     \<le> sum_list (map (frame_weight cx) (th_frames th)) + (mx - iter) * iter_cost cx + iter_cost cx"
proof (cases "Suc iter < mx")
  case True
  have "(mx - Suc iter) * iter_cost cx + iter_cost cx = (mx - iter) * iter_cost cx"
    using True by (metis Suc_diff_Suc Suc_lessD add.commute mult_Suc)
  moreover have "2 * edge_total cx \<le> iter_cost cx" by (simp add: iter_cost_def)
  ultimately show ?thesis using weight_while_iter(1) [of cx n "Suc iter" mx sh th] by linarith
next
  case False
  then have "while_iter cx n (Suc iter) mx sh th = (sh, while_exit cx (node_id n) th)"
    by (simp add: while_iter_def Let_def)
  then show ?thesis using weight_while_exit [of cx "node_id n" th] by (simp add: iter_cost_def)
qed

section \<open>A visit pays with the budget\<close>

lemma max_iter_le: "max_iter n \<le> 20"
  by (simp add: max_iter_def)

lemma take_priority_budget: "take_priority sh = (p, sh') \<Longrightarrow> sh_step_budget sh' = sh_step_budget sh"
  by (auto simp: take_priority_def)

lemma visit_kind_bound:
  "thread_weight cx (snd (visit_kind k cx n sh th))
     \<le> sum_list (map (frame_weight cx) (th_frames th)) + 22 * iter_cost cx + 12
   \<and> sh_step_budget (fst (visit_kind k cx n sh th)) = sh_step_budget sh"
proof (cases k)
  case NodeAgent
  then show ?thesis
    by (auto simp: visit_agent_def thread_weight_def Let_def iter_cost_def
        split: option.splits prod.splits dest: take_priority_budget)
next
  case NodeIf
  have "thread_weight cx (follow_edges (node_id n) es th)
     \<le> sum_list (map (frame_weight cx) (th_frames th)) + 22 * iter_cost cx + 12"
    if "length es \<le> edge_total cx" for es
    using weight_follow_edges [of cx "node_id n" es th] that by (simp add: iter_cost_def)
  then show ?thesis using NodeIf length_branch
    by (auto simp: visit_if_def Let_def split: prod.splits)
next
  case NodeWhile
  let ?th = "th\<lparr>th_while_stack := (node_id n, False) # th_while_stack th\<rparr>"
  let ?sh = "log (LogWhile (node_name n) (max_iter n)) sh"
  have "2 * edge_total cx \<le> iter_cost cx" by (simp add: iter_cost_def)
  moreover have "(max_iter n - 0) * iter_cost cx \<le> 20 * iter_cost cx"
    by (rule mult_le_mono1) (simp add: max_iter_le)
  ultimately have "thread_weight cx (snd (while_iter cx n 0 (max_iter n) ?sh ?th))
      \<le> sum_list (map (frame_weight cx) (th_frames ?th)) + 22 * iter_cost cx + 12"
    using weight_while_iter(1) [of cx n 0 "max_iter n" ?sh ?th] by linarith
  then show ?thesis
    using NodeWhile weight_while_iter(2) [of cx n 0 "max_iter n" ?sh ?th]
    by (simp add: visit_while_def)
next
  case NodeFork
  then show ?thesis using length_branch [of cx "node_id n" BranchDefault]
    by (auto simp: visit_fork_def Let_def thread_weight_def iter_cost_def)
next
  case NodeWait
  then show ?thesis using weight_follow_branch [of cx "node_id n" BranchDefault th]
    by (auto simp: visit_wait_def Let_def thread_weight_def iter_cost_def)
next
  case NodeBreak
  then show ?thesis
    by (auto simp: visit_break_def set_broke_def Let_def thread_weight_def split: list.splits)
next
  case NodeWaitApproval
  then show ?thesis by (simp add: visit_wait_approval_def Let_def thread_weight_def)
next
  case NodeJoin
  then show ?thesis by (simp add: visit_join_def Let_def thread_weight_def iter_cost_def)
next
  case NodeScript
  then show ?thesis
    by (auto simp: visit_job_def thread_weight_def iter_cost_def
        split: option.splits prod.splits dest: take_priority_budget)
next
  case NodeGitOp
  then show ?thesis
    by (auto simp: visit_job_def thread_weight_def iter_cost_def
        split: option.splits prod.splits dest: take_priority_budget)
qed

lemma walk_node_lowers:
  assumes "th_ctl th = Visit i"
  shows "local_measure cx (walk_node cx i sh th) < local_measure cx (sh, th)"
proof (cases "sh_step_budget sh")
  case 0
  then show ?thesis using assms by (simp add: walk_node_def local_measure_def thread_weight_def)
next
  case (Suc b)
  have old: "thread_weight cx th = 2 + sum_list (map (frame_weight cx) (th_frames th))"
    using assms by (simp add: thread_weight_def)
  have new: "sh_step_budget (fst (walk_node cx i sh th)) = b \<and>
     thread_weight cx (snd (walk_node cx i sh th))
       \<le> sum_list (map (frame_weight cx) (th_frames th)) + 22 * iter_cost cx + 12"
    using Suc visit_kind_bound
    by (auto simp: walk_node_def Let_def thread_weight_def split: option.splits)
  have "22 * iter_cost cx + 12 \<le> visit_cost cx" by (simp add: visit_cost_def)
  then show ?thesis using new old Suc by (simp add: local_measure_def)
qed

end
