(* ===== verification/Squad_Progress.thy ===== *)
theory Squad_Progress
  imports Squad_Termination
begin

text \<open>
  Each step of a thread that is not blocked lowers the measure, and so does a database
  failure; the environment leaves it alone. Whoever is blocked is blocked until a moment
  that comes: every walk returns after finitely many rounds of its threads.
\<close>

section \<open>Steps lower the measure\<close>

lemma take_drop_frames: "th_frames (th\<lparr>th_ctl := c\<rparr>) = th_frames th"
  by simp

lemma weight_ctl [simp]:
  "thread_weight cx (th\<lparr>th_ctl := c\<rparr>) = ctl_weight cx c + sum_list (map (frame_weight cx) (th_frames th))"
  by (simp add: thread_weight_def)

lemma step_done_bound:
  "thread_weight cx (snd (step_done cx i r sh th))
     \<le> sum_list (map (frame_weight cx) (th_frames th)) + 2 * edge_total cx + 1"
  "sh_step_budget (fst (step_done cx i r sh th)) = sh_step_budget sh"
proof -
  have "thread_weight cx (follow_edges i (edges_for_branch (outs (pl cx) i) BranchError) th)
     \<le> sum_list (map (frame_weight cx) (th_frames th)) + 2 * edge_total cx + 1"
    using weight_follow_edges [of cx i "edges_for_branch (outs (pl cx) i) BranchError" th]
      length_branch [of cx i BranchError] by simp
  then show "thread_weight cx (snd (step_done cx i r sh th))
     \<le> sum_list (map (frame_weight cx) (th_frames th)) + 2 * edge_total cx + 1"
    using weight_follow_branch by (auto simp: step_done_def Let_def)
  show "sh_step_budget (fst (step_done cx i r sh th)) = sh_step_budget sh"
    by (simp add: step_done_def Let_def)
qed

definition lowered :: "walk_ctx \<Rightarrow> shared \<Rightarrow> thread \<Rightarrow> ctl \<Rightarrow> shared \<times> thread \<Rightarrow> bool" where
  \<comment> \<open>same budget and a lighter thread than at control point \<open>c\<close>\<close>
  "lowered cx sh th c s =
     (sh_step_budget (fst s) = sh_step_budget sh \<and>
      thread_weight cx (snd s) < ctl_weight cx c + sum_list (map (frame_weight cx) (th_frames th)))"

lemma lowered_local:
  "lowered cx sh th (th_ctl th) s \<Longrightarrow> local_measure cx s < local_measure cx (sh, th)"
  by (auto simp: lowered_def local_measure_def thread_weight_def)

lemma lowered_step_done:
  assumes "2 * edge_total cx + 1 < ctl_weight cx c" "sh_step_budget sh' = sh_step_budget sh"
  shows "lowered cx sh th c (step_done cx i r sh' th)"
  using assms step_done_bound [of cx i r sh' th] by (simp add: lowered_def)

lemma lowered_follow_branch:
  assumes "2 * edge_total cx + 1 < ctl_weight cx c" "sh_step_budget sh' = sh_step_budget sh"
  shows "lowered cx sh th c (sh', follow_branch cx i b th)"
  using assms weight_follow_branch [of cx i b th] by (simp add: lowered_def)

lemma lowered_ctl:
  "ctl_weight cx c' < ctl_weight cx c \<Longrightarrow> sh_step_budget sh' = sh_step_budget sh \<Longrightarrow>
   lowered cx sh th c (sh', th\<lparr>th_ctl := c'\<rparr>)"
  by (simp add: lowered_def)

lemma lowered_unavailable:
  assumes "2 * edge_total cx + 1 < ctl_weight cx c" "sh_step_budget sh' = sh_step_budget sh"
  shows "lowered cx sh th c (diff_unavailable cx i r sh' th)"
  unfolding diff_unavailable_def using assms by (intro lowered_step_done) (simp_all only: budget_log)

lemmas lowered_intros =
  lowered_step_done lowered_follow_branch lowered_ctl lowered_unavailable

lemma lowered_agent_enqueue:
  "lowered cx sh th (EnqAgent i a p leader repo prompt) (agent_enqueue cx i a p leader repo prompt sh th)"
  by (auto simp: agent_enqueue_def split: sum.splits prod.splits intro!: lowered_intros)

lemma lowered_agent_finished:
  "lowered cx sh th (AwaitAgent i tid d) (agent_finished cx i r sh th)"
  by (auto simp: agent_finished_def Let_def intro!: lowered_intros)

lemma lowered_diff_prepare:
  "lowered cx sh th (DiffWs i r) (diff_prepare cx i r ws sh th)"
  by (auto simp: diff_prepare_def split: option.splits intro!: lowered_intros)

lemma lowered_diff_enqueue:
  "lowered cx sh th (EnqDiff i r a prompt) (diff_enqueue cx i r a prompt sh th)"
  by (auto simp: diff_enqueue_def split: sum.splits prod.splits intro!: lowered_intros)

lemma lowered_diff_finished:
  "lowered cx sh th (AwaitDiff i r tid d) (diff_finished cx i r r2 sh th)"
  by (auto simp: diff_finished_def Let_def intro!: lowered_intros)

lemma lowered_job_prepare:
  "lowered cx sh th (JobWs i a p) (job_prepare cx i a p ws sh th)"
  by (auto simp: job_prepare_def split: option.splits sum.splits intro!: lowered_intros)

lemma lowered_job_enqueue:
  "lowered cx sh th (EnqJob i a p prompt) (job_enqueue cx i a p prompt sh th)"
  by (auto simp: job_enqueue_def split: sum.splits prod.splits intro!: lowered_intros)

lemma lowered_job_finished:
  "lowered cx sh th (AwaitJob i tid d) (job_finished cx i r sh th)"
  by (auto simp: job_finished_def intro!: lowered_intros)

lemma lowered_join_pass:
  "sh_step_budget sh' = sh_step_budget sh \<Longrightarrow> lowered cx sh th (AtJoin i d) (join_pass cx i g sh' th)"
  by (auto simp: join_pass_def intro!: lowered_intros)

lemma lowered_return_to: "lowered cx sh th (Return b) (return_to cx b sh th)"
proof (cases "th_frames th")
  case Nil
  then show ?thesis by (simp add: return_to_def lowered_def)
next
  case (Cons f fs)
  show ?thesis
  proof (cases f)
    case (KEdges src es)
    have "thread_weight cx (follow_edges src es (th\<lparr>th_frames := fs\<rparr>))
        \<le> sum_list (map (frame_weight cx) fs) + 2 * length es + 1"
      using weight_follow_edges [of cx src es "th\<lparr>th_frames := fs\<rparr>"] by simp
    then show ?thesis using Cons KEdges
      by (auto simp: return_to_def Let_def lowered_def thread_weight_def)
  next
    case (KBody i iter mx es)
    let ?th = "th\<lparr>th_frames := fs\<rparr>"
    have "lowered cx sh th (Return b) (while_iter cx (node_of cx i) (iter + 1) mx sh ?th)"
      using weight_next_iter [of cx "node_of cx i" iter mx sh ?th]
        weight_while_iter(2) [of cx "node_of cx i" "iter + 1" mx sh ?th] Cons KBody
      by (simp add: lowered_def)
    then show ?thesis using Cons KBody
      by (auto simp: return_to_def Let_def lowered_def thread_weight_def split: list.splits)
  next
    case (KRoots rs)
    then show ?thesis using Cons
      by (auto simp: return_to_def lowered_def thread_weight_def split: list.splits)
  qed
qed

section \<open>Blocked threads\<close>

fun blocked :: "walk_ctx \<Rightarrow> shared \<Rightarrow> ctl \<Rightarrow> bool" where
  "blocked cx sh (AwaitAgent i tid d) =
     (await_poll (sh_db sh) tid (wc_await_secs cx) d (sh_clock sh) = Pending)"
| "blocked cx sh (AwaitDiff i r tid d) =
     (await_poll (sh_db sh) tid (wc_await_secs cx) d (sh_clock sh) = Pending)"
| "blocked cx sh (AwaitJob i tid d) =
     (await_poll (sh_db sh) tid (wc_await_secs cx) d (sh_clock sh) = Pending)"
| "blocked cx sh (Sleeping i until) = (sh_clock sh < until)"
| "blocked cx sh (AtJoin i d) =
     (case sh_join_gates sh i of None \<Rightarrow> True
      | Some g \<Rightarrow> jg_arrived g < jg_expected g \<and> sh_clock sh < d)"
| "blocked cx sh (Spawn i ts) = True"
| "blocked cx sh (Forked ids) = True"
| "blocked cx sh (Done r) = True"
| "blocked cx sh c = False"

lemma ctl_step_blocked: "blocked cx sh c \<Longrightarrow> ctl_step cx c sh th = (sh, th)"
  by (cases c) (auto simp: join_wait_def split: option.splits)

lemma ctl_step_lowers:
  assumes "\<not> blocked cx sh (th_ctl th)"
  shows "local_measure cx (ctl_step cx (th_ctl th) sh th) < local_measure cx (sh, th)"
proof (cases "th_ctl th")
  case (Visit i)
  then show ?thesis using walk_node_lowers [of th i cx sh] by simp
next
  case (EnqAgent i a p leader repo prompt)
  then show ?thesis
    using lowered_local [of cx sh th] lowered_agent_enqueue [of cx sh th] by simp
next
  case (AwaitAgent i tid d)
  then have "lowered cx sh th (th_ctl th) (ctl_step cx (th_ctl th) sh th)"
    using assms lowered_agent_finished by (auto split: await_outcome.splits intro!: lowered_intros)
  then show ?thesis by (rule lowered_local)
next
  case (DiffWs i r)
  then show ?thesis using lowered_local [of cx sh th] lowered_diff_prepare [of cx sh th] by simp
next
  case (EnqDiff i r a prompt)
  then show ?thesis using lowered_local [of cx sh th] lowered_diff_enqueue [of cx sh th] by simp
next
  case (AwaitDiff i r tid d)
  then have "lowered cx sh th (th_ctl th) (ctl_step cx (th_ctl th) sh th)"
    using assms lowered_diff_finished by (auto split: await_outcome.splits intro!: lowered_intros)
  then show ?thesis by (rule lowered_local)
next
  case (Sleeping i until)
  then have "lowered cx sh th (th_ctl th) (ctl_step cx (th_ctl th) sh th)"
    using assms by (auto intro!: lowered_intros)
  then show ?thesis by (rule lowered_local)
next
  case (AtJoin i d)
  then have "lowered cx sh th (th_ctl th) (ctl_step cx (th_ctl th) sh th)"
    using assms lowered_join_pass [of _ sh cx th i d]
    by (auto simp: join_wait_def split: option.splits)
  then show ?thesis by (rule lowered_local)
next
  case (JobWs i a p)
  then show ?thesis using lowered_local [of cx sh th] lowered_job_prepare [of cx sh th] by simp
next
  case (EnqJob i a p prompt)
  then show ?thesis using lowered_local [of cx sh th] lowered_job_enqueue [of cx sh th] by simp
next
  case (AwaitJob i tid d)
  then have "lowered cx sh th (th_ctl th) (ctl_step cx (th_ctl th) sh th)"
    using assms lowered_job_finished by (auto split: await_outcome.splits intro!: lowered_intros)
  then show ?thesis by (rule lowered_local)
next
  case (Return b)
  then show ?thesis using lowered_local [of cx sh th] lowered_return_to [of cx sh th] by simp
next
  case (Raise e)
  then show ?thesis by (simp add: local_measure_def thread_weight_def)
qed (use assms in simp_all)

lemma ctl_fault_lowers:
  "ctl_fault cx e (th_ctl th) sh th = (sh, th) \<or>
   local_measure cx (ctl_fault cx e (th_ctl th) sh th) < local_measure cx (sh, th)"
proof (cases "ctl_fault cx e (th_ctl th) sh th = (sh, th)")
  case False
  have "lowered cx sh th (th_ctl th) (ctl_fault cx e (th_ctl th) sh th)"
    using False lowered_diff_prepare lowered_job_prepare
    by (cases "th_ctl th") (auto intro!: lowered_intros)
  then show ?thesis by (blast intro: lowered_local)
qed simp

section \<open>All threads\<close>

definition ready :: "walk_ctx \<Rightarrow> world \<Rightarrow> nat \<Rightarrow> bool" where
  "ready cx w k =
     (case w of (sh, ths) \<Rightarrow> k < length ths \<and>
        (case th_ctl (ths ! k) of
           Spawn i ts \<Rightarrow> True
         | Forked ids \<Rightarrow> (\<forall>c \<in> set ids. c < length ths \<and> is_done (ths ! c))
         | c \<Rightarrow> \<not> blocked cx sh c))"

lemma sum_update_less:
  fixes f :: "'a \<Rightarrow> nat"
  assumes "k < length xs" "b' + f y < b + f (xs ! k)"
  shows "b' + sum_list (map f (xs[k := y])) < b + sum_list (map f xs)"
proof -
  have "f (xs ! k) \<le> sum_list (map f xs)" using assms(1) by (simp add: member_le_sum_list)
  then show ?thesis using assms by (simp add: map_update sum_list_update)
qed

lemma walk_measure_update:
  assumes "k < length ths" "local_measure cx (sh', th') < local_measure cx (sh, ths ! k)"
  shows "walk_measure cx (sh', ths[k := th']) < walk_measure cx (sh, ths)"
  using sum_update_less [of k ths "sh_step_budget sh' * visit_cost cx" "thread_weight cx" th'
      "sh_step_budget sh * visit_cost cx"] assms
  by (simp add: walk_measure_def local_measure_def)

lemma joined_all_budget [simp]: "sh_step_budget (joined_all rs sh) = sh_step_budget sh"
  unfolding joined_all_def
  by (induction rs arbitrary: sh) (auto simp: log_branch_def split: sum.splits)

lemma walk_step_not_ready: "\<not> ready cx w k \<Longrightarrow> walk_step cx k w = w"
  by (cases w)
    (auto simp: ready_def walk_step_def Let_def ctl_step_blocked join_wait_def
      split: ctl.splits option.splits)

lemma walk_step_spawn:
  assumes "k < length ths" "th_ctl (ths ! k) = Spawn i ts"
  shows "walk_measure cx (walk_step cx k (sh, ths)) < walk_measure cx (sh, ths)"
proof -
  let ?th = "(ths ! k)\<lparr>th_ctl := Forked [length ths..<length ths + length ts]\<rparr>"
  have "sum_list (map (thread_weight cx \<circ> branch_thread i) ts) = 2 * length ts"
    by (simp add: comp_def thread_weight_def branch_thread_def sum_list_triv)
  moreover have "0 + sum_list (map (thread_weight cx) (ths[k := ?th])) + 2 * length ts
      < 0 + sum_list (map (thread_weight cx) ths)"
    using sum_update_less [of k ths "2 * length ts" "thread_weight cx" ?th 0] assms
    by (simp add: thread_weight_def)
  ultimately show ?thesis
    using assms by (simp add: walk_step_def walk_measure_def Let_def)
qed

lemma walk_step_joined:
  assumes "k < length ths" "th_ctl (ths ! k) = Forked ids"
    "\<forall>c \<in> set ids. c < length ths \<and> is_done (ths ! c)"
  shows "walk_measure cx (walk_step cx k (sh, ths)) < walk_measure cx (sh, ths)"
proof -
  have "walk_step cx k (sh, ths) =
      (joined_all (map (\<lambda>c. result_of (ths ! c)) ids) sh,
       ths[k := (ths ! k)\<lparr>th_ctl := Return (Inr True \<in> set (map (\<lambda>c. result_of (ths ! c)) ids))\<rparr>])"
    using assms by (simp add: walk_step_def Let_def)
  moreover have "walk_measure cx \<dots> < walk_measure cx (sh, ths)"
    using assms by (intro walk_measure_update) (simp_all add: local_measure_def thread_weight_def)
  ultimately show ?thesis by simp
qed

lemma walk_step_ctl:
  assumes "k < length ths" "\<not> blocked cx sh (th_ctl (ths ! k))"
  shows "walk_step cx k (sh, ths) =
    (case ctl_step cx (th_ctl (ths ! k)) sh (ths ! k) of (sh', th') \<Rightarrow> (sh', ths[k := th']))"
  using assms by (cases "th_ctl (ths ! k)") (auto simp: walk_step_def Let_def)

lemma walk_step_ready:
  assumes "ready cx w k"
  shows "walk_measure cx (walk_step cx k w) < walk_measure cx w"
proof -
  obtain sh ths where w: "w = (sh, ths)" by (cases w)
  have k: "k < length ths" using assms by (simp add: w ready_def)
  show ?thesis
  proof (cases "blocked cx sh (th_ctl (ths ! k))")
    case True
    then show ?thesis
      using assms k walk_step_spawn [OF k] walk_step_joined [OF k]
      by (auto simp: w ready_def split: ctl.splits)
  next
    case False
    obtain sh' th' where s: "ctl_step cx (th_ctl (ths ! k)) sh (ths ! k) = (sh', th')" by fastforce
    have "local_measure cx (sh', th') < local_measure cx (sh, ths ! k)"
      using ctl_step_lowers [OF False] by (simp add: s)
    then show ?thesis using walk_step_ctl [OF k False] walk_measure_update [OF k] by (simp add: w s)
  qed
qed

lemma walk_fault_lowers:
  "walk_fault cx k e w = w \<or> walk_measure cx (walk_fault cx k e w) < walk_measure cx w"
proof -
  obtain sh ths where w: "w = (sh, ths)" by (cases w)
  show ?thesis
  proof (cases "k < length ths")
    case True
    obtain sh' th' where s: "ctl_fault cx e (th_ctl (ths ! k)) sh (ths ! k) = (sh', th')" by fastforce
    then show ?thesis
      using True ctl_fault_lowers [of cx e "ths ! k" sh] walk_measure_update [OF True]
      by (auto simp: w walk_fault_def)
  qed (simp add: w walk_fault_def)
qed

section \<open>The walk as a measured machine\<close>

fun is_internal :: "walk_event \<Rightarrow> bool" where
  "is_internal (Step k) = True"
| "is_internal (Fault k e) = True"
| "is_internal (Tick n) = False"
| "is_internal (Env op) = False"

interpretation walk: measured_machine "event_step cx" is_internal "walk_measure cx" for cx
proof
  fix e w
  assume "is_internal e" "event_step cx w e \<noteq> w"
  then show "walk_measure cx (event_step cx w e) < walk_measure cx w"
  proof (cases e)
    case (Step k)
    then show ?thesis
      using \<open>event_step cx w e \<noteq> w\<close> walk_step_ready [of cx w k] walk_step_not_ready [of cx w k] by auto
  next
    case (Fault k err)
    then show ?thesis using \<open>event_step cx w e \<noteq> w\<close> walk_fault_lowers [of cx k err w] by auto
  qed simp_all
next
  fix e w
  assume "\<not> is_internal e"
  then show "walk_measure cx (event_step cx w e) \<le> walk_measure cx w"
    by (cases e; cases w) (simp_all add: walk_measure_def)
qed

lemma init_measure:
  "walk_measure cx (init_world db now start roots) \<le> 256 * visit_cost cx + 2 * length roots + 3"
  by (simp add: walk_measure_def init_world_def init_shared_def step_budget_def main_thread_def
      thread_weight_def)

section \<open>Nobody waits for ever\<close>

definition patience :: "walk_ctx \<Rightarrow> nat" where
  "patience cx = max (wc_await_secs cx) join_barrier_timeout"

fun waits_ok :: "walk_ctx \<Rightarrow> shared \<Rightarrow> ctl \<Rightarrow> bool" where
  "waits_ok cx sh (AwaitAgent i tid d) = (d \<le> sh_clock sh + patience cx)"
| "waits_ok cx sh (AwaitDiff i r tid d) = (d \<le> sh_clock sh + patience cx)"
| "waits_ok cx sh (AwaitJob i tid d) = (d \<le> sh_clock sh + patience cx)"
| "waits_ok cx sh (Sleeping i until) = (until \<le> sh_clock sh + patience cx)"
| "waits_ok cx sh (AtJoin i d) =
     (d \<le> sh_clock sh + patience cx \<and> sh_join_gates sh i \<noteq> None)"
| "waits_ok cx sh c = True"

definition waits_on_later :: "nat \<Rightarrow> nat \<Rightarrow> ctl \<Rightarrow> bool" where
  "waits_on_later k n c = (case c of Forked ids \<Rightarrow> (\<forall>d \<in> set ids. k < d \<and> d < n) | _ \<Rightarrow> True)"

definition waiting_inv :: "walk_ctx \<Rightarrow> world \<Rightarrow> bool" where
  "waiting_inv cx w =
     (\<forall>k < length (snd w). waits_ok cx (fst w) (th_ctl (snd w ! k)) \<and>
        waits_on_later k (length (snd w)) (th_ctl (snd w ! k)))"

definition shared_le :: "shared \<Rightarrow> shared \<Rightarrow> bool" where
  "shared_le sh sh' =
     (sh_clock sh \<le> sh_clock sh' \<and> (\<forall>i. sh_join_gates sh i \<noteq> None \<longrightarrow> sh_join_gates sh' i \<noteq> None))"

lemma waits_ok_mono: "waits_ok cx sh c \<Longrightarrow> shared_le sh sh' \<Longrightarrow> waits_ok cx sh' c"
  by (cases c) (auto simp: shared_le_def)

text \<open>The control points that a piece of \<open>walk_node\<close> can leave a thread at.\<close>

fun plain :: "ctl \<Rightarrow> bool" where
  "plain (Visit i) = True"
| "plain (Return b) = True"
| "plain (Raise e) = True"
| "plain c = False"

lemma plain_ok: "plain c \<Longrightarrow> waits_ok cx sh c \<and> waits_on_later k n c"
  by (cases c) (auto simp: waits_on_later_def)

lemma plain_follow_edges [simp]: "plain (th_ctl (follow_edges i es th))"
  by (induction i es th rule: follow_edges.induct) (auto simp: Let_def)

lemma plain_follow_branch [simp]: "plain (th_ctl (follow_branch cx i b th))"
  by (simp add: follow_branch_def)

lemma plain_while_exit [simp]: "plain (th_ctl (while_exit cx i th))"
  by (simp add: while_exit_def Let_def)

lemma plain_while_iter [simp]: "plain (th_ctl (snd (while_iter cx n iter mx sh th)))"
  by (auto simp: while_iter_def Let_def split: prod.splits list.splits)

lemma plain_step_done [simp]: "plain (th_ctl (snd (step_done cx i r sh th)))"
  by (simp add: step_done_def Let_def)

lemma plain_unavailable [simp]: "plain (th_ctl (snd (diff_unavailable cx i r sh th)))"
  by (simp add: diff_unavailable_def)

definition good :: "walk_ctx \<Rightarrow> shared \<Rightarrow> shared \<times> thread \<Rightarrow> bool" where
  \<comment> \<open>the shared state only grows, the new control point waits for nothing that never comes\<close>
  "good cx sh s =
     (shared_le sh (fst s) \<and> waits_ok cx (fst s) (th_ctl (snd s)) \<and>
      (case th_ctl (snd s) of Forked ids \<Rightarrow> False | _ \<Rightarrow> True))"

lemma shared_le_log [simp]: "shared_le sh (log l sh') = shared_le sh sh'"
  by (simp add: shared_le_def log_def)

lemma shared_le_refl [simp]: "shared_le sh sh"
  by (simp add: shared_le_def)

lemma good_plain: "plain (th_ctl th) \<Longrightarrow> shared_le sh sh' \<Longrightarrow> good cx sh (sh', th)"
  by (cases "th_ctl th") (auto simp: good_def)

lemma good_ctl [simp]:
  "good cx sh (sh', th\<lparr>th_ctl := c\<rparr>) \<longleftrightarrow>
     shared_le sh sh' \<and> waits_ok cx sh' c \<and> (case c of Forked ids \<Rightarrow> False | _ \<Rightarrow> True)"
  by (simp add: good_def)

lemma good_frames [simp]:
  "good cx sh (sh', th\<lparr>th_frames := fs, th_ctl := c\<rparr>) \<longleftrightarrow>
     shared_le sh sh' \<and> waits_ok cx sh' c \<and> (case c of Forked ids \<Rightarrow> False | _ \<Rightarrow> True)"
  by (simp add: good_def)

lemma good_follow:
  "shared_le sh sh' \<Longrightarrow> good cx sh (sh', follow_edges i es th)"
  "shared_le sh sh' \<Longrightarrow> good cx sh (sh', follow_branch cx i b th)"
  "shared_le sh sh' \<Longrightarrow> good cx sh (sh', while_exit cx i th)"
  by (rule good_plain; simp)+

lemma shared_le_while_iter: "shared_le sh (fst (while_iter cx n iter mx sh th))"
  by (auto simp: while_iter_def Let_def split: prod.splits list.splits)

lemma shared_le_step_done: "shared_le sh sh' \<Longrightarrow> shared_le sh (fst (step_done cx i r sh' th))"
  by (auto simp: step_done_def Let_def shared_le_def log_def)

lemma good_step_done: "shared_le sh sh' \<Longrightarrow> good cx sh (step_done cx i r sh' th)"
  using good_plain [OF plain_step_done shared_le_step_done] by (metis prod.collapse)

lemma good_unavailable: "shared_le sh sh' \<Longrightarrow> good cx sh (diff_unavailable cx i r sh' th)"
  by (simp add: diff_unavailable_def good_step_done)

lemma good_while_iter: "shared_le sh0 sh \<Longrightarrow> good cx sh0 (while_iter cx n iter mx sh th)"
proof -
  assume le: "shared_le sh0 sh"
  have "shared_le sh (fst (while_iter cx n iter mx sh th))" by (rule shared_le_while_iter)
  with le have "shared_le sh0 (fst (while_iter cx n iter mx sh th))"
    by (auto simp: shared_le_def intro: order_trans)
  then show ?thesis using good_plain [OF plain_while_iter] by (metis prod.collapse)
qed

lemmas good_intros = good_follow good_step_done good_unavailable good_while_iter

lemma patience_await [simp]: "wc_await_secs cx \<le> patience cx"
  by (simp add: patience_def)

lemma patience_join [simp]: "join_barrier_timeout \<le> patience cx"
  by (simp add: patience_def)

lemma clock_log [simp]: "sh_clock (log l sh) = sh_clock sh"
  by (simp add: log_def)

lemma gates_log [simp]: "sh_join_gates (log l sh) = sh_join_gates sh"
  by (simp add: log_def)

lemma good_visit_kind:
  assumes "shared_le sh0 sh"
  shows "good cx sh0 (visit_kind k cx n sh th)"
proof (cases k)
  case NodeAgent
  then show ?thesis using assms
    by (auto simp: visit_agent_def take_priority_def Let_def shared_le_def split: option.splits)
next
  case NodeWait
  have "min (max 0 (unwrap_or (node_wait_seconds n) 0)) 30 \<le> 30" by simp
  then have "nat (min (max 0 (unwrap_or (node_wait_seconds n) 0)) max_sync_wait_secs) \<le> patience cx"
    by (simp add: patience_def join_barrier_timeout_def max_sync_wait_secs_def)
  then show ?thesis using assms NodeWait
    by (auto simp: visit_wait_def Let_def intro!: good_intros)
next
  case NodeScript
  then show ?thesis using assms
    by (auto simp: visit_job_def take_priority_def shared_le_def split: option.splits)
next
  case NodeGitOp
  then show ?thesis using assms
    by (auto simp: visit_job_def take_priority_def shared_le_def split: option.splits)
next
  case NodeJoin
  then show ?thesis using assms
    by (auto simp: visit_join_def Let_def shared_le_def)
next
  case NodeWhile
  then show ?thesis using assms by (simp add: visit_while_def good_while_iter)
next
  case NodeIf
  then show ?thesis using assms by (auto simp: visit_if_def Let_def split: prod.splits intro!: good_follow)
next
  case NodeBreak
  then show ?thesis using assms
    by (auto simp: visit_break_def Let_def split: list.splits intro!: good_follow)
next
  case NodeFork
  then show ?thesis using assms by (auto simp: visit_fork_def Let_def)
next
  case NodeWaitApproval
  then show ?thesis using assms
    by (auto simp: visit_wait_approval_def Let_def shared_le_def log_def intro!: good_follow)
qed

lemma good_walk_node: "good cx sh (walk_node cx i sh th)"
proof (cases "sh_step_budget sh = 0")
  case True
  then show ?thesis by (auto simp: walk_node_def intro!: good_follow)
next
  case False
  have "shared_le sh (sh\<lparr>sh_step_budget := sh_step_budget sh - 1,
          sh_ordered_node_ids := sh_ordered_node_ids sh @ [i]\<rparr>)"
    by (simp add: shared_le_def)
  then show ?thesis using False
    by (auto simp: walk_node_def Let_def shared_le_def
        split: option.splits intro!: good_visit_kind)
qed

lemma good_return_to: "good cx sh (return_to cx b sh th)"
  by (auto simp: return_to_def Let_def split: list.splits frame.splits intro!: good_intros)

lemma good_join_pass:
  "shared_le sh0 sh \<Longrightarrow> good cx sh0 (join_pass cx i g sh th)"
  by (auto simp: join_pass_def shared_le_def intro!: good_follow)

lemma good_ctl_step:
  assumes "\<not> blocked cx sh (th_ctl th)"
  shows "good cx sh (ctl_step cx (th_ctl th) sh th)"
proof (cases "th_ctl th")
  case (AwaitAgent i tid d)
  then show ?thesis using assms
    by (auto simp: agent_finished_def Let_def split: await_outcome.splits intro!: good_intros)
next
  case (AtJoin i d)
  then show ?thesis using assms
    by (auto simp: join_wait_def split: option.splits intro!: good_join_pass)
next
  case (EnqAgent i a p leader repo prompt)
  then show ?thesis
    by (auto simp: agent_enqueue_def shared_le_def split: sum.splits prod.splits)
next
  case (DiffWs i r)
  then show ?thesis by (auto simp: diff_prepare_def split: option.splits intro!: good_intros)
next
  case (EnqDiff i r a prompt)
  then show ?thesis
    by (auto simp: diff_enqueue_def shared_le_def split: sum.splits prod.splits
        intro!: good_unavailable)
next
  case (AwaitDiff i r tid d)
  then show ?thesis using assms
    by (auto simp: diff_finished_def Let_def split: await_outcome.splits intro!: good_intros)
next
  case (JobWs i a p)
  then show ?thesis
    by (auto simp: job_prepare_def split: sum.splits option.splits intro!: good_intros)
next
  case (EnqJob i a p prompt)
  then show ?thesis
    by (auto simp: job_enqueue_def shared_le_def split: sum.splits prod.splits)
next
  case (AwaitJob i tid d)
  then show ?thesis using assms
    by (auto simp: job_finished_def split: await_outcome.splits intro!: good_intros)
next
  case (Raise e)
  then show ?thesis by (simp add: good_def)
qed (use assms in \<open>auto intro: good_walk_node good_return_to good_follow\<close>)

lemma good_ctl_fault:
  "ctl_fault cx e (th_ctl th) sh th = (sh, th) \<or> good cx sh (ctl_fault cx e (th_ctl th) sh th)"
  by (cases "th_ctl th")
    (auto simp: diff_prepare_def job_prepare_def split: option.splits sum.splits intro!: good_intros)

end
