(* ===== verification/Squad_Liveness.thy ===== *)
theory Squad_Liveness
  imports Squad_Progress
begin

text \<open>
  The waiting invariant over whole runs and what follows from it: a walk that has not
  returned has a thread that can step once the clock has passed the longest timeout, so
  polling every thread once per such period finishes every walk.
\<close>

section \<open>The waiting invariant\<close>

lemma waits_on_later_mono: "waits_on_later k n c \<Longrightarrow> n \<le> m \<Longrightarrow> waits_on_later k m c"
  by (auto simp: waits_on_later_def split: ctl.splits)

lemma waiting_inv_update:
  assumes inv: "waiting_inv cx (sh, ths)" and k: "k < length ths"
    and g: "good cx sh (sh', th')"
  shows "waiting_inv cx (sh', ths[k := th'])"
  unfolding waiting_inv_def
proof (intro allI impI)
  fix j assume "j < length (snd (sh', ths[k := th']))"
  then have j: "j < length ths" by simp
  show "waits_ok cx (fst (sh', ths[k := th'])) (th_ctl (snd (sh', ths[k := th']) ! j)) \<and>
    waits_on_later j (length (snd (sh', ths[k := th']))) (th_ctl (snd (sh', ths[k := th']) ! j))"
  proof (cases "j = k")
    case True
    then show ?thesis using g k by (auto simp: good_def waits_on_later_def split: ctl.splits)
  next
    case False
    then show ?thesis using inv j g
      by (auto simp: waiting_inv_def good_def intro: waits_ok_mono)
  qed
qed

lemma shared_le_joined: "shared_le sh (joined_all rs sh)"
proof -
  have "shared_le sh0 sh \<Longrightarrow> shared_le sh0 (joined_all rs sh)" for sh0
    unfolding joined_all_def
    by (induction rs arbitrary: sh) (auto simp: log_branch_def split: sum.splits)
  then show ?thesis by simp
qed

lemma waiting_inv_spawn:
  assumes inv: "waiting_inv cx (sh, ths)" and k: "k < length ths"
  shows "waiting_inv cx (sh, ths[k := (ths ! k)\<lparr>th_ctl := Forked [length ths..<length ths + length ts]\<rparr>]
           @ map (branch_thread i) ts)"
proof -
  let ?th = "(ths ! k)\<lparr>th_ctl := Forked [length ths..<length ths + length ts]\<rparr>"
  let ?ths = "ths[k := ?th] @ map (branch_thread i) ts"
  have len: "length ?ths = length ths + length ts" by simp
  have "waits_ok cx sh (th_ctl (?ths ! j)) \<and> waits_on_later j (length ths + length ts) (th_ctl (?ths ! j))"
    if j: "j < length ths + length ts" for j
  proof (cases "j < length ths")
    case True
    have "waits_ok cx sh (th_ctl (ths ! j))" "waits_on_later j (length ths) (th_ctl (ths ! j))"
      using inv True by (simp_all add: waiting_inv_def)
    then show ?thesis using True k waits_on_later_mono [of j "length ths" "th_ctl (ths ! j)"]
      by (cases "j = k") (simp_all add: nth_append waits_on_later_def)
  next
    case False
    then show ?thesis using j by (simp add: nth_append branch_thread_def waits_on_later_def)
  qed
  then show ?thesis unfolding waiting_inv_def fst_conv snd_conv len by blast
qed

lemma waiting_inv_step:
  assumes inv: "waiting_inv cx w"
  shows "waiting_inv cx (walk_step cx k w)"
proof (cases "ready cx w k")
  case False
  then show ?thesis using inv by (simp add: walk_step_not_ready)
next
  case True
  obtain sh ths where w: "w = (sh, ths)" by (cases w)
  have k: "k < length ths" using True by (simp add: w ready_def)
  show ?thesis
  proof (cases "blocked cx sh (th_ctl (ths ! k))")
    case False
    obtain sh' th' where s: "ctl_step cx (th_ctl (ths ! k)) sh (ths ! k) = (sh', th')" by fastforce
    then show ?thesis
      using walk_step_ctl [OF k False] good_ctl_step [OF False] waiting_inv_update k inv
      by (simp add: w)
  next
    case blocked: True
    show ?thesis
    proof (cases "th_ctl (ths ! k)")
      case (Spawn i ts)
      then show ?thesis using waiting_inv_spawn inv k by (simp add: w walk_step_def Let_def)
    next
      case (Forked ids)
      then have "walk_step cx k w =
        (joined_all (map (\<lambda>c. result_of (ths ! c)) ids) sh,
         ths[k := (ths ! k)\<lparr>th_ctl := Return (Inr True \<in> set (map (\<lambda>c. result_of (ths ! c)) ids))\<rparr>])"
        using True by (simp add: w ready_def walk_step_def Let_def)
      then show ?thesis
        using waiting_inv_update [of cx sh ths k] inv k shared_le_joined by (simp add: w)
    qed (use True blocked in \<open>auto simp: w ready_def\<close>)
  qed
qed

lemma waiting_inv_fault: "waiting_inv cx w \<Longrightarrow> waiting_inv cx (walk_fault cx k e w)"
proof (cases w)
  case w: (Pair sh ths)
  assume inv: "waiting_inv cx w"
  show ?thesis
  proof (cases "k < length ths")
    case True
    obtain sh' th' where s: "ctl_fault cx e (th_ctl (ths ! k)) sh (ths ! k) = (sh', th')" by fastforce
    then show ?thesis
      using ctl_fault_lowers good_ctl_fault [of cx e "ths ! k" sh] waiting_inv_update inv True
      by (auto simp: w walk_fault_def)
  qed (use inv in \<open>simp add: w walk_fault_def\<close>)
qed

lemma waiting_inv_event: "waiting_inv cx w \<Longrightarrow> waiting_inv cx (event_step cx w e)"
proof (cases e)
  case (Tick n)
  assume "waiting_inv cx w"
  then have "waiting_inv cx (fst w\<lparr>sh_clock := sh_clock (fst w) + n,
      sh_db := (sh_db (fst w))\<lparr>db_now := db_now (sh_db (fst w)) + n\<rparr>\<rparr>, snd w)"
    by (auto simp: waiting_inv_def shared_le_def intro: waits_ok_mono [of cx "fst w"])
  then show ?thesis using Tick by (cases w) simp
next
  case (Env op)
  assume "waiting_inv cx w"
  then have "waiting_inv cx (fst w\<lparr>sh_db := queue_step (sh_db (fst w)) op\<rparr>, snd w)"
    by (auto simp: waiting_inv_def shared_le_def intro: waits_ok_mono [of cx "fst w"])
  then show ?thesis using Env by (cases w) simp
qed (auto simp: waiting_inv_step waiting_inv_fault)

lemma waiting_inv_run: "waiting_inv cx w \<Longrightarrow> waiting_inv cx (walk_run cx w evs)"
  unfolding walk_run_def by (induction evs arbitrary: w) (simp_all add: waiting_inv_event)

lemma waiting_inv_init: "waiting_inv cx (init_world db now start roots)"
  by (simp add: waiting_inv_def init_world_def main_thread_def waits_on_later_def)

section \<open>Progress\<close>

definition all_done :: "world \<Rightarrow> bool" where
  "all_done w = (\<forall>th \<in> set (snd w). is_done th)"

definition tick :: "nat \<Rightarrow> world \<Rightarrow> world" where
  "tick n w = (case w of (sh, ths) \<Rightarrow>
     (sh\<lparr>sh_clock := sh_clock sh + n, sh_db := (sh_db sh)\<lparr>db_now := db_now (sh_db sh) + n\<rparr>\<rparr>, ths))"

lemma await_poll_expired: "deadline \<le> now \<Longrightarrow> await_poll db tid secs deadline now \<noteq> Pending"
  by (simp add: await_poll_def split: option.splits)

text \<open>After the longest timeout only forks and finished threads are blocked.\<close>

lemma unblocked_after_patience:
  assumes "waits_ok cx sh c" "sh_clock sh + patience cx \<le> sh_clock sh'"
    "sh_join_gates sh' = sh_join_gates sh"
    "case c of Forked ids \<Rightarrow> False | Spawn i ts \<Rightarrow> False | Done r \<Rightarrow> False | _ \<Rightarrow> True"
  shows "\<not> blocked cx sh' c"
  using assms by (cases c) (auto simp: await_poll_expired split: option.splits)

lemma progress_after_patience:
  assumes inv: "waiting_inv cx w" and n: "patience cx \<le> n" and live: "\<not> all_done w"
  shows "\<exists>k < length (snd w). ready cx (tick n w) k"
proof -
  obtain sh ths where w: "w = (sh, ths)" by (cases w)
  let ?live = "{k. k < length ths \<and> \<not> is_done (ths ! k)}"
  have "finite ?live" by simp
  moreover have "?live \<noteq> {}" using live by (auto simp: all_done_def w in_set_conv_nth)
  ultimately have last: "Max ?live \<in> ?live" "\<And>j. j \<in> ?live \<Longrightarrow> j \<le> Max ?live"
    by (auto intro: Max_in simp del: mem_Collect_eq)
  define k where "k = Max ?live"
  have k: "k < length ths" "\<not> is_done (ths ! k)" using last(1) by (auto simp: k_def)
  have later: "is_done (ths ! j)" if "k < j" "j < length ths" for j
  proof (rule ccontr)
    assume "\<not> is_done (ths ! j)"
    then have "j \<le> k" unfolding k_def using that(2) by (intro last(2)) simp
    then show False using that(1) by simp
  qed
  have ok: "waits_ok cx sh (th_ctl (ths ! k))" "waits_on_later k (length ths) (th_ctl (ths ! k))"
    using inv k(1) by (auto simp: waiting_inv_def w)
  have "ready cx (tick n w) k"
  proof (cases "th_ctl (ths ! k)")
    case (Forked ids)
    then show ?thesis using k ok(2) later by (auto simp: ready_def tick_def w waits_on_later_def)
  next
    case (Spawn i ts)
    then show ?thesis using k by (simp add: ready_def tick_def w)
  next
    case (Done r)
    then show ?thesis using k by (simp add: is_done_def)
  qed (use k n unblocked_after_patience [OF ok(1), of "fst (tick n w)"]
       in \<open>auto simp: ready_def tick_def w simp del: blocked.simps\<close>)
  then show ?thesis using k(1) by (auto simp: w)
qed

section \<open>Rounds\<close>

text \<open>
  A round: any events of the threads, of failures and of the environment, then the clock
  passes the longest timeout and the executor polls each thread once.
\<close>

definition poll_all :: "walk_ctx \<Rightarrow> world \<Rightarrow> world" where
  "poll_all cx w = walk_run cx w (map Step [0..<length (snd w)])"

definition walk_round :: "walk_ctx \<Rightarrow> world \<Rightarrow> walk_event list \<Rightarrow> world" where
  "walk_round cx w evs = poll_all cx (tick (patience cx) (walk_run cx w evs))"

lemma tick_event: "event_step cx w (Tick n) = tick n w"
  by (cases w) (simp add: tick_def)

lemma tick_measure [simp]: "walk_measure cx (tick n w) = walk_measure cx w"
  by (cases w) (simp add: tick_def walk_measure_def)

lemma tick_threads [simp]: "snd (tick n w) = snd w"
  by (cases w) (simp add: tick_def)

lemma poll_all_le: "walk_measure cx (poll_all cx w) \<le> walk_measure cx w"
  unfolding poll_all_def walk_run_def by (rule walk.run_le)

lemma all_done_stuck: "all_done w \<Longrightarrow> \<not> ready cx w k"
proof
  assume "all_done w" "ready cx w k"
  moreover obtain sh ths where w: "w = (sh, ths)" by (cases w)
  ultimately have k: "k < length ths" and "is_done (ths ! k)" by (auto simp: all_done_def ready_def)
  then obtain r where "th_ctl (ths ! k) = Done r" by (auto simp: is_done_def split: ctl.splits)
  then show False using \<open>ready cx w k\<close> by (simp add: ready_def w)
qed

lemma poll_all_lowers:
  assumes "k < length (snd w)" "ready cx w k"
  shows "walk_measure cx (poll_all cx w) < walk_measure cx w"
proof -
  have "event_step cx w (Step k) \<noteq> w" using walk_step_ready [OF assms(2)] by auto
  then show ?thesis
    unfolding poll_all_def walk_run_def
    by (intro walk.run_lowers [where e = "Step k"]) (use assms(1) in auto)
qed

lemma round_lowers:
  assumes inv: "waiting_inv cx w" and live: "\<not> all_done (walk_run cx w evs)"
  shows "walk_measure cx (walk_round cx w evs) < walk_measure cx w"
proof -
  let ?v = "walk_run cx w evs"
  have "waiting_inv cx ?v" using inv by (rule waiting_inv_run)
  then obtain k where k: "k < length (snd ?v)" "ready cx (tick (patience cx) ?v) k"
    using progress_after_patience [of cx ?v "patience cx"] live by blast
  have "walk_measure cx (poll_all cx (tick (patience cx) ?v)) < walk_measure cx (tick (patience cx) ?v)"
    by (rule poll_all_lowers) (use k in simp_all)
  also have "\<dots> \<le> walk_measure cx w" using walk.run_le [of cx w evs] by (simp add: walk_run_def)
  finally show ?thesis by (simp add: walk_round_def)
qed

lemma all_done_step: "all_done w \<Longrightarrow> walk_step cx k w = w"
  using all_done_stuck walk_step_not_ready by blast

lemma all_done_fault: "all_done w \<Longrightarrow> walk_fault cx k e w = w"
proof -
  assume "all_done w"
  moreover obtain sh ths where w: "w = (sh, ths)" by (cases w)
  ultimately have "is_done (ths ! k)" if "k < length ths" using that by (simp add: all_done_def)
  then have "\<exists>r. th_ctl (ths ! k) = Done r" if "k < length ths"
    using that by (auto simp: is_done_def split: ctl.splits)
  then show ?thesis by (cases "k < length ths") (auto simp: w walk_fault_def)
qed

lemma all_done_event: "all_done w \<Longrightarrow> all_done (event_step cx w e)"
  by (cases e; cases w) (auto simp: all_done_step all_done_fault all_done_def)

lemma all_done_run: "all_done w \<Longrightarrow> all_done (walk_run cx w evs)"
  unfolding walk_run_def by (induction evs arbitrary: w) (simp_all add: all_done_event)

lemma all_done_round: "all_done (walk_run cx w evs) \<Longrightarrow> all_done (walk_round cx w evs)"
  using all_done_run [of _ cx "map Step _"] all_done_event [of "walk_run cx w evs" cx "Tick (patience cx)"]
  by (simp add: walk_round_def poll_all_def tick_event)

lemma waiting_inv_round: "waiting_inv cx w \<Longrightarrow> waiting_inv cx (walk_round cx w evs)"
  unfolding walk_round_def poll_all_def
  by (metis tick_event waiting_inv_event waiting_inv_run)

lemma rounds_finish:
  assumes "waiting_inv cx w" "walk_measure cx w < length rounds"
  shows "all_done (foldl (walk_round cx) w rounds)"
  using assms
proof (induction rounds arbitrary: w)
  case (Cons evs rounds)
  have inv: "waiting_inv cx (walk_round cx w evs)" using Cons.prems(1) by (rule waiting_inv_round)
  show ?case
  proof (cases "all_done (walk_run cx w evs)")
    case True
    then have "all_done (walk_round cx w evs)" by (rule all_done_round)
    moreover have "all_done v \<Longrightarrow> all_done (foldl (walk_round cx) v rs)" for v rs
      by (induction rs arbitrary: v) (simp_all add: all_done_round all_done_run)
    ultimately show ?thesis by simp
  next
    case False
    then show ?thesis using Cons.IH [OF inv] round_lowers [OF Cons.prems(1) False] Cons.prems(2) by simp
  qed
qed simp

end
