(* ===== verification/Squad_Invariants.thy ===== *)
theory Squad_Invariants
  imports Squad_Liveness
begin

text \<open>
  Invariants of the orchestrator under every schedule: the shape of a thread (its while
  frames match the body loops on its call stack, a returning break has a loop to leave, the
  nodes it is sent to exist), the join gates, the pause flag, the budget's bounds on the
  tasks and the visited nodes, and the task table.
\<close>

section \<open>Pieces that only log\<close>

definition same_core :: "shared \<Rightarrow> shared \<Rightarrow> bool" where
  "same_core sh sh' =
     (sh_agent_task_ids sh' = sh_agent_task_ids sh \<and> sh_ordered_node_ids sh' = sh_ordered_node_ids sh
      \<and> sh_step_budget sh' = sh_step_budget sh \<and> sh_agent_priority sh' = sh_agent_priority sh
      \<and> sh_db sh' = sh_db sh)"

lemma same_core_refl [simp]: "same_core sh sh"
  by (simp add: same_core_def)

lemma same_core_log [simp]: "same_core sh (log l sh') = same_core sh sh'"
  by (simp add: same_core_def log_def)

lemma same_core_trans: "same_core a b \<Longrightarrow> same_core b c \<Longrightarrow> same_core a c"
  by (simp add: same_core_def)

lemma same_core_fields [simp]:
  "same_core sh (sh'\<lparr>sh_last_agent_result := r\<rparr>) = same_core sh sh'"
  "same_core sh (sh'\<lparr>sh_join_gates := g\<rparr>) = same_core sh sh'"
  "same_core sh (sh'\<lparr>sh_pause := p\<rparr>) = same_core sh sh'"
  by (simp_all add: same_core_def)

lemma same_core_while_iter [simp]: "same_core sh (fst (while_iter cx n iter mx sh' th)) = same_core sh sh'"
  by (auto simp: while_iter_def Let_def split: prod.splits list.splits)

lemma same_core_step_done [simp]: "same_core sh (fst (step_done cx i r sh' th)) = same_core sh sh'"
  by (simp add: step_done_def Let_def)

lemma same_core_unavailable [simp]: "same_core sh (fst (diff_unavailable cx i r sh' th)) = same_core sh sh'"
  by (simp add: diff_unavailable_def)

lemma same_core_join_pass [simp]: "same_core sh (fst (join_pass cx i g sh' th)) = same_core sh sh'"
  by (simp add: join_pass_def)

lemma same_core_joined [simp]: "same_core sh (joined_all rs sh') = same_core sh sh'"
  unfolding joined_all_def
  by (induction rs arbitrary: sh') (auto simp: log_branch_def split: sum.splits)

lemma same_core_return_to: "same_core sh (fst (return_to cx b sh th))"
  by (auto simp: return_to_def Let_def split: list.splits frame.splits)

section \<open>Potentials\<close>

text \<open>
  A quantity of the shared state together with what the threads are still owed. A step may
  turn a debt into the quantity or pay it from the budget, but never raises the sum.
\<close>

locale potential =
  fixes cost :: "shared \<Rightarrow> nat"
    and owed :: "ctl \<Rightarrow> nat"
  assumes core: "same_core sh sh' \<Longrightarrow> cost sh' = cost sh"
    and plain: "plain c \<Longrightarrow> owed c = 0"
    and forked: "owed (Forked ids) = 0"
    and environment: "cost (sh\<lparr>sh_clock := n\<rparr>) = cost sh" "cost (sh\<lparr>sh_db := db\<rparr>) = cost sh"
    and steps: "cost (fst (ctl_step cx (th_ctl th) sh th))
                  + owed (th_ctl (snd (ctl_step cx (th_ctl th) sh th))) \<le> cost sh + owed (th_ctl th)"
    and faults: "cost (fst (ctl_fault cx e (th_ctl th) sh th))
                  + owed (th_ctl (snd (ctl_fault cx e (th_ctl th) sh th))) \<le> cost sh + owed (th_ctl th)"
begin

definition total :: "world \<Rightarrow> nat" where
  "total w = cost (fst w) + sum_list (map (\<lambda>th. owed (th_ctl th)) (snd w))"

lemma total_update:
  assumes "k < length ths" "cost sh' + owed (th_ctl th') \<le> cost sh + owed (th_ctl (ths ! k))"
  shows "total (sh', ths[k := th']) \<le> total (sh, ths)"
proof -
  have "owed (th_ctl (ths ! k)) \<le> sum_list (map (\<lambda>th. owed (th_ctl th)) ths)"
    using assms(1) member_le_sum_list [of "owed (th_ctl (ths ! k))" "map (\<lambda>th. owed (th_ctl th)) ths"]
    by force
  then show ?thesis using assms by (simp add: total_def map_update sum_list_update)
qed

lemma total_step: "total (walk_step cx k w) \<le> total w"
proof (cases "ready cx w k")
  case False
  then show ?thesis by (simp add: walk_step_not_ready)
next
  case True
  obtain sh ths where w: "w = (sh, ths)" by (cases w)
  have k: "k < length ths" using True by (simp add: w ready_def)
  show ?thesis
  proof (cases "blocked cx sh (th_ctl (ths ! k))")
    case False
    obtain sh' th' where "ctl_step cx (th_ctl (ths ! k)) sh (ths ! k) = (sh', th')" by fastforce
    then show ?thesis
      using walk_step_ctl [OF k False] steps [of cx "ths ! k" sh] total_update [OF k, of sh' th' sh]
      by (simp add: w)
  next
    case blocked: True
    show ?thesis
    proof (cases "th_ctl (ths ! k)")
      case (Spawn i ts)
      have "sum_list (map ((\<lambda>th. owed (th_ctl th)) \<circ> branch_thread i) ts) = 0"
        by (simp add: comp_def branch_thread_def plain sum_list_triv)
      then have "total (walk_step cx k w)
          = total (sh, ths[k := (ths ! k)\<lparr>th_ctl := Forked [length ths..<length ths + length ts]\<rparr>])"
        using Spawn k by (simp add: w walk_step_def Let_def total_def)
      also have "\<dots> \<le> total (sh, ths)" using k forked by (intro total_update) simp_all
      finally show ?thesis by (simp add: w)
    next
      case (Forked ids)
      let ?rs = "map (\<lambda>c. result_of (ths ! c)) ids"
      have "walk_step cx k w =
        (joined_all ?rs sh, ths[k := (ths ! k)\<lparr>th_ctl := Return (Inr True \<in> set ?rs)\<rparr>])"
        using True Forked by (simp add: w ready_def walk_step_def Let_def)
      moreover have "total \<dots> \<le> total (sh, ths)"
        using k plain core [of sh "joined_all ?rs sh"] by (intro total_update) simp_all
      ultimately show ?thesis by (simp add: w)
    qed (use True blocked in \<open>auto simp: w ready_def\<close>)
  qed
qed

lemma total_fault: "total (walk_fault cx k e w) \<le> total w"
proof -
  obtain sh ths where w: "w = (sh, ths)" by (cases w)
  show ?thesis
  proof (cases "k < length ths")
    case True
    obtain sh' th' where "ctl_fault cx e (th_ctl (ths ! k)) sh (ths ! k) = (sh', th')" by fastforce
    then show ?thesis
      using True faults [of cx e "ths ! k" sh] total_update [OF True, of sh' th' sh]
      by (simp add: w walk_fault_def)
  qed (simp add: w walk_fault_def)
qed

lemma total_event: "total (event_step cx w e) \<le> total w"
proof (cases e)
  case (Tick n)
  then show ?thesis by (cases w) (simp add: total_def environment)
next
  case (Env op)
  then show ?thesis by (cases w) (simp add: total_def environment)
qed (simp_all add: total_step total_fault)

lemma total_run: "total (walk_run cx w evs) \<le> total w"
  unfolding walk_run_def
proof (induction evs arbitrary: w)
  case (Cons e evs)
  have "total (foldl (event_step cx) (event_step cx w e) evs) \<le> total (event_step cx w e)"
    by (rule Cons.IH)
  then show ?case using total_event [of cx w e] by simp
qed simp

lemma cost_run: "cost (fst (walk_run cx w evs)) \<le> total w"
  using total_run [of cx w evs] by (simp add: total_def)

end

section \<open>At most 256 tasks, at most 512 trace entries\<close>

fun task_owed :: "ctl \<Rightarrow> nat" where
  "task_owed (EnqAgent i a p leader repo prompt) = 1"
| "task_owed (JobWs i a p) = 1"
| "task_owed (EnqJob i a p prompt) = 1"
| "task_owed c = 0"

fun order_owed :: "ctl \<Rightarrow> nat" where
  "order_owed (JobWs i a p) = 1"
| "order_owed (EnqJob i a p prompt) = 1"
| "order_owed c = 0"

definition task_cost :: "shared \<Rightarrow> nat" where
  "task_cost sh = length (sh_agent_task_ids sh) + sh_step_budget sh"

definition order_cost :: "shared \<Rightarrow> nat" where
  "order_cost sh = length (sh_ordered_node_ids sh) + 2 * sh_step_budget sh"

lemma plain_owed: "plain c \<Longrightarrow> task_owed c = 0 \<and> order_owed c = 0"
  by (cases c) simp_all

lemma owed_pieces [simp]:
  "task_owed (th_ctl (follow_edges i es th)) = 0" "order_owed (th_ctl (follow_edges i es th)) = 0"
  "task_owed (th_ctl (follow_branch cx i b th)) = 0" "order_owed (th_ctl (follow_branch cx i b th)) = 0"
  "task_owed (th_ctl (snd (while_iter cx n iter mx sh th))) = 0"
  "order_owed (th_ctl (snd (while_iter cx n iter mx sh th))) = 0"
  "task_owed (th_ctl (snd (step_done cx i r sh th))) = 0"
  "order_owed (th_ctl (snd (step_done cx i r sh th))) = 0"
  "task_owed (th_ctl (snd (diff_unavailable cx i r sh th))) = 0"
  "order_owed (th_ctl (snd (diff_unavailable cx i r sh th))) = 0"
  by (simp_all add: plain_owed)

lemma cost_core:
  "same_core sh sh' \<Longrightarrow> task_cost sh' = task_cost sh"
  "same_core sh sh' \<Longrightarrow> order_cost sh' = order_cost sh"
  by (simp_all add: same_core_def task_cost_def order_cost_def)

definition pays :: "shared \<Rightarrow> ctl \<Rightarrow> shared \<times> thread \<Rightarrow> bool" where
  "pays sh c s =
     (task_cost (fst s) + task_owed (th_ctl (snd s)) \<le> task_cost sh + task_owed c \<and>
      order_cost (fst s) + order_owed (th_ctl (snd s)) \<le> order_cost sh + order_owed c)"

lemma pays_core:
  "same_core sh (fst s) \<Longrightarrow> task_owed (th_ctl (snd s)) \<le> task_owed c \<Longrightarrow>
   order_owed (th_ctl (snd s)) \<le> order_owed c \<Longrightarrow> pays sh c s"
  by (simp add: pays_def cost_core)

lemma visit_kind_core:
  "same_core sh0 sh \<Longrightarrow>
   sh_agent_task_ids (fst (visit_kind k cx n sh th)) = sh_agent_task_ids sh0 \<and>
   sh_ordered_node_ids (fst (visit_kind k cx n sh th)) = sh_ordered_node_ids sh0 \<and>
   sh_step_budget (fst (visit_kind k cx n sh th)) = sh_step_budget sh0"
proof -
  assume core: "same_core sh0 sh"
  have "same_core sh0 (fst (visit_while cx n sh th))" using core by (simp add: visit_while_def)
  then show ?thesis using core
    by (cases k)
      (auto simp: visit_agent_def visit_wait_def visit_if_def visit_break_def
        visit_fork_def visit_join_def visit_wait_approval_def visit_job_def take_priority_def
        Let_def same_core_def log_def split: option.splits prod.splits list.splits)
qed

lemma owed_le: "task_owed c \<le> 1" "order_owed c \<le> 1"
  by (cases c; simp)+

lemma pays_walk_node: "pays sh (Visit i) (walk_node cx i sh th)"
proof (cases "sh_step_budget sh = 0 \<or> node_lookup (pl cx) i = None")
  case True
  then show ?thesis
    by (cases "sh_step_budget sh")
      (auto simp: walk_node_def Let_def pays_def task_cost_def order_cost_def log_def)
next
  case False
  then obtain n where n: "node_lookup (pl cx) i = Some n" by blast
  let ?sh = "sh\<lparr>sh_step_budget := sh_step_budget sh - 1,
      sh_ordered_node_ids := sh_ordered_node_ids sh @ [i]\<rparr>"
  let ?sh' = "if node_working_directory n \<noteq> None \<and> node_repo cx n \<noteq> wc_preferred_repo cx
    then log (LogTargetsRepo (node_name n) (node_repo cx n)) ?sh else ?sh"
  define v where "v = visit_kind (node_type n) cx n ?sh' th"
  have eq: "walk_node cx i sh th = v"
    using False n by (simp add: walk_node_def Let_def v_def)
  have "sh_agent_task_ids (fst v) = sh_agent_task_ids ?sh \<and>
      sh_ordered_node_ids (fst v) = sh_ordered_node_ids ?sh \<and>
      sh_step_budget (fst v) = sh_step_budget ?sh"
    unfolding v_def by (rule visit_kind_core) simp
  then have "task_cost (fst v) + 1 = task_cost sh" "order_cost (fst v) + 1 = order_cost sh"
    using False by (auto simp: task_cost_def order_cost_def)
  then show ?thesis
    using owed_le [of "th_ctl (snd v)"] by (simp add: pays_def eq)
qed

lemma pays_return_to: "pays sh (Return b) (return_to cx b sh th)"
proof (rule pays_core)
  show "same_core sh (fst (return_to cx b sh th))" by (rule same_core_return_to)
qed (auto simp: return_to_def Let_def split: list.splits frame.splits)

lemma pays_ctl_step: "pays sh (th_ctl th) (ctl_step cx (th_ctl th) sh th)"
proof (cases "th_ctl th")
  case (Visit i)
  then show ?thesis by (simp add: pays_walk_node)
next
  case (Return b)
  then show ?thesis by (simp add: pays_return_to)
next
  case (EnqAgent i a p leader repo prompt)
  then show ?thesis
    by (auto simp: agent_enqueue_def pays_def task_cost_def order_cost_def log_def
        split: sum.splits prod.splits)
next
  case (EnqJob i a p prompt)
  then show ?thesis
    by (auto simp: job_enqueue_def pays_def task_cost_def order_cost_def log_def
        split: sum.splits prod.splits)
next
  case (EnqDiff i r a prompt)
  have "pays sh (EnqDiff i r a prompt) (diff_unavailable cx i r sh th)" by (rule pays_core) simp_all
  then show ?thesis using EnqDiff
    by (auto simp: diff_enqueue_def pays_def task_cost_def order_cost_def split: sum.splits prod.splits)
next
  case (AwaitAgent i tid d)
  then show ?thesis
    by (auto simp: agent_finished_def Let_def split: await_outcome.splits intro!: pays_core)
next
  case (DiffWs i r)
  then show ?thesis by (auto simp: diff_prepare_def split: option.splits intro!: pays_core)
next
  case (AwaitDiff i r tid d)
  then show ?thesis
    by (auto simp: diff_finished_def Let_def split: await_outcome.splits intro!: pays_core)
next
  case (AtJoin i d)
  then show ?thesis
    by (auto simp: join_wait_def join_pass_def split: option.splits intro!: pays_core)
next
  case (JobWs i a p)
  then show ?thesis
    by (auto simp: job_prepare_def split: sum.splits option.splits intro!: pays_core)
next
  case (AwaitJob i tid d)
  then show ?thesis
    by (auto simp: job_finished_def split: await_outcome.splits intro!: pays_core)
qed (auto intro!: pays_core)

lemma pays_ctl_fault: "pays sh (th_ctl th) (ctl_fault cx e (th_ctl th) sh th)"
  by (cases "th_ctl th")
    (auto simp: diff_prepare_def job_prepare_def split: option.splits sum.splits intro!: pays_core)

interpretation tasks: potential task_cost task_owed
proof
  show "task_cost (fst (ctl_step cx (th_ctl th) sh th)) + task_owed (th_ctl (snd (ctl_step cx (th_ctl th) sh th)))
      \<le> task_cost sh + task_owed (th_ctl th)" for cx th sh
    using pays_ctl_step [of sh th cx] by (simp add: pays_def)
  show "task_cost (fst (ctl_fault cx e (th_ctl th) sh th)) + task_owed (th_ctl (snd (ctl_fault cx e (th_ctl th) sh th)))
      \<le> task_cost sh + task_owed (th_ctl th)" for cx e th sh
    using pays_ctl_fault [of sh th cx e] by (simp add: pays_def)
  show "task_cost sh' = task_cost sh" if "same_core sh sh'" for sh sh'
    using that by (rule cost_core)
qed (simp_all add: plain_owed task_cost_def)

interpretation order: potential order_cost order_owed
proof
  show "order_cost (fst (ctl_step cx (th_ctl th) sh th)) + order_owed (th_ctl (snd (ctl_step cx (th_ctl th) sh th)))
      \<le> order_cost sh + order_owed (th_ctl th)" for cx th sh
    using pays_ctl_step [of sh th cx] by (simp add: pays_def)
  show "order_cost (fst (ctl_fault cx e (th_ctl th) sh th)) + order_owed (th_ctl (snd (ctl_fault cx e (th_ctl th) sh th)))
      \<le> order_cost sh + order_owed (th_ctl th)" for cx e th sh
    using pays_ctl_fault [of sh th cx e] by (simp add: pays_def)
  show "order_cost sh' = order_cost sh" if "same_core sh sh'" for sh sh'
    using that by (rule cost_core)
qed (simp_all add: plain_owed order_cost_def)

lemma init_totals:
  "tasks.total (init_world db now start roots) = 256"
  "order.total (init_world db now start roots) = 512"
  by (simp_all add: tasks.total_def order.total_def init_world_def init_shared_def main_thread_def
      task_cost_def order_cost_def step_budget_def)

lemma task_bound:
  "length (sh_agent_task_ids (fst (walk_run cx (init_world db now start roots) evs))) \<le> 256"
  using tasks.cost_run [of cx "init_world db now start roots" evs]
  by (simp add: init_totals task_cost_def)

lemma order_bound:
  "length (sh_ordered_node_ids (fst (walk_run cx (init_world db now start roots) evs))) \<le> 512"
  using order.cost_run [of cx "init_world db now start roots" evs]
  by (simp add: init_totals order_cost_def)

end
