(* ===== verification/Squad_Threads.thy ===== *)
theory Squad_Threads
  imports Squad_Invariants
begin

text \<open>
  The shape of a thread and of the trace, kept by every event: the while frames are those
  of the body loops on the call stack, a returning break has a loop to leave, every node a
  thread is sent to exists, no loop passes twenty iterations, a join lets one branch through,
  and the pause flag records the last approval gate reached.
\<close>

section \<open>Threads\<close>

fun body_ids :: "frame list \<Rightarrow> string list" where
  "body_ids [] = []"
| "body_ids (KBody i iter mx es # fs) = i # body_ids fs"
| "body_ids (KEdges i es # fs) = body_ids fs"
| "body_ids (KRoots rs # fs) = body_ids fs"

fun frame_ok :: "walk_ctx \<Rightarrow> frame \<Rightarrow> bool" where
  "frame_ok cx (KEdges i es) = (set es \<subseteq> set (valid_edges (pl cx)))"
| "frame_ok cx (KBody i iter mx es) = (set es \<subseteq> set (valid_edges (pl cx)) \<and> iter < mx \<and> mx \<le> 20)"
| "frame_ok cx (KRoots rs) = (set rs \<subseteq> set (node_ids (pl cx)))"

definition frames_ok :: "walk_ctx \<Rightarrow> thread \<Rightarrow> bool" where
  "frames_ok cx th = (\<forall>f \<in> set (th_frames th). frame_ok cx f)"

definition stack_ok :: "thread \<Rightarrow> bool" where
  "stack_ok th = (body_ids (th_frames th) = map fst (th_while_stack th))"

fun ctl_ok :: "walk_ctx \<Rightarrow> thread \<Rightarrow> ctl \<Rightarrow> bool" where
  "ctl_ok cx th (Visit i) = (i \<in> set (node_ids (pl cx)))"
| "ctl_ok cx th (Return b) = (b \<longrightarrow> top_broke th)"
| "ctl_ok cx th (Spawn i ts) = (set ts \<subseteq> set (node_ids (pl cx)))"
| "ctl_ok cx th (Raise e) = (\<forall>i. e \<noteq> MissingNode i)"
| "ctl_ok cx th (Done r) = (r \<noteq> Inr True \<and> (\<forall>i. r \<noteq> Inl (MissingNode i)))"
| "ctl_ok cx th c = True"

definition thread_ok :: "walk_ctx \<Rightarrow> thread \<Rightarrow> bool" where
  "thread_ok cx th =
     (ctl_ok cx th (th_ctl th) \<and> (\<not> is_done th \<longrightarrow> stack_ok th \<and> frames_ok cx th))"

lemma valid_target: "e \<in> set (valid_edges p) \<Longrightarrow> edge_target e \<in> set (node_ids p)"
  by (simp add: valid_edges_def)

lemma branch_valid: "set (edges_for_branch (outs (pl cx) i) b) \<subseteq> set (valid_edges (pl cx))"
  using edges_for_branch_subset [of "outs (pl cx) i" b] by (auto simp: outs_def)

lemma thread_ok_ctl:
  assumes "stack_ok th" "frames_ok cx th" "ctl_ok cx th c"
  shows "thread_ok cx (th\<lparr>th_ctl := c\<rparr>)"
  using assms by (cases c) (auto simp: thread_ok_def stack_ok_def frames_ok_def top_broke_def)

lemma thread_ok_follow_edges:
  assumes "stack_ok th" "frames_ok cx th" "set es \<subseteq> set (valid_edges (pl cx))"
  shows "thread_ok cx (follow_edges i es th)"
  using assms
proof (induction i es th rule: follow_edges.induct)
  case (1 i th)
  then show ?case by (auto intro: thread_ok_ctl)
next
  case (2 i e es th)
  then show ?case
    by (auto simp: Let_def thread_ok_def stack_ok_def frames_ok_def valid_target)
qed

lemma thread_ok_follow_branch:
  "stack_ok th \<Longrightarrow> frames_ok cx th \<Longrightarrow> thread_ok cx (follow_branch cx i b th)"
  unfolding follow_branch_def by (intro thread_ok_follow_edges branch_valid)

lemma thread_ok_follow_out:
  "stack_ok th \<Longrightarrow> frames_ok cx th \<Longrightarrow>
   thread_ok cx (follow_edges i (edges_for_branch (outs (pl cx) j) b) th)"
  by (intro thread_ok_follow_edges branch_valid)

lemma thread_ok_step_done:
  "stack_ok th \<Longrightarrow> frames_ok cx th \<Longrightarrow> thread_ok cx (snd (step_done cx i r sh th))"
  by (auto simp: step_done_def Let_def intro: thread_ok_follow_branch thread_ok_follow_out
      thread_ok_ctl)

lemma thread_ok_unavailable:
  "stack_ok th \<Longrightarrow> frames_ok cx th \<Longrightarrow> thread_ok cx (snd (diff_unavailable cx i r sh th))"
  by (simp add: diff_unavailable_def thread_ok_step_done)

lemmas thread_ok_intros =
  thread_ok_ctl thread_ok_follow_edges thread_ok_follow_branch thread_ok_step_done thread_ok_unavailable

text \<open>Inside a loop head the loop's own frame is still on the while stack.\<close>

definition in_loop :: "string \<Rightarrow> thread \<Rightarrow> bool" where
  "in_loop i th =
     (th_while_stack th \<noteq> [] \<and> fst (hd (th_while_stack th)) = i \<and>
      body_ids (th_frames th) = map fst (tl (th_while_stack th)))"

lemma thread_ok_while_exit:
  assumes "in_loop i th" "frames_ok cx th"
  shows "thread_ok cx (while_exit cx i th)"
proof -
  have "stack_ok (th\<lparr>th_while_stack := tl (th_while_stack th)\<rparr>)"
    using assms(1) by (auto simp: in_loop_def stack_ok_def)
  moreover have "frames_ok cx (th\<lparr>th_while_stack := tl (th_while_stack th)\<rparr>)"
    using assms(2) by (simp add: frames_ok_def)
  ultimately show ?thesis
    by (auto simp: while_exit_def Let_def intro!: thread_ok_follow_out)
qed

lemma thread_ok_while_iter:
  assumes "in_loop (node_id n) th" "frames_ok cx th" "mx \<le> 20"
  shows "thread_ok cx (snd (while_iter cx n iter mx sh th))"
proof -
  have exit: "thread_ok cx (while_exit cx (node_id n) th)"
    using assms(1,2) by (rule thread_ok_while_exit)
  have body: "thread_ok cx (th\<lparr>th_frames := KBody (node_id n) iter mx es # th_frames th,
      th_ctl := Visit (edge_target e)\<rparr>)"
    if "edges_for_branch (outs (pl cx) (node_id n)) BranchBody = e # es" "iter < mx" for e es
  proof -
    have "insert e (set es) \<subseteq> set (valid_edges (pl cx))"
      using branch_valid [of cx "node_id n" BranchBody] that by simp
    then show ?thesis using assms that(2)
      by (cases "th_while_stack th")
        (auto simp: thread_ok_def stack_ok_def frames_ok_def in_loop_def valid_target)
  qed
  show ?thesis using exit body
    by (auto simp: while_iter_def Let_def split: prod.splits list.splits)
qed

lemma node_id_node_of: "node_id (node_of cx i) = i"
  by (auto simp: node_of_def default_node_def dest: node_lookup_Some split: option.splits)

lemma thread_ok_visit:
  assumes "stack_ok th" "frames_ok cx th"
  shows "thread_ok cx (snd (visit_kind k cx n sh th))"
proof (cases k)
  case NodeWhile
  have "in_loop (node_id n) (th\<lparr>th_while_stack := (node_id n, False) # th_while_stack th\<rparr>)"
    using assms(1) by (simp add: in_loop_def stack_ok_def)
  then show ?thesis using NodeWhile assms(2) max_iter_le
    by (auto simp: visit_while_def frames_ok_def intro!: thread_ok_while_iter)
next
  case NodeBreak
  have "thread_ok cx ((set_broke th)\<lparr>th_ctl := Return True\<rparr>)" if "th_while_stack th \<noteq> []"
    using assms that
    by (cases "th_while_stack th")
      (auto simp: thread_ok_def stack_ok_def frames_ok_def set_broke_def top_broke_def split: prod.splits)
  then show ?thesis using NodeBreak assms
    by (auto simp: visit_break_def Let_def split: list.splits intro: thread_ok_ctl)
next
  case NodeFork
  have "edge_target ` set (edges_for_branch (outs (pl cx) (node_id n)) BranchDefault) \<subseteq> set (node_ids (pl cx))"
    using branch_valid valid_target by blast
  then show ?thesis using NodeFork assms
    by (auto simp: visit_fork_def Let_def intro!: thread_ok_ctl)
next
  case NodeAgent
  then show ?thesis using assms
    by (auto simp: visit_agent_def Let_def split: option.splits prod.splits intro!: thread_ok_ctl)
next
  case NodeIf
  then show ?thesis using assms
    by (auto simp: visit_if_def Let_def split: prod.splits intro!: thread_ok_follow_out)
next
  case NodeWait
  then show ?thesis using assms by (auto simp: visit_wait_def Let_def intro!: thread_ok_intros)
next
  case NodeWaitApproval
  then show ?thesis using assms by (auto simp: visit_wait_approval_def Let_def intro!: thread_ok_ctl)
next
  case NodeJoin
  then show ?thesis using assms by (auto simp: visit_join_def Let_def intro!: thread_ok_ctl)
next
  case NodeScript
  then show ?thesis using assms
    by (auto simp: visit_job_def split: option.splits prod.splits intro!: thread_ok_ctl)
next
  case NodeGitOp
  then show ?thesis using assms
    by (auto simp: visit_job_def split: option.splits prod.splits intro!: thread_ok_ctl)
qed

lemma thread_ok_walk_node:
  assumes "stack_ok th" "frames_ok cx th" "i \<in> set (node_ids (pl cx))"
  shows "thread_ok cx (snd (walk_node cx i sh th))"
proof -
  obtain n where "node_lookup (pl cx) i = Some n" using node_lookup_exists [OF assms(3)] by blast
  then show ?thesis using assms(1,2)
    by (auto simp: walk_node_def Let_def intro!: thread_ok_visit thread_ok_ctl)
qed

lemma thread_ok_return_to:
  assumes "stack_ok th" "frames_ok cx th" "b \<longrightarrow> top_broke th"
  shows "thread_ok cx (snd (return_to cx b sh th))"
proof (cases "th_frames th")
  case Nil
  then have "th_while_stack th = []" using assms(1) by (simp add: stack_ok_def)
  then show ?thesis using assms(3) Nil
    by (simp add: return_to_def thread_ok_def is_done_def top_broke_def)
next
  case (Cons f fs)
  have fs: "frames_ok cx (th\<lparr>th_frames := fs\<rparr>)" "frame_ok cx f"
    using assms(2) Cons by (simp_all add: frames_ok_def)
  show ?thesis
  proof (cases f)
    case (KEdges src es)
    have "stack_ok (th\<lparr>th_frames := fs\<rparr>)" using assms(1) Cons KEdges by (simp add: stack_ok_def)
    moreover have "top_broke (th\<lparr>th_frames := fs\<rparr>) = top_broke th" by (simp add: top_broke_def)
    ultimately show ?thesis using Cons KEdges fs assms(3)
      by (auto simp: return_to_def Let_def intro!: thread_ok_ctl thread_ok_follow_edges)
  next
    case (KBody i iter mx es)
    have loop: "in_loop (node_id (node_of cx i)) (th\<lparr>th_frames := fs\<rparr>)"
      using assms(1) Cons KBody by (auto simp: stack_ok_def in_loop_def node_id_node_of)
    have next_body: "thread_ok cx (th\<lparr>th_frames := KBody i iter mx es' # fs, th_ctl := Visit (edge_target e)\<rparr>)"
      if "es = e # es'" for e es'
      using that assms fs Cons KBody valid_target
      by (auto simp: thread_ok_def stack_ok_def frames_ok_def)
    show ?thesis using Cons KBody fs thread_ok_while_iter [OF loop fs(1)] next_body
      by (auto simp: return_to_def Let_def split: list.splits)
  next
    case (KRoots rs)
    then show ?thesis using Cons fs assms(1,2)
      by (auto simp: return_to_def thread_ok_def is_done_def stack_ok_def frames_ok_def
          split: list.splits)
  qed
qed

lemma job_spec_error: "job_spec_of n ws = Inl e \<Longrightarrow> e \<noteq> MissingNode i"
  by (auto simp: job_spec_of_def split: if_splits option.splits)

lemma thread_ok_ctl_step:
  assumes "thread_ok cx th"
  shows "thread_ok cx (snd (ctl_step cx (th_ctl th) sh th))"
proof (cases "is_done th")
  case True
  then show ?thesis using assms by (auto simp: is_done_def split: ctl.splits)
next
  case False
  then have ok: "stack_ok th" "frames_ok cx th" and c: "ctl_ok cx th (th_ctl th)"
    using assms by (simp_all add: thread_ok_def)
  show ?thesis
  proof (cases "th_ctl th")
    case (AwaitAgent i tid d)
    then show ?thesis using ok assms
      by (auto simp: agent_finished_def Let_def split: await_outcome.splits intro!: thread_ok_intros)
  next
    case (EnqAgent i a p leader repo prompt)
    then show ?thesis using ok
      by (auto simp: agent_enqueue_def split: sum.splits prod.splits intro!: thread_ok_ctl)
  next
    case (DiffWs i r)
    then show ?thesis using ok
      by (auto simp: diff_prepare_def split: option.splits intro!: thread_ok_ctl thread_ok_unavailable)
  next
    case (EnqDiff i r a prompt)
    then show ?thesis using ok
      by (auto simp: diff_enqueue_def split: sum.splits prod.splits
          intro!: thread_ok_ctl thread_ok_unavailable)
  next
    case (AwaitDiff i r tid d)
    then show ?thesis using ok assms
      by (auto simp: diff_finished_def Let_def split: await_outcome.splits
          intro!: thread_ok_step_done thread_ok_unavailable)
  next
    case (AtJoin i d)
    then show ?thesis using ok assms
      by (auto simp: join_wait_def join_pass_def split: option.splits
          intro!: thread_ok_ctl thread_ok_follow_branch)
  next
    case (JobWs i a p)
    then show ?thesis using ok job_spec_error
      by (auto simp: job_prepare_def split: sum.splits option.splits intro!: thread_ok_ctl)
  next
    case (EnqJob i a p prompt)
    then show ?thesis using ok
      by (auto simp: job_enqueue_def split: sum.splits prod.splits intro!: thread_ok_ctl)
  next
    case (AwaitJob i tid d)
    then show ?thesis using ok assms
      by (auto simp: job_finished_def split: await_outcome.splits
          intro!: thread_ok_ctl thread_ok_step_done)
  next
    case (Raise e)
    then show ?thesis using c by (simp add: thread_ok_def is_done_def)
  next
    case (Return b)
    then show ?thesis using ok c by (simp add: thread_ok_return_to)
  next
    case (Visit i)
    then show ?thesis using ok c by (simp add: thread_ok_walk_node)
  next
    case (Sleeping i until)
    then show ?thesis using ok assms by (auto intro: thread_ok_follow_branch)
  qed (use assms in simp_all)
qed

lemma thread_ok_ctl_fault:
  assumes "thread_ok cx th"
  shows "thread_ok cx (snd (ctl_fault cx e (th_ctl th) sh th))"
proof (cases "is_done th")
  case True
  then show ?thesis using assms by (auto simp: is_done_def split: ctl.splits)
next
  case False
  then have "stack_ok th" "frames_ok cx th" using assms by (simp_all add: thread_ok_def)
  then show ?thesis using assms job_spec_error
    by (cases "th_ctl th")
      (auto simp: diff_prepare_def job_prepare_def split: option.splits sum.splits
        intro!: thread_ok_ctl thread_ok_unavailable)
qed

section \<open>Traces\<close>

definition iters_ok :: "shared \<Rightarrow> bool" where
  "iters_ok sh = (\<forall>k x. LogIter k x \<in> set (sh_run_log sh) \<longrightarrow> k \<le> 20)"

definition leader_taken :: "shared \<Rightarrow> string \<Rightarrow> bool" where
  "leader_taken sh i = (case sh_join_gates sh i of None \<Rightarrow> False | Some g \<Rightarrow> jg_leader_taken g)"

definition joins_ok :: "shared \<Rightarrow> bool" where
  "joins_ok sh =
     (\<forall>i. count_list (sh_run_log sh) (LogJoinReleased i) = (if leader_taken sh i then 1 else 0))"

fun is_approval :: "log_line \<Rightarrow> bool" where
  "is_approval (LogWaitApproval l k r) = True"
| "is_approval _ = False"

definition pause_ok :: "shared \<Rightarrow> bool" where
  "pause_ok sh = (sh_pause sh = None \<longleftrightarrow> (\<forall>l \<in> set (sh_run_log sh). \<not> is_approval l))"

definition trace_ok :: "shared \<Rightarrow> bool" where
  "trace_ok sh = (iters_ok sh \<and> joins_ok sh \<and> pause_ok sh)"

fun quiet_line :: "log_line \<Rightarrow> bool" where
  "quiet_line (LogIter k x) = (k \<le> 20)"
| "quiet_line (LogJoinReleased i) = False"
| "quiet_line (LogWaitApproval l k r) = False"
| "quiet_line _ = True"

lemma trace_ok_log [simp]:
  assumes "quiet_line l"
  shows "trace_ok (log l sh) = trace_ok sh"
proof -
  have "iters_ok (log l sh) = iters_ok sh"
    using assms by (cases l) (auto simp: iters_ok_def log_def)
  moreover have "joins_ok (log l sh) = joins_ok sh"
    using assms by (cases l) (auto simp: joins_ok_def log_def leader_taken_def)
  moreover have "pause_ok (log l sh) = pause_ok sh"
    using assms by (cases l) (auto simp: pause_ok_def log_def)
  ultimately show ?thesis by (simp add: trace_ok_def)
qed

lemma trace_ok_fields [simp]:
  "trace_ok (sh\<lparr>sh_last_agent_result := r\<rparr>) = trace_ok sh"
  "trace_ok (sh\<lparr>sh_db := db\<rparr>) = trace_ok sh"
  "trace_ok (sh\<lparr>sh_clock := n\<rparr>) = trace_ok sh"
  "trace_ok (sh\<lparr>sh_agent_task_ids := ids\<rparr>) = trace_ok sh"
  "trace_ok (sh\<lparr>sh_ordered_node_ids := os\<rparr>) = trace_ok sh"
  "trace_ok (sh\<lparr>sh_step_budget := b\<rparr>) = trace_ok sh"
  "trace_ok (sh\<lparr>sh_agent_priority := p\<rparr>) = trace_ok sh"
  by (simp_all add: trace_ok_def iters_ok_def joins_ok_def pause_ok_def leader_taken_def)

lemma trace_ok_while_iter [simp]:
  "mx \<le> 20 \<Longrightarrow> trace_ok (fst (while_iter cx n iter mx sh th)) = trace_ok sh"
  by (auto simp: while_iter_def Let_def split: prod.splits list.splits)

lemma trace_ok_step_done [simp]: "trace_ok (fst (step_done cx i r sh th)) = trace_ok sh"
  by (simp add: step_done_def Let_def)

lemma trace_ok_unavailable [simp]: "trace_ok (fst (diff_unavailable cx i r sh th)) = trace_ok sh"
  by (simp add: diff_unavailable_def)

lemma trace_ok_joined [simp]: "trace_ok (joined_all rs sh) = trace_ok sh"
  unfolding joined_all_def
  by (induction rs arbitrary: sh) (auto simp: log_branch_def split: sum.splits)

lemma trace_ok_approval:
  "trace_ok sh \<Longrightarrow> trace_ok ((log (LogWaitApproval l k r) sh)\<lparr>sh_pause := Some p\<rparr>)"
  by (auto simp: trace_ok_def iters_ok_def joins_ok_def pause_ok_def leader_taken_def log_def)

lemma trace_ok_arrive:
  assumes "trace_ok sh"
  shows "trace_ok (sh\<lparr>sh_join_gates := (sh_join_gates sh)(i := Some (arrive i ex sh))\<rparr>)"
proof -
  have "leader_taken (sh\<lparr>sh_join_gates := (sh_join_gates sh)(i := Some (arrive i ex sh))\<rparr>) j
      = leader_taken sh j" for j
    by (auto simp: leader_taken_def arrive_def Let_def split: option.splits)
  then show ?thesis using assms
    by (simp add: trace_ok_def iters_ok_def joins_ok_def pause_ok_def)
qed

lemma trace_ok_join_pass:
  assumes "trace_ok sh" "sh_join_gates sh i = Some g"
  shows "trace_ok (fst (join_pass cx i g sh th))"
proof (cases "jg_leader_taken g")
  case True
  then show ?thesis using assms by (simp add: join_pass_def)
next
  case False
  then show ?thesis using assms
    by (auto simp: join_pass_def trace_ok_def iters_ok_def joins_ok_def pause_ok_def leader_taken_def
        log_def)
qed

lemma trace_ok_visit:
  assumes "trace_ok sh"
  shows "trace_ok (fst (visit_kind k cx n sh th))"
  using assms max_iter_le trace_ok_approval
  by (cases k)
    (auto simp: visit_agent_def visit_wait_def visit_if_def visit_while_def visit_break_def
      visit_fork_def visit_join_def visit_job_def take_priority_def visit_wait_approval_def
      Let_def trace_ok_arrive split: option.splits prod.splits list.splits)

lemma trace_ok_walk_node: "trace_ok sh \<Longrightarrow> trace_ok (fst (walk_node cx i sh th))"
  by (auto simp: walk_node_def Let_def split: option.splits intro!: trace_ok_visit)

lemma trace_ok_return_to:
  assumes "trace_ok sh" "frames_ok cx th"
  shows "trace_ok (fst (return_to cx b sh th))"
proof -
  have "mx \<le> 20" if "th_frames th = KBody i iter mx es # fs" for i iter mx es fs
    using assms(2) that by (simp add: frames_ok_def)
  then show ?thesis using assms(1)
    by (simp add: return_to_def Let_def split: list.splits frame.splits)
qed

lemma trace_ok_ctl_step:
  assumes "trace_ok sh" "thread_ok cx th"
  shows "trace_ok (fst (ctl_step cx (th_ctl th) sh th))"
proof (cases "th_ctl th")
  case (Visit i)
  then show ?thesis using assms trace_ok_walk_node by simp
next
  case (Return b)
  then have "frames_ok cx th" using assms(2) by (simp add: thread_ok_def is_done_def)
  then show ?thesis using Return assms trace_ok_return_to by simp
next
  case (AtJoin i d)
  then show ?thesis using assms trace_ok_join_pass [of _ i]
    by (auto simp: join_wait_def split: option.splits)
next
  case (EnqAgent i a p leader repo prompt)
  then show ?thesis using assms
    by (auto simp: agent_enqueue_def split: sum.splits prod.splits)
next
  case (EnqDiff i r a prompt)
  then show ?thesis using assms
    by (auto simp: diff_enqueue_def split: sum.splits prod.splits)
next
  case (EnqJob i a p prompt)
  then show ?thesis using assms
    by (auto simp: job_enqueue_def split: sum.splits prod.splits)
next
  case (AwaitAgent i tid d)
  then show ?thesis using assms
    by (auto simp: agent_finished_def Let_def split: await_outcome.splits)
next
  case (DiffWs i r)
  then show ?thesis using assms by (auto simp: diff_prepare_def split: option.splits)
next
  case (AwaitDiff i r tid d)
  then show ?thesis using assms
    by (auto simp: diff_finished_def Let_def split: await_outcome.splits)
next
  case (JobWs i a p)
  then show ?thesis using assms by (auto simp: job_prepare_def split: sum.splits option.splits)
next
  case (AwaitJob i tid d)
  then show ?thesis using assms by (auto simp: job_finished_def split: await_outcome.splits)
qed (use assms in auto)

lemma trace_ok_ctl_fault: "trace_ok sh \<Longrightarrow> trace_ok (fst (ctl_fault cx e (th_ctl th) sh th))"
  by (cases "th_ctl th")
    (auto simp: diff_prepare_def job_prepare_def split: option.splits sum.splits)

section \<open>Every reachable world\<close>

definition world_ok :: "walk_ctx \<Rightarrow> world \<Rightarrow> bool" where
  "world_ok cx w = (trace_ok (fst w) \<and> (\<forall>th \<in> set (snd w). thread_ok cx th))"

lemma world_ok_update:
  assumes "world_ok cx (sh, ths)" "trace_ok sh'" "thread_ok cx th'"
  shows "world_ok cx (sh', ths[k := th'])"
  using assms by (auto simp: world_ok_def dest: set_update_subset_insert [THEN subsetD])

lemma child_result: "thread_ok cx th \<Longrightarrow> result_of th \<noteq> Inr True"
  by (auto simp: thread_ok_def result_of_def split: ctl.splits)

lemma world_ok_step:
  assumes ok: "world_ok cx w"
  shows "world_ok cx (walk_step cx k w)"
proof (cases "ready cx w k")
  case False
  then show ?thesis using ok by (simp add: walk_step_not_ready)
next
  case True
  obtain sh ths where w: "w = (sh, ths)" by (cases w)
  have k: "k < length ths" using True by (simp add: w ready_def)
  then have th: "thread_ok cx (ths ! k)" and sh: "trace_ok sh" using ok by (auto simp: w world_ok_def)
  show ?thesis
  proof (cases "blocked cx sh (th_ctl (ths ! k))")
    case False
    obtain sh' th' where "ctl_step cx (th_ctl (ths ! k)) sh (ths ! k) = (sh', th')" by fastforce
    then show ?thesis
      using walk_step_ctl [OF k False] thread_ok_ctl_step [OF th, of sh] trace_ok_ctl_step [OF sh th]
        world_ok_update ok by (simp add: w)
  next
    case blocked: True
    show ?thesis
    proof (cases "th_ctl (ths ! k)")
      case (Spawn i ts)
      let ?th = "(ths ! k)\<lparr>th_ctl := Forked [length ths..<length ths + length ts]\<rparr>"
      have "set ts \<subseteq> set (node_ids (pl cx))" "stack_ok (ths ! k)" "frames_ok cx (ths ! k)"
        using th Spawn by (simp_all add: thread_ok_def is_done_def)
      then have "thread_ok cx ?th" "\<forall>t \<in> set ts. thread_ok cx (branch_thread i t)"
        by (auto intro: thread_ok_ctl simp: thread_ok_def branch_thread_def stack_ok_def frames_ok_def)
      then have "world_ok cx (sh, ths[k := ?th])" "\<forall>t \<in> set ts. thread_ok cx (branch_thread i t)"
        using world_ok_update ok sh by (simp_all add: w)
      then show ?thesis using Spawn k by (auto simp: w walk_step_def Let_def world_ok_def)
    next
      case (Forked ids)
      let ?rs = "map (\<lambda>c. result_of (ths ! c)) ids"
      have eq: "walk_step cx k w =
        (joined_all ?rs sh, ths[k := (ths ! k)\<lparr>th_ctl := Return (Inr True \<in> set ?rs)\<rparr>])"
        using True Forked by (simp add: w ready_def walk_step_def Let_def)
      have "\<forall>c \<in> set ids. c < length ths" using True Forked by (simp add: w ready_def)
      then have "\<forall>c \<in> set ids. result_of (ths ! c) \<noteq> Inr True"
        using ok child_result [of cx] by (simp add: w world_ok_def)
      then have "Inr True \<notin> set ?rs" by auto
      moreover have "thread_ok cx ((ths ! k)\<lparr>th_ctl := Return False\<rparr>)"
        using th Forked thread_ok_ctl [of "ths ! k" cx "Return False"]
        by (simp add: thread_ok_def is_done_def)
      ultimately show ?thesis using eq world_ok_update ok sh by (simp add: w)
    qed (use True blocked in \<open>auto simp: w ready_def\<close>)
  qed
qed

lemma world_ok_fault:
  assumes "world_ok cx w"
  shows "world_ok cx (walk_fault cx k e w)"
proof -
  obtain sh ths where w: "w = (sh, ths)" by (cases w)
  show ?thesis
  proof (cases "k < length ths")
    case True
    then have th: "thread_ok cx (ths ! k)" and sh: "trace_ok sh"
      using assms by (auto simp: w world_ok_def)
    obtain sh' th' where "ctl_fault cx e (th_ctl (ths ! k)) sh (ths ! k) = (sh', th')" by fastforce
    then show ?thesis
      using thread_ok_ctl_fault [OF th, of e sh] trace_ok_ctl_fault [OF sh, of cx e "ths ! k"]
        world_ok_update assms True by (simp add: w walk_fault_def)
  qed (use assms in \<open>simp add: w walk_fault_def\<close>)
qed

lemma world_ok_event: "world_ok cx w \<Longrightarrow> world_ok cx (event_step cx w e)"
  by (cases e; cases w) (simp_all add: world_ok_step world_ok_fault, simp_all add: world_ok_def)

lemma world_ok_run: "world_ok cx w \<Longrightarrow> world_ok cx (walk_run cx w evs)"
  unfolding walk_run_def by (induction evs arbitrary: w) (simp_all add: world_ok_event)

definition roots_ok :: "walk_ctx \<Rightarrow> string list \<Rightarrow> bool" where
  "roots_ok cx roots = (roots \<noteq> [] \<and> set roots \<subseteq> set (node_ids (pl cx)))"

lemma world_ok_init: "roots_ok cx roots \<Longrightarrow> world_ok cx (init_world db now start roots)"
  by (cases roots)
    (auto simp: world_ok_def init_world_def init_shared_def main_thread_def thread_ok_def roots_ok_def
      stack_ok_def frames_ok_def trace_ok_def iters_ok_def joins_ok_def pause_ok_def leader_taken_def
      split: option.splits)

lemma reachable_ok:
  "roots_ok cx roots \<Longrightarrow> world_ok cx (walk_run cx (init_world db now start roots) evs)"
  by (simp add: world_ok_run world_ok_init)

text \<open>The roots that execute_squad_pipeline walks are nodes of the pipeline.\<close>

lemma graph_roots_ok: "pl_nodes p \<noteq> [] \<Longrightarrow> graph_roots p \<noteq> [] \<and> set (graph_roots p) \<subseteq> set (node_ids p)"
  by (cases "pl_nodes p") (auto simp: graph_roots_def node_ids_def Let_def)

end
