(* ===== verification/Squad_Exec.thy ===== *)
theory Squad_Exec
  imports Squad_Trace_Text Squad_Runs Squad_Threads
begin

text \<open>
  The life of a squad run around the walk (crates/remote/src/routes/squads.rs): the request
  handlers \<open>run_squad\<close> and \<open>approve_squad_run\<close>, \<open>prepare_squad_run\<close>, the head of
  execute_squad_pipeline (validation, issue, roots), its tail (comment, run row, inbox) and
  the wrapper of spawn_squad_run that marks a crashed walk. The clock text of a title, the
  issue number a database trigger assigns and the texts of library errors are parameters.
\<close>

section \<open>Environment and errors\<close>

record run_env =
  en_texts :: error_texts
  en_to_string :: "pipeline_job_spec \<Rightarrow> string option"
  en_date :: "timestamp \<Rightarrow> string"
  en_simple_id :: "uuid \<Rightarrow> string"
  en_await_var :: "string option"

datatype run_error =
    NoIssueSelected | NoWorkingDirectory | NoNodes | IssueNotInProject
  | StartNodeNotFound string | RunDb db_error | WalkFailed walk_error

fun run_error_text :: "error_texts \<Rightarrow> run_error \<Rightarrow> string" where
  "run_error_text et NoIssueSelected = utf8 [229, 183, 165, 228, 189, 156, 231, 155, 174, 230,
       160, 135, 229, 140, 133, 229, 144, 171] @ '' Issue'' @ utf8 [239, 188, 140, 228, 189, 134,
       230, 156, 170, 233, 128, 137, 230, 139, 169] @ '' Issue''"
| "run_error_text et NoWorkingDirectory = utf8 [229, 183, 165, 228, 189, 156, 231, 155, 174, 230,
       160, 135, 229, 140, 133, 229, 144, 171, 231, 155, 174, 229, 189, 149, 239, 188, 140, 228,
       189, 134, 230, 156, 170, 232, 174, 190, 231, 189, 174] @ '' working_directory''"
| "run_error_text et NoNodes = utf8 [230, 181, 129, 230, 176, 180, 231, 186, 191, 230, 178, 161,
       230, 156, 137, 230, 173, 165, 233, 170, 164, 239, 188, 140, 232, 175, 183, 229, 133, 136,
       230, 183, 187, 229, 138, 160, 232, 138, 130, 231, 130, 185]"
| "run_error_text et IssueNotInProject = ''Issue '' @ utf8 [228, 184, 141, 229, 173, 152, 229,
       156, 168, 230, 136, 150, 228, 184, 141, 229, 177, 158, 228, 186, 142, 230, 156, 172, 233,
       161, 185, 231, 155, 174]"
| "run_error_text et (StartNodeNotFound s) = ''start_from_node_id `'' @
       s @ ''` not found in pipeline''"
| "run_error_text et (RunDb e) = et_db et e"
| "run_error_text et (WalkFailed e) = walk_error_text et e"

definition agent_await_timeout :: "run_env \<Rightarrow> nat" where
  "agent_await_timeout en =
     (case en_await_var en of
        None \<Rightarrow> 45 * 60
      | Some s \<Rightarrow> (case parse_u64 s of None \<Rightarrow> 45 * 60 | Some n \<Rightarrow> if 0 < n then n else 45 * 60))"

section \<open>Resolving the target\<close>

definition resolve_directory :: "squad \<Rightarrow> run_squad_request \<Rightarrow> string option" where
  "resolve_directory sq rq =
     (case opt_or (rq_working_directory rq) (sq_working_directory sq) of
        None \<Rightarrow> None | Some s \<Rightarrow> (if str_trim s = [] then None else Some s))"

definition issue_override :: "squad \<Rightarrow> run_squad_request \<Rightarrow> uuid option" where
  "issue_override sq rq = opt_or (rq_issue_id rq) (sq_issue_id sq)"

definition issue_in_project :: "remote_db \<Rightarrow> uuid \<Rightarrow> uuid \<Rightarrow> bool" where
  "issue_in_project db i p =
     (case issue_find db i of None \<Rightarrow> False | Some iss \<Rightarrow> is_project_id iss = p)"

definition create_path_run_issue ::
  "run_env \<Rightarrow> remote_db \<Rightarrow> squad \<Rightarrow> string option \<Rightarrow> db_error + (uuid \<times> remote_db)" where
  "create_path_run_issue en db sq wd =
     (case sort_key ps_sort_order (filter (\<lambda>s. ps_project_id s = sq_project_id sq) (db_statuses db)) of
        [] \<Rightarrow> Inl RowNotFound
      | st # _ \<Rightarrow>
          (let i = fresh_uuid (map is_id (db_issues db)) db;
               iss = \<lparr>is_id = i, is_project_id = sq_project_id sq, is_status_id = ps_id st,
                      is_simple_id = en_simple_id en i,
                      is_title = ''Squad run: '' @ sq_name sq @ '' '' @ utf8 [226, 128, 148] @
       '' '' @ en_date en (db_now db),
                      is_description = Some (''Automated squad pipeline run against directory.'' @
       nl @ nl @
                        ''Working directory: `'' @ unwrap_or wd ''(unset)'' @ ''`''),
                      is_creator_user_id = None\<rparr>;
               k = fresh_uuid (map ia_id (db_assignees db)) db;
               db1 = db\<lparr>db_issues := db_issues db @ [iss], db_next_uuid := max (Suc i) (db_next_uuid db)\<rparr>;
               db2 = (if tbl_find sq_id (sq_id sq) (db_squads db) = None then db1
                      else db1\<lparr>db_assignees := db_assignees db @ [\<lparr>ia_id = k, ia_issue_id = i,
                             ia_user_id = None, ia_agent_id = None, ia_squad_id = Some (sq_id sq)\<rparr>]\<rparr>) in
           Inr (i, db2)))"

section \<open>Preparing a run\<close>

record prepared_run =
  pr_run_id :: uuid
  pr_issue_id :: uuid
  pr_overrides :: run_squad_request

definition prepare_squad_run ::
  "run_env \<Rightarrow> remote_db \<Rightarrow> squad \<Rightarrow> run_squad_request \<Rightarrow> uuid option \<Rightarrow>
   run_error + (prepared_run \<times> remote_db)" where
  "prepare_squad_run en db sq rq actor =
     (let wd = resolve_directory sq rq; target = sq_target_type sq;
          issue = (case issue_override sq rq of
                     Some i \<Rightarrow> if uses_issue target then
                                 (if issue_in_project db i (sq_project_id sq) then Inr (i, db)
                                  else Inl IssueNotInProject)
                               else map_sum RunDb id (create_path_run_issue en db sq wd)
                   | None \<Rightarrow> map_sum RunDb id (create_path_run_issue en db sq wd)) in
      if pl_nodes (sq_pipeline sq) = [] then Inl NoNodes
      else if uses_issue target \<and> issue_override sq rq = None then Inl NoIssueSelected
      else if uses_path target \<and> wd = None then Inl NoWorkingDirectory
      else case issue of
        Inl e \<Rightarrow> Inl e
      | Inr (i, db1) \<Rightarrow>
          (case run_create db1 (sq_id sq) i RunRunning (rq_start_from_node_id rq) wd actor of
             Inl e \<Rightarrow> Inl (RunDb e)
           | Inr (r, db2) \<Rightarrow>
               Inr (\<lparr>pr_run_id = run_id r, pr_issue_id = i,
                     pr_overrides = \<lparr>rq_issue_id = Some i, rq_working_directory = wd,
                       rq_start_from_node_id = rq_start_from_node_id rq,
                       rq_resume_run_id = Some (run_id r)\<rparr>\<rparr>, db2)))"

section \<open>The head of execute_squad_pipeline\<close>

definition walk_roots :: "squad_pipeline \<Rightarrow> string option \<Rightarrow> run_error + string list" where
  "walk_roots p start =
     (case start of
        None \<Rightarrow> Inr (graph_roots p)
      | Some s \<Rightarrow> (if s \<in> set (node_ids p) then Inr [s] else Inl (StartNodeNotFound s)))"

definition execute_start ::
  "run_env \<Rightarrow> remote_db \<Rightarrow> squad \<Rightarrow> run_squad_request \<Rightarrow>
   run_error + (walk_ctx \<times> string list \<times> remote_db)" where
  "execute_start en db sq rq =
     (let wd = resolve_directory sq rq; target = sq_target_type sq;
          issue = (case issue_override sq rq of
                     Some i \<Rightarrow> if uses_issue target \<and> \<not> issue_in_project db i (sq_project_id sq)
                               then Inl IssueNotInProject else Inr (i, db)
                   | None \<Rightarrow> map_sum RunDb id (create_path_run_issue en db sq wd)) in
      if uses_issue target \<and> issue_override sq rq = None then Inl NoIssueSelected
      else if uses_path target \<and> wd = None then Inl NoWorkingDirectory
      else if pl_nodes (sq_pipeline sq) = [] then Inl NoNodes
      else case issue of
        Inl e \<Rightarrow> Inl e
      | Inr (i, db1) \<Rightarrow>
          (case walk_roots (sq_pipeline sq) (rq_start_from_node_id rq) of
             Inl e \<Rightarrow> Inl e
           | Inr roots \<Rightarrow>
               Inr (\<lparr>wc_squad = sq, wc_issue_id = i, wc_preferred_repo = wd,
                     wc_await_secs = agent_await_timeout en,
                     wc_loop_success = (case pl_loop_config (sq_pipeline sq) of None \<Rightarrow> None
                                        | Some lc \<Rightarrow> lc_success_condition lc),
                     wc_to_string = en_to_string en\<rparr>, roots, db1)))"

section \<open>The tail of execute_squad_pipeline\<close>

definition last_failed :: "shared \<Rightarrow> bool" where
  "last_failed sh = (case sh_last_agent_result sh of None \<Rightarrow> False | Some r \<Rightarrow> sr_status r \<noteq> Completed)"

definition fail_message :: "shared \<Rightarrow> string option" where
  "fail_message sh = (case sh_last_agent_result sh of None \<Rightarrow> None | Some r \<Rightarrow> sr_failure_reason r)"

definition settle_run ::
  "remote_db \<Rightarrow> uuid \<Rightarrow> shared \<Rightarrow> db_error + (squad_run \<times> remote_db)" where
  \<comment> \<open>the row of a run after its walk\<close>
  "settle_run db i sh =
     (case sh_pause sh of
        Some p \<Rightarrow> mark_waiting_approval db i (pp_pause_node_id p) (pp_resume_node_id p)
                    (pp_approval_kind p) (pp_approval_prompt p)
      | None \<Rightarrow>
          (if last_failed sh then mark_status db i RunFailed (fail_message sh)
           else mark_completed db i (sh_agent_task_ids sh) (sh_ordered_node_ids sh)))"

definition keep_ok :: "remote_db \<Rightarrow> db_error + (squad_run \<times> remote_db) \<Rightarrow> squad_run option \<times> remote_db" where
  \<comment> \<open>\<open>.ok()\<close>\<close>
  "keep_ok db r = (case r of Inl _ \<Rightarrow> (None, db) | Inr (x, db') \<Rightarrow> (Some x, db'))"

definition persist_run ::
  "remote_db \<Rightarrow> walk_ctx \<Rightarrow> run_squad_request \<Rightarrow> uuid option \<Rightarrow> shared \<Rightarrow> squad_run option \<times> remote_db" where
  "persist_run db cx rq actor sh =
     (case rq_resume_run_id rq of
        Some i \<Rightarrow> keep_ok db (settle_run db i sh)
      | None \<Rightarrow>
          (case run_create db (sq_id (wc_squad cx)) (wc_issue_id cx)
                  (if sh_pause sh \<noteq> None then RunWaitingApproval else RunRunning)
                  (rq_start_from_node_id rq) (wc_preferred_repo cx) actor of
             Inl _ \<Rightarrow> (None, db)
           | Inr (r, db1) \<Rightarrow> keep_ok db1 (settle_run db1 (run_id r) sh)))"

definition recipients :: "remote_db \<Rightarrow> uuid \<Rightarrow> uuid option \<Rightarrow> uuid list" where
  "recipients db issue actor =
     (case actor of Some u \<Rightarrow> [u]
      | None \<Rightarrow> remdups (map snd (filter (\<lambda>s. fst s = issue) (db_subscribers db))))"

definition approval_payload :: "uuid option \<Rightarrow> uuid \<Rightarrow> pipeline_pause \<Rightarrow> json" where
  "approval_payload run sq p =
     JObject [(''squad_run_id'', json_uuid run), (''squad_id'', json_uuid (Some sq)),
       (''pause_node_id'', JString (pp_pause_node_id p)),
       (''approval_kind'', JString (pp_approval_kind p))]"

definition failure_payload :: "uuid option \<Rightarrow> uuid \<Rightarrow> string \<Rightarrow> json" where
  "failure_payload run sq detail =
     JObject [(''squad_run_id'', json_uuid run), (''squad_id'', json_uuid (Some sq)),
       (''error_message'', JString detail)]"

definition notify_run ::
  "remote_db \<Rightarrow> walk_ctx \<Rightarrow> uuid option \<Rightarrow> squad_run option \<Rightarrow> shared \<Rightarrow> remote_db" where
  "notify_run db cx actor run sh =
     (let sq = wc_squad cx; users = recipients db (wc_issue_id cx) actor;
          rid = map_option run_id run in
      case sh_pause sh of
        Some p \<Rightarrow>
          foldl (\<lambda>d u. inbox_create d u (Some (sq_project_id sq)) (Some (wc_issue_id cx))
                   ''workflow_approval'' (utf8 [229, 190, 133, 231, 161, 174, 232, 174, 164, 239,
       188, 154] @ sq_name sq)
                   (pp_approval_prompt p) (approval_payload rid (sq_id sq) p)) db users
      | None \<Rightarrow>
          (if last_failed sh then
             (let detail = unwrap_or (fail_message sh) ''pipeline failed (no detail)'' in
              foldl (\<lambda>d u. inbox_create d u (Some (sq_project_id sq)) (Some (wc_issue_id cx))
                       ''workflow_failed'' (utf8 [230, 181, 129, 230, 176, 180, 231, 186, 191,
       229, 164, 177, 232, 180, 165, 239, 188, 154] @ sq_name sq)
                       detail (failure_payload rid (sq_id sq) detail)) db users)
           else db))"

definition final_status :: "shared \<Rightarrow> squad_run_status" where
  "final_status sh =
     (if sh_pause sh \<noteq> None then RunWaitingApproval
      else if last_failed sh then RunFailed else RunCompleted)"

definition execute_finish ::
  "run_env \<Rightarrow> walk_ctx \<Rightarrow> run_squad_request \<Rightarrow> uuid option \<Rightarrow> shared \<Rightarrow> run_squad_response \<times> remote_db" where
  "execute_finish en cx rq actor sh =
     (let plan = plan_text (en_texts en) cx (rq_start_from_node_id rq) (sh_run_log sh);
          db1 = (sh_db sh)\<lparr>db_comments := db_comments (sh_db sh) @ [(wc_issue_id cx, plan)]\<rparr> in
      case persist_run db1 cx rq actor sh of (run, db2) \<Rightarrow>
        (\<lparr>rs_issue_id = wc_issue_id cx, rs_agent_task_ids = sh_agent_task_ids sh,
          rs_ordered_node_ids = sh_ordered_node_ids sh,
          rs_target_type = sq_target_type (wc_squad cx),
          rs_working_directory = wc_preferred_repo cx, rs_run_id = map_option run_id run,
          rs_status = Some (final_status sh),
          rs_pause_node_id = map_option pp_pause_node_id (sh_pause sh),
          rs_resume_node_id = (case sh_pause sh of None \<Rightarrow> None | Some p \<Rightarrow> pp_resume_node_id p)\<rparr>,
         notify_run db2 cx actor run sh))"

text \<open>
  \<open>spawn_squad_run\<close>: what the background task does once the walk has returned. An error of
  the walk reaches the run row and nothing else.
\<close>

definition spawn_failed :: "run_env \<Rightarrow> remote_db \<Rightarrow> uuid \<Rightarrow> run_error \<Rightarrow> remote_db" where
  "spawn_failed en db i e =
     (case mark_status db i RunFailed (Some (run_error_text (en_texts en) e)) of
        Inl _ \<Rightarrow> db | Inr (_, db') \<Rightarrow> db')"

definition spawn_finish ::
  "run_env \<Rightarrow> walk_ctx \<Rightarrow> prepared_run \<Rightarrow> uuid option \<Rightarrow> world \<Rightarrow> remote_db option" where
  \<comment> \<open>None while the walk has not returned\<close>
  "spawn_finish en cx pr actor w =
     (case walk_finished w of
        None \<Rightarrow> None
      | Some (Inl e) \<Rightarrow> Some (spawn_failed en (sh_db (fst w)) (pr_run_id pr) (WalkFailed e))
      | Some (Inr _) \<Rightarrow> Some (snd (execute_finish en cx (pr_overrides pr) actor (fst w))))"

section \<open>Handlers\<close>

definition load_and_authorize :: "remote_db \<Rightarrow> uuid \<Rightarrow> uuid \<Rightarrow> error_response + squad" where
  "load_and_authorize db user i =
     (case tbl_find sq_id i (db_squads db) of
        None \<Rightarrow> Inl (error_new NOT_FOUND ''squad not found'')
      | Some sq \<Rightarrow>
          (case ensure_project_access db user (sq_project_id sq) of Inl e \<Rightarrow> Inl e | Inr _ \<Rightarrow> Inr sq))"

definition run_squad ::
  "run_env \<Rightarrow> remote_db \<Rightarrow> uuid \<Rightarrow> uuid \<Rightarrow> run_squad_request option \<Rightarrow>
   error_response + (run_squad_response \<times> prepared_run \<times> remote_db)" where
  \<comment> \<open>the response, and the prepared run that is spawned\<close>
  "run_squad en db user i payload =
     (case load_and_authorize db user i of
        Inl e \<Rightarrow> Inl e
      | Inr sq \<Rightarrow>
          (case prepare_squad_run en db sq (unwrap_or payload default_request) (Some user) of
             Inl e \<Rightarrow> Inl (error_new BAD_REQUEST (run_error_text (en_texts en) e))
           | Inr (pr, db') \<Rightarrow>
               Inr (\<lparr>rs_issue_id = pr_issue_id pr, rs_agent_task_ids = [], rs_ordered_node_ids = [],
                     rs_target_type = sq_target_type sq,
                     rs_working_directory = rq_working_directory (pr_overrides pr),
                     rs_run_id = Some (pr_run_id pr), rs_status = Some RunRunning,
                     rs_pause_node_id = None, rs_resume_node_id = None\<rparr>, pr, db')))"

definition approve_resume ::
  "remote_db \<Rightarrow> squad_run \<Rightarrow> error_response + (squad_run \<times> prepared_run option \<times> remote_db)" where
  "approve_resume db run =
     (case run_resume_node_id run of
        None \<Rightarrow>
          (case mark_completed db (run_id run) [] [] of
             Inl _ \<Rightarrow> Inl (error_new INTERNAL_SERVER_ERROR ''failed to complete run'')
           | Inr (r, db') \<Rightarrow> Inr (r, None, db'))
      | Some node \<Rightarrow>
          (case mark_status db (run_id run) RunRunning None of
             Inl _ \<Rightarrow> Inl (error_new INTERNAL_SERVER_ERROR ''failed to resume run'')
           | Inr (_, db') \<Rightarrow>
               Inr (unwrap_or (run_find db' (run_id run)) run,
                    Some \<lparr>pr_run_id = run_id run, pr_issue_id = run_issue_id run,
                          pr_overrides = \<lparr>rq_issue_id = Some (run_issue_id run),
                            rq_working_directory = run_working_directory run,
                            rq_start_from_node_id = Some node,
                            rq_resume_run_id = Some (run_id run)\<rparr>\<rparr>, db')))"

definition approve_squad_run ::
  "remote_db \<Rightarrow> uuid \<Rightarrow> uuid \<Rightarrow> string \<Rightarrow> string option \<Rightarrow>
   error_response + (squad_run \<times> prepared_run option \<times> remote_db)" where
  "approve_squad_run db user i decision comment =
     (case run_find db i of
        None \<Rightarrow> Inl (error_new NOT_FOUND ''squad run not found'')
      | Some run \<Rightarrow>
          (case load_and_authorize db user (run_squad_id run) of
             Inl e \<Rightarrow> Inl e
           | Inr _ \<Rightarrow>
               (if run_status run \<noteq> run_status_as_str RunWaitingApproval then
                  Inl (error_new BAD_REQUEST
                    (''run is not waiting for approval (status='' @ run_status run @ '')''))
                else let d = str_lower (str_trim decision) in
                  if d = ''approve'' then approve_resume db run
                  else if d = ''reject'' then
                    (case mark_status db i RunCancelled (Some (unwrap_or comment ''rejected by user'')) of
                       Inl _ \<Rightarrow> Inl (error_new INTERNAL_SERVER_ERROR ''failed to cancel run'')
                     | Inr (r, db') \<Rightarrow> Inr (r, None, db'))
                  else if d = ''comment'' then
                    Inl (error_new BAD_REQUEST
                      ''comment-only resume is not implemented yet; use approve/reject'')
                  else Inl (error_new BAD_REQUEST ''decision must be approve, reject, or comment''))))"

end
