(* ===== verification/Squad_Database.thy ===== *)
theory Squad_Database
  imports Squad_Threads
begin

text \<open>
  What a walk does to the database: it enqueues tasks and nothing else. A predicate on the
  database that the queue operations keep therefore holds in every world a run reaches; it
  is proved once in a locale and used for the table invariant of the task queue and for the
  tables that a walk leaves alone.
\<close>

section \<open>The database of a step\<close>

lemma db_log [simp]: "sh_db (log l sh) = sh_db sh"
  by (simp add: log_def)

lemma db_core: "same_core sh sh' \<Longrightarrow> sh_db sh' = sh_db sh"
  by (simp add: same_core_def)

lemma db_pieces [simp]:
  "sh_db (fst (while_iter cx n iter mx sh th)) = sh_db sh"
  "sh_db (fst (step_done cx i r sh th)) = sh_db sh"
  "sh_db (fst (diff_unavailable cx i r sh th)) = sh_db sh"
  "sh_db (fst (join_pass cx i g sh th)) = sh_db sh"
  "sh_db (fst (return_to cx b sh th)) = sh_db sh"
  "sh_db (joined_all rs sh) = sh_db sh"
  by (rule db_core, simp add: same_core_return_to)+

lemma db_visit [simp]: "sh_db (fst (visit_kind k cx n sh th)) = sh_db sh"
  by (cases k)
    (auto simp: visit_agent_def visit_wait_def visit_if_def visit_while_def visit_break_def
      visit_fork_def visit_join_def visit_wait_approval_def visit_job_def take_priority_def
      Let_def split: option.splits prod.splits list.splits)

lemma db_walk_node [simp]: "sh_db (fst (walk_node cx i sh th)) = sh_db sh"
  by (auto simp: walk_node_def Let_def split: option.splits)

definition enqueued :: "remote_db \<Rightarrow> remote_db \<Rightarrow> bool" where
  "enqueued db db' =
     (db' = db \<or> (\<exists>i a iss tr pr fr sq ld rp pm rv t.
        enqueue db i a iss tr pr fr sq ld rp pm rv = Inr (t, db')))"

lemma enqueued_refl [simp]: "enqueued db db"
  by (simp add: enqueued_def)

lemma enqueued_Inr: "enqueue db i a iss tr pr fr sq ld rp pm rv = Inr (t, db') \<Longrightarrow> enqueued db db'"
  unfolding enqueued_def by blast

lemma ctl_step_db: "enqueued (sh_db sh) (sh_db (fst (ctl_step cx c sh th)))"
  by (cases c)
    (auto simp: agent_enqueue_def diff_enqueue_def job_enqueue_def agent_finished_def
      diff_prepare_def diff_finished_def job_prepare_def job_finished_def join_wait_def Let_def
      split: await_outcome.splits option.splits sum.splits prod.splits dest: enqueued_Inr)

lemma ctl_fault_db: "sh_db (fst (ctl_fault cx e c sh th)) = sh_db sh"
  by (cases c) (auto simp: diff_prepare_def job_prepare_def split: option.splits sum.splits)

section \<open>Predicates that the queue operations keep\<close>

locale db_invariant =
  fixes P :: "remote_db \<Rightarrow> bool"
  assumes enq: "P db \<Longrightarrow> enqueue db i a iss tr pr fr sq ld rp pm rv = Inr (t, db') \<Longrightarrow> P db'"
    and queue: "P db \<Longrightarrow> P (queue_step db op)"
    and clock: "P db \<Longrightarrow> db_now db \<le> n \<Longrightarrow> P (db\<lparr>db_now := n\<rparr>)"
begin

lemma enqueued_keeps: "P db \<Longrightarrow> enqueued db db' \<Longrightarrow> P db'"
  by (auto simp: enqueued_def intro: enq)

lemma step_keeps: "P (sh_db (fst w)) \<Longrightarrow> P (sh_db (fst (walk_step cx k w)))"
proof (cases w)
  case w: (Pair sh ths)
  assume p: "P (sh_db (fst w))"
  have ctl: "P (sh_db (fst (ctl_step cx c sh th)))" for c th
    using enqueued_keeps [OF _ ctl_step_db] p by (simp add: w)
  show ?thesis
  proof (cases "k < length ths \<and> \<not> blocked cx sh (th_ctl (ths ! k))")
    case True
    obtain sh' th' where "ctl_step cx (th_ctl (ths ! k)) sh (ths ! k) = (sh', th')" by fastforce
    then show ?thesis using True ctl [of "th_ctl (ths ! k)" "ths ! k"] by (simp add: w walk_step_ctl)
  next
    case False
    then show ?thesis using p
      by (cases "ready cx w k")
        (auto simp: walk_step_not_ready w ready_def walk_step_def join_wait_def Let_def
          split: ctl.splits option.splits)
  qed
qed

lemma event_keeps: "P (sh_db (fst w)) \<Longrightarrow> P (sh_db (fst (event_step cx w e)))"
proof (cases e)
  case (Fault k err)
  assume p: "P (sh_db (fst w))"
  obtain sh ths where w: "w = (sh, ths)" by (cases w)
  obtain sh' th' where "ctl_fault cx err (th_ctl (ths ! k)) sh (ths ! k) = (sh', th')" by fastforce
  then show ?thesis using Fault p ctl_fault_db [of cx err "th_ctl (ths ! k)" sh "ths ! k"]
    by (simp add: w walk_fault_def)
qed (cases w; simp add: step_keeps queue clock)+

lemma run_keeps: "P (sh_db (fst w)) \<Longrightarrow> P (sh_db (fst (walk_run cx w evs)))"
  unfolding walk_run_def by (induction evs arbitrary: w) (simp_all add: event_keeps)

lemma init_keeps:
  "P db \<Longrightarrow> P (sh_db (fst (walk_run cx (init_world db now start roots) evs)))"
  by (rule run_keeps) (simp add: init_world_def init_shared_def)

end

interpretation queue_db: db_invariant queue_inv
proof
  fix db n assume "queue_inv db"
  then show "queue_inv (db\<lparr>db_now := n\<rparr>)" by (simp add: queue_inv_def)
qed (auto intro: enqueue_inv queue_step_inv)

text \<open>The tables that no queue operation writes.\<close>

definition same_tables :: "remote_db \<Rightarrow> remote_db \<Rightarrow> bool" where
  "same_tables db db' =
     (db_runs db' = db_runs db \<and> db_squads db' = db_squads db \<and> db_agents db' = db_agents db \<and>
      db_issues db' = db_issues db \<and> db_inbox db' = db_inbox db \<and> db_comments db' = db_comments db \<and>
      db_subscribers db' = db_subscribers db \<and> db_projects db' = db_projects db \<and>
      db_org_members db' = db_org_members db)"

lemma insert_task_tables: "insert_task db t = Inr db' \<Longrightarrow> same_tables db db'"
  by (auto simp: insert_task_def same_tables_def split: if_splits option.splits)

lemma enqueue_tables:
  "enqueue db i a iss tr pr fr sq ld rp pm rv = Inr (t, db') \<Longrightarrow> same_tables db db'"
  by (auto simp: enqueue_def Let_def same_tables_def split: option.splits sum.splits if_splits
      dest: insert_task_tables [unfolded same_tables_def])

lemma queue_step_tables: "same_tables db (queue_step db op)"
proof (cases op)
  case (OpEnqueue i a iss tr pr fr sq ld rp pm rv)
  then show ?thesis
    by (auto split: sum.split dest: enqueue_tables) (simp add: same_tables_def)
next
  case (OpClaim host)
  then show ?thesis
    by (auto simp: claim_next_def claim_commit_def same_tables_def Let_def split: option.splits)
next
  case (OpUpdate i p)
  then show ?thesis
    by (auto simp: task_update_def same_tables_def Let_def split: sum.splits option.splits if_splits)
next
  case (OpDelete i)
  then show ?thesis by (simp add: task_delete_def same_tables_def)
qed

interpretation tables: db_invariant "same_tables db0" for db0
proof
  show "same_tables db0 db'" if "same_tables db0 db"
    "enqueue db i a iss tr pr fr sq ld rp pm rv = Inr (t, db')"
    for db i a iss tr pr fr sq ld rp pm rv t db'
    using that enqueue_tables [OF that(2)] by (simp add: same_tables_def)
  show "same_tables db0 (queue_step db op)" if "same_tables db0 db" for db op
    using that queue_step_tables [of db op] by (simp add: same_tables_def)
  show "same_tables db0 (db\<lparr>db_now := n\<rparr>)" if "same_tables db0 db" for db n
    using that by (simp add: same_tables_def)
qed

lemma walk_keeps_tables:
  "same_tables db (sh_db (fst (walk_run cx (init_world db now start roots) evs)))"
  by (rule tables.init_keeps) (simp add: same_tables_def)

end
