(* ===== verification/Squad_Scenarios.thy ===== *)
theory Squad_Scenarios
  imports Squad_Exec Squad_Database
begin

text \<open>
  A small board on which the properties are applied and the walk is run: one organization,
  one project, one issue, one agent, one squad with a given pipeline.
\<close>

definition scen_agent :: agent where
  "scen_agent = \<lparr>ag_id = 1, ag_project_id = 9, ag_name = ''dev'', ag_instructions = [],
     ag_default_executor = None, ag_max_concurrent_tasks = 1, ag_reviewer_agent_id = None\<rparr>"

definition scen_issue :: issue where
  "scen_issue = \<lparr>is_id = 2, is_project_id = 9, is_status_id = 4, is_simple_id = ''VK-1'',
     is_title = ''Login'', is_description = None, is_creator_user_id = Some 7\<rparr>"

definition scen_squad :: "squad_pipeline \<Rightarrow> squad" where
  "scen_squad p = \<lparr>sq_id = 3, sq_project_id = 9, sq_name = ''core'', sq_leader_agent_id = Some 1,
     sq_pipeline = p, sq_target_type = TargetIssue, sq_issue_id = Some 2,
     sq_working_directory = None, sq_on_assign = FullPipeline, sq_created_at = 0, sq_updated_at = 0\<rparr>"

definition scen_db :: "squad_pipeline \<Rightarrow> remote_db" where
  "scen_db p = \<lparr>db_tasks = [], db_agents = [scen_agent], db_issues = [scen_issue],
     db_projects = [\<lparr>pj_id = 9, pj_organization_id = 5, pj_name = ''web''\<rparr>],
     db_statuses = [\<lparr>ps_id = 4, ps_project_id = 9, ps_sort_order = 0\<rparr>],
     db_squads = [scen_squad p], db_members = [], db_runs = [], db_workspaces = [],
     db_assignees = [], db_subscribers = [], db_org_members = [(5, 7)], db_comments = [],
     db_inbox = [], db_next_uuid = 100, db_now = 0\<rparr>"

definition scen_env :: run_env where
  "scen_env = \<lparr>en_texts = \<lparr>et_db = (\<lambda>_. ''database error''), et_encode = ''json error''\<rparr>,
     en_to_string = (\<lambda>_. Some ''{}''), en_date = (\<lambda>_. ''2026-01-01 00:00''),
     en_simple_id = (\<lambda>_. ''VK-2''), en_await_var = Some ''9''\<rparr>"

definition scen_ctx :: "squad_pipeline \<Rightarrow> walk_ctx" where
  "scen_ctx p = \<lparr>wc_squad = scen_squad p, wc_issue_id = 2, wc_preferred_repo = None,
     wc_await_secs = 9, wc_loop_success = None, wc_to_string = (\<lambda>_. Some ''{}'')\<rparr>"

definition scen_edge :: "string \<Rightarrow> string \<Rightarrow> squad_edge_branch option \<Rightarrow> squad_edge" where
  "scen_edge s t b = \<lparr>edge_id = s @ t, edge_source = s, edge_target = t, edge_branch = b\<rparr>"

definition scen_pipeline :: "squad_node list \<Rightarrow> squad_edge list \<Rightarrow> squad_pipeline" where
  "scen_pipeline ns es = \<lparr>pl_nodes = ns, pl_edges = es, pl_loop_config = None\<rparr>"

definition scen_while :: "int \<Rightarrow> squad_node" where
  "scen_while n = (default_node ''w'')\<lparr>node_type := NodeWhile, node_condition := Some ''never'',
     node_max_iterations := Some n\<rparr>"

definition scen_script :: squad_node where
  "scen_script = (default_node ''m'')\<lparr>node_type := NodeScript, node_command := Some ''merge''\<rparr>"

definition task_ends :: "uuid \<Rightarrow> agent_task_status \<Rightarrow> walk_event" where
  \<comment> \<open>the local host reports a status\<close>
  "task_ends i st = Env (OpUpdate i (empty_patch\<lparr>tp_status := Some st\<rparr>))"

definition steps :: "nat \<Rightarrow> walk_event list" where
  "steps n = replicate n (Step 0)"

definition scen_run :: "squad_pipeline \<Rightarrow> string list \<Rightarrow> walk_event list \<Rightarrow> world" where
  "scen_run p roots evs = walk_run (scen_ctx p) (init_world (scen_db p) 0 None roots) evs"

text \<open>A loop with two body steps; the agent of each step completes.\<close>

definition loop_pipeline :: squad_pipeline where
  "loop_pipeline = scen_pipeline [scen_while 2, default_node ''a'', default_node ''b'']
     [scen_edge ''w'' ''a'' (Some BranchBody), scen_edge ''a'' ''b'' None]"

definition loop_events :: "walk_event list" where
  "loop_events = steps 3 @ [task_ends 100 Completed] @ steps 5 @ [task_ends 101 Completed]
     @ steps 5 @ [task_ends 102 Completed] @ steps 4"

text \<open>An approval gate in a loop, a merge behind the loop.\<close>

definition gate_pipeline :: squad_pipeline where
  "gate_pipeline = scen_pipeline
     [scen_while 1, (default_node ''q'')\<lparr>node_type := NodeWaitApproval\<rparr>, scen_script]
     [scen_edge ''w'' ''q'' (Some BranchBody), scen_edge ''w'' ''m'' (Some BranchExit)]"

text \<open>Two roots: the first agent fails, the second completes.\<close>

definition masked_pipeline :: squad_pipeline where
  "masked_pipeline = scen_pipeline [default_node ''a'', default_node ''b''] []"

definition masked_events :: "walk_event list" where
  "masked_events = steps 2 @ [task_ends 100 Failed] @ steps 4 @ [task_ends 101 Completed] @ steps 3"

text \<open>A join inside a loop.\<close>

definition join_pipeline :: squad_pipeline where
  "join_pipeline = scen_pipeline
     [scen_while 2, (default_node ''j'')\<lparr>node_type := NodeJoin\<rparr>,
      (default_node ''r'')\<lparr>node_type := NodeWait\<rparr>]
     [scen_edge ''w'' ''j'' (Some BranchBody), scen_edge ''j'' ''r'' None]"

definition script_pipeline :: squad_pipeline where
  "script_pipeline = scen_pipeline [scen_script] []"

text \<open>A run that waits for an approval, with a merge to resume at.\<close>

definition waiting_db :: "squad_pipeline \<Rightarrow> remote_db" where
  "waiting_db p = (scen_db p)\<lparr>db_runs := [apply_run_update 0
     (WaitingApproval ''q'' (Some ''m'') ''approval'' ''merge?'')
     (new_run 0 50 3 2 RunRunning None None (Some 7))]\<rparr>"

lemma scen_pl [simp]: "pl (scen_ctx p) = p"
  by (simp add: pl_def scen_ctx_def scen_squad_def)

lemma scen_roots: "roots \<noteq> [] \<Longrightarrow> set roots \<subseteq> node_id ` set (pl_nodes p) \<Longrightarrow> roots_ok (scen_ctx p) roots"
  by (simp add: roots_ok_def node_ids_def)

end
