(* ===== verification/Squad_Walk_Props.thy ===== *)
theory Squad_Walk_Props
  imports Squad_Scenarios
begin

text \<open>
  The properties of the orchestrator's walk, stated for every run from its start: any
  pipeline, any schedule of the threads, any database failures, any other client of the
  task table. Then the runs that show where the walk does not do what its pipelines mean.
\<close>

section \<open>Termination\<close>

text \<open>C4: however the threads are scheduled, whatever fails and whatever other clients do to
  the task table, a walk makes a bounded number of steps that change anything; the bound
  depends on the number of edges and roots of the pipeline only.\<close>

theorem walk_work_bounded:
  "active_count (event_step cx) is_internal (init_world db now start roots) evs
     \<le> 256 * (23 * (2 * length (pl_edges (pl cx)) + 5) + 12) + 2 * length roots + 3"
  using walk.active_count_le [of cx "init_world db now start roots" evs]
    init_measure [of cx db now start roots]
  by (simp add: visit_cost_def iter_cost_def edge_total_def)

text \<open>C3: the walk returns. If time goes on and the executor keeps polling the threads, then
  after a bounded number of rounds (with any events at all in between) every thread of the
  walk is done, so no join, no await and no sleep hangs a run.\<close>

theorem walk_returns:
  assumes "256 * (23 * (2 * length (pl_edges (pl cx)) + 5) + 12) + 2 * length roots + 3 < length rounds"
  shows "all_done (foldl (walk_round cx) (init_world db now start roots) rounds)"
  using assms init_measure [of cx db now start roots] waiting_inv_init
  by (intro rounds_finish) (simp_all add: visit_cost_def iter_cost_def edge_total_def)

theorem walk_returns_witness:
  "all_done (foldl (walk_round (scen_ctx script_pipeline))
     (init_world (scen_db script_pipeline) 0 None [''m'']) (replicate 40000 []))"
  by (rule walk_returns) (simp add: script_pipeline_def scen_pipeline_def)

section \<open>Bounds\<close>

text \<open>C7: one run enqueues at most 256 step tasks and records at most 512 visited nodes, twice
  the step budget because script and git steps are recorded twice.\<close>

theorem walk_within_budget:
  "length (sh_agent_task_ids (fst (walk_run cx (init_world db now start roots) evs))) \<le> 256 \<and>
   length (sh_ordered_node_ids (fst (walk_run cx (init_world db now start roots) evs))) \<le> 512"
  by (simp add: task_bound order_bound)

text \<open>no while loop runs past its twentieth iteration, whatever its configured maximum.\<close>

theorem while_at_most_twenty:
  assumes "roots_ok cx roots"
    "LogIter k note \<in> set (sh_run_log (fst (walk_run cx (init_world db now start roots) evs)))"
  shows "k \<le> 20"
  using reachable_ok [OF assms(1), of db now start evs] assms(2)
  by (auto simp: world_ok_def trace_ok_def iters_ok_def)

theorem while_at_most_twenty_witness: "(2::nat) \<le> 20"
proof (rule while_at_most_twenty)
  show "roots_ok (scen_ctx join_pipeline) [''w'']"
    by (rule scen_roots) (simp_all add: join_pipeline_def scen_pipeline_def scen_while_def default_node_def)
  show "LogIter 2 (UntilNotMet (LiteralFalse ''never'')) \<in> set (sh_run_log (fst
      (walk_run (scen_ctx join_pipeline) (init_world (scen_db join_pipeline) 0 None [''w'']) (steps 14))))"
    by code_simp
qed

section \<open>Joins, breaks, pauses\<close>

text \<open>C5: a join lets one branch through: however many branches arrive, time out or race, at
  most one of them continues past the node.\<close>

theorem join_releases_once:
  assumes "roots_ok cx roots"
  shows "count_list (sh_run_log (fst (walk_run cx (init_world db now start roots) evs)))
           (LogJoinReleased i) \<le> 1"
  using reachable_ok [OF assms, of db now start evs]
  by (simp add: world_ok_def trace_ok_def joins_ok_def)

theorem join_releases_once_witness:
  "count_list (sh_run_log (fst (walk_run (scen_ctx join_pipeline)
     (init_world (scen_db join_pipeline) 0 None [''w'']) (steps 14)))) (LogJoinReleased ''j'') \<le> 1"
  by (intro join_releases_once scen_roots)
    (simp_all add: join_pipeline_def scen_pipeline_def scen_while_def default_node_def)

text \<open>a break never leaves the future it runs in: every branch of a fork, and the main
  walk, returns \<open>false\<close> or an error, so a break inside a fork cannot end a loop around it.
  The error is never a missing node, because edges to unknown nodes were dropped.\<close>

theorem break_stays_in_its_branch:
  assumes "roots_ok cx roots"
    "th \<in> set (snd (walk_run cx (init_world db now start roots) evs))" "th_ctl th = Done r"
  shows "r = Inr False \<or> (\<exists>e. r = Inl e \<and> (\<forall>i. e \<noteq> MissingNode i))"
proof -
  have "thread_ok cx th"
    using reachable_ok [OF assms(1), of db now start evs] assms(2) by (simp add: world_ok_def)
  then show ?thesis using assms(3) by (cases r) (auto simp: thread_ok_def)
qed

theorem break_stays_in_its_branch_witness:
  "(Inr False :: walk_error + bool) = Inr False \<or>
     (\<exists>e. (Inr False :: walk_error + bool) = Inl e \<and> (\<forall>i. e \<noteq> MissingNode i))"
proof (rule break_stays_in_its_branch)
  show "roots_ok (scen_ctx join_pipeline) [''w'']"
    by (rule scen_roots) (simp_all add: join_pipeline_def scen_pipeline_def scen_while_def default_node_def)
  let ?w = "walk_run (scen_ctx join_pipeline) (init_world (scen_db join_pipeline) 0 None [''w'']) (steps 14)"
  have "let w = ?w in length (snd w) = 1 \<and> th_ctl (hd (snd w)) = Done (Inr False)" by code_simp
  then have w: "length (snd ?w) = 1" "th_ctl (hd (snd ?w)) = Done (Inr False)" by (simp_all only: Let_def)
  then show "hd (snd ?w) \<in> set (snd ?w)" by (intro hd_in_set) auto
  show "th_ctl (hd (snd ?w)) = Done (Inr False)" by (rule w(2))
qed



text \<open>the walk keeps the task table sound: whatever it enqueues, in whatever order with the
  hosts that claim, update and delete tasks, ids stay distinct and no agent has two active
  tasks of its own on one issue.\<close>

theorem walk_keeps_queue:
  assumes "queue_inv db"
  shows "queue_inv (sh_db (fst (walk_run cx (init_world db now start roots) evs)))"
  using assms by (rule queue_db.init_keeps)

theorem walk_keeps_queue_witness:
  "queue_inv (sh_db (fst (walk_run (scen_ctx loop_pipeline)
     (init_world (scen_db loop_pipeline) 0 None [''w'']) loop_events)))"
  by (rule walk_keeps_queue) (simp add: queue_inv_def scen_db_def tbl_keys_ok_def active_unique_def)

section \<open>What the walk gets wrong\<close>

text \<open>in a loop whose body has two steps, the second step runs in the first iteration only:
  the edge between them is remembered as visited and is not followed again.\<close>

theorem loop_body_shrinks:
  "walk_finished (scen_run loop_pipeline [''w''] loop_events) = Some (Inr False) \<and>
   sh_ordered_node_ids (fst (scen_run loop_pipeline [''w''] loop_events)) = [''w'', ''a'', ''b'', ''a'']"
proof -
  have "let w = scen_run loop_pipeline [''w''] loop_events in
    walk_finished w = Some (Inr False) \<and> sh_ordered_node_ids (fst w) = [''w'', ''a'', ''b'', ''a'']" by code_simp
  then show ?thesis by (simp only: Let_def)
qed

text \<open>an approval gate inside a loop does not hold the run: the walk goes on behind the loop
  and enqueues the merge script while the gate waits for its answer.\<close>

theorem approval_gate_bypassed:
  "map_option pp_pause_node_id (sh_pause (fst (scen_run gate_pipeline [''w''] (steps 9)))) = Some ''q'' \<and>
   sh_agent_task_ids (fst (scen_run gate_pipeline [''w''] (steps 9))) = [100]"
proof -
  have "let w = scen_run gate_pipeline [''w''] (steps 9) in
    map_option pp_pause_node_id (sh_pause (fst w)) = Some ''q'' \<and> sh_agent_task_ids (fst w) = [100]" by code_simp
  then show ?thesis by (simp only: Let_def)
qed

text \<open>a join inside a loop lets only the first iteration through; every later iteration
  arrives at the released gate, is no leader and stops there.\<close>

theorem join_in_loop_blocks_later_iterations:
  "walk_finished (scen_run join_pipeline [''w''] (steps 14)) = Some (Inr False) \<and>
   sh_ordered_node_ids (fst (scen_run join_pipeline [''w''] (steps 14))) = [''w'', ''j'', ''r'', ''j'']"
proof -
  have "let w = scen_run join_pipeline [''w''] (steps 14) in
    walk_finished w = Some (Inr False) \<and> sh_ordered_node_ids (fst w) = [''w'', ''j'', ''r'', ''j'']" by code_simp
  then show ?thesis by (simp only: Let_def)
qed

text \<open>a failed agent is masked by a later step that completes: the walk stops the failed
  branch, runs the next root, and the run counts as completed.\<close>

theorem failed_step_masked:
  "walk_finished (scen_run masked_pipeline [''a'', ''b''] masked_events) = Some (Inr False) \<and>
   map at_status (db_tasks (sh_db (fst (scen_run masked_pipeline [''a'', ''b''] masked_events)))) = [Failed, Completed] \<and>
   final_status (fst (scen_run masked_pipeline [''a'', ''b''] masked_events)) = RunCompleted"
proof -
  have "let w = scen_run masked_pipeline [''a'', ''b''] masked_events in
    walk_finished w = Some (Inr False) \<and>
    map at_status (db_tasks (sh_db (fst w))) = [Failed, Completed] \<and> final_status (fst w) = RunCompleted" by code_simp
  then show ?thesis by (simp only: Let_def)
qed

end
