(* ===== verification/Squad_Exec_Props.thy ===== *)
theory Squad_Exec_Props
  imports Squad_Scenarios
begin

text \<open>
  The life of a run from request to result: what the request checks, how the run row ends,
  who is told, what an approval may do, and what a restart leaves behind.
\<close>

section \<open>Preparing\<close>

lemma create_path_run_issue_find:
  assumes "create_path_run_issue en db sq wd = Inr (i, db')"
  shows "issue_in_project db' i (sq_project_id sq)" "db_squads db' = db_squads db"
    "db_runs db' = db_runs db" "db_inbox db' = db_inbox db" "db_projects db' = db_projects db"
    "db_org_members db' = db_org_members db" "db_tasks db' = db_tasks db"
    "set (db_assignees db) \<subseteq> set (db_assignees db')"
proof -
  have "tbl_find is_id (fresh_uuid (map is_id (db_issues db)) db) (db_issues db) = None"
    using fresh_uuid_notin [of "map is_id (db_issues db)" db] by (simp add: tbl_find_None)
  then show "issue_in_project db' i (sq_project_id sq)"
    using assms
    by (auto simp: create_path_run_issue_def issue_in_project_def issue_find_def Let_def
        tbl_find_append tbl_find_Cons split: list.splits if_splits)
qed (use assms in \<open>auto simp: create_path_run_issue_def Let_def split: list.splits if_splits\<close>)

lemma run_create_tables:
  assumes "run_create db squad issue st start wd creator = Inr (r, db')"
  shows "db_issues db' = db_issues db" "db_squads db' = db_squads db" "db_inbox db' = db_inbox db"
    "db_projects db' = db_projects db" "db_org_members db' = db_org_members db"
    "db_tasks db' = db_tasks db" "db_assignees db' = db_assignees db"
  using assms by (auto simp: run_create_def Let_def split: if_splits)

lemma prepare_cases:
  assumes "prepare_squad_run en db sq rq actor = Inr (pr, db')"
  obtains i db1 r where
    "pl_nodes (sq_pipeline sq) \<noteq> []"
    "uses_path (sq_target_type sq) \<longrightarrow> resolve_directory sq rq \<noteq> None"
    "issue_in_project db1 i (sq_project_id sq)"
    "db_squads db1 = db_squads db" "db_runs db1 = db_runs db"
    "run_create db1 (sq_id sq) i RunRunning (rq_start_from_node_id rq) (resolve_directory sq rq) actor
       = Inr (r, db')"
    "pr = \<lparr>pr_run_id = run_id r, pr_issue_id = i,
       pr_overrides = \<lparr>rq_issue_id = Some i, rq_working_directory = resolve_directory sq rq,
         rq_start_from_node_id = rq_start_from_node_id rq, rq_resume_run_id = Some (run_id r)\<rparr>\<rparr>"
    "db_tasks db1 = db_tasks db" "set (db_assignees db) \<subseteq> set (db_assignees db1)"
proof -
  let ?issue = "case issue_override sq rq of
      Some i \<Rightarrow> if uses_issue (sq_target_type sq) then
                  (if issue_in_project db i (sq_project_id sq) then Inr (i, db) else Inl IssueNotInProject)
                else map_sum RunDb id (create_path_run_issue en db sq (resolve_directory sq rq))
    | None \<Rightarrow> map_sum RunDb id (create_path_run_issue en db sq (resolve_directory sq rq))"
  obtain i db1 where issue: "?issue = Inr (i, db1)"
    using assms by (auto simp: prepare_squad_run_def Let_def split: if_splits sum.splits)
  have "issue_in_project db1 i (sq_project_id sq) \<and> db_squads db1 = db_squads db \<and> db_runs db1 = db_runs db
    \<and> db_tasks db1 = db_tasks db \<and> set (db_assignees db) \<subseteq> set (db_assignees db1)"
    using issue create_path_run_issue_find [of en db sq "resolve_directory sq rq" i db1]
    by (cases "create_path_run_issue en db sq (resolve_directory sq rq)")
      (auto split: option.splits if_splits)
  then show thesis
    using assms issue
    by (auto simp: prepare_squad_run_def Let_def split: if_splits sum.splits intro!: that)
qed

lemma resolve_again:
  "resolve_directory sq rq = Some d \<Longrightarrow> rq_working_directory rq' = Some d \<Longrightarrow>
   resolve_directory sq rq' = Some d"
  by (auto simp: resolve_directory_def split: option.splits if_splits)

section \<open>Settling\<close>

lemma settle_run_status:
  assumes "run_find db i = Some r"
  shows "\<exists>r' db'. settle_run db i sh = Inr (r', db') \<and> run_status r' = run_status_as_str (final_status sh)
    \<and> run_find db' i = Some r' \<and> db_inbox db' = db_inbox db"
proof -
  have w: "\<exists>db'. run_write db i u = Inr (apply_run_update (db_now db) u r, db')
      \<and> run_find db' i = Some (apply_run_update (db_now db) u r) \<and> db_inbox db' = db_inbox db" for u
    using run_write_Inr [OF assms, of u]
    by (auto simp: run_write_def Let_def split: option.splits)
  show ?thesis
    using w [of "SetStatus RunFailed (fail_message sh)"]
      w [of "MarkCompleted (sh_agent_task_ids sh) (sh_ordered_node_ids sh)"]
      w [of "WaitingApproval (pp_pause_node_id (the (sh_pause sh))) (pp_resume_node_id (the (sh_pause sh)))
             (pp_approval_kind (the (sh_pause sh))) (pp_approval_prompt (the (sh_pause sh)))"]
    by (auto simp: settle_run_def mark_waiting_approval_def mark_status_def mark_completed_def
        final_status_def split: option.splits)
qed

lemma db_comments_find [simp]: "run_find (db\<lparr>db_comments := c\<rparr>) i = run_find db i"
  by (simp add: run_find_def)

lemma inbox_create_runs [simp]: "db_runs (inbox_create db u p i ty t b js) = db_runs db"
  by (simp add: inbox_create_def Let_def)

lemma fold_inbox_runs:
  "db_runs (foldl (\<lambda>d u. inbox_create d u p i ty t b js) db us) = db_runs db"
  by (induction us arbitrary: db) simp_all

lemma notify_runs [simp]: "run_find (notify_run db cx actor run sh) i = run_find db i"
  by (auto simp: run_find_def notify_run_def Let_def fold_inbox_runs split: option.splits)

lemma execute_finish_status:
  assumes "rq_resume_run_id rq = Some i" "run_find (sh_db sh) i = Some r"
  shows "\<exists>r'. run_find (snd (execute_finish en cx rq actor sh)) i = Some r' \<and>
     run_status r' = run_status_as_str (final_status sh)"
proof -
  let ?db = "(sh_db sh)\<lparr>db_comments := db_comments (sh_db sh)
      @ [(wc_issue_id cx, plan_text (en_texts en) cx (rq_start_from_node_id rq) (sh_run_log sh))]\<rparr>"
  have "run_find ?db i = Some r" using assms(2) by simp
  from settle_run_status [OF this, of sh] show ?thesis
    using assms(1) by (auto simp: execute_finish_def Let_def persist_run_def keep_ok_def)
qed

lemma spawn_failed_status:
  assumes "run_find db i = Some r"
  shows "\<exists>r'. run_find (spawn_failed en db i e) i = Some r' \<and> run_status r' = ''failed''"
  using run_write_Inr [OF assms, of "SetStatus RunFailed (Some (run_error_text (en_texts en) e))"]
  by (auto simp: spawn_failed_def mark_status_def)

definition settled_status :: "string \<Rightarrow> bool" where
  "settled_status s = (s \<in> {''completed'', ''failed'', ''waiting_approval''})"

lemma final_status_settled: "settled_status (run_status_as_str (final_status sh))"
  by (simp add: final_status_def settled_status_def)

lemma spawn_finish_settles:
  assumes "run_find (sh_db (fst w)) (pr_run_id pr) = Some r"
    "rq_resume_run_id (pr_overrides pr) = Some (pr_run_id pr)"
    "spawn_finish en cx pr actor w = Some db'"
  shows "\<exists>r'. run_find db' (pr_run_id pr) = Some r' \<and> settled_status (run_status r')"
proof (cases "walk_finished w")
  case (Some res)
  then show ?thesis
    using assms spawn_failed_status [OF assms(1), of en]
      execute_finish_status [OF assms(2,1), of en cx actor] final_status_settled [of "fst w"]
    by (cases res) (auto simp: spawn_finish_def settled_status_def)
qed (use assms in \<open>simp add: spawn_finish_def\<close>)

lemma run_write_row:
  assumes "run_write db i u = Inr (x, db')"
  shows "run_find db' i = Some x \<and> (\<exists>r. x = apply_run_update (db_now db) u r)"
proof (cases "run_find db i")
  case None
  then show ?thesis using assms run_write_Inl by simp
next
  case (Some r)
  then show ?thesis using assms run_write_Inr [OF Some, of u] by auto
qed

lemma approval_left:
  "st \<noteq> RunWaitingApproval \<Longrightarrow>
   run_status (apply_run_update now (SetStatus st msg) r) \<noteq> run_status_as_str RunWaitingApproval"
  "run_status (apply_run_update now (MarkCompleted ids nodes) r) \<noteq> run_status_as_str RunWaitingApproval"
  by (simp_all add: run_status_codec.enc_eq_iff del: run_status_as_str.simps)

section \<open>A finished main walk\<close>

lemma threads_nonempty: "snd w \<noteq> [] \<Longrightarrow> snd (event_step cx w e) \<noteq> []"
  by (cases e; cases w)
    (auto simp: walk_step_def walk_fault_def Let_def split: ctl.splits prod.splits)

lemma run_nonempty: "snd w \<noteq> [] \<Longrightarrow> snd (walk_run cx w evs) \<noteq> []"
  unfolding walk_run_def by (induction evs arbitrary: w) (simp_all add: threads_nonempty)

lemma all_done_finished: "all_done w \<Longrightarrow> snd w \<noteq> [] \<Longrightarrow> walk_finished w \<noteq> None"
  by (cases "snd w") (auto simp: all_done_def walk_finished_def is_done_def split: ctl.splits)

lemma round_is_run: "\<exists>es. walk_round cx w evs = walk_run cx w es"
proof -
  let ?es = "evs @ Tick (patience cx) # map Step [0..<length (snd (walk_run cx w evs))]"
  have "walk_round cx w evs = walk_run cx w ?es"
    by (simp add: walk_round_def poll_all_def walk_run_def tick_event)
  then show ?thesis by blast
qed

lemma rounds_are_run: "\<exists>es. foldl (walk_round cx) w rounds = walk_run cx w es"
proof (induction rounds arbitrary: w)
  case Nil
  have "w = walk_run cx w []" by (simp add: walk_run_def)
  then show ?case by auto
next
  case (Cons evs rounds)
  obtain es where es: "walk_round cx w evs = walk_run cx w es" using round_is_run by blast
  obtain fs where "foldl (walk_round cx) (walk_round cx w evs) rounds = walk_run cx (walk_round cx w evs) fs"
    using Cons.IH by blast
  then have "foldl (walk_round cx) w (evs # rounds) = walk_run cx w (es @ fs)"
    using es by (simp add: walk_run_def)
  then show ?case by blast
qed

section \<open>Properties\<close>

text \<open>C1: an accepted request has its run row at once: the response names a row of \<open>squad_runs\<close>
  with status running, for this squad and for an issue of the squad's project, and the
  caller is a member of the project's organization.\<close>

theorem run_squad_accepts:
  assumes "run_squad en db user i payload = Inr (resp, pr, db')"
  shows "\<exists>r sq. rs_run_id resp = Some (run_id r) \<and> run_find db' (run_id r) = Some r \<and>
     run_status r = ''running'' \<and> run_squad_id r = sq_id sq \<and> run_issue_id r = rs_issue_id resp \<and>
     tbl_find sq_id i (db_squads db) = Some sq \<and>
     issue_in_project db' (rs_issue_id resp) (sq_project_id sq) \<and>
     (\<exists>org. ensure_project_access db user (sq_project_id sq) = Inr org)"
proof -
  obtain sq where sq: "load_and_authorize db user i = Inr sq"
    and prep: "prepare_squad_run en db sq (unwrap_or payload default_request) (Some user) = Inr (pr, db')"
    and resp: "rs_run_id resp = Some (pr_run_id pr)" "rs_issue_id resp = pr_issue_id pr"
    using assms by (auto simp: run_squad_def split: sum.splits)
  from prep show ?thesis
  proof (cases rule: prepare_cases)
    case (1 j db1 r)
    note created = run_create_find [OF 1(6)] run_create_tables [OF 1(6)]
    show ?thesis
      using sq resp 1 created
      by (intro exI [of _ r] exI [of _ sq])
        (auto simp: load_and_authorize_def issue_in_project_def issue_find_def split: option.splits sum.splits)
  qed
qed

theorem run_squad_accepts_witness:
  "\<exists>r sq. rs_run_id (fst (projr (run_squad scen_env (scen_db script_pipeline) 7 3 None))) = Some (run_id r) \<and>
     run_find (snd (snd (projr (run_squad scen_env (scen_db script_pipeline) 7 3 None)))) (run_id r) = Some r \<and>
     run_status r = ''running'' \<and> run_squad_id r = sq_id sq \<and>
     run_issue_id r = rs_issue_id (fst (projr (run_squad scen_env (scen_db script_pipeline) 7 3 None))) \<and>
     tbl_find sq_id 3 (db_squads (scen_db script_pipeline)) = Some sq \<and>
     issue_in_project (snd (snd (projr (run_squad scen_env (scen_db script_pipeline) 7 3 None))))
       (rs_issue_id (fst (projr (run_squad scen_env (scen_db script_pipeline) 7 3 None)))) (sq_project_id sq) \<and>
     (\<exists>org. ensure_project_access (scen_db script_pipeline) 7 (sq_project_id sq) = Inr org)"
proof (rule run_squad_accepts)
  have "isl (run_squad scen_env (scen_db script_pipeline) 7 3 None) = False" by code_simp
  then show "run_squad scen_env (scen_db script_pipeline) 7 3 None =
    Inr (fst (projr (run_squad scen_env (scen_db script_pipeline) 7 3 None)),
         fst (snd (projr (run_squad scen_env (scen_db script_pipeline) 7 3 None))),
         snd (snd (projr (run_squad scen_env (scen_db script_pipeline) 7 3 None))))"
    by (cases "run_squad scen_env (scen_db script_pipeline) 7 3 None") auto
qed

text \<open>validating up front is complete but for the entry node: the background task that an
  accepted request starts can be rejected for one reason only, a \<open>start_from_node_id\<close> that the
  pipeline does not have.\<close>

theorem background_rejects_only_start_node:
  assumes "prepare_squad_run en db sq rq actor = Inr (pr, db')"
    "execute_start en db' sq (pr_overrides pr) = Inl e"
  shows "\<exists>s. e = StartNodeNotFound s \<and> rq_start_from_node_id rq = Some s \<and> s \<notin> set (node_ids (sq_pipeline sq))"
  using assms(1)
proof (cases rule: prepare_cases)
  case (1 i db1 r)
  let ?rq = "pr_overrides pr"
  have "issue_in_project db' i (sq_project_id sq)"
    using 1(3) run_create_tables(1) [OF 1(6)] by (simp add: issue_in_project_def issue_find_def)
  moreover have "issue_override sq ?rq = Some i" using 1(7) by (simp add: issue_override_def)
  moreover have "uses_path (sq_target_type sq) \<longrightarrow> resolve_directory sq ?rq \<noteq> None"
    using 1(2,7) resolve_again [of sq rq _ ?rq] by fastforce
  moreover have "rq_start_from_node_id ?rq = rq_start_from_node_id rq" using 1(7) by simp
  ultimately show ?thesis
    using assms(2) 1(1)
    by (auto simp: execute_start_def Let_def walk_roots_def split: if_splits option.splits sum.splits)
qed

theorem background_rejects_only_start_node_witness:
  "\<exists>s. StartNodeNotFound ''zz'' = StartNodeNotFound s \<and>
     rq_start_from_node_id (default_request\<lparr>rq_start_from_node_id := Some ''zz''\<rparr>) = Some s \<and>
     s \<notin> set (node_ids (sq_pipeline (scen_squad script_pipeline)))"
proof -
  let ?p = "prepare_squad_run scen_env (scen_db script_pipeline) (scen_squad script_pipeline)
      (default_request\<lparr>rq_start_from_node_id := Some ''zz''\<rparr>) None"
  have "isl ?p = False" by code_simp
  then have p: "?p = Inr (fst (projr ?p), snd (projr ?p))" by (cases ?p) auto
  have "isl (execute_start scen_env (snd (projr ?p)) (scen_squad script_pipeline) (pr_overrides (fst (projr ?p))))"
    by code_simp
  moreover have "projl (execute_start scen_env (snd (projr ?p)) (scen_squad script_pipeline)
      (pr_overrides (fst (projr ?p)))) = StartNodeNotFound ''zz''"
    by code_simp
  ultimately show ?thesis
    using background_rejects_only_start_node [OF p, of "StartNodeNotFound ''zz''"]
    by (metis sum.collapse(1))
qed





end
