(* ===== verification/Agent_Task_Routes.thy ===== *)
theory Agent_Task_Routes
  imports Agent_Task_Queue_Props Squad_Runs
begin

text \<open>
  The handlers of crates/remote/src/routes/agent_tasks.rs: creating, listing, updating, deleting
  and claiming agent tasks, and what follows when a task reaches a terminal status, an item in
  the inbox of everybody concerned and a review task for the configured reviewer.

  The handlers are functions of the database and the user of the request. The recipients are a
  \<open>HashSet\<close> whose iteration order is not specified; the model takes the order of insertion and
  the lemmas speak of counts per user. \<open>maybe_reply_feishu_on_terminal\<close> touches only the tables of
  the Feishu integration, which \<open>remote_db\<close> leaves out.
\<close>

section \<open>Requests\<close>

record create_task_request =
  ct_id :: "uuid option"
  ct_agent_id :: uuid
  ct_issue_id :: uuid
  ct_trigger :: "agent_task_trigger option"
  ct_priority :: "int option"
  ct_force_fresh_session :: "bool option"
  ct_squad_id :: "uuid option"
  ct_is_leader_task :: "bool option"
  ct_preferred_repo_id :: "string option"
  ct_execution_prompt :: "string option"

record list_tasks_query =
  lt_project_id :: "uuid option"
  lt_issue_id :: "uuid option"
  lt_agent_id :: "uuid option"
  lt_status :: "agent_task_status option"

section \<open>Reading\<close>

definition filter_tasks :: "list_tasks_query \<Rightarrow> agent_task list \<Rightarrow> agent_task list" where
  "filter_tasks q ts =
     (let ts1 = (case lt_agent_id q of None \<Rightarrow> ts | Some a \<Rightarrow> filter (\<lambda>t. at_agent_id t = a) ts) in
      case lt_status q of None \<Rightarrow> ts1 | Some s \<Rightarrow> filter (\<lambda>t. at_status t = s) ts1)"

definition list_agent_tasks ::
  "remote_db \<Rightarrow> uuid \<Rightarrow> list_tasks_query \<Rightarrow> error_response + agent_task list" where
  "list_agent_tasks db user q =
     (case lt_project_id q of
        Some p \<Rightarrow>
          (case ensure_project_access db user p of
             Inl e \<Rightarrow> Inl e
           | Inr _ \<Rightarrow> Inr (filter_tasks q (task_list_by_project db p)))
      | None \<Rightarrow>
          (case lt_issue_id q of
             Some i \<Rightarrow>
               (case ensure_issue_access db user i of
                  Inl e \<Rightarrow> Inl e
                | Inr _ \<Rightarrow> Inr (filter_tasks q (task_list_by_issue db i)))
           | None \<Rightarrow> Inl (error_new BAD_REQUEST ''project_id or issue_id is required'')))"

definition load_task :: "remote_db \<Rightarrow> uuid \<Rightarrow> uuid \<Rightarrow> error_response + agent_task" where
  \<comment> \<open>the common beginning of get, update and delete\<close>
  "load_task db user i =
     (case task_find db i of
        None \<Rightarrow> Inl (error_new NOT_FOUND ''agent task not found'')
      | Some t \<Rightarrow>
          (case ensure_issue_access db user (at_issue_id t) of Inl e \<Rightarrow> Inl e | Inr _ \<Rightarrow> Inr t))"

definition get_agent_task :: "remote_db \<Rightarrow> uuid \<Rightarrow> uuid \<Rightarrow> error_response + agent_task" where
  "get_agent_task db user i = load_task db user i"

section \<open>Creating and claiming\<close>

definition create_agent_task ::
  "remote_db \<Rightarrow> uuid \<Rightarrow> create_task_request \<Rightarrow> error_response + (agent_task \<times> remote_db)" where
  "create_agent_task db user q =
     (case ensure_issue_access db user (ct_issue_id q) of
        Inl e \<Rightarrow> Inl e
      | Inr _ \<Rightarrow>
          (case agent_find db (ct_agent_id q) of
             None \<Rightarrow> Inl (error_new NOT_FOUND ''agent not found'')
           | Some a \<Rightarrow>
               (case issue_find db (ct_issue_id q) of
                  None \<Rightarrow> Inl (error_new NOT_FOUND ''issue not found'')
                | Some iss \<Rightarrow>
                    (if ag_project_id a \<noteq> is_project_id iss then
                       Inl (error_new BAD_REQUEST ''agent and issue must belong to the same project'')
                     else
                       (case enqueue db (ct_id q) (ct_agent_id q) (ct_issue_id q)
                               (unwrap_or (ct_trigger q) Manual) (unwrap_or (ct_priority q) 0)
                               (unwrap_or (ct_force_fresh_session q) False) (ct_squad_id q)
                               (unwrap_or (ct_is_leader_task q) False) (ct_preferred_repo_id q)
                               (ct_execution_prompt q) None of
                          Inl e \<Rightarrow> Inl (db_error_response e ''failed to enqueue agent task'')
                        | Inr r \<Rightarrow> Inr r)))))"

definition claim_agent_task ::
  "remote_db \<Rightarrow> uuid \<Rightarrow> string \<Rightarrow> error_response + (agent_task option \<times> remote_db)" where
  \<comment> \<open>the user of the request is not looked at (\<open>let _ = ctx\<close>)\<close>
  "claim_agent_task db user host =
     (if str_trim host = [] then Inl (error_new BAD_REQUEST ''host_id is required'')
      else Inr (claim_next db host))"

section \<open>The end of a task\<close>

definition status_label :: "agent_task_status \<Rightarrow> string option" where
  "status_label s =
     (case s of Completed \<Rightarrow> Some ''completed'' | Failed \<Rightarrow> Some ''failed''
      | Cancelled \<Rightarrow> Some ''cancelled'' | _ \<Rightarrow> None)"

definition trigger_text :: "agent_task_trigger \<Rightarrow> string" where
  \<comment> \<open>\<open>format!("{:?}", task.trigger).to_lowercase()\<close>\<close>
  "trigger_text t =
     (case t of Assign \<Rightarrow> ''assign'' | Mention \<Rightarrow> ''mention'' | Manual \<Rightarrow> ''manual''
      | Copilot \<Rightarrow> ''copilot'' | Autopilot \<Rightarrow> ''autopilot'' | Feishu \<Rightarrow> ''feishu'' | Review \<Rightarrow> ''review'')"

definition terminal_recipients :: "remote_db \<Rightarrow> issue \<Rightarrow> uuid list" where
  "terminal_recipients db iss =
     remdups ((case is_creator_user_id iss of None \<Rightarrow> [] | Some c \<Rightarrow> [c]) @
       List.map_filter ia_user_id (filter (\<lambda>a. ia_issue_id a = is_id iss) (db_assignees db)) @
       map snd (filter (\<lambda>s. fst s = is_id iss) (db_subscribers db)))"

definition terminal_body :: "agent \<Rightarrow> issue \<Rightarrow> string \<Rightarrow> agent_task \<Rightarrow> string" where
  "terminal_body ag iss label t =
     ''Agent **'' @ ag_name ag @ ''** '' @ label @ '' on issue '' @ is_simple_id iss @ '' '' @
     utf8 [226, 128, 148] @ '' '' @ is_title iss @
     (case at_failure_reason t of None \<Rightarrow> [] | Some r \<Rightarrow> '': '' @ r)"

definition terminal_payload :: "string \<Rightarrow> agent_task \<Rightarrow> json" where
  "terminal_payload label t =
     JObject [(''agent_task_id'', json_uuid (Some (at_id t))),
       (''agent_id'', json_uuid (Some (at_agent_id t))), (''status'', JString label),
       (''trigger'', JString (trigger_text (at_trigger t)))]"

definition notify_agent_task_terminal :: "remote_db \<Rightarrow> agent_task \<Rightarrow> remote_db" where
  "notify_agent_task_terminal db t =
     (case issue_find db (at_issue_id t) of
        None \<Rightarrow> db
      | Some iss \<Rightarrow>
          (case agent_find db (at_agent_id t) of
             None \<Rightarrow> db
           | Some ag \<Rightarrow>
               (case status_label (at_status t) of
                  None \<Rightarrow> db
                | Some label \<Rightarrow>
                    foldl (\<lambda>d u. inbox_create d u (Some (is_project_id iss)) (Some (is_id iss))
                             ''agent_task'' (''Agent '' @ ag_name ag @ '' '' @ label)
                             (terminal_body ag iss label t) (terminal_payload label t))
                      db (terminal_recipients db iss))))"

section \<open>Reviews\<close>

definition build_review_prompt :: "string \<Rightarrow> agent_task \<Rightarrow> string" where
  "build_review_prompt author t =
     ''You are reviewing work completed by agent \"'' @ author @ ''\" on this issue.'' @ nl @ nl @
     ''Review the actual changes, not a self-report:'' @ nl @
     ''1. Inspect the diff in the workspace.'' @ nl @
     ''2. Use the `get_execution_logs` MCP tool to see what the author actually did '' @
     ''(tool calls, errors, and its final message).'' @ nl @
     ''3. Verify the change builds and its tests pass.'' @ nl @ nl @
     ''Report concrete problems with file and line references. If the work is correct, '' @
     ''say so plainly rather than inventing issues.'' @
     (case at_local_session_id t of None \<Rightarrow> []
      | Some s \<Rightarrow> nl @ nl @ ''The author worked in session `'' @ show_uuid s @ ''`.'') @
     (case at_executor_note t of None \<Rightarrow> []
      | Some n \<Rightarrow> nl @ nl @ ''Executor note for the reviewed run: '' @ n)"

definition maybe_enqueue_review_task :: "remote_db \<Rightarrow> agent_task \<Rightarrow> remote_db" where
  "maybe_enqueue_review_task db t =
     (if at_status t \<noteq> Completed then db
      else if at_trigger t = Review then db
      else
        (case agent_find db (at_agent_id t) of
           None \<Rightarrow> db
         | Some ag \<Rightarrow>
             (case ag_reviewer_agent_id ag of
                None \<Rightarrow> db
              | Some r \<Rightarrow>
                  (if r = at_agent_id t then db
                   else
                     (case enqueue db None r (at_issue_id t) Review 1 True None False
                             (at_preferred_repo_id t)
                             (Some (build_review_prompt (ag_name ag) t)) (Some (at_id t)) of
                        Inl _ \<Rightarrow> db
                      | Inr (_, db') \<Rightarrow> db')))))"

section \<open>Updating and deleting\<close>

definition update_agent_task ::
  "remote_db \<Rightarrow> uuid \<Rightarrow> uuid \<Rightarrow> task_patch \<Rightarrow> error_response + (agent_task \<times> remote_db)" where
  "update_agent_task db user i p =
     (case load_task db user i of
        Inl e \<Rightarrow> Inl e
      | Inr existing \<Rightarrow>
          (case task_update db i p of
             Inl e \<Rightarrow> Inl (db_error_response e ''failed to update agent task'')
           | Inr (t, db1) \<Rightarrow>
               (if terminal_status (at_status t) \<and> at_status existing \<noteq> at_status t
                then Inr (t, maybe_enqueue_review_task (notify_agent_task_terminal db1 t) t)
                else Inr (t, db1))))"

definition delete_agent_task :: "remote_db \<Rightarrow> uuid \<Rightarrow> uuid \<Rightarrow> error_response + remote_db" where
  "delete_agent_task db user i =
     (case load_task db user i of
        Inl e \<Rightarrow> Inl e
      | Inr _ \<Rightarrow> Inr (task_delete db i))"

section \<open>When an enqueue inserts\<close>

lemma active_unique_snoc:
  assumes "active_unique ts"
    "\<forall>x \<in> set ts. active_solo x \<longrightarrow> \<not> (at_agent_id x = at_agent_id t \<and> at_issue_id x = at_issue_id t)"
  shows "active_unique (ts @ [t])"
  using assms by (auto simp: active_unique_def)

lemma enqueue_fresh:
  assumes "active_unique (db_tasks db)" "find_active_solo db a iss = None"
    "agent_find db a \<noteq> None" "issue_find db iss \<noteq> None"
    "\<And>j. rv = Some j \<Longrightarrow> task_find db j \<noteq> None"
  shows "\<exists>db'. enqueue db None a iss tr pr fr None ld rp pm rv =
      Inr (new_task (db_now db) (fresh_uuid (map at_id (db_tasks db)) db) a iss tr pr fr None ld rp pm rv, db') \<and>
    db_tasks db' = db_tasks db @
      [new_task (db_now db) (fresh_uuid (map at_id (db_tasks db)) db) a iss tr pr fr None ld rp pm rv] \<and>
    db_inbox db' = db_inbox db"
proof -
  let ?i = "fresh_uuid (map at_id (db_tasks db)) db"
  let ?t = "new_task (db_now db) ?i a iss tr pr fr None ld rp pm rv"
  have "tbl_find at_id ?i (db_tasks db) = None"
    using fresh_uuid_notin [of "map at_id (db_tasks db)" db] by (simp add: tbl_find_None)
  moreover have "active_unique (db_tasks db @ [?t])"
    using assms(1,2) by (intro active_unique_snoc) (auto simp: find_active_solo_def find_None_iff)
  ultimately have "insert_task db ?t =
      Inr (db\<lparr>db_tasks := db_tasks db @ [?t], db_next_uuid := max (Suc ?i) (db_next_uuid db)\<rparr>)"
    using assms(3-5) by (auto simp: insert_task_def new_task_def split: option.splits)
  then show ?thesis using assms(2) by (simp add: enqueue_def Let_def unwrap_or_def)
qed

end
