(* ===== verification/Agent_Task_Routes_Props.thy ===== *)
theory Agent_Task_Routes_Props
  imports Agent_Task_Routes Squad_Scenarios
begin

text \<open>
  What the handlers of agent tasks guarantee: who may call them, what an update writes and whom
  it notifies, and that reviews are not reviewed.
\<close>

section \<open>Delivering to the inbox\<close>

definition inbox_of :: "remote_db \<Rightarrow> uuid \<Rightarrow> inbox_item list" where
  "inbox_of db u = filter (\<lambda>b. ib_recipient_user_id b = u) (db_inbox db)"

definition same_but_inbox :: "remote_db \<Rightarrow> remote_db \<Rightarrow> bool" where
  "same_but_inbox db db' =
     (db' = db\<lparr>db_inbox := db_inbox db', db_next_uuid := db_next_uuid db'\<rparr>)"

lemma same_but_inbox_refl [simp]: "same_but_inbox db db"
  by (simp add: same_but_inbox_def)

lemma same_but_inbox_create: "same_but_inbox db d \<Longrightarrow> same_but_inbox db (inbox_create d u p i ty ti bo js)"
  by (cases db; cases d) (simp add: same_but_inbox_def inbox_create_def Let_def)

lemma deliver_same:
  "same_but_inbox db d \<Longrightarrow>
   same_but_inbox db (foldl (\<lambda>d u. inbox_create d u p i ty ti bo js) d us)"
  by (induction us arbitrary: d) (auto intro: same_but_inbox_create)

lemma deliver_count:
  "length (inbox_of (foldl (\<lambda>d u. inbox_create d u p i ty ti bo js) d us) v)
     = length (inbox_of d v) + count_list us v"
  by (induction us arbitrary: d) (auto simp: inbox_create_def inbox_of_def Let_def)

lemma count_list_distinct: "distinct us \<Longrightarrow> count_list us u = (if u \<in> set us then 1 else 0)"
  by (induction us) auto

lemma same_but_inbox_tables:
  assumes "same_but_inbox db db'"
  shows "db_tasks db' = db_tasks db" "db_agents db' = db_agents db" "db_issues db' = db_issues db"
    "agent_find db' = agent_find db" "issue_find db' = issue_find db" "task_find db' = task_find db"
  using assms
  by (cases db; cases db'; simp add: same_but_inbox_def agent_find_def issue_find_def task_find_def fun_eq_iff)+

section \<open>The end of a task\<close>

definition concerned :: "remote_db \<Rightarrow> agent_task \<Rightarrow> uuid list" where
  \<comment> \<open>whom the end of a task is reported to\<close>
  "concerned db t =
     (case issue_find db (at_issue_id t) of None \<Rightarrow> []
      | Some iss \<Rightarrow> (if agent_find db (at_agent_id t) = None then [] else terminal_recipients db iss))"

lemma notify_terminal:
  assumes "terminal_status (at_status t)"
  shows "same_but_inbox db (notify_agent_task_terminal db t)"
    "length (inbox_of (notify_agent_task_terminal db t) u)
       = length (inbox_of db u) + (if u \<in> set (concerned db t) then 1 else 0)"
proof -
  obtain l where l: "status_label (at_status t) = Some l"
    using assms by (cases "at_status t") (auto simp: status_label_def terminal_status_def)
  show "same_but_inbox db (notify_agent_task_terminal db t)"
    using l by (auto simp: notify_agent_task_terminal_def intro: deliver_same split: option.splits)
  show "length (inbox_of (notify_agent_task_terminal db t) u)
       = length (inbox_of db u) + (if u \<in> set (concerned db t) then 1 else 0)"
    using l
    by (auto simp: notify_agent_task_terminal_def concerned_def deliver_count count_list_distinct
        terminal_recipients_def split: option.splits)
qed

section \<open>The review task\<close>

definition review_of :: "agent_task \<Rightarrow> agent_task \<Rightarrow> bool" where
  "review_of t r = (at_trigger r = Review \<and> at_reviews_task_id r = Some (at_id t) \<and>
     at_agent_id r \<noteq> at_agent_id t \<and> at_issue_id r = at_issue_id t \<and> at_status r = Queued \<and>
     at_trigger t \<noteq> Review \<and> at_status t = Completed)"

lemma enqueue_tasks:
  assumes "enqueue db i a iss tr pr fr sq ld rp pm rv = Inr (r, db')"
  shows "db' = db \<or>
    (db_tasks db' = db_tasks db @ [r] \<and> db_inbox db' = db_inbox db \<and> task_find db (at_id r) = None \<and>
     at_trigger r = tr \<and> at_reviews_task_id r = rv \<and> at_agent_id r = a \<and> at_issue_id r = iss \<and>
     at_status r = Queued)"
  using assms
  by (auto simp: enqueue_def Let_def insert_task_def task_find_def
      split: option.splits sum.splits if_splits)

lemma review_task_cases:
  "maybe_enqueue_review_task db t = db \<or>
   (\<exists>r. db_tasks (maybe_enqueue_review_task db t) = db_tasks db @ [r] \<and> review_of t r \<and>
      task_find db (at_id r) = None \<and> db_inbox (maybe_enqueue_review_task db t) = db_inbox db)"
  by (auto simp: maybe_enqueue_review_task_def review_of_def split: option.splits sum.splits
      dest!: enqueue_tasks)

section \<open>One update\<close>

lemma load_task_Inr:
  "load_task db user i = Inr t \<Longrightarrow>
   task_find db i = Some t \<and> (\<exists>org. ensure_issue_access db user (at_issue_id t) = Inr org)"
  by (auto simp: load_task_def split: option.splits sum.splits)

lemma task_update_Inr:
  assumes "task_update db i p = Inr (t, db')" "task_find db i = Some old"
  shows "t = apply_patch (db_now db) p old"
    "task_find db' j = (if j = i then Some t else task_find db j)"
    "db' = db\<lparr>db_tasks := tbl_update at_id i (apply_patch (db_now db) p) (db_tasks db)\<rparr>"
  using assms
  by (auto simp: task_update_def Let_def task_find_def patch_table.find_update
      split: option.splits if_splits)

lemma task_find_snoc: "db_tasks db' = db_tasks db @ [r] \<Longrightarrow> task_find db (at_id r) = None \<Longrightarrow>
   task_find db' j = (if j = at_id r then Some r else task_find db j)"
  by (auto simp: task_find_def tbl_find_append tbl_find_Cons opt_or_def split: option.splits)

lemma tasks_update_simps [simp]:
  "issue_find (db\<lparr>db_tasks := ts\<rparr>) = issue_find db"
  "agent_find (db\<lparr>db_tasks := ts\<rparr>) = agent_find db"
  "terminal_recipients (db\<lparr>db_tasks := ts\<rparr>) = terminal_recipients db"
  by (simp_all add: issue_find_def agent_find_def terminal_recipients_def fun_eq_iff)

lemma concerned_update [simp]:
  "concerned (db\<lparr>db_tasks := ts\<rparr>) t = concerned db t"
  by (cases "issue_find db (at_issue_id t)") (simp_all add: concerned_def)

lemma inbox_of_update [simp]: "inbox_of (db\<lparr>db_tasks := ts\<rparr>) u = inbox_of db u"
  by (simp add: inbox_of_def)

lemma update_agent_task_cases:
  assumes "update_agent_task db user i p = Inr (t, db')"
  obtains (quiet) old where "load_task db user i = Inr old" "task_update db i p = Inr (t, db')"
      "\<not> (terminal_status (at_status t) \<and> at_status old \<noteq> at_status t)"
  | (ended) old db1 where "load_task db user i = Inr old" "task_update db i p = Inr (t, db1)"
      "terminal_status (at_status t)" "at_status old \<noteq> at_status t"
      "db' = maybe_enqueue_review_task (notify_agent_task_terminal db1 t) t"
  using assms by (auto simp: update_agent_task_def split: sum.splits prod.splits if_splits)

lemma inbox_of_cong: "db_inbox db' = db_inbox db \<Longrightarrow> inbox_of db' u = inbox_of db u"
  by (simp add: inbox_of_def)

lemma update_ended:
  assumes upd: "task_update db i p = Inr (t, db1)" "task_find db i = Some old"
    and t: "terminal_status (at_status t)"
  defines "db' \<equiv> maybe_enqueue_review_task (notify_agent_task_terminal db1 t) t"
  shows "task_find db j \<noteq> None \<Longrightarrow> task_find db' j = (if j = i then Some t else task_find db j)"
    "length (inbox_of db' u) = length (inbox_of db u) + (if u \<in> set (concerned db t) then 1 else 0)"
    "db_tasks db' = db_tasks db1 \<or> (\<exists>r. db_tasks db' = db_tasks db1 @ [r] \<and> review_of t r)"
proof -
  let ?n = "notify_agent_task_terminal db1 t"
  note db1 = task_update_Inr [OF upd]
  note same = same_but_inbox_tables [OF notify_terminal(1) [OF t, of db1]]
  have box: "length (inbox_of ?n u) = length (inbox_of db u) + (if u \<in> set (concerned db t) then 1 else 0)"
    using notify_terminal(2) [OF t, of db1 u] by (simp add: db1(3))
  consider "db' = ?n" | r where "db_tasks db' = db_tasks ?n @ [r]" "review_of t r"
      "task_find ?n (at_id r) = None" "db_inbox db' = db_inbox ?n"
    using review_task_cases [of ?n t] unfolding db'_def by blast
  then have "(task_find db j \<noteq> None \<longrightarrow> task_find db' j = (if j = i then Some t else task_find db j)) \<and>
    length (inbox_of db' u) = length (inbox_of db u) + (if u \<in> set (concerned db t) then 1 else 0) \<and>
    (db_tasks db' = db_tasks db1 \<or> (\<exists>r. db_tasks db' = db_tasks db1 @ [r] \<and> review_of t r))"
  proof cases
    case 1
    then show ?thesis using box same db1(2) by simp
  next
    case (2 r)
    then have "inbox_of db' u = inbox_of ?n u" by (intro inbox_of_cong)
    moreover have "task_find db (at_id r) = None" using 2(3) same(6) db1(2) by (auto split: if_splits)
    ultimately show ?thesis
      using box same db1(2) 2 task_find_snoc [OF 2(1,3), of j] by auto
  qed
  then show "task_find db j \<noteq> None \<Longrightarrow> task_find db' j = (if j = i then Some t else task_find db j)"
    "length (inbox_of db' u) = length (inbox_of db u) + (if u \<in> set (concerned db t) then 1 else 0)"
    "db_tasks db' = db_tasks db1 \<or> (\<exists>r. db_tasks db' = db_tasks db1 @ [r] \<and> review_of t r)"
    by blast+
qed

section \<open>Sequences of requests\<close>

definition review_ok :: "agent_task list \<Rightarrow> bool" where
  \<comment> \<open>a review points at an existing task of another agent that is not itself a review\<close>
  "review_ok ts =
     (\<forall>r \<in> set ts. \<forall>j \<in> set_option (at_reviews_task_id r).
        at_trigger r = Review \<and>
        (\<exists>s \<in> set ts. at_id s = j \<and> at_trigger s \<noteq> Review \<and> at_agent_id s \<noteq> at_agent_id r))"

datatype route_op =
    PostTask uuid create_task_request
  | PostClaim uuid string
  | PatchTask uuid uuid task_patch
  | DeleteTask uuid uuid

fun route_step :: "remote_db \<Rightarrow> route_op \<Rightarrow> remote_db" where
  "route_step db (PostTask u q) = (case create_agent_task db u q of Inl _ \<Rightarrow> db | Inr (_, db') \<Rightarrow> db')"
| "route_step db (PostClaim u h) = (case claim_agent_task db u h of Inl _ \<Rightarrow> db | Inr (_, db') \<Rightarrow> db')"
| "route_step db (PatchTask u i p) = (case update_agent_task db u i p of Inl _ \<Rightarrow> db | Inr (_, db') \<Rightarrow> db')"
| "route_step db (DeleteTask u i) = (case delete_agent_task db u i of Inl _ \<Rightarrow> db | Inr db' \<Rightarrow> db')"

lemma review_ok_map:
  assumes "\<And>t. at_id (f t) = at_id t \<and> at_trigger (f t) = at_trigger t \<and>
    at_agent_id (f t) = at_agent_id t \<and> at_reviews_task_id (f t) = at_reviews_task_id t"
  shows "review_ok (map f ts) = review_ok ts"
  using assms by (simp add: review_ok_def)

lemma review_ok_snoc_plain:
  "review_ok ts \<Longrightarrow> at_reviews_task_id r = None \<Longrightarrow> review_ok (ts @ [r])"
  by (fastforce simp: review_ok_def)

lemma review_ok_snoc_review:
  "review_ok ts \<Longrightarrow> t \<in> set ts \<Longrightarrow> review_of t r \<Longrightarrow> review_ok (ts @ [r])"
  by (fastforce simp: review_ok_def review_of_def)

lemma review_ok_delete:
  assumes "review_ok ts" shows "review_ok (map (unlink_review i) (tbl_delete at_id i ts))"
  unfolding review_ok_def
proof (intro ballI)
  fix r j
  assume "r \<in> set (map (unlink_review i) (tbl_delete at_id i ts))" "j \<in> set_option (at_reviews_task_id r)"
  then obtain r0 where r0: "r0 \<in> set ts" "r = unlink_review i r0" "at_reviews_task_id r0 = Some j" "j \<noteq> i"
    by (auto simp: set_tbl_delete unlink_review_def split: if_splits)
  then obtain s where s: "s \<in> set ts" "at_id s = j" "at_trigger s \<noteq> Review"
    "at_agent_id s \<noteq> at_agent_id r0" "at_trigger r0 = Review"
    using assms by (fastforce simp: review_ok_def)
  then have "unlink_review i s \<in> set (map (unlink_review i) (tbl_delete at_id i ts))"
    using r0(4) by (auto simp: set_tbl_delete)
  then show "at_trigger r = Review \<and>
      (\<exists>s \<in> set (map (unlink_review i) (tbl_delete at_id i ts)).
         at_id s = j \<and> at_trigger s \<noteq> Review \<and> at_agent_id s \<noteq> at_agent_id r)"
    using s r0(2) by (intro conjI bexI [of _ "unlink_review i s"]) (auto simp: unlink_review_def)
qed

lemma review_ok_update:
  assumes ok: "review_ok (db_tasks db)" and "update_agent_task db u i p = Inr (t, db')"
  shows "review_ok (db_tasks db')"
  using assms(2)
proof (cases rule: update_agent_task_cases)
  case (quiet old)
  have "review_ok (map (\<lambda>r. if at_id r = i then apply_patch (db_now db) p r else r) (db_tasks db))"
    by (subst review_ok_map) (auto simp: apply_patch_def ok)
  then show ?thesis
    using task_update_Inr(3) [OF quiet(2)] load_task_Inr [OF quiet(1)] by (simp add: tbl_update_def)
next
  case (ended old db1)
  have find: "task_find db i = Some old" using load_task_Inr [OF ended(1)] by blast
  have "review_ok (map (\<lambda>r. if at_id r = i then apply_patch (db_now db) p r else r) (db_tasks db))"
    by (subst review_ok_map) (auto simp: apply_patch_def ok)
  then have ok1: "review_ok (db_tasks db1)"
    using task_update_Inr(3) [OF ended(2) find] by (simp add: tbl_update_def)
  have "t \<in> set (db_tasks db1)"
    using task_update_Inr(2) [OF ended(2) find, of i] by (auto simp: task_find_def dest: tbl_find_Some)
  then show ?thesis
    using ok1 update_ended(3) [OF ended(2) find ended(3)] ended(5) review_ok_snoc_review by auto
qed

lemma review_ok_step: "review_ok (db_tasks db) \<Longrightarrow> review_ok (db_tasks (route_step db op))"
proof (cases op)
  case (PostTask u q)
  assume ok: "review_ok (db_tasks db)"
  show ?thesis
    unfolding PostTask
    by (auto simp: create_agent_task_def ok split: sum.splits option.splits
        dest!: enqueue_tasks intro: review_ok_snoc_plain [OF ok])
next
  case (PostClaim u h)
  assume ok: "review_ok (db_tasks db)"
  have "review_ok (map (\<lambda>r. if at_id r = i then claim_row db h r else r) (db_tasks db))" for i
    by (subst review_ok_map) (auto simp: claim_row_def ok)
  then show ?thesis
    using ok unfolding PostClaim
    by (auto simp: claim_agent_task_def claim_next_def claim_commit_def Let_def tbl_update_def
        split: option.splits)
next
  case (PatchTask u i p)
  then show "review_ok (db_tasks db) \<Longrightarrow> ?thesis"
    by (auto split: sum.splits intro: review_ok_update)
next
  case (DeleteTask u i)
  then show "review_ok (db_tasks db) \<Longrightarrow> ?thesis"
    by (auto simp: delete_agent_task_def task_delete_def review_ok_delete split: sum.splits)
qed

section \<open>Properties\<close>

definition author_agent :: agent where
  "author_agent = scen_agent\<lparr>ag_reviewer_agent_id := Some 11\<rparr>"

definition reviewer_agent :: agent where
  "reviewer_agent = scen_agent\<lparr>ag_id := 11, ag_name := ''qa''\<rparr>"

definition running_task :: "uuid \<Rightarrow> uuid \<Rightarrow> agent_task" where
  "running_task i a = (new_task 0 i a 2 Manual 0 False None False None None None)\<lparr>at_status := Running\<rparr>"

definition review_db :: "agent_task list \<Rightarrow> remote_db" where
  "review_db ts = (scen_db empty_pipeline)\<lparr>db_agents := [author_agent, reviewer_agent],
     db_tasks := ts, db_subscribers := [(2, 7), (2, 8)]\<rparr>"

definition complete_patch :: task_patch where
  "complete_patch = empty_patch\<lparr>tp_status := Some Completed\<rparr>"

text \<open>C25: an accepted update of an agent task comes from a member of the issue's organization and
  writes exactly the patch to that task; every other task that existed stays as it was. When
  the update moves the task to another terminal status, everybody concerned (creator,
  assignees, subscribers) gets exactly one inbox item, however often they are concerned;
  otherwise, and for everybody else, the inbox does not change.\<close>

theorem update_task_effects:
  assumes upd: "update_agent_task db user i p = Inr (t, db')"
  shows "\<exists>old. task_find db i = Some old \<and> t = apply_patch (db_now db) p old \<and>
    (\<exists>org. ensure_issue_access db user (at_issue_id old) = Inr org) \<and>
    (\<forall>j. task_find db j \<noteq> None \<longrightarrow> task_find db' j = (if j = i then Some t else task_find db j)) \<and>
    (\<forall>u. length (inbox_of db' u) = length (inbox_of db u) +
       (if terminal_status (at_status t) \<and> at_status old \<noteq> at_status t \<and> u \<in> set (concerned db t)
        then 1 else 0))"
  using upd
proof (cases rule: update_agent_task_cases)
  case (quiet old)
  note find = load_task_Inr [OF quiet(1)]
  then show ?thesis
    using task_update_Inr [OF quiet(2)] quiet(3) by (intro exI [of _ old]) auto
next
  case (ended old db1)
  note find = load_task_Inr [OF ended(1)]
  then show ?thesis
    using task_update_Inr(1) [OF ended(2)] update_ended(1,2) [OF ended(2) _ ended(3)] ended(3-5)
    by (intro exI [of _ old]) auto
qed

lemma update_agent_task_returns:
  "load_task db user i = Inr old \<Longrightarrow> task_update db i p = Inr (t, db1) \<Longrightarrow>
   \<exists>db'. update_agent_task db user i p = Inr (t, db')"
  by (simp add: update_agent_task_def)

lemma review_db_update:
  "\<exists>db1. task_update (review_db [running_task 20 1]) 20 complete_patch =
     Inr (apply_patch 0 complete_patch (running_task 20 1), db1)"
proof -
  let ?u = "task_update (review_db [running_task 20 1]) 20 complete_patch"
  have "isl ?u = False" by code_simp
  moreover have "fst (projr ?u) = apply_patch 0 complete_patch (running_task 20 1)" by code_simp
  ultimately show ?thesis by (cases ?u) auto
qed

lemma review_db_load: "load_task (review_db [running_task 20 1]) 7 20 = Inr (running_task 20 1)"
  by code_simp

theorem update_task_effects_witness:
  "\<exists>t db'. update_agent_task (review_db [running_task 20 1]) 7 20 complete_patch = Inr (t, db') \<and>
     at_status t = Completed \<and> length (inbox_of db' 8) = 1"
proof -
  let ?db = "review_db [running_task 20 1]" and ?t = "apply_patch 0 complete_patch (running_task 20 1)"
  obtain db' where upd: "update_agent_task ?db 7 20 complete_patch = Inr (?t, db')"
    using review_db_update update_agent_task_returns [OF review_db_load] by blast
  have "task_find ?db 20 = Some (running_task 20 1)" by code_simp
  then have "length (inbox_of db' 8) = length (inbox_of ?db 8) + (if terminal_status (at_status ?t) \<and>
      at_status (running_task 20 1) \<noteq> at_status ?t \<and> 8 \<in> set (concerned ?db ?t) then 1 else 0)"
    using update_task_effects [OF upd] by auto
  also have "\<dots> = 1" by code_simp
  finally show ?thesis using upd by (auto simp: apply_patch_def complete_patch_def unwrap_or_def)
qed

text \<open>reviews are not reviewed: whatever requests the clients make (creating, claiming,
  updating and deleting tasks), a task that carries the id of a reviewed task is a review, the
  reviewed task exists, is no review itself and belongs to another agent.\<close>

theorem reviews_never_chain:
  assumes "review_ok (db_tasks db)"
  shows "review_ok (db_tasks (foldl route_step db ops))"
  using assms by (induction ops arbitrary: db) (auto intro: review_ok_step)

theorem reviews_never_chain_witness:
  "review_ok (db_tasks (foldl route_step (review_db [running_task 20 1])
     [PatchTask 7 20 complete_patch, PostClaim 0 ''host'', PatchTask 7 100 complete_patch, DeleteTask 7 20]))"
  by (rule reviews_never_chain) code_simp

text \<open>a successful end of a task brings a review: if the agent has another existing agent of the
  board as its reviewer, which has no active task of its own on the issue, then completing a
  task that is not a review queues one task of the reviewer on that issue, with a fresh session, ahead of normal
  work, pointing at the completed task.\<close>

theorem completion_brings_review:
  assumes upd: "update_agent_task db user i p = Inr (t, db')"
    and old: "task_find db i = Some old" "at_status old \<noteq> Completed" "at_status t = Completed"
    and trig: "at_trigger t \<noteq> Review"
    and ag: "agent_find db (at_agent_id t) = Some ag" "ag_reviewer_agent_id ag = Some r"
      "r \<noteq> at_agent_id t" "agent_find db r \<noteq> None"
    and idle: "\<forall>x \<in> set (db_tasks db). \<not> (at_agent_id x = r \<and> at_issue_id x = at_issue_id t \<and> active_solo x)"
    and inv: "queue_inv db"
  shows "\<exists>rev. db_tasks db' = tbl_update at_id i (apply_patch (db_now db) p) (db_tasks db) @ [rev] \<and>
    review_of t rev \<and> at_agent_id rev = r \<and> at_priority rev = 1 \<and> at_force_fresh_session rev \<and>
    at_execution_prompt rev = Some (build_review_prompt (ag_name ag) t)"
  using upd
proof (cases rule: update_agent_task_cases)
  case (quiet old')
  then show ?thesis
    using old load_task_Inr [OF quiet(1)] by (auto simp: terminal_status_def)
next
  case (ended old' db1)
  note db1 = task_update_Inr [OF ended(2) old(1)]
  let ?n = "notify_agent_task_terminal db1 t"
  note same = same_but_inbox_tables [OF notify_terminal(1) [OF ended(3), of db1]]
  have inv1: "queue_inv db1" by (rule task_update_inv [OF inv ended(2)])
  have t1: "t \<in> set (db_tasks db1)" "at_id t = i"
    using db1(2) [of i] by (auto simp: task_find_def dest: tbl_find_Some)
  have "\<not> (at_agent_id x = r \<and> at_issue_id x = at_issue_id t \<and> active_solo x)"
    if x: "x \<in> set (db_tasks db1)" for x
  proof (cases "at_id x = i")
    case True
    then show ?thesis using queue_inv_same_row [OF inv1 t1(1) x] t1(2) ag(3) by auto
  next
    case False
    then have "x \<in> set (db_tasks db)"
      using x db1(3) by (auto simp: set_tbl_update apply_patch_def)
    then show ?thesis using idle by blast
  qed
  then have "find_active_solo ?n r (at_issue_id t) = None"
    using same(1) by (auto simp: find_active_solo_def find_None_iff)
  moreover have "issue_find db (at_issue_id t) \<noteq> None"
    using load_task_Inr [OF ended(1)] old(1) db1(1)
    by (auto simp: apply_patch_def ensure_issue_access_def issue_organization_id_def split: option.splits)
  moreover have tables: "agent_find ?n = agent_find db" "issue_find ?n = issue_find db"
    using same(4,5) by (simp_all only: db1(3) tasks_update_simps)
  moreover have "active_unique (db_tasks ?n)" using inv1 by (simp only: same(1) queue_inv_def)
  moreover have "task_find ?n (at_id t) \<noteq> None" using db1(2) [of i] by (simp only: same(6) t1(2)) simp
  ultimately have pre: "active_unique (db_tasks ?n)" "find_active_solo ?n r (at_issue_id t) = None"
    "agent_find ?n r \<noteq> None" "issue_find ?n (at_issue_id t) \<noteq> None"
    and rv: "\<And>j. Some (at_id t) = Some j \<Longrightarrow> task_find ?n j \<noteq> None"
    using ag(4) by simp_all
  let ?prompt = "Some (build_review_prompt (ag_name ag) t)"
  let ?rev = "new_task (db_now ?n) (fresh_uuid (map at_id (db_tasks ?n)) ?n) r (at_issue_id t) Review 1
      True None False (at_preferred_repo_id t) ?prompt (Some (at_id t))"
  obtain d where d: "enqueue ?n None r (at_issue_id t) Review 1 True None False
      (at_preferred_repo_id t) ?prompt (Some (at_id t)) = Inr (?rev, d)"
    "db_tasks d = db_tasks ?n @ [?rev]"
    using enqueue_fresh [OF pre rv, where tr = Review and pr = 1 and fr = True and ld = False
        and rp = "at_preferred_repo_id t" and pm = ?prompt] by blast
  have "maybe_enqueue_review_task ?n t = d"
    unfolding maybe_enqueue_review_task_def tables(1) ag(1) using d(1) old(3) trig ag(2,3) by simp
  moreover have "review_of t ?rev" using trig old(3) ag(3) by (simp add: review_of_def new_task_def)
  moreover have "at_agent_id ?rev = r" "at_priority ?rev = 1" "at_force_fresh_session ?rev"
    "at_execution_prompt ?rev = ?prompt" by (simp_all add: new_task_def)
  ultimately show ?thesis using d(2) ended(5) same(1) db1(3) by (intro exI [of _ ?rev]) simp
qed

theorem completion_brings_review_witness:
  "\<exists>db' rev. update_agent_task (review_db [running_task 20 1]) 7 20 complete_patch =
       Inr (apply_patch 0 complete_patch (running_task 20 1), db') \<and>
     rev \<in> set (db_tasks db') \<and> at_trigger rev = Review \<and> at_agent_id rev = 11 \<and>
     at_reviews_task_id rev = Some 20"
proof -
  let ?db = "review_db [running_task 20 1]" and ?t = "apply_patch 0 complete_patch (running_task 20 1)"
  obtain db' where upd: "update_agent_task ?db 7 20 complete_patch = Inr (?t, db')"
    using review_db_update update_agent_task_returns [OF review_db_load] by blast
  have "task_find ?db 20 = Some (running_task 20 1)" "at_status (running_task 20 1) \<noteq> Completed"
    "at_status ?t = Completed" "at_trigger ?t \<noteq> Review" "agent_find ?db (at_agent_id ?t) = Some author_agent"
    "ag_reviewer_agent_id author_agent = Some 11" "11 \<noteq> at_agent_id ?t" "agent_find ?db 11 \<noteq> None"
    "\<forall>x \<in> set (db_tasks ?db). \<not> (at_agent_id x = 11 \<and> at_issue_id x = at_issue_id ?t \<and> active_solo x)"
    by code_simp+
  moreover have "queue_inv ?db"
    by (simp add: queue_inv_def review_db_def tbl_keys_ok_def active_unique_def)
  ultimately obtain rev where "db_tasks db' = tbl_update at_id 20 (apply_patch (db_now ?db) complete_patch) (db_tasks ?db) @ [rev]"
    "review_of ?t rev" "at_agent_id rev = 11"
    using completion_brings_review [OF upd, of "running_task 20 1" author_agent 11] by blast
  moreover have "at_id ?t = 20" by code_simp
  ultimately show ?thesis using upd by (auto simp: review_of_def)
qed

text \<open>the review depends on an idle reviewer: while the reviewer has an active task of its own on
  the issue, the enqueue finds that task instead, so completing the author's task adds no task
  at all and the work is never reviewed.\<close>

theorem review_skipped_when_reviewer_busy:
  assumes upd: "update_agent_task db user i p = Inr (t, db')"
    and old: "task_find db i = Some old"
    and ag: "agent_find db (at_agent_id old) = Some ag" "ag_reviewer_agent_id ag = Some r"
      "r \<noteq> at_agent_id old"
    and x: "x \<in> set (db_tasks db)" "at_agent_id x = r" "at_issue_id x = at_issue_id old" "active_solo x"
    and inv: "queue_inv db"
  shows "db_tasks db' = tbl_update at_id i (apply_patch (db_now db) p) (db_tasks db)"
  using upd
proof (cases rule: update_agent_task_cases)
  case (quiet old')
  then show ?thesis using task_update_Inr(3) [OF quiet(2) old] by simp
next
  case (ended old' db1)
  note db1 = task_update_Inr [OF ended(2) old]
  let ?n = "notify_agent_task_terminal db1 t"
  note same = same_but_inbox_tables [OF notify_terminal(1) [OF ended(3), of db1]]
  have key: "at_agent_id t = at_agent_id old" "at_issue_id t = at_issue_id old"
    using db1(1) by (simp_all add: apply_patch_def)
  have "old \<in> set (db_tasks db)" "at_id old = i" using old by (auto simp: task_find_def dest: tbl_find_Some)
  then have "at_id x \<noteq> i" using queue_inv_same_row [OF inv _ x(1)] x(2) ag(3) by auto
  then have "x \<in> set (db_tasks ?n)" using x(1) db1(3) same(1) by (force simp: set_tbl_update)
  then obtain u where "find_active_solo ?n r (at_issue_id t) = Some u"
    using find_active_solo_exists x(2-4) key(2) by metis
  then have found: "enqueue ?n None r (at_issue_id t) Review pr fr None ld rp pm rv = Inr (u, ?n)" for pr fr ld rp pm rv
    by (simp add: enqueue_def Let_def)
  have find_ag: "agent_find ?n (at_agent_id t) = Some ag"
    using same(4) ag(1) key(1) by (simp add: db1(3))
  have "maybe_enqueue_review_task ?n t = ?n"
    using ag(2) by (simp add: maybe_enqueue_review_task_def find_ag found)
  then show ?thesis using ended(5) same(1) db1(3) by simp
qed

theorem review_skipped_when_reviewer_busy_witness:
  "\<exists>t db'. update_agent_task (review_db [running_task 20 1, running_task 21 11]) 7 20 complete_patch = Inr (t, db') \<and>
     map at_id (db_tasks db') = [20, 21]"
proof -
  let ?db = "review_db [running_task 20 1, running_task 21 11]"
  let ?u = "task_update ?db 20 complete_patch"
  have "load_task ?db 7 20 = Inr (running_task 20 1)" by code_simp
  moreover have "isl ?u = False" by code_simp
  then have "?u = Inr (fst (projr ?u), snd (projr ?u))" by (cases ?u) auto
  ultimately obtain db' where upd: "update_agent_task ?db 7 20 complete_patch = Inr (fst (projr ?u), db')"
    using update_agent_task_returns by blast
  have pre: "task_find ?db 20 = Some (running_task 20 1)" "agent_find ?db (at_agent_id (running_task 20 1)) = Some author_agent"
    "ag_reviewer_agent_id author_agent = Some 11" "11 \<noteq> at_agent_id (running_task 20 1)"
    by code_simp+
  have "running_task 21 11 \<in> set (db_tasks ?db)" by (simp add: review_db_def)
  moreover have "at_agent_id (running_task 21 11) = 11"
    "at_issue_id (running_task 21 11) = at_issue_id (running_task 20 1)" "active_solo (running_task 21 11)"
    by code_simp+
  moreover have "queue_inv ?db"
    by (simp add: queue_inv_def review_db_def tbl_keys_ok_def active_unique_def running_task_def)
  ultimately have "db_tasks db' = tbl_update at_id 20 (apply_patch (db_now ?db) complete_patch) (db_tasks ?db)"
    using review_skipped_when_reviewer_busy [OF upd pre] by blast
  then have "map at_id (db_tasks db') = map at_id (db_tasks ?db)" by (simp add: patch_table.keys_update)
  also have "\<dots> = [20, 21]" by code_simp
  finally show ?thesis using upd by (intro exI conjI)
qed



end
