(* ===== verification/Issue_Assignees.thy ===== *)
theory Issue_Assignees
  imports Agent_Task_Routes Squad_Exec
begin

text \<open>
  Assigning an issue: the repository of crates/remote/src/db/issue_assignees.rs and the handlers
  of crates/remote/src/routes/issue_assignees.rs. Assigning an agent enqueues a task, assigning
  a squad enqueues its leader or starts its pipeline.

  A handler returns its response and the database it leaves, since an error after the insert is
  rolled back by a second statement. What it starts beside that, a spawned pipeline and a
  notification (a row of the \<open>notifications\<close> table, which \<open>remote_db\<close> leaves out), is part of the
  response. The table of users is not modelled, so the foreign key on users always holds.
\<close>

section \<open>The repository\<close>

record assignee_request =
  iq_id :: "uuid option"
  iq_issue_id :: uuid
  iq_user_id :: "uuid option"
  iq_agent_id :: "uuid option"
  iq_squad_id :: "uuid option"

datatype assignee_error = InvalidAssignee | AssigneeDb db_error

definition assignee_find :: "remote_db \<Rightarrow> uuid \<Rightarrow> issue_assignee option" where
  "assignee_find db i = tbl_find ia_id i (db_assignees db)"

definition assignee_list_by_issue :: "remote_db \<Rightarrow> uuid \<Rightarrow> issue_assignee list" where
  "assignee_list_by_issue db i = filter (\<lambda>a. ia_issue_id a = i) (db_assignees db)"

definition assignee_list_by_project :: "remote_db \<Rightarrow> uuid \<Rightarrow> issue_assignee list" where
  "assignee_list_by_project db p =
     filter (\<lambda>a. ia_issue_id a \<in> set (map is_id (filter (\<lambda>i. is_project_id i = p) (db_issues db))))
       (db_assignees db)"

definition same_assignment :: "issue_assignee \<Rightarrow> issue_assignee \<Rightarrow> bool" where
  \<comment> \<open>the three partial unique indexes; exactly one of the columns is set\<close>
  "same_assignment a b =
     (ia_issue_id a = ia_issue_id b \<and>
      (ia_user_id a \<noteq> None \<and> ia_user_id a = ia_user_id b \<or>
       ia_agent_id a \<noteq> None \<and> ia_agent_id a = ia_agent_id b \<or>
       ia_squad_id a \<noteq> None \<and> ia_squad_id a = ia_squad_id b))"

definition assignee_create ::
  "remote_db \<Rightarrow> uuid option \<Rightarrow> uuid \<Rightarrow> uuid option \<Rightarrow> uuid option \<Rightarrow> uuid option \<Rightarrow>
   assignee_error + (issue_assignee \<times> remote_db)" where
  "assignee_create db i issue user agent squad =
     (if length (filter (\<lambda>x. x \<noteq> None) [user, agent, squad]) \<noteq> 1 then Inl InvalidAssignee
      else
        (let k = unwrap_or i (fresh_uuid (map ia_id (db_assignees db)) db);
             a = \<lparr>ia_id = k, ia_issue_id = issue, ia_user_id = user, ia_agent_id = agent,
                   ia_squad_id = squad\<rparr> in
         if assignee_find db k \<noteq> None \<or> list_ex (same_assignment a) (db_assignees db)
           then Inl (AssigneeDb UniqueViolation)
         else if issue_find db issue = None \<or>
             (case agent of None \<Rightarrow> False | Some g \<Rightarrow> agent_find db g = None) \<or>
             (case squad of None \<Rightarrow> False | Some s \<Rightarrow> tbl_find sq_id s (db_squads db) = None)
           then Inl (AssigneeDb ForeignKeyViolation)
         else Inr (a, db\<lparr>db_assignees := db_assignees db @ [a],
                        db_next_uuid := max (Suc k) (db_next_uuid db)\<rparr>)))"

definition assignee_delete :: "remote_db \<Rightarrow> uuid \<Rightarrow> remote_db" where
  "assignee_delete db i = db\<lparr>db_assignees := tbl_delete ia_id i (db_assignees db)\<rparr>"

section \<open>What an assignment starts\<close>

datatype assign_action =
    ActionEnqueue uuid "uuid option" bool
  | ActionRunPipeline squad

text \<open>The match that computes the action; the left value is the error after which the assignee is
  deleted again.\<close>

definition assign_action :: "remote_db \<Rightarrow> assignee_request \<Rightarrow> error_response + assign_action option" where
  "assign_action db q =
     (case iq_agent_id q of
        Some a \<Rightarrow> Inr (Some (ActionEnqueue a None False))
      | None \<Rightarrow>
          (case iq_squad_id q of
             None \<Rightarrow> Inr None
           | Some s \<Rightarrow>
               (case tbl_find sq_id s (db_squads db) of
                  None \<Rightarrow> Inl (error_new NOT_FOUND ''squad not found'')
                | Some sq \<Rightarrow>
                    (case sq_on_assign sq of
                       FullPipeline \<Rightarrow> Inr (Some (ActionRunPipeline sq))
                     | LeaderOnly \<Rightarrow>
                         Inr (map_option (\<lambda>l. ActionEnqueue l (Some s) True) (sq_leader_agent_id sq))))))"

definition repo_hint :: "remote_db \<Rightarrow> uuid \<Rightarrow> string option" where
  \<comment> \<open>\<open>preferred_repo_hint\<close>: the name of the project\<close>
  "repo_hint db issue =
     (case issue_find db issue of None \<Rightarrow> None
      | Some iss \<Rightarrow> map_option pj_name (project_find db (is_project_id iss)))"

definition run_on_assign ::
  "run_env \<Rightarrow> remote_db \<Rightarrow> uuid \<Rightarrow> uuid \<Rightarrow> squad \<Rightarrow> prepared_run option \<times> remote_db" where
  \<comment> \<open>a rejected run is logged and otherwise ignored\<close>
  "run_on_assign en db user issue sq =
     (case prepare_squad_run en db sq
             \<lparr>rq_issue_id = Some issue, rq_working_directory = sq_working_directory sq,
              rq_start_from_node_id = None, rq_resume_run_id = None\<rparr> (Some user) of
        Inl _ \<Rightarrow> (None, db)
      | Inr (pr, db') \<Rightarrow> (Some pr, db'))"

definition perform_action ::
  "run_env \<Rightarrow> remote_db \<Rightarrow> uuid \<Rightarrow> uuid \<Rightarrow> string option \<Rightarrow> assign_action option \<Rightarrow>
   db_error + (prepared_run option \<times> remote_db)" where
  "perform_action en db user issue hint act =
     (case act of
        None \<Rightarrow> Inr (None, db)
      | Some (ActionRunPipeline sq) \<Rightarrow> Inr (run_on_assign en db user issue sq)
      | Some (ActionEnqueue a s leader) \<Rightarrow>
          (case enqueue db None a issue Assign 0 False s leader hint None None of
             Inl e \<Rightarrow> Inl e
           | Inr (_, db') \<Rightarrow> Inr (None, db')))"

section \<open>The handlers\<close>

record assigned =
  as_assignee :: issue_assignee
  as_spawned :: "prepared_run option"
  as_notified :: "uuid option"

definition subscribe :: "remote_db \<Rightarrow> uuid \<Rightarrow> uuid \<Rightarrow> remote_db" where
  \<comment> \<open>\<open>ON CONFLICT (issue_id, user_id) DO NOTHING\<close>\<close>
  "subscribe db issue user =
     (if (issue, user) \<in> set (db_subscribers db) then db
      else db\<lparr>db_subscribers := db_subscribers db @ [(issue, user)]\<rparr>)"

definition notify_user :: "remote_db \<Rightarrow> uuid \<Rightarrow> uuid \<Rightarrow> uuid option" where
  \<comment> \<open>who is sent a notification: a recipient outside the organization is not\<close>
  "notify_user db org recipient = (if is_member db org recipient then Some recipient else None)"

definition subscribe_assignee ::
  "remote_db \<Rightarrow> uuid \<Rightarrow> uuid \<Rightarrow> assignee_request \<Rightarrow> uuid option \<times> remote_db" where
  "subscribe_assignee db org user q =
     (case iq_user_id q of
        None \<Rightarrow> (None, db)
      | Some u \<Rightarrow>
          (if u = user \<or> issue_find db (iq_issue_id q) = None then (None, db)
           else (let db' = subscribe db (iq_issue_id q) u in (notify_user db' org u, db'))))"

definition assign_checks :: "remote_db \<Rightarrow> uuid \<Rightarrow> assignee_request \<Rightarrow> error_response + uuid" where
  \<comment> \<open>everything before the insert; the right value is the organization\<close>
  "assign_checks db user q =
     (case ensure_issue_access db user (iq_issue_id q) of
        Inl e \<Rightarrow> Inl e
      | Inr org \<Rightarrow>
          (case (iq_user_id q, iq_agent_id q, iq_squad_id q) of
             (Some _, None, None) \<Rightarrow> Inr org
           | (None, None, Some _) \<Rightarrow> Inr org
           | (None, Some a, None) \<Rightarrow>
               (case agent_find db a of
                  None \<Rightarrow> Inl (error_new NOT_FOUND ''agent not found'')
                | Some ag \<Rightarrow>
                    (case issue_find db (iq_issue_id q) of
                       None \<Rightarrow> Inl (error_new NOT_FOUND ''issue not found'')
                     | Some iss \<Rightarrow>
                         (if ag_project_id ag \<noteq> is_project_id iss then
                            Inl (error_new BAD_REQUEST ''agent and issue must belong to the same project'')
                          else Inr org)))
           | _ \<Rightarrow> Inl (error_new BAD_REQUEST ''exactly one of user_id, agent_id, or squad_id is required'')))"

definition assignee_error_response :: "assignee_error \<Rightarrow> error_response" where
  "assignee_error_response e =
     (case e of
        InvalidAssignee \<Rightarrow> error_new BAD_REQUEST ''exactly one of user_id, agent_id, or squad_id is required''
      | AssigneeDb d \<Rightarrow> db_error_response d ''failed to create issue assignee'')"

definition create_issue_assignee ::
  "run_env \<Rightarrow> remote_db \<Rightarrow> uuid \<Rightarrow> assignee_request \<Rightarrow> (error_response + assigned) \<times> remote_db" where
  "create_issue_assignee en db user q =
     (case assign_checks db user q of
        Inl e \<Rightarrow> (Inl e, db)
      | Inr org \<Rightarrow>
          (case assignee_create db (iq_id q) (iq_issue_id q) (iq_user_id q) (iq_agent_id q) (iq_squad_id q) of
             Inl e \<Rightarrow> (Inl (assignee_error_response e), db)
           | Inr (a, db1) \<Rightarrow>
               (case assign_action db1 q of
                  Inl e \<Rightarrow> (Inl e, assignee_delete db1 (ia_id a))
                | Inr act \<Rightarrow>
                    (case perform_action en db1 user (iq_issue_id q) (repo_hint db1 (iq_issue_id q)) act of
                       Inl _ \<Rightarrow>
                         (Inl (error_new INTERNAL_SERVER_ERROR
                            ''failed to enqueue agent task; assignee was not kept''),
                          assignee_delete db1 (ia_id a))
                     | Inr (spawned, db2) \<Rightarrow>
                         (case subscribe_assignee (subscribe db2 (iq_issue_id q) user) org user q of
                            (notified, db3) \<Rightarrow>
                              (Inr \<lparr>as_assignee = a, as_spawned = spawned, as_notified = notified\<rparr>, db3))))))"

definition load_assignee :: "remote_db \<Rightarrow> uuid \<Rightarrow> uuid \<Rightarrow> error_response + (issue_assignee \<times> uuid)" where
  "load_assignee db user i =
     (case assignee_find db i of
        None \<Rightarrow> Inl (error_new NOT_FOUND ''issue assignee not found'')
      | Some a \<Rightarrow>
          (case ensure_issue_access db user (ia_issue_id a) of
             Inl e \<Rightarrow> Inl e | Inr org \<Rightarrow> Inr (a, org)))"

definition get_issue_assignee :: "remote_db \<Rightarrow> uuid \<Rightarrow> uuid \<Rightarrow> error_response + issue_assignee" where
  "get_issue_assignee db user i = map_sum id fst (load_assignee db user i)"

definition list_issue_assignees :: "remote_db \<Rightarrow> uuid \<Rightarrow> uuid \<Rightarrow> error_response + issue_assignee list" where
  "list_issue_assignees db user issue =
     (case ensure_issue_access db user issue of
        Inl e \<Rightarrow> Inl e | Inr _ \<Rightarrow> Inr (assignee_list_by_issue db issue))"

definition delete_issue_assignee ::
  "remote_db \<Rightarrow> uuid \<Rightarrow> uuid \<Rightarrow> error_response + (uuid option \<times> remote_db)" where
  "delete_issue_assignee db user i =
     (case load_assignee db user i of
        Inl e \<Rightarrow> Inl e
      | Inr (a, org) \<Rightarrow>
          (let db' = assignee_delete db i in
           case ia_user_id a of
             None \<Rightarrow> Inr (None, db')
           | Some u \<Rightarrow>
               (if u = user \<or> issue_find db' (ia_issue_id a) = None then Inr (None, db')
                else Inr (notify_user db' org u, db'))))"

end
