(* ===== verification/Issue_Assignees_Props.thy ===== *)
theory Issue_Assignees_Props
  imports Issue_Assignees Squad_Exec_Props Agent_Task_Routes_Props
begin

text \<open>
  What assigning an issue guarantees: nothing is left behind by a failed assignment, the work
  that a successful one starts, and whose agents it can reach.
\<close>

section \<open>One assignment\<close>

lemma assignee_create_Inr:
  assumes "assignee_create db i issue user agent squad = Inr (a, db1)"
  shows "db_assignees db1 = db_assignees db @ [a]" "assignee_find db (ia_id a) = None"
    "ia_issue_id a = issue" "ia_user_id a = user" "ia_agent_id a = agent" "ia_squad_id a = squad"
    "db1 = db\<lparr>db_assignees := db_assignees db @ [a], db_next_uuid := db_next_uuid db1\<rparr>"
    "db_tasks db1 = db_tasks db" "db_runs db1 = db_runs db" "db_squads db1 = db_squads db"
  using assms by (auto simp: assignee_create_def Let_def split: if_splits)

lemma assignee_delete_undoes:
  assumes "assignee_create db i issue user agent squad = Inr (a, db1)"
  shows "assignee_delete db1 (ia_id a) = db\<lparr>db_next_uuid := db_next_uuid db1\<rparr>"
proof -
  have "\<forall>r \<in> set (db_assignees db). ia_id r \<noteq> ia_id a"
    using assignee_create_Inr(2) [OF assms] by (metis assignee_find_def tbl_find_None imageI)
  then have "filter (\<lambda>r. ia_id r \<noteq> ia_id a) (db_assignees db) = db_assignees db"
    by (rule filter_True)
  then have "tbl_delete ia_id (ia_id a) (db_assignees db @ [a]) = db_assignees db"
    by (simp add: tbl_delete_def)
  then show ?thesis
    using assignee_create_Inr(7) [OF assms] by (cases db; cases db1) (simp add: assignee_delete_def)
qed

lemma assign_cases:
  assumes "create_issue_assignee en db user q = (Inr r, db')"
  obtains org db1 act db2 where
    "assign_checks db user q = Inr org"
    "assignee_create db (iq_id q) (iq_issue_id q) (iq_user_id q) (iq_agent_id q) (iq_squad_id q)
       = Inr (as_assignee r, db1)"
    "assign_action db1 q = Inr act"
    "perform_action en db1 user (iq_issue_id q) (repo_hint db1 (iq_issue_id q)) act
       = Inr (as_spawned r, db2)"
    "subscribe_assignee (subscribe db2 (iq_issue_id q) user) org user q = (as_notified r, db')"
  using assms
  by (auto simp: create_issue_assignee_def split: sum.splits prod.splits intro!: that)

lemma subscribe_tables [simp]:
  "db_tasks (subscribe db i u) = db_tasks db" "db_runs (subscribe db i u) = db_runs db"
  "db_assignees (subscribe db i u) = db_assignees db"
  "set (db_subscribers (subscribe db i u)) = insert (i, u) (set (db_subscribers db))"
  by (auto simp: subscribe_def)

lemma subscribe_assignee_tables:
  assumes "subscribe_assignee db org user q = (n, db')"
  shows "db_tasks db' = db_tasks db" "db_runs db' = db_runs db" "db_assignees db' = db_assignees db"
    "set (db_subscribers db) \<subseteq> set (db_subscribers db')"
  using assms
  by (auto simp: subscribe_assignee_def Let_def split: option.splits if_splits prod.splits)

lemma prepare_tables:
  assumes "prepare_squad_run en db sq rq actor = Inr (pr, db')"
  shows "db_tasks db' = db_tasks db" "set (db_assignees db) \<subseteq> set (db_assignees db')"
  by (rule prepare_cases [OF assms], use run_create_tables in fastforce)+

text \<open>What each action leaves in the task table and among the runs.\<close>

lemma perform_enqueue:
  assumes "perform_action en db user issue hint (Some (ActionEnqueue a s leader)) = Inr (sp, db')"
  shows "sp = None" "db_assignees db' = db_assignees db" "db_runs db' = db_runs db"
    "\<exists>t. enqueue db None a issue Assign 0 False s leader hint None None = Inr (t, db')"
proof -
  obtain t where t: "enqueue db None a issue Assign 0 False s leader hint None None = Inr (t, db')"
    and sp: "sp = None"
    using assms by (auto simp: perform_action_def split: sum.splits)
  then show "sp = None" "\<exists>t. enqueue db None a issue Assign 0 False s leader hint None None = Inr (t, db')"
    by blast+
  show "db_assignees db' = db_assignees db" "db_runs db' = db_runs db"
    using t by (auto simp: enqueue_def Let_def insert_task_def split: option.splits sum.splits if_splits)
qed

lemma enqueue_solo_active:
  assumes "enqueue db i a iss tr pr fr None ld rp pm rv = Inr (t, db')"
  shows "t \<in> set (db_tasks db')" "at_agent_id t = a" "at_issue_id t = iss" "active_solo t"
proof -
  have "t \<in> set (db_tasks db') \<and> at_agent_id t = a \<and> at_issue_id t = iss \<and> active_solo t"
  proof (cases "find_active_solo db a iss")
    case None
    then show ?thesis
      using assms
      by (auto simp: enqueue_def Let_def active_solo_def task_active_def insert_task_Inr split: sum.splits)
  next
    case (Some u)
    then show ?thesis using assms find_active_solo_Some [OF Some] by (simp add: enqueue_def Let_def)
  qed
  then show "t \<in> set (db_tasks db')" "at_agent_id t = a" "at_issue_id t = iss" "active_solo t" by blast+
qed

lemma enqueue_squad_adds:
  assumes "enqueue db i a iss tr pr fr (Some s) ld rp pm rv = Inr (t, db')"
  shows "db_tasks db' = db_tasks db @ [t]" "at_agent_id t = a" "at_issue_id t = iss"
    "at_squad_id t = Some s" "at_is_leader_task t = ld" "at_status t = Queued" "at_trigger t = tr"
  using assms
  by (auto simp: enqueue_def Let_def insert_task_Inr new_task_def split: sum.splits)

lemma run_on_assign_cases:
  assumes "run_on_assign en db user issue sq = (sp, db')"
  shows "db_tasks db' = db_tasks db" "set (db_assignees db) \<subseteq> set (db_assignees db')"
    "case sp of None \<Rightarrow> db' = db
     | Some pr \<Rightarrow> \<exists>r. run_find db' (pr_run_id pr) = Some r \<and> run_status r = ''running'' \<and> run_squad_id r = sq_id sq"
proof -
  let ?rq = "\<lparr>rq_issue_id = Some issue, rq_working_directory = sq_working_directory sq,
     rq_start_from_node_id = None, rq_resume_run_id = None\<rparr>"
  have "db_tasks db' = db_tasks db \<and> set (db_assignees db) \<subseteq> set (db_assignees db') \<and>
    (case sp of None \<Rightarrow> db' = db
     | Some pr \<Rightarrow> \<exists>r. run_find db' (pr_run_id pr) = Some r \<and> run_status r = ''running'' \<and> run_squad_id r = sq_id sq)"
  proof (cases "prepare_squad_run en db sq ?rq (Some user)")
    case (Inl e)
    then show ?thesis using assms by (simp add: run_on_assign_def)
  next
    case (Inr x)
    obtain pr d where x: "x = (pr, d)" by (cases x)
    then have prep: "prepare_squad_run en db sq ?rq (Some user) = Inr (pr, d)" using Inr by simp
    have eq: "sp = Some pr" "db' = d" using assms prep by (auto simp: run_on_assign_def)
    from prep have "\<exists>r. run_find d (pr_run_id pr) = Some r \<and> run_status r = ''running'' \<and> run_squad_id r = sq_id sq"
    proof (cases rule: prepare_cases)
      case (1 i db1 r)
      then show ?thesis using run_create_find [OF 1(6)] by simp
    qed
    then show ?thesis using prepare_tables [OF prep] eq by simp
  qed
  then show "db_tasks db' = db_tasks db" "set (db_assignees db) \<subseteq> set (db_assignees db')"
    "case sp of None \<Rightarrow> db' = db
     | Some pr \<Rightarrow> \<exists>r. run_find db' (pr_run_id pr) = Some r \<and> run_status r = ''running'' \<and> run_squad_id r = sq_id sq"
    by blast+
qed

section \<open>Properties\<close>


definition squad_started :: "squad \<Rightarrow> uuid \<Rightarrow> remote_db \<Rightarrow> remote_db \<Rightarrow> prepared_run option \<Rightarrow> bool" where
  \<comment> \<open>the work an assigned squad gets\<close>
  "squad_started sq issue db db' spawned =
     (case sq_on_assign sq of
        LeaderOnly \<Rightarrow> spawned = None \<and>
          (case sq_leader_agent_id sq of
             None \<Rightarrow> db_tasks db' = db_tasks db
           | Some l \<Rightarrow>
               (case drop (length (db_tasks db)) (db_tasks db') of
                  [t] \<Rightarrow> take (length (db_tasks db)) (db_tasks db') = db_tasks db \<and> at_agent_id t = l \<and>
                    at_issue_id t = issue \<and> at_squad_id t = Some (sq_id sq) \<and> at_is_leader_task t \<and>
                    at_status t = Queued
                | _ \<Rightarrow> False))
      | FullPipeline \<Rightarrow> db_tasks db' = db_tasks db \<and>
          (case spawned of
             None \<Rightarrow> db_runs db' = db_runs db
           | Some pr \<Rightarrow>
               (case run_find db' (pr_run_id pr) of
                  None \<Rightarrow> False
                | Some r \<Rightarrow> run_status r = ''running'' \<and> run_squad_id r = sq_id sq)))"

text \<open>a successful assignment keeps its row, subscribes the caller and starts exactly the work of
  the assignee: an agent has an active task of its own on the issue; a squad set to
  leader-only gets one queued leader task; a squad set to the full pipeline gets no task yet
  but a running row, unless its request was refused, which the caller does not see; a user starts nothing.\<close>

theorem assignment_starts_work:
  assumes "create_issue_assignee en db user q = (Inr r, db')"
  shows "as_assignee r \<in> set (db_assignees db') \<and> (iq_issue_id q, user) \<in> set (db_subscribers db') \<and>
    (case (iq_agent_id q, iq_squad_id q) of
       (Some a, _) \<Rightarrow> as_spawned r = None \<and>
         (\<exists>t \<in> set (db_tasks db'). at_agent_id t = a \<and> at_issue_id t = iq_issue_id q \<and> active_solo t)
     | (None, Some s) \<Rightarrow>
         (\<exists>sq. tbl_find sq_id s (db_squads db) = Some sq \<and>
            squad_started sq (iq_issue_id q) db db' (as_spawned r))
     | (None, None) \<Rightarrow> as_spawned r = None \<and> db_tasks db' = db_tasks db \<and> db_runs db' = db_runs db)"
  using assms
proof (cases rule: assign_cases)
  case (1 org db1 act db2)
  note created = assignee_create_Inr [OF 1(2)]
  note subs = subscribe_assignee_tables [OF 1(5)]
  note db1 = created(8-10)
  have sub: "(iq_issue_id q, user) \<in> set (db_subscribers db')"
    using subs(4) by auto
  show ?thesis
  proof (cases act)
    case None
    then have db2: "db2 = db1" "as_spawned r = None" using 1(4) by (auto simp: perform_action_def)
    have "iq_agent_id q = None \<and> (iq_squad_id q = None \<or> (\<exists>s sq. iq_squad_id q = Some s \<and>
        tbl_find sq_id s (db_squads db) = Some sq \<and> sq_on_assign sq = LeaderOnly \<and> sq_leader_agent_id sq = None))"
      using 1(3) None db1(3) by (auto simp: assign_action_def split: option.splits squad_on_assign.splits)
    then show ?thesis
      using db2 subs created(1) db1 sub by (auto simp: squad_started_def)
  next
    case (Some ac)
    show ?thesis
    proof (cases ac)
      case (ActionEnqueue a s leader)
      note perf = perform_enqueue [OF 1(4) [unfolded Some ActionEnqueue]]
      obtain t where t: "enqueue db1 None a (iq_issue_id q) Assign 0 False s leader
          (repo_hint db1 (iq_issue_id q)) None None = Inr (t, db2)" using perf(4) by blast
      have kept: "as_assignee r \<in> set (db_assignees db')" using subs(3) perf(2) created(1) by simp
      have tasks: "db_tasks db' = db_tasks db2" using subs(1) by simp
      consider "iq_agent_id q = Some a" "s = None"
        | sq s' where "iq_agent_id q = None" "iq_squad_id q = Some s'" "s = Some s'" "leader"
            "tbl_find sq_id s' (db_squads db) = Some sq" "sq_on_assign sq = LeaderOnly"
            "sq_leader_agent_id sq = Some a"
        using 1(3) Some ActionEnqueue db1(3)
        by (auto simp: assign_action_def split: option.splits squad_on_assign.splits)
      then show ?thesis
      proof cases
        case 1
        then show ?thesis
          using enqueue_solo_active [OF t [unfolded 1(2)]] kept sub tasks perf(1) by auto
      next
        case (2 sq s')
        note added = enqueue_squad_adds [OF t [unfolded 2(3)]]
        have "squad_started sq (iq_issue_id q) db db' (as_spawned r)"
          using 2 added tasks db1(1) perf(1) tbl_find_Some [OF 2(5)] by (simp add: squad_started_def)
        then show ?thesis using 2 kept sub by simp
      qed
    next
      case (ActionRunPipeline sq)
      have run: "run_on_assign en db1 user (iq_issue_id q) sq = (as_spawned r, db2)"
        using 1(4) Some ActionRunPipeline by (simp add: perform_action_def)
      obtain s where sq: "iq_agent_id q = None" "iq_squad_id q = Some s"
        "tbl_find sq_id s (db_squads db) = Some sq" "sq_on_assign sq = FullPipeline"
        using 1(3) Some ActionRunPipeline db1(3)
        by (auto simp: assign_action_def split: option.splits squad_on_assign.splits)
      note ran = run_on_assign_cases [OF run]
      have "run_find db' i = run_find db2 i" for i using subs(2) by (simp add: run_find_def)
      then have "squad_started sq (iq_issue_id q) db db' (as_spawned r)"
        using ran(1,3) sq(4) subs(1,2) db1
        by (auto simp: squad_started_def split: option.splits)
      moreover have "as_assignee r \<in> set (db_assignees db')"
        using ran(2) subs(3) created(1) by auto
      ultimately show ?thesis using sq sub by simp
    qed
  qed
qed

section \<open>Applied to a board\<close>

definition foreign_squad :: squad where
  "foreign_squad = (scen_squad script_pipeline)\<lparr>sq_id := 30, sq_project_id := 19, sq_name := ''ops'',
     sq_leader_agent_id := Some 40, sq_issue_id := None, sq_on_assign := LeaderOnly\<rparr>"

definition assign_db :: "uuid \<Rightarrow> remote_db" where
  \<comment> \<open>a second organization with a project, an agent and a squad of its own; the user 7 is a member
    of the first one only\<close>
  "assign_db leader = (scen_db script_pipeline)
     \<lparr>db_projects := [\<lparr>pj_id = 9, pj_organization_id = 5, pj_name = ''web''\<rparr>,
                     \<lparr>pj_id = 19, pj_organization_id = 6, pj_name = ''infra''\<rparr>],
      db_agents := [scen_agent, scen_agent\<lparr>ag_id := 40, ag_project_id := 19\<rparr>],
      db_squads := [scen_squad script_pipeline, foreign_squad\<lparr>sq_leader_agent_id := Some leader\<rparr>]\<rparr>"

definition assign_request :: "uuid option \<Rightarrow> uuid option \<Rightarrow> assignee_request" where
  "assign_request agent squad = \<lparr>iq_id = Some 60, iq_issue_id = 2, iq_user_id = None,
     iq_agent_id = agent, iq_squad_id = squad\<rparr>"

lemma split_result: "isl (fst x) = False \<Longrightarrow> x = (Inr (projr (fst x)), snd x)"
  by (cases x; cases "fst x") auto

lemma split_error: "isl (fst x) \<Longrightarrow> x = (Inl (projl (fst x)), snd x)"
  by (cases x; cases "fst x") auto


theorem assignment_starts_work_witness:
  "\<exists>t \<in> set (db_tasks (snd (create_issue_assignee scen_env (assign_db 40) 7 (assign_request (Some 1) None)))).
     at_agent_id t = 1 \<and> at_issue_id t = 2 \<and> active_solo t"
proof -
  have "isl (fst (create_issue_assignee scen_env (assign_db 40) 7 (assign_request (Some 1) None))) = False"
    by code_simp
  from assignment_starts_work [OF split_result [OF this]] show ?thesis
    by (simp add: assign_request_def)
qed

text \<open>a squad is not confined to its project: a user who may not even run a squad, because it
  belongs to another organization, can assign it to an issue of his own; the assignment
  succeeds and queues a task of the other organization's agent on that issue, while
  assigning that agent itself is refused.\<close>

theorem assignment_reaches_foreign_squad:
  "run_squad scen_env (assign_db 40) 7 30 None = Inl (error_new FORBIDDEN ''project not accessible'') \<and>
   fst (create_issue_assignee scen_env (assign_db 40) 7 (assign_request (Some 40) None)) =
     Inl (error_new BAD_REQUEST ''agent and issue must belong to the same project'') \<and>
   isl (fst (create_issue_assignee scen_env (assign_db 40) 7 (assign_request None (Some 30)))) = False \<and>
   map (\<lambda>t. (at_agent_id t, at_issue_id t, at_status t))
     (db_tasks (snd (create_issue_assignee scen_env (assign_db 40) 7 (assign_request None (Some 30))))) =
     [(40, 2, Queued)]"
  by (intro conjI; code_simp)

end
