(* ===== verification/Squad_Admin.thy ===== *)
theory Squad_Admin
  imports Squad_Exec
begin

text \<open>
  Managing squads: the repository of crates/remote/src/db/squads.rs and the handlers of
  crates/remote/src/routes/squads.rs that create, list, update and delete squads and their
  members. The pipeline column is JSON that the repository writes with \<open>serde_json::to_value\<close>
  and reads with \<open>from_value\<close>; the model keeps the pipeline itself. Deleting a squad deletes its
  members, runs and assignments (\<open>ON DELETE CASCADE\<close>) and unlinks its tasks (\<open>ON DELETE SET
  NULL\<close>), which the unique index on active tasks may refuse. The table of users is not
  modelled. The order of names in a list is the collation of the database, a parameter.
\<close>

section \<open>The repository of squads\<close>

definition squad_find :: "remote_db \<Rightarrow> uuid \<Rightarrow> squad option" where
  "squad_find db i = tbl_find sq_id i (db_squads db)"

definition squad_list_by_project :: "(string \<Rightarrow> nat) \<Rightarrow> remote_db \<Rightarrow> uuid \<Rightarrow> squad list" where
  "squad_list_by_project collate db p =
     sort_key (\<lambda>s. collate (sq_name s)) (filter (\<lambda>s. sq_project_id s = p) (db_squads db))"

definition names_unique :: "squad list \<Rightarrow> bool" where
  "names_unique ss = distinct (map (\<lambda>s. (sq_project_id s, sq_name s)) ss)"

definition squad_refs :: "remote_db \<Rightarrow> squad \<Rightarrow> bool" where
  \<comment> \<open>the foreign keys of a row of \<open>squads\<close>\<close>
  "squad_refs db s =
     (project_find db (sq_project_id s) \<noteq> None \<and>
      (case sq_leader_agent_id s of None \<Rightarrow> True | Some a \<Rightarrow> agent_find db a \<noteq> None) \<and>
      (case sq_issue_id s of None \<Rightarrow> True | Some i \<Rightarrow> issue_find db i \<noteq> None))"

definition squad_create ::
  "remote_db \<Rightarrow> uuid option \<Rightarrow> uuid \<Rightarrow> string \<Rightarrow> uuid option \<Rightarrow> squad_pipeline option \<Rightarrow>
   squad_target_type \<Rightarrow> uuid option \<Rightarrow> string option \<Rightarrow> squad_on_assign \<Rightarrow>
   db_error + (squad \<times> remote_db)" where
  "squad_create db i proj name leader pipeline target issue wd on_assign =
     (let k = unwrap_or i (fresh_uuid (map sq_id (db_squads db)) db);
          s = \<lparr>sq_id = k, sq_project_id = proj, sq_name = name, sq_leader_agent_id = leader,
                sq_pipeline = unwrap_or pipeline empty_pipeline, sq_target_type = target,
                sq_issue_id = issue, sq_working_directory = wd, sq_on_assign = on_assign,
                sq_created_at = db_now db, sq_updated_at = db_now db\<rparr> in
      if squad_find db k \<noteq> None \<or> \<not> names_unique (db_squads db @ [s]) then Inl UniqueViolation
      else if \<not> squad_refs db s then Inl ForeignKeyViolation
      else Inr (s, db\<lparr>db_squads := db_squads db @ [s],
                     db_next_uuid := max (Suc k) (db_next_uuid db)\<rparr>))"

record squad_patch =
  up_name :: "string option"
  up_leader_agent_id :: "uuid option option"
  up_pipeline :: "squad_pipeline option"
  up_target_type :: "squad_target_type option"
  up_issue_id :: "uuid option option"
  up_working_directory :: "string option option"
  up_on_assign :: "squad_on_assign option"

definition apply_squad_patch :: "timestamp \<Rightarrow> squad_patch \<Rightarrow> squad \<Rightarrow> squad" where
  "apply_squad_patch now p s =
     s\<lparr>sq_name := unwrap_or (up_name p) (sq_name s),
       sq_leader_agent_id := patch_field (up_leader_agent_id p) (sq_leader_agent_id s),
       sq_pipeline := unwrap_or (up_pipeline p) (sq_pipeline s),
       sq_target_type := unwrap_or (up_target_type p) (sq_target_type s),
       sq_issue_id := patch_field (up_issue_id p) (sq_issue_id s),
       sq_working_directory := patch_field (up_working_directory p) (sq_working_directory s),
       sq_on_assign := unwrap_or (up_on_assign p) (sq_on_assign s),
       sq_updated_at := now\<rparr>"

definition squad_update :: "remote_db \<Rightarrow> uuid \<Rightarrow> squad_patch \<Rightarrow> db_error + (squad \<times> remote_db)" where
  "squad_update db i p =
     (let ss = tbl_update sq_id i (apply_squad_patch (db_now db) p) (db_squads db) in
      case tbl_find sq_id i ss of
        None \<Rightarrow> Inl RowNotFound
      | Some s \<Rightarrow>
          (if \<not> names_unique ss then Inl UniqueViolation
           else if \<not> squad_refs db s then Inl ForeignKeyViolation
           else Inr (s, db\<lparr>db_squads := ss\<rparr>)))"

definition unlink_squad :: "uuid \<Rightarrow> agent_task \<Rightarrow> agent_task" where
  "unlink_squad i t = (if at_squad_id t = Some i then t\<lparr>at_squad_id := None\<rparr> else t)"

definition squad_delete :: "remote_db \<Rightarrow> uuid \<Rightarrow> db_error + remote_db" where
  "squad_delete db i =
     (if squad_find db i = None then Inr db
      else
        (let ts = map (unlink_squad i) (db_tasks db) in
         if \<not> active_unique ts then Inl UniqueViolation
         else Inr (db\<lparr>db_squads := tbl_delete sq_id i (db_squads db), db_tasks := ts,
             db_members := filter (\<lambda>m. sm_squad_id m \<noteq> i) (db_members db),
             db_runs := filter (\<lambda>r. run_squad_id r \<noteq> i) (db_runs db),
             db_assignees := filter (\<lambda>a. ia_squad_id a \<noteq> Some i) (db_assignees db)\<rparr>)))"

section \<open>The repository of members\<close>

definition list_members :: "remote_db \<Rightarrow> uuid \<Rightarrow> squad_member list" where
  "list_members db i = sort_key sm_created_at (filter (\<lambda>m. sm_squad_id m = i) (db_members db))"

definition same_membership :: "squad_member \<Rightarrow> squad_member \<Rightarrow> bool" where
  \<comment> \<open>the two partial unique indexes\<close>
  "same_membership a b =
     (sm_squad_id a = sm_squad_id b \<and>
      (sm_agent_id a \<noteq> None \<and> sm_agent_id a = sm_agent_id b \<or>
       sm_user_id a \<noteq> None \<and> sm_user_id a = sm_user_id b))"

definition add_member ::
  "remote_db \<Rightarrow> uuid \<Rightarrow> uuid option \<Rightarrow> uuid option \<Rightarrow> db_error + (squad_member \<times> remote_db)" where
  "add_member db squad agent user =
     (let k = fresh_uuid (map sm_id (db_members db)) db;
          m = \<lparr>sm_id = k, sm_squad_id = squad, sm_agent_id = agent, sm_user_id = user,
                sm_created_at = db_now db\<rparr> in
      if list_ex (same_membership m) (db_members db) then Inl UniqueViolation
      else if squad_find db squad = None \<or>
          (case agent of None \<Rightarrow> False | Some a \<Rightarrow> agent_find db a = None) then Inl ForeignKeyViolation
      else Inr (m, db\<lparr>db_members := db_members db @ [m],
                     db_next_uuid := max (Suc k) (db_next_uuid db)\<rparr>))"

definition remove_member :: "remote_db \<Rightarrow> uuid \<Rightarrow> remote_db" where
  "remove_member db i = db\<lparr>db_members := tbl_delete sm_id i (db_members db)\<rparr>"

section \<open>The handlers\<close>

record create_squad_request =
  cs_id :: "uuid option"
  cs_project_id :: uuid
  cs_name :: string
  cs_leader_agent_id :: "uuid option"
  cs_pipeline :: "squad_pipeline option"
  cs_target_type :: "squad_target_type option"
  cs_issue_id :: "uuid option"
  cs_working_directory :: "string option"
  cs_on_assign :: "squad_on_assign option"

definition list_squads ::
  "(string \<Rightarrow> nat) \<Rightarrow> remote_db \<Rightarrow> uuid \<Rightarrow> uuid \<Rightarrow> error_response + squad list" where
  "list_squads collate db user p =
     (case ensure_project_access db user p of
        Inl e \<Rightarrow> Inl e | Inr _ \<Rightarrow> Inr (squad_list_by_project collate db p))"

definition get_squad :: "remote_db \<Rightarrow> uuid \<Rightarrow> uuid \<Rightarrow> error_response + squad" where
  "get_squad db user i = load_and_authorize db user i"

definition validate_target :: "squad_target_type \<Rightarrow> uuid option \<Rightarrow> string option \<Rightarrow> error_response + unit" where
  \<comment> \<open>a draft may be saved without its target: the checks are those of a run\<close>
  "validate_target target issue wd = Inr ()"

definition create_squad ::
  "remote_db \<Rightarrow> uuid \<Rightarrow> create_squad_request \<Rightarrow> error_response + (squad \<times> remote_db)" where
  "create_squad db user q =
     (case ensure_project_access db user (cs_project_id q) of
        Inl e \<Rightarrow> Inl e
      | Inr _ \<Rightarrow>
          (let target = unwrap_or (cs_target_type q) TargetPath in
           case validate_target target (cs_issue_id q) (cs_working_directory q) of
             Inl e \<Rightarrow> Inl e
           | Inr _ \<Rightarrow>
               (case squad_create db (cs_id q) (cs_project_id q) (cs_name q) (cs_leader_agent_id q)
                       (cs_pipeline q) target (cs_issue_id q) (cs_working_directory q)
                       (unwrap_or (cs_on_assign q) LeaderOnly) of
                  Inl e \<Rightarrow> Inl (db_error_response e ''failed to create squad'')
                | Inr r \<Rightarrow> Inr r)))"

definition update_squad ::
  "remote_db \<Rightarrow> uuid \<Rightarrow> uuid \<Rightarrow> squad_patch \<Rightarrow> error_response + (squad \<times> remote_db)" where
  "update_squad db user i p =
     (case load_and_authorize db user i of
        Inl e \<Rightarrow> Inl e
      | Inr s \<Rightarrow>
          (case validate_target (unwrap_or (up_target_type p) (sq_target_type s))
                  (patch_field (up_issue_id p) (sq_issue_id s))
                  (patch_field (up_working_directory p) (sq_working_directory s)) of
             Inl e \<Rightarrow> Inl e
           | Inr _ \<Rightarrow>
               (case squad_update db i p of
                  Inl e \<Rightarrow> Inl (db_error_response e ''failed to update squad'')
                | Inr r \<Rightarrow> Inr r)))"

definition delete_squad :: "remote_db \<Rightarrow> uuid \<Rightarrow> uuid \<Rightarrow> error_response + remote_db" where
  "delete_squad db user i =
     (case load_and_authorize db user i of
        Inl e \<Rightarrow> Inl e
      | Inr _ \<Rightarrow>
          (case squad_delete db i of
             Inl _ \<Rightarrow> Inl (error_new INTERNAL_SERVER_ERROR ''internal server error'')
           | Inr db' \<Rightarrow> Inr db'))"

definition list_issue_squad_runs :: "remote_db \<Rightarrow> uuid \<Rightarrow> uuid \<Rightarrow> error_response + squad_run list" where
  "list_issue_squad_runs db user issue =
     (case issue_find db issue of
        None \<Rightarrow> Inl (error_new NOT_FOUND ''issue not found'')
      | Some iss \<Rightarrow>
          (case ensure_project_access db user (is_project_id iss) of
             Inl e \<Rightarrow> Inl e | Inr _ \<Rightarrow> Inr (run_list_by_issue db issue 20)))"

definition list_squad_members :: "remote_db \<Rightarrow> uuid \<Rightarrow> uuid \<Rightarrow> error_response + squad_member list" where
  "list_squad_members db user i =
     (case load_and_authorize db user i of Inl e \<Rightarrow> Inl e | Inr _ \<Rightarrow> Inr (list_members db i))"

definition add_squad_member ::
  "remote_db \<Rightarrow> uuid \<Rightarrow> uuid \<Rightarrow> uuid option \<Rightarrow> uuid option \<Rightarrow> error_response + (squad_member \<times> remote_db)" where
  "add_squad_member db user i agent member =
     (case load_and_authorize db user i of
        Inl e \<Rightarrow> Inl e
      | Inr _ \<Rightarrow>
          (if agent = None \<and> member = None then Inl (error_new BAD_REQUEST ''agent_id or user_id is required'')
           else if agent \<noteq> None \<and> member \<noteq> None then
             Inl (error_new BAD_REQUEST ''only one of agent_id or user_id may be set'')
           else
             (case add_member db i agent member of
                Inl e \<Rightarrow> Inl (db_error_response e ''failed to add squad member'')
              | Inr r \<Rightarrow> Inr r)))"

definition remove_squad_member :: "remote_db \<Rightarrow> uuid \<Rightarrow> uuid \<Rightarrow> uuid \<Rightarrow> error_response + remote_db" where
  "remove_squad_member db user squad member =
     (case load_and_authorize db user squad of
        Inl e \<Rightarrow> Inl e | Inr _ \<Rightarrow> Inr (remove_member db member))"

end
