(* ===== verification/Squad_Admin_Props.thy ===== *)
theory Squad_Admin_Props
  imports Squad_Admin Squad_Scenarios
begin

text \<open>
  What the administration of squads guarantees: the tables that refer to squads stay
  consistent, a patch touches one squad, and where it falls short: a squad with parallel
  tasks cannot be deleted, and members are removed across squads.
\<close>

section \<open>The tables as keyed tables\<close>

interpretation squad_table: keyed_table sq_id "apply_squad_patch now" for now
  by unfold_locales (simp add: apply_squad_patch_def)

section \<open>Consistency\<close>

definition squads_ok :: "remote_db \<Rightarrow> bool" where
  \<comment> \<open>keys, names and foreign keys of squads, and the foreign keys that point at squads\<close>
  "squads_ok db =
     (tbl_keys_ok sq_id (db_squads db) \<and> names_unique (db_squads db) \<and>
      (\<forall>s \<in> set (db_squads db). squad_refs db s) \<and>
      (\<forall>m \<in> set (db_members db). squad_find db (sm_squad_id m) \<noteq> None) \<and>
      (\<forall>r \<in> set (db_runs db). squad_find db (run_squad_id r) \<noteq> None) \<and>
      (\<forall>a \<in> set (db_assignees db). \<forall>s \<in> set_option (ia_squad_id a). squad_find db s \<noteq> None) \<and>
      (\<forall>t \<in> set (db_tasks db). \<forall>s \<in> set_option (at_squad_id t). squad_find db s \<noteq> None) \<and>
      active_unique (db_tasks db))"

lemma squad_refs_cong:
  assumes "db_projects db' = db_projects db" "db_agents db' = db_agents db" "db_issues db' = db_issues db"
  shows "squad_refs db' = squad_refs db"
proof -
  have "project_find db' = project_find db" "agent_find db' = agent_find db" "issue_find db' = issue_find db"
    using assms by (simp_all add: project_find_def agent_find_def issue_find_def fun_eq_iff)
  then show ?thesis by (simp add: squad_refs_def fun_eq_iff split: option.split)
qed

lemma squad_create_ok:
  assumes ok: "squads_ok db" and create: "squad_create db i p n l pi ta iss wd oa = Inr (s, db')"
  shows "squads_ok db'"
proof -
  have new: "squad_find db (sq_id s) = None" "names_unique (db_squads db @ [s])" "squad_refs db s"
    and db': "db_squads db' = db_squads db @ [s]" "db_members db' = db_members db"
    "db_runs db' = db_runs db" "db_assignees db' = db_assignees db" "db_tasks db' = db_tasks db"
    "db_projects db' = db_projects db" "db_agents db' = db_agents db" "db_issues db' = db_issues db"
    using create by (auto simp: squad_create_def Let_def split: if_splits)
  have keep: "squad_find db' j \<noteq> None" if "squad_find db j \<noteq> None" for j
    using that by (auto simp: squad_find_def db'(1) tbl_find_append opt_or_def split: option.splits)
  show ?thesis
    using ok new keep squad_refs_cong [OF db'(6-8)]
    by (auto simp: squads_ok_def db' squad_find_def intro!: tbl_keys_ok_snoc)
qed

lemma squad_update_ok:
  assumes ok: "squads_ok db" and upd: "squad_update db i p = Inr (s, db')"
  shows "squads_ok db'"
proof -
  let ?f = "apply_squad_patch (db_now db) p"
  have new: "tbl_find sq_id i (tbl_update sq_id i ?f (db_squads db)) = Some s"
    "names_unique (tbl_update sq_id i ?f (db_squads db))" "squad_refs db s"
    and db': "db' = db\<lparr>db_squads := tbl_update sq_id i ?f (db_squads db)\<rparr>"
    using upd by (auto simp: squad_update_def Let_def split: option.splits if_splits)
  have keep: "squad_find db' j = None \<longleftrightarrow> squad_find db j = None" for j
    by (simp add: db' squad_find_def squad_table.find_update)
  have keys: "tbl_keys_ok sq_id (db_squads db')"
    using ok by (simp add: db' squads_ok_def squad_table.keys_ok_update)
  have refs: "squad_refs db x" if "x \<in> set (db_squads db')" for x
  proof (cases "sq_id x = i")
    case True
    then have "x = s" using tbl_find_in_set [OF keys that] new(1) by (simp add: db')
    then show ?thesis using new(3) by simp
  next
    case False
    then show ?thesis using that ok by (auto simp: db' set_tbl_update squads_ok_def apply_squad_patch_def)
  qed
  have "squad_refs db' = squad_refs db" by (rule squad_refs_cong) (simp_all add: db')
  then show ?thesis
    using ok keys refs new(2) unfolding squads_ok_def keep by (simp add: db')
qed

lemma squad_delete_ok:
  assumes ok: "squads_ok db" and del: "squad_delete db i = Inr db'"
  shows "squads_ok db'"
proof (cases "squad_find db i")
  case None
  then show ?thesis using assms by (simp add: squad_delete_def)
next
  case (Some s0)
  then have db': "db_squads db' = tbl_delete sq_id i (db_squads db)"
      "db_tasks db' = map (unlink_squad i) (db_tasks db)"
      "db_members db' = filter (\<lambda>m. sm_squad_id m \<noteq> i) (db_members db)"
      "db_runs db' = filter (\<lambda>r. run_squad_id r \<noteq> i) (db_runs db)"
      "db_assignees db' = filter (\<lambda>a. ia_squad_id a \<noteq> Some i) (db_assignees db)"
      "db_projects db' = db_projects db" "db_agents db' = db_agents db" "db_issues db' = db_issues db"
    and unique: "active_unique (map (unlink_squad i) (db_tasks db))"
    using del by (auto simp: squad_delete_def Let_def split: if_splits)
  have find: "squad_find db' j = (if j = i then None else squad_find db j)" for j
    by (simp add: db'(1) squad_find_def squad_table.find_delete)
  have "names_unique (db_squads db')" "tbl_keys_ok sq_id (db_squads db')"
    using ok by (simp_all add: db'(1) squads_ok_def names_unique_def tbl_delete_def distinct_map_filter
        tbl_keys_ok_def)
  moreover have "\<forall>s \<in> set (db_squads db'). squad_refs db' s"
    using ok squad_refs_cong [OF db'(6-8)] by (simp add: db'(1) set_tbl_delete squads_ok_def)
  moreover have "\<forall>t \<in> set (db_tasks db'). \<forall>s \<in> set_option (at_squad_id t). squad_find db' s \<noteq> None"
    using ok by (auto simp: squads_ok_def db'(2) unlink_squad_def find split: if_splits)
  moreover have "\<forall>m \<in> set (db_members db'). squad_find db' (sm_squad_id m) \<noteq> None"
    "\<forall>r \<in> set (db_runs db'). squad_find db' (run_squad_id r) \<noteq> None"
    "\<forall>a \<in> set (db_assignees db'). \<forall>s \<in> set_option (ia_squad_id a). squad_find db' s \<noteq> None"
    using ok by (auto simp: squads_ok_def db' find)
  ultimately show ?thesis using unique unfolding squads_ok_def by (simp add: db'(2))
qed

lemma add_member_ok:
  assumes "squads_ok db" "add_member db squad agent user = Inr (m, db')"
  shows "squads_ok db'"
proof -
  have db': "db_members db' = db_members db @ [m]" "squad_find db (sm_squad_id m) \<noteq> None"
    "db_squads db' = db_squads db" "db_tasks db' = db_tasks db" "db_runs db' = db_runs db"
    "db_assignees db' = db_assignees db" "db_projects db' = db_projects db"
    "db_agents db' = db_agents db" "db_issues db' = db_issues db"
    using assms(2) by (auto simp: add_member_def Let_def split: if_splits)
  have "squad_find db' = squad_find db" by (simp add: squad_find_def db'(3) fun_eq_iff)
  then show ?thesis
    using assms(1) db'(2) squad_refs_cong [OF db'(7-9)] by (auto simp: squads_ok_def db'(1,3-6))
qed

lemma remove_member_ok: "squads_ok db \<Longrightarrow> squads_ok (remove_member db i)"
proof -
  assume ok: "squads_ok db"
  have "squad_find (remove_member db i) = squad_find db"
    by (simp add: squad_find_def remove_member_def fun_eq_iff)
  moreover have "squad_refs (remove_member db i) = squad_refs db"
    by (rule squad_refs_cong) (simp_all add: remove_member_def)
  ultimately show ?thesis using ok by (auto simp: squads_ok_def remove_member_def set_tbl_delete)
qed

text \<open>The task queue keeps it too: a task is only inserted for a squad that exists.\<close>

lemma squads_ok_tasks:
  assumes "squads_ok db" "active_unique ts"
    "\<forall>t \<in> set ts. \<forall>s \<in> set_option (at_squad_id t). squad_find db s \<noteq> None"
  shows "squads_ok (db\<lparr>db_tasks := ts, db_next_uuid := n\<rparr>)"
proof -
  let ?d = "db\<lparr>db_tasks := ts, db_next_uuid := n\<rparr>"
  have "squad_find ?d = squad_find db" by (simp add: squad_find_def fun_eq_iff)
  moreover have "squad_refs ?d = squad_refs db" by (rule squad_refs_cong) simp_all
  ultimately show ?thesis using assms by (auto simp: squads_ok_def)
qed

lemma enqueue_squads_ok:
  assumes ok: "squads_ok db" and enq: "enqueue db i a iss tr pr fr sq ld rp pm rv = Inr (t, db')"
  shows "squads_ok db'"
proof -
  consider "db' = db" | "db' = db\<lparr>db_tasks := db_tasks db @ [t], db_next_uuid := max (Suc (at_id t)) (db_next_uuid db)\<rparr>"
      "active_unique (db_tasks db @ [t])"
      "case at_squad_id t of None \<Rightarrow> True | Some s \<Rightarrow> squad_find db s \<noteq> None"
    using enq
    by (auto simp: enqueue_def Let_def insert_task_def squad_find_def split: option.splits sum.splits if_splits)
  then show ?thesis
  proof cases
    case 2
    have "squads_ok (db\<lparr>db_tasks := db_tasks db @ [t], db_next_uuid := max (Suc (at_id t)) (db_next_uuid db)\<rparr>)"
      using ok 2(2,3) by (intro squads_ok_tasks) (auto simp: squads_ok_def split: option.splits)
    then show ?thesis by (simp only: 2(1))
  qed (use ok in simp)
qed

lemma queue_squads_ok:
  assumes ok: "squads_ok db" and inv: "queue_inv db"
  shows "squads_ok (queue_step db op)"
proof (cases "\<exists>i a iss tr pr fr sq ld rp pm rv. op = OpEnqueue i a iss tr pr fr sq ld rp pm rv")
  case True
  then show ?thesis using ok by (auto split: sum.splits intro: enqueue_squads_ok)
next
  case False
  then have only: "\<exists>ts. queue_step db op = db\<lparr>db_tasks := ts\<rparr> \<and>
      (\<forall>t \<in> set ts. \<exists>u \<in> set (db_tasks db). at_squad_id t = at_squad_id u)"
  proof (cases op)
    case (OpClaim h)
    show ?thesis
    proof (cases "claim_select db []")
      case None
      then show ?thesis unfolding OpClaim by (intro exI [of _ "db_tasks db"]) (auto simp: claim_next_def)
    next
      case (Some t)
      then show ?thesis
        unfolding OpClaim
        by (intro exI [of _ "tbl_update at_id (at_id t) (claim_row db h) (db_tasks db)"])
          (auto simp: claim_next_def claim_commit_def Let_def set_tbl_update)
    qed
  next
    case (OpUpdate i p)
    show ?thesis
    proof (cases "task_update db i p")
      case (Inl e)
      then show ?thesis unfolding OpUpdate by (intro exI [of _ "db_tasks db"]) auto
    next
      case (Inr r)
      then show ?thesis
        unfolding OpUpdate
        by (intro exI [of _ "tbl_update at_id i (apply_patch (db_now db) p) (db_tasks db)"])
          (auto simp: task_update_def Let_def set_tbl_update apply_patch_def split: option.splits if_splits)
    qed
  next
    case (OpDelete i)
    then show ?thesis
      by (intro exI [of _ "map (unlink_review i) (tbl_delete at_id i (db_tasks db))"])
        (auto simp: task_delete_def set_tbl_delete unlink_review_def)
  qed simp
  then obtain ts where ts: "queue_step db op = db\<lparr>db_tasks := ts\<rparr>"
    "\<forall>t \<in> set ts. \<exists>u \<in> set (db_tasks db). at_squad_id t = at_squad_id u" by blast
  have "active_unique ts" using queue_step_inv [OF inv, of op] ts(1) by (simp add: queue_inv_def)
  then have "squads_ok (db\<lparr>db_tasks := ts, db_next_uuid := db_next_uuid db\<rparr>)"
    using ok ts(2) by (intro squads_ok_tasks) (fastforce simp: squads_ok_def)+
  then show ?thesis using ts(1) by simp
qed

section \<open>Sequences of requests\<close>

datatype admin_op =
    PostSquad uuid create_squad_request
  | PutSquad uuid uuid squad_patch
  | DropSquad uuid uuid
  | PostMember uuid uuid "uuid option" "uuid option"
  | DropMember uuid uuid uuid
  | OtherTasks queue_op

fun admin_step :: "remote_db \<Rightarrow> admin_op \<Rightarrow> remote_db" where
  "admin_step db (PostSquad u q) = (case create_squad db u q of Inl _ \<Rightarrow> db | Inr (_, db') \<Rightarrow> db')"
| "admin_step db (PutSquad u i p) = (case update_squad db u i p of Inl _ \<Rightarrow> db | Inr (_, db') \<Rightarrow> db')"
| "admin_step db (DropSquad u i) = (case delete_squad db u i of Inl _ \<Rightarrow> db | Inr db' \<Rightarrow> db')"
| "admin_step db (PostMember u i a m) = (case add_squad_member db u i a m of Inl _ \<Rightarrow> db | Inr (_, db') \<Rightarrow> db')"
| "admin_step db (DropMember u i m) = (case remove_squad_member db u i m of Inl _ \<Rightarrow> db | Inr db' \<Rightarrow> db')"
| "admin_step db (OtherTasks op) = queue_step db op"

definition admin_inv :: "remote_db \<Rightarrow> bool" where
  "admin_inv db = (squads_ok db \<and> queue_inv db)"

lemma admin_tasks_kept:
  "squad_create db i p n l pi ta iss wd oa = Inr (s, db') \<Longrightarrow> db_tasks db' = db_tasks db"
  "squad_update db j up = Inr (s, db') \<Longrightarrow> db_tasks db' = db_tasks db"
  "add_member db sq a u = Inr (m, db') \<Longrightarrow> db_tasks db' = db_tasks db"
  "db_tasks (remove_member db j) = db_tasks db"
  by (auto simp: squad_create_def squad_update_def add_member_def remove_member_def Let_def
      split: if_splits option.splits)

lemma squad_delete_queue_inv:
  assumes inv: "queue_inv db" and del: "squad_delete db i = Inr db'"
  shows "queue_inv db'"
proof -
  have "at_id \<circ> unlink_squad i = at_id" by (auto simp: unlink_squad_def)
  then show ?thesis
    using assms by (auto simp: squad_delete_def Let_def queue_inv_def tbl_keys_ok_def split: if_splits)
qed

lemma admin_step_inv: "admin_inv db \<Longrightarrow> admin_inv (admin_step db op)"
proof (cases op)
  case (PostSquad u q)
  assume "admin_inv db"
  then show ?thesis
    unfolding PostSquad
    by (auto simp: admin_inv_def create_squad_def validate_target_def Let_def split: sum.splits
        intro: squad_create_ok queue_inv_tasks admin_tasks_kept(1))
next
  case (PutSquad u i p)
  assume "admin_inv db"
  then show ?thesis
    unfolding PutSquad
    by (auto simp: admin_inv_def update_squad_def validate_target_def split: sum.splits
        intro: squad_update_ok queue_inv_tasks admin_tasks_kept(2))
next
  case (DropSquad u i)
  assume "admin_inv db"
  then show ?thesis
    unfolding DropSquad
    by (auto simp: admin_inv_def delete_squad_def split: sum.splits
        intro: squad_delete_ok squad_delete_queue_inv)
next
  case (PostMember u i a m)
  assume "admin_inv db"
  then show ?thesis
    unfolding PostMember
    by (auto simp: admin_inv_def add_squad_member_def split: sum.splits
        intro: add_member_ok queue_inv_tasks admin_tasks_kept(3))
next
  case (DropMember u i m)
  assume "admin_inv db"
  then show ?thesis
    unfolding DropMember
    by (auto simp: admin_inv_def remove_squad_member_def split: sum.splits
        intro: remove_member_ok queue_inv_tasks admin_tasks_kept(4))
next
  case (OtherTasks q)
  assume "admin_inv db"
  then show ?thesis
    unfolding OtherTasks by (auto simp: admin_inv_def intro: queue_squads_ok queue_step_inv)
qed

section \<open>Properties\<close>

definition demo_member :: "uuid \<Rightarrow> uuid \<Rightarrow> squad_member" where
  "demo_member i sq = \<lparr>sm_id = i, sm_squad_id = sq, sm_agent_id = Some 1, sm_user_id = None, sm_created_at = 0\<rparr>"

definition squad_task :: "uuid \<Rightarrow> agent_task" where
  "squad_task i = new_task 0 i 1 2 Manual 0 True (Some 3) False None None None"



text \<open>a squad at work cannot be deleted: unlinking its tasks brings them under the unique index,
  so while two tasks of one agent on one issue are active, both of this squad or one of them
  outside squads, the request ends in an internal error and changes nothing.\<close>

theorem busy_squad_not_deleted:
  assumes auth: "load_and_authorize db user i = Inr sq"
    and t: "t \<in> set (db_tasks db)" "u \<in> set (db_tasks db)" "at_id t \<noteq> at_id u"
    and same: "at_agent_id t = at_agent_id u" "at_issue_id t = at_issue_id u"
    and active: "task_active t" "task_active u"
    and squad: "at_squad_id t = Some i" "at_squad_id u = Some i \<or> at_squad_id u = None"
  shows "delete_squad db user i = Inl (error_new INTERNAL_SERVER_ERROR ''internal server error'')"
proof -
  let ?ts = "map (unlink_squad i) (db_tasks db)"
  have "\<not> active_unique ?ts"
  proof
    assume uniq: "active_unique ?ts"
    have "unlink_squad i t = unlink_squad i u"
      by (rule active_unique_same [OF uniq])
        (use t same active squad in \<open>auto simp: unlink_squad_def active_solo_def task_active_def\<close>)
    then have "at_id (unlink_squad i t) = at_id (unlink_squad i u)" by simp
    then have "at_id t = at_id u" by (simp add: unlink_squad_def split: if_splits)
    then show False using t(3) by simp
  qed
  moreover have "squad_find db i \<noteq> None"
    using auth by (auto simp: load_and_authorize_def squad_find_def split: option.splits)
  ultimately show ?thesis using auth by (simp add: delete_squad_def squad_delete_def)
qed

theorem busy_squad_not_deleted_witness:
  "delete_squad ((scen_db script_pipeline)\<lparr>db_tasks := [squad_task 10, squad_task 11]\<rparr>) 7 3 =
     Inl (error_new INTERNAL_SERVER_ERROR ''internal server error'')"
proof -
  let ?db = "(scen_db script_pipeline)\<lparr>db_tasks := [squad_task 10, squad_task 11]\<rparr>"
  have "isl (load_and_authorize ?db 7 3) = False" by code_simp
  then obtain sq where "load_and_authorize ?db 7 3 = Inr sq" by (cases "load_and_authorize ?db 7 3") auto
  then show ?thesis
    by (rule busy_squad_not_deleted [where t = "squad_task 10" and u = "squad_task 11"])
      (simp_all add: squad_task_def new_task_def task_active_def)
qed

text \<open>members are removed across squads: only the squad of the path is checked, so whoever may
  manage one squad removes the members of any other one, here of a squad in another
  organization whose members the same user may not even list.\<close>

theorem member_removed_across_squads:
  "list_squad_members ((scen_db script_pipeline)
       \<lparr>db_projects := db_projects (scen_db script_pipeline) @ [\<lparr>pj_id = 19, pj_organization_id = 6, pj_name = ''infra''\<rparr>],
        db_squads := [scen_squad script_pipeline, (scen_squad script_pipeline)\<lparr>sq_id := 30, sq_project_id := 19\<rparr>],
        db_members := [demo_member 70 30]\<rparr>) 7 30 = Inl (error_new FORBIDDEN ''project not accessible'') \<and>
   map_sum id db_members (remove_squad_member ((scen_db script_pipeline)
       \<lparr>db_projects := db_projects (scen_db script_pipeline) @ [\<lparr>pj_id = 19, pj_organization_id = 6, pj_name = ''infra''\<rparr>],
        db_squads := [scen_squad script_pipeline, (scen_squad script_pipeline)\<lparr>sq_id := 30, sq_project_id := 19\<rparr>],
        db_members := [demo_member 70 30]\<rparr>) 7 3 70) = Inr []"
  by (intro conjI; code_simp)

end
