(* ===== verification/Session_Queue.thy ===== *)
theory Session_Queue
  imports Vk_Prelude
begin

text \<open>
  The queue of follow-up messages of a session: the table of
  crates/db/src/models/session_queued_message.rs, the service
  crates/services/src/services/queued_message.rs over it, the error mapping of the routes
  crates/server/src/routes/sessions/queue.rs, and the consumer in
  crates/local-deployment/src/container.rs (\<open>consume_queued_or_finalize\<close>).

  Executor configurations are a type of their own (\<open>'c\<close>); \<open>serde_json\<close>'s text of one is the
  parameter \<open>enc\<close> and its parser the parameter \<open>dec\<close>. A query runs on the whole table; what a
  transaction reads and writes is one definition. Other failures of SQLite than the foreign
  key on the session are not modelled.
\<close>

section \<open>Data\<close>

datatype queue_error = QDatabase | QSerde | QNotFound | QSessionMismatch | QInvalidReorder

record 'c draft_follow_up =
  df_message :: string
  df_executor_config :: 'c

record queued_row =
  qr_id :: uuid
  qr_session_id :: uuid
  qr_position :: int
  qr_message :: string
  qr_executor_config :: string
  qr_queued_at :: timestamp

record 'c queued_message =
  qm_id :: uuid
  qm_session_id :: uuid
  qm_data :: "'c draft_follow_up"
  qm_queued_at :: timestamp

record queue_db =
  qd_rows :: "queued_row list"
  qd_sessions :: "uuid list"
  qd_now :: timestamp
  qd_next_uuid :: uuid

definition queue_db_new :: "uuid list \<Rightarrow> queue_db" where
  "queue_db_new sessions = \<lparr>qd_rows = [], qd_sessions = sessions, qd_now = 0, qd_next_uuid = 0\<rparr>"

definition message_of_row :: "(string \<Rightarrow> 'c option) \<Rightarrow> queued_row \<Rightarrow> queue_error + 'c queued_message" where
  \<comment> \<open>\<open>try_from\<close>, then \<open>QueuedMessage::from\<close>, which drops the position\<close>
  "message_of_row dec r =
     (case dec (qr_executor_config r) of
        None \<Rightarrow> Inl QSerde
      | Some c \<Rightarrow> Inr \<lparr>qm_id = qr_id r, qm_session_id = qr_session_id r,
                       qm_data = \<lparr>df_message = qr_message r, df_executor_config = c\<rparr>,
                       qm_queued_at = qr_queued_at r\<rparr>)"

fun collect_results :: "('e + 'a) list \<Rightarrow> 'e + 'a list" where
  \<comment> \<open>\<open>collect\<close> into a \<open>Result\<close>\<close>
  "collect_results [] = Inr []"
| "collect_results (Inl e # _) = Inl e"
| "collect_results (Inr a # rs) = (case collect_results rs of Inl e \<Rightarrow> Inl e | Inr xs \<Rightarrow> Inr (a # xs))"

section \<open>Queries\<close>

definition session_rows :: "uuid \<Rightarrow> queued_row list \<Rightarrow> queued_row list" where
  \<comment> \<open>\<open>WHERE session_id = $1 ORDER BY position ASC, queued_at ASC\<close>\<close>
  "session_rows s rows = sort_key qr_position (sort_key qr_queued_at (filter (\<lambda>r. qr_session_id r = s) rows))"

definition list_by_session ::
  "(string \<Rightarrow> 'c option) \<Rightarrow> queue_db \<Rightarrow> uuid \<Rightarrow> queue_error + 'c queued_message list" where
  "list_by_session dec db s = collect_results (map (message_of_row dec) (session_rows s (qd_rows db)))"

definition queued_find :: "queue_db \<Rightarrow> uuid \<Rightarrow> queued_row option" where
  "queued_find db i = tbl_find qr_id i (qd_rows db)"

definition has_any :: "queue_db \<Rightarrow> uuid \<Rightarrow> bool" where
  "has_any db s = (0 < length (filter (\<lambda>r. qr_session_id r = s) (qd_rows db)))"

section \<open>Operations\<close>

definition next_position :: "uuid \<Rightarrow> queued_row list \<Rightarrow> int" where
  \<comment> \<open>\<open>COALESCE(MAX(position), -1) + 1\<close>\<close>
  "next_position s rows =
     (case map qr_position (filter (\<lambda>r. qr_session_id r = s) rows) of
        [] \<Rightarrow> - 1 | p # ps \<Rightarrow> fold max ps p) + 1"

definition queue_enqueue ::
  "('c \<Rightarrow> string) \<Rightarrow> (string \<Rightarrow> 'c option) \<Rightarrow> queue_db \<Rightarrow> uuid \<Rightarrow> 'c draft_follow_up \<Rightarrow>
   (queue_error + 'c queued_message) \<times> queue_db" where
  "queue_enqueue enc dec db s data =
     (let r = \<lparr>qr_id = qd_next_uuid db, qr_session_id = s, qr_position = next_position s (qd_rows db),
               qr_message = df_message data, qr_executor_config = enc (df_executor_config data),
               qr_queued_at = qd_now db\<rparr> in
      if s \<notin> set (qd_sessions db) then (Inl QDatabase, db)
      else (message_of_row dec r,
            db\<lparr>qd_rows := qd_rows db @ [r], qd_next_uuid := Suc (qd_next_uuid db)\<rparr>))"

definition queue_guard :: "(string \<Rightarrow> 'c option) \<Rightarrow> queue_db \<Rightarrow> uuid \<Rightarrow> uuid \<Rightarrow> queue_error option" where
  \<comment> \<open>the checks that \<open>update\<close> and \<open>remove\<close> begin with\<close>
  "queue_guard dec db s i =
     (case queued_find db i of
        None \<Rightarrow> Some QNotFound
      | Some r \<Rightarrow> (case message_of_row dec r of
            Inl e \<Rightarrow> Some e
          | Inr m \<Rightarrow> if qm_session_id m \<noteq> s then Some QSessionMismatch else None))"

definition queue_update ::
  "('c \<Rightarrow> string) \<Rightarrow> (string \<Rightarrow> 'c option) \<Rightarrow> queue_db \<Rightarrow> uuid \<Rightarrow> uuid \<Rightarrow> 'c draft_follow_up \<Rightarrow>
   (queue_error + 'c queued_message) \<times> queue_db" where
  "queue_update enc dec db s i data =
     (case queue_guard dec db s i of
        Some e \<Rightarrow> (Inl e, db)
      | None \<Rightarrow>
          (let upd = (\<lambda>r. r\<lparr>qr_message := df_message data, qr_executor_config := enc (df_executor_config data)\<rparr>);
               db' = db\<lparr>qd_rows := tbl_update qr_id i upd (qd_rows db)\<rparr> in
           (case queued_find db' i of None \<Rightarrow> Inl QDatabase | Some r \<Rightarrow> message_of_row dec r, db')))"

definition set_positions :: "(queued_row \<Rightarrow> bool) \<Rightarrow> uuid list \<Rightarrow> queued_row list \<Rightarrow> queued_row list" where
  \<comment> \<open>one \<open>UPDATE ... SET position = idx\<close> per identifier; \<open>P\<close> is the rest of its \<open>WHERE\<close>\<close>
  "set_positions P ids rows =
     foldl (\<lambda>rows (idx, i). map (\<lambda>r. if qr_id r = i \<and> P r then r\<lparr>qr_position := int idx\<rparr> else r) rows)
       rows (enumerate 0 ids)"

definition compact_positions :: "uuid \<Rightarrow> queued_row list \<Rightarrow> queued_row list" where
  "compact_positions s rows = set_positions (\<lambda>_. True) (map qr_id (session_rows s rows)) rows"

definition queue_remove ::
  "(string \<Rightarrow> 'c option) \<Rightarrow> queue_db \<Rightarrow> uuid \<Rightarrow> uuid \<Rightarrow> (queue_error + unit) \<times> queue_db" where
  "queue_remove dec db s i =
     (case queue_guard dec db s i of
        Some e \<Rightarrow> (Inl e, db)
      | None \<Rightarrow> (Inr (), db\<lparr>qd_rows := compact_positions s (tbl_delete qr_id i (qd_rows db))\<rparr>))"

definition queue_clear :: "queue_db \<Rightarrow> uuid \<Rightarrow> queue_db" where
  "queue_clear db s = db\<lparr>qd_rows := filter (\<lambda>r. qr_session_id r \<noteq> s) (qd_rows db)\<rparr>"

definition queue_reorder ::
  "(string \<Rightarrow> 'c option) \<Rightarrow> queue_db \<Rightarrow> uuid \<Rightarrow> uuid list \<Rightarrow>
   (queue_error + 'c queued_message list) \<times> queue_db" where
  "queue_reorder dec db s ids =
     (case list_by_session dec db s of
        Inl e \<Rightarrow> (Inl e, db)
      | Inr existing \<Rightarrow>
          (if length existing \<noteq> length ids then (Inl QInvalidReorder, db)
           else if sort (map qm_id existing) \<noteq> sort ids then (Inl QInvalidReorder, db)
           else (let db' = db\<lparr>qd_rows := set_positions (\<lambda>r. qr_session_id r = s) ids (qd_rows db)\<rparr> in
                 (list_by_session dec db' s, db'))))"

subsection \<open>Taking the front\<close>

text \<open>\<open>pop_front\<close> selects a row and then deletes it if it is still there. The two halves are
  definitions of their own, because another consumer may run between them.\<close>

definition pop_select :: "queue_db \<Rightarrow> uuid \<Rightarrow> queued_row option" where
  "pop_select db s = (case session_rows s (qd_rows db) of [] \<Rightarrow> None | r # _ \<Rightarrow> Some r)"

definition pop_claim ::
  "(string \<Rightarrow> 'c option) \<Rightarrow> queue_db \<Rightarrow> uuid \<Rightarrow> queued_row \<Rightarrow>
   (queue_error + 'c queued_message option) \<times> queue_db" where
  "pop_claim dec db s front =
     (if queued_find db (qr_id front) = None then (Inr None, db)
      else (case message_of_row dec front of Inl e \<Rightarrow> Inl e | Inr m \<Rightarrow> Inr (Some m),
            db\<lparr>qd_rows := compact_positions s (tbl_delete qr_id (qr_id front) (qd_rows db))\<rparr>))"

definition pop_front ::
  "(string \<Rightarrow> 'c option) \<Rightarrow> queue_db \<Rightarrow> uuid \<Rightarrow> (queue_error + 'c queued_message option) \<times> queue_db" where
  "pop_front dec db s =
     (case pop_select db s of None \<Rightarrow> (Inr None, db) | Some front \<Rightarrow> pop_claim dec db s front)"

section \<open>The consumer\<close>

datatype process_status = PsRunning | PsCompleted | PsFailed | PsKilled

definition consume_queued ::
  "(string \<Rightarrow> 'c option) \<Rightarrow> process_status \<Rightarrow> queue_db \<Rightarrow> uuid \<Rightarrow> 'c queued_message option \<times> queue_db" where
  \<comment> \<open>the message whose follow-up is started when a process of the session has exited; without
    one the task is finalized\<close>
  "consume_queued dec st db s =
     (if st \<in> {PsFailed, PsKilled} then (None, queue_clear db s)
      else (case pop_front dec db s of
          (Inr (Some m), db') \<Rightarrow> (Some m, db')
        | (_, db') \<Rightarrow> (None, db')))"

section \<open>The routes\<close>

datatype 'c queue_status = QueueEmpty | Queued "'c queued_message list"

definition status_from_messages :: "'c queued_message list \<Rightarrow> 'c queue_status" where
  "status_from_messages ms = (if ms = [] then QueueEmpty else Queued ms)"

definition queue_get_status ::
  "(string \<Rightarrow> 'c option) \<Rightarrow> queue_db \<Rightarrow> uuid \<Rightarrow> queue_error + 'c queue_status" where
  "queue_get_status dec db s =
     (case list_by_session dec db s of Inl e \<Rightarrow> Inl e | Inr ms \<Rightarrow> Inr (status_from_messages ms))"

datatype queue_api_error = BadRequest string | ApiDatabase

fun map_queue_error :: "queue_error \<Rightarrow> queue_api_error" where
  "map_queue_error QNotFound = BadRequest ''Queued message not found''"
| "map_queue_error QSessionMismatch = BadRequest ''Queued message does not belong to this session''"
| "map_queue_error QInvalidReorder = BadRequest ''Reorder must include exactly the current queue item ids''"
| "map_queue_error QDatabase = ApiDatabase"
| "map_queue_error QSerde = BadRequest ''Invalid queue payload''"

text \<open>A call of the routes, with the session that the middleware has loaded. The text of a
  decoding error is left out of \<open>Invalid queue payload\<close>.\<close>

datatype 'c queue_call =
    QueueMessage "'c draft_follow_up"
  | ClearQueue
  | GetQueueStatus
  | UpdateQueued uuid "'c draft_follow_up"
  | RemoveQueued uuid
  | ReorderQueue "uuid list"

definition queue_then_status ::
  "(string \<Rightarrow> 'c option) \<Rightarrow> uuid \<Rightarrow> (queue_error + 'a) \<times> queue_db \<Rightarrow>
   (queue_api_error + 'c queue_status) \<times> queue_db" where
  "queue_then_status dec s res =
     (case res of
        (Inl e, db) \<Rightarrow> (Inl (map_queue_error e), db)
      | (Inr _, db) \<Rightarrow> (map_sum map_queue_error id (queue_get_status dec db s), db))"

fun queue_route ::
  "('c \<Rightarrow> string) \<Rightarrow> (string \<Rightarrow> 'c option) \<Rightarrow> queue_db \<Rightarrow> uuid \<Rightarrow> 'c queue_call \<Rightarrow>
   (queue_api_error + 'c queue_status) \<times> queue_db" where
  "queue_route enc dec db s (QueueMessage d) = queue_then_status dec s (queue_enqueue enc dec db s d)"
| "queue_route enc dec db s ClearQueue = (Inr QueueEmpty, queue_clear db s)"
| "queue_route enc dec db s GetQueueStatus = queue_then_status dec s (Inr (), db)"
| "queue_route enc dec db s (UpdateQueued i d) = queue_then_status dec s (queue_update enc dec db s i d)"
| "queue_route enc dec db s (RemoveQueued i) = queue_then_status dec s (queue_remove dec db s i)"
| "queue_route enc dec db s (ReorderQueue ids) =
     (case queue_reorder dec db s ids of
        (Inl e, db') \<Rightarrow> (Inl (map_queue_error e), db')
      | (Inr ms, db') \<Rightarrow> (Inr (status_from_messages ms), db'))"

section \<open>Sessions at work\<close>

text \<open>Calls of the routes, exits of processes, and the clock of the database.\<close>

datatype 'c queue_event = QCall uuid "'c queue_call" | QExit uuid process_status | QTick

datatype 'c queue_output = Answer "queue_api_error + 'c queue_status" | FollowUp "'c queued_message option" | Ticked

fun queue_step ::
  "('c \<Rightarrow> string) \<Rightarrow> (string \<Rightarrow> 'c option) \<Rightarrow> queue_db \<Rightarrow> 'c queue_event \<Rightarrow> 'c queue_output \<times> queue_db" where
  "queue_step enc dec db (QCall s c) = map_prod Answer id (queue_route enc dec db s c)"
| "queue_step enc dec db (QExit s st) = map_prod FollowUp id (consume_queued dec st db s)"
| "queue_step enc dec db QTick = (Ticked, db\<lparr>qd_now := Suc (qd_now db)\<rparr>)"

text \<open>The same with consumers whose \<open>pop_front\<close> is interrupted between its two halves by
  anything else, another consumer included.\<close>

datatype 'c race_event = RaceQueue "'c queue_event" | RaceSelect nat uuid | RaceClaim nat

record 'c race_world =
  rw_db :: queue_db
  rw_selected :: "nat \<Rightarrow> (uuid \<times> queued_row) option"  \<comment> \<open>by consumer\<close>
  rw_delivered :: "'c queued_message list"

definition race_world_new :: "uuid list \<Rightarrow> 'c race_world" where
  "race_world_new sessions = \<lparr>rw_db = queue_db_new sessions, rw_selected = (\<lambda>_. None), rw_delivered = []\<rparr>"

fun race_step ::
  "('c \<Rightarrow> string) \<Rightarrow> (string \<Rightarrow> 'c option) \<Rightarrow> 'c race_world \<Rightarrow> 'c race_event \<Rightarrow> 'c race_world" where
  "race_step enc dec w (RaceQueue e) =
     (case queue_step enc dec (rw_db w) e of
        (FollowUp (Some m), db) \<Rightarrow> w\<lparr>rw_db := db, rw_delivered := rw_delivered w @ [m]\<rparr>
      | (_, db) \<Rightarrow> w\<lparr>rw_db := db\<rparr>)"
| "race_step enc dec w (RaceSelect k s) =
     w\<lparr>rw_selected := (rw_selected w)(k := map_option (\<lambda>r. (s, r)) (pop_select (rw_db w) s))\<rparr>"
| "race_step enc dec w (RaceClaim k) =
     (case rw_selected w k of
        None \<Rightarrow> w
      | Some (s, front) \<Rightarrow>
          (let w' = w\<lparr>rw_selected := (rw_selected w)(k := None)\<rparr> in
           case pop_claim dec (rw_db w) s front of
             (Inr (Some m), db) \<Rightarrow> w'\<lparr>rw_db := db, rw_delivered := rw_delivered w @ [m]\<rparr>
           | (_, db) \<Rightarrow> w'\<lparr>rw_db := db\<rparr>))"

end
