(* ===== verification/Task_Watcher.thy ===== *)
theory Task_Watcher
  imports Agent_Task_Routes Squad_Exec Pipeline_Job Session_Queue
begin

text \<open>
  The host side of agent tasks: crates/local-deployment/src/agent_task_watcher.rs. A watcher
  claims one task, prepares a workspace, starts a coding agent in it and waits for it to end, or
  runs a pipeline job, and reports to the Remote server.

  What a watcher asks of its host and of the server in one round (which repositories there are,
  whether a workspace could be created) is the record \<open>watch_env\<close>; what it tells the server is
  the list of its \<open>remote_call\<close>s, whose results the source ignores (\<open>let _ =\<close>). An update that
  the server receives is \<open>update_agent_task\<close>; comments and registered workspaces do not touch the
  tasks and are not carried out.
  \<open>Uuid::parse_str\<close> is a parameter.
\<close>

section \<open>Text and paths\<close>

definition pipeline_log_tail_chars :: nat where
  "pipeline_log_tail_chars = 2000"

definition tail_chars :: "string \<Rightarrow> nat \<Rightarrow> string" where
  "tail_chars s max_chars =
     (let t = str_trim s; total_chars = char_count t in
      if total_chars \<le> max_chars then t
      else utf8 [0xE2, 0x80, 0xA6] @ concat (drop (total_chars - max_chars) (utf8_chars t)))"

definition path_is_absolute :: "string \<Rightarrow> bool" where
  "path_is_absolute p = (case p of [] \<Rightarrow> False | c # _ \<Rightarrow> c = CHR ''/'')"

definition path_components :: "string \<Rightarrow> string list" where
  \<comment> \<open>\<open>Path::components\<close> on Unix: \<open>Path\<close> compares and matches prefixes by these\<close>
  "path_components p =
     (let parts = str_split CHR ''/'' p; normal = filter (\<lambda>c. c \<noteq> [] \<and> c \<noteq> ''.'') in
      if path_is_absolute p then ''/'' # normal parts
      else (if hd parts = ''.'' then [''.''] else []) @ normal parts)"

definition path_starts_with :: "string \<Rightarrow> string \<Rightarrow> bool" where
  "path_starts_with p base = prefix (path_components base) (path_components p)"

definition path_join :: "string \<Rightarrow> string \<Rightarrow> string" where
  "path_join p q =
     (if path_is_absolute q then q
      else if p = [] \<or> last p = CHR ''/'' then p @ q else p @ ''/'' @ q)"

definition trim_end_slashes :: "string \<Rightarrow> string" where
  "trim_end_slashes s = rev (dropWhile (\<lambda>c. c = CHR ''/'') (rev s))"

section \<open>Choosing a repository and an executor\<close>

record local_repo =
  rp_id :: uuid
  rp_path :: string
  rp_name :: string
  rp_display_name :: string
  rp_default_target_branch :: "string option"

definition select_by_path :: "local_repo list \<Rightarrow> string \<Rightarrow> local_repo option" where
  "select_by_path repos preferred =
     opt_or (List.find (\<lambda>r. path_components (rp_path r) = path_components preferred \<or>
               path_starts_with preferred (rp_path r) \<or> path_starts_with (rp_path r) preferred) repos)
       (let pref_norm = str_lower (trim_end_slashes preferred) in
        List.find (\<lambda>r. let rp = str_lower (trim_end_slashes (rp_path r)) in
          rp = pref_norm \<or> prefix rp pref_norm \<or> prefix pref_norm rp) repos)"

definition select_preferred ::
  "(string \<Rightarrow> uuid option) \<Rightarrow> local_repo list \<Rightarrow> string \<Rightarrow> local_repo option" where
  "select_preferred parse_uuid repos preferred =
     opt_or (case parse_uuid preferred of None \<Rightarrow> None | Some i \<Rightarrow> List.find (\<lambda>r. rp_id r = i) repos)
       (opt_or (if path_is_absolute preferred \<or> CHR ''/'' \<in> set preferred \<or> CHR 0x5C \<in> set preferred
                then select_by_path repos preferred else None)
          (List.find (\<lambda>r. str_lower (rp_name r) = str_lower preferred \<or>
             str_lower (rp_display_name r) = str_lower preferred) repos))"

definition select_repo_for_task ::
  "(string \<Rightarrow> uuid option) \<Rightarrow> local_repo list \<Rightarrow> string option \<Rightarrow> string option \<Rightarrow> local_repo option" where
  "select_repo_for_task parse_uuid repos preferred_repo_id project_name =
     opt_or (case trim_nonempty preferred_repo_id of None \<Rightarrow> None
             | Some preferred \<Rightarrow> select_preferred parse_uuid repos preferred)
       (opt_or (case project_name of None \<Rightarrow> None
                | Some project \<Rightarrow>
                    (let needle = str_lower project in
                     List.find (\<lambda>r. let n = str_lower (rp_name r); d = str_lower (rp_display_name r) in
                       n = needle \<or> d = needle \<or> str_contains needle n \<or> str_contains needle d \<or>
                       str_contains n needle) repos))
          (List.find (\<lambda>r. let n = str_lower (rp_name r); d = str_lower (rp_display_name r) in
             str_contains ''vibekanban'' n \<or> str_contains ''hyper-vibekanban'' n \<or>
             str_contains ''vibekanban'' d \<or> str_contains ''hyper-vibekanban'' d) repos))"

datatype base_coding_agent =
    ClaudeCode | Amp | Gemini | Antigravity | Codex | Opencode | CursorAgent | QwenCode | Copilot_Agent
  | Droid | Pi | OhMyPi | Grok

definition executor_names :: "(string \<times> base_coding_agent) list" where
  \<comment> \<open>what \<open>EnumString\<close> accepts\<close>
  "executor_names = [(''CLAUDE_CODE'', ClaudeCode), (''AMP'', Amp), (''GEMINI'', Gemini), (''AGY'', Antigravity),
     (''ANTIGRAVITY'', Antigravity), (''CODEX'', Codex), (''OPENCODE'', Opencode), (''CURSOR'', CursorAgent),
     (''CURSOR_AGENT'', CursorAgent), (''QWEN_CODE'', QwenCode), (''COPILOT'', Copilot_Agent), (''DROID'', Droid),
     (''PI'', Pi), (''OMP'', OhMyPi), (''OH_MY_PI'', OhMyPi), (''GROK'', Grok)]"

record resolved_executor =
  re_executor :: base_coding_agent
  re_note :: "string option"

definition resolve_executor :: "string option \<Rightarrow> resolved_executor" where
  "resolve_executor configured =
     (case trim_nonempty configured of
        None \<Rightarrow> \<lparr>re_executor = ClaudeCode, re_note = None\<rparr>
      | Some raw \<Rightarrow>
          (case map_of executor_names raw of
             Some executor \<Rightarrow> \<lparr>re_executor = executor, re_note = None\<rparr>
           | None \<Rightarrow> \<lparr>re_executor = ClaudeCode, re_note = Some (''Requested executor '' @ [CHR 0x27] @ raw @
               [CHR 0x27] @ '' is not recognized on this host; ran CLAUDE_CODE instead.'')\<rparr>))"

section \<open>What the watcher tells the server\<close>

datatype remote_call =
    CallUpdate uuid task_patch
  | CallComment uuid string
  | CallRegisterWorkspace uuid uuid uuid  \<comment> \<open>workspace, project and issue\<close>

definition patch_running :: "uuid option option \<Rightarrow> uuid option option \<Rightarrow> task_patch" where
  "patch_running workspace session = empty_patch\<lparr>tp_status := Some Running,
     tp_local_workspace_id := workspace, tp_local_session_id := session\<rparr>"

definition patch_requeue :: "string \<Rightarrow> task_patch" where
  "patch_requeue reason = empty_patch\<lparr>tp_status := Some agent_task_status.Queued, tp_failure_reason := Some (Some reason),
     tp_local_workspace_id := Some None, tp_local_session_id := Some None, tp_claimed_by_host := Some None\<rparr>"

definition patch_ended :: "agent_task_status \<Rightarrow> string option \<Rightarrow> task_patch" where
  "patch_ended status reason = empty_patch\<lparr>tp_status := Some status, tp_failure_reason := map_option Some reason\<rparr>"

definition fail_pipeline_job :: "agent_task \<Rightarrow> string \<Rightarrow> remote_call list" where
  "fail_pipeline_job task reason =
     [CallUpdate (at_id task) (patch_ended Failed (Some reason)),
      CallComment (at_issue_id task) (''Pipeline job failed: '' @ reason)]"

definition can_retry :: "agent_task \<Rightarrow> bool" where
  "can_retry task = (at_attempt task < at_max_attempts task)"

definition fail_or_requeue :: "agent_task \<Rightarrow> uuid option \<Rightarrow> string \<Rightarrow> string \<Rightarrow> remote_call list" where
  "fail_or_requeue task issue_id agent_name reason =
     (let of_max = show_int (at_attempt task) @ ''/'' @ show_int (at_max_attempts task) in
      if can_retry task
      then CallUpdate (at_id task) (patch_requeue (''retry '' @ of_max @ '': '' @ reason)) #
        (case issue_id of None \<Rightarrow> []
         | Some i \<Rightarrow> [CallComment i (''Agent **'' @ agent_name @ ''** will retry ('' @ of_max @ ''): `'' @ reason @ ''`'')])
      else CallUpdate (at_id task) (patch_ended Failed (Some reason)) #
        (case issue_id of None \<Rightarrow> []
         | Some i \<Rightarrow> [CallComment i (''Agent **'' @ agent_name @ ''** failed to start this task: `'' @ reason @ ''`'')]))"

section \<open>Pipeline jobs\<close>

datatype workspace_kind = Worktree | InPlace | Console

record local_workspace =
  wk_id :: uuid
  wk_branch :: string
  wk_kind :: workspace_kind
  wk_container_ref :: "string option"

definition repo_working_path :: "workspace_kind \<Rightarrow> string \<Rightarrow> string \<Rightarrow> string" where
  "repo_working_path kind workspace_root repo_name =
     (if kind \<in> {InPlace, Console} then workspace_root else path_join workspace_root repo_name)"

definition pipeline_script_timeout :: "string option \<Rightarrow> nat" where
  \<comment> \<open>the environment variable; the result is in seconds\<close>
  "pipeline_script_timeout var =
     (case var of None \<Rightarrow> 30 * 60
      | Some s \<Rightarrow> (case parse_u64 (str_trim s) of
           None \<Rightarrow> 30 * 60 | Some n \<Rightarrow> if 0 < n then n else 30 * 60))"

text \<open>The shell and git are third-party programs: what they do in a round is given.\<close>

datatype script_end =
    SpawnFailed string | WaitFailed string | ScriptTimedOut
  | ScriptExited bool string string string  \<comment> \<open>success, the text of the status, stdout, stderr\<close>

datatype git_end =
    GitDone
  | GitConflicts string string string  \<comment> \<open>the error as text, its message, its files\<close>
  | GitFailed string

datatype git_call =
    RebaseBranch string string string string  \<comment> \<open>repository, worktree, target, branch\<close>
  | MergeChanges string string string string string  \<comment> \<open>repository, worktree, branch, target, message\<close>
  | PushToRemote string string  \<comment> \<open>worktree, branch\<close>

record job_env =
  je_workspace :: "uuid \<Rightarrow> string + local_workspace option"
  je_container :: "string option"  \<comment> \<open>the error of \<open>ensure_container_exists\<close>\<close>
  je_repos :: "string + local_repo list"
  je_script :: "string \<Rightarrow> string \<Rightarrow> script_end"  \<comment> \<open>directory and command\<close>
  je_script_timeout_var :: "string option"
  je_git :: "git_call \<Rightarrow> git_end"

definition run_script_job :: "job_env \<Rightarrow> string \<Rightarrow> string \<Rightarrow> string + string" where
  "run_script_job env worktree_path command =
     (case je_script env worktree_path command of
        SpawnFailed e \<Rightarrow> Inl (''spawn failed: '' @ e)
      | WaitFailed e \<Rightarrow> Inl (''wait failed: '' @ e)
      | ScriptTimedOut \<Rightarrow> Inl (''`$ '' @ command @ ''` timed out after '' @
          show_nat (pipeline_script_timeout (je_script_timeout_var env)) @
          ''s (killed); raise VK_PIPELINE_SCRIPT_TIMEOUT_SECS if the script is legitimately slow'')
      | ScriptExited ok status out err \<Rightarrow>
          (let tail = (\<lambda>s. tail_chars s pipeline_log_tail_chars) in
           if ok then Inr (''`$ '' @ command @ ''` exit 0'' @ nl @ nl @ ''stdout:'' @ nl @ tail out @ nl @ nl @
             ''stderr:'' @ nl @ tail err)
           else Inl (''`$ '' @ command @ ''` failed ('' @ status @ '')'' @ nl @ ''stdout:'' @ nl @ tail out @ nl @
             ''stderr:'' @ nl @ tail err)))"

definition git_result :: "string \<Rightarrow> git_end \<Rightarrow> string \<Rightarrow> string + string" where
  "git_result what r msg =
     (case r of GitDone \<Rightarrow> Inr msg
      | GitConflicts e m files \<Rightarrow>
          (if what = ''rebase'' then Inl (''rebase conflict: '' @ m @ ''; files='' @ files)
           else Inl (what @ '' failed: '' @ e))
      | GitFailed e \<Rightarrow> Inl (what @ '' failed: '' @ e))"

definition run_git_op_job ::
  "job_env \<Rightarrow> local_workspace \<Rightarrow> local_repo \<Rightarrow> string \<Rightarrow> string \<Rightarrow> string \<Rightarrow> string + string" where
  "run_git_op_job env workspace repo worktree_path op target_branch =
     (let branch = wk_branch workspace in
      if op = ''rebase'' then
        git_result op (je_git env (RebaseBranch (rp_path repo) worktree_path target_branch branch))
          (''rebased `'' @ branch @ ''` onto `'' @ target_branch @ ''`'')
      else if op = ''merge'' then
        git_result op (je_git env (MergeChanges (rp_path repo) worktree_path branch target_branch
             (''Merge branch '' @ [CHR 0x27] @ branch @ [CHR 0x27])))
          (''merged `'' @ branch @ ''` into `'' @ target_branch @ ''`'')
      else if op = ''push'' then
        git_result op (je_git env (PushToRemote worktree_path branch)) (''pushed `'' @ branch @ ''`'')
      else if op = ''create_pr'' then
        Inl ''create_pr via pipeline job is not implemented yet; use Ask Merge + manual PR''
      else Inl (''unknown git_op `'' @ op @ ''`''))"

definition job_prepare_workspace ::
  "job_env \<Rightarrow> pipeline_job_spec \<Rightarrow> string \<Rightarrow> string + (local_workspace \<times> local_repo \<times> string)" where
  \<comment> \<open>the checks of \<open>run_pipeline_job\<close>, up to the directory to work in\<close>
  "job_prepare_workspace env job label =
     (case job_local_workspace_id job of
        None \<Rightarrow> Inl (label @ '': no local_workspace_id '' @ utf8 [0xE2, 0x80, 0x94] @
          '' run a coding step first so the issue has a workspace'')
      | Some workspace_id \<Rightarrow>
      (case je_workspace env workspace_id of
        Inl e \<Rightarrow> Inl (label @ '': load workspace: '' @ e)
      | Inr None \<Rightarrow> Inl (label @ '': workspace '' @ show_uuid workspace_id @ '' not found on this host'')
      | Inr (Some workspace) \<Rightarrow>
      (case je_container env of
        Some e \<Rightarrow> Inl (label @ '': ensure container: '' @ e)
      | None \<Rightarrow>
      (case je_repos env of
        Inl e \<Rightarrow> Inl (label @ '': list repos: '' @ e)
      | Inr [] \<Rightarrow> Inl (label @ '': workspace has no repos'')
      | Inr (repo # _) \<Rightarrow>
      (case wk_container_ref workspace of
        None \<Rightarrow> Inl (label @ '': missing container_ref'')
      | Some root \<Rightarrow> Inr (workspace, repo, repo_working_path (wk_kind workspace) root (rp_name repo)))))))"

definition run_pipeline_job :: "job_env \<Rightarrow> agent_task \<Rightarrow> pipeline_job_spec \<Rightarrow> remote_call list" where
  "run_pipeline_job env task job =
     (let label = unwrap_or (job_label job) ''pipeline-job'';
          running = CallUpdate (at_id task) (patch_running (map_option Some (job_local_workspace_id job)) None) in
      case job_prepare_workspace env job label of
        Inl reason \<Rightarrow> running # fail_pipeline_job task reason
      | Inr (workspace, repo, worktree_path) \<Rightarrow>
          (let result =
             (case job_kind job of
                JobScript \<Rightarrow>
                  (let command = str_trim (unwrap_or (job_command job) []) in
                   if command = [] then Inl ''script job missing command''
                   else run_script_job env worktree_path command)
              | JobGitOp \<Rightarrow>
                  run_git_op_job env workspace repo worktree_path (unwrap_or (job_op job) ''rebase'')
                    (unwrap_or (job_target_branch job) (unwrap_or (rp_default_target_branch repo) ''main''))) in
           case result of
             Inr summary \<Rightarrow>
               [running,
                CallUpdate (at_id task) ((patch_ended Completed None)\<lparr>tp_local_workspace_id := Some (Some (wk_id workspace))\<rparr>),
                CallComment (at_issue_id task) (''Pipeline **'' @ label @ ''** completed.'' @ nl @ nl @ summary)]
           | Inl reason \<Rightarrow> running # fail_pipeline_job task (label @ '': '' @ reason)))"

section \<open>Coding agents\<close>

record local_session =
  se_id :: uuid
  se_workspace_id :: uuid
  se_agent_working_dir :: "string option"

record new_workspace =
  nw_id :: uuid
  nw_branch :: string
  nw_name :: string
  nw_repo :: uuid
  nw_target_branch :: string

datatype executor_action =
    FollowUpRequest string string base_coding_agent "string option"  \<comment> \<open>prompt and session of the agent\<close>
  | InitialRequest string base_coding_agent "string option"
  | StartWorkspace new_workspace base_coding_agent string

record watch_env =
  we_agent :: "string + agent"
  we_issue :: "string + issue"
  we_repos :: "string + local_repo list"
  we_project_name :: "string option"
  we_session :: "uuid \<Rightarrow> local_session option"  \<comment> \<open>None for a failed query, too\<close>
  we_workspace :: "uuid \<Rightarrow> local_workspace option"
  we_resume_container :: bool  \<comment> \<open>whether \<open>ensure_container_exists\<close> succeeds\<close>
  we_resume_repos :: "string option"  \<comment> \<open>the error of \<open>find_repos_for_workspace\<close>\<close>
  we_latest_turn :: "uuid \<Rightarrow> string option"
  we_resume_start :: bool
  we_new_workspace :: uuid
  we_create_workspace :: "string option"
  we_attach_repo :: "string option"
  we_start_workspace :: "string + uuid"  \<comment> \<open>the session of the execution\<close>
  we_job :: job_env

text \<open>What is left running: a coding agent whose end is awaited (\<open>wait_and_finalize\<close>).\<close>

record watch_result =
  wr_calls :: "remote_call list"
  wr_waiting :: "(uuid \<times> string) option"  \<comment> \<open>session and name of the agent\<close>
  wr_action :: "executor_action option"

definition ended_with :: "remote_call list \<Rightarrow> watch_result" where
  "ended_with calls = \<lparr>wr_calls = calls, wr_waiting = None, wr_action = None\<rparr>"

definition task_prompt :: "agent_task \<Rightarrow> agent \<Rightarrow> issue \<Rightarrow> string" where
  "task_prompt task ag iss =
     (let prompt = ''You are agent '' @ [CHR 0x22] @ ag_name ag @ [CHR 0x22] @ ''.'' @ nl @ nl @ ag_instructions ag @ nl @ nl @
            ''Work on issue '' @ is_simple_id iss @ '' '' @ utf8 [0xE2, 0x80, 0x94] @ '' '' @ is_title iss @ ''.'' @ nl @ nl @
            unwrap_or (is_description iss) ''(no description)'' in
      case trim_nonempty (at_execution_prompt task) of
        None \<Rightarrow> prompt
      | Some step \<Rightarrow> prompt @ nl @ nl @ ''---'' @ nl @ ''## Pipeline step context'' @ nl @ nl @ step)"

definition resume_target :: "watch_env \<Rightarrow> agent_task \<Rightarrow> (local_session \<times> local_workspace) option" where
  "resume_target env task =
     (if at_force_fresh_session task then None
      else (case at_resume_session_id task of None \<Rightarrow> None
        | Some resume_id \<Rightarrow>
            (case we_session env resume_id of None \<Rightarrow> None
             | Some session \<Rightarrow> map_option (Pair session) (we_workspace env (se_workspace_id session)))))"

definition resume_action :: "watch_env \<Rightarrow> local_session \<Rightarrow> base_coding_agent \<Rightarrow> string \<Rightarrow> executor_action" where
  "resume_action env session executor prompt =
     (let working_dir = (case se_agent_working_dir session of None \<Rightarrow> None
            | Some dir \<Rightarrow> if dir = [] then None else Some dir) in
      case we_latest_turn env (se_id session) of
        Some agent_session \<Rightarrow> FollowUpRequest prompt agent_session executor working_dir
      | None \<Rightarrow> InitialRequest prompt executor working_dir)"

definition new_workspace_for :: "watch_env \<Rightarrow> agent \<Rightarrow> issue \<Rightarrow> local_repo \<Rightarrow> new_workspace" where
  "new_workspace_for env ag iss repo =
     \<lparr>nw_id = we_new_workspace env,
      nw_branch = ''vk/agent-'' @ str_lower (map (\<lambda>c. if c = CHR '' '' then CHR ''-'' else c) (ag_name ag)) @ ''-'' @
        str_lower (is_simple_id iss),
      nw_name = ag_name ag @ '' '' @ utf8 [0xC2, 0xB7] @ '' '' @ is_simple_id iss,
      nw_repo = rp_id repo, nw_target_branch = unwrap_or (rp_default_target_branch repo) ''main''\<rparr>"

definition start_fresh ::
  "watch_env \<Rightarrow> agent_task \<Rightarrow> agent \<Rightarrow> issue \<Rightarrow> local_repo \<Rightarrow> base_coding_agent \<Rightarrow> string \<Rightarrow> remote_call list \<Rightarrow> watch_result" where
  "start_fresh env task ag iss repo executor prompt calls =
     (let fails = (\<lambda>cs reason. ended_with (cs @ fail_or_requeue task (Some (is_id iss)) (ag_name ag) reason));
          workspace = we_new_workspace env;
          running = calls @ [CallRegisterWorkspace workspace (ag_project_id ag) (is_id iss),
            CallUpdate (at_id task) (patch_running (Some (Some workspace)) None)] in
      case we_create_workspace env of
        Some e \<Rightarrow> fails calls (''failed to create workspace: '' @ e)
      | None \<Rightarrow>
      (case we_attach_repo env of
        Some e \<Rightarrow> fails calls (''failed to attach repo: '' @ e)
      | None \<Rightarrow>
      (case we_start_workspace env of
        Inl e \<Rightarrow> fails running (''failed to start workspace: '' @ e)
      | Inr session \<Rightarrow>
          \<lparr>wr_calls = running @ [CallUpdate (at_id task) (patch_running (Some (Some workspace)) (Some (Some session)))],
           wr_waiting = Some (session, ag_name ag), wr_action = Some (StartWorkspace (new_workspace_for env ag iss repo) executor prompt)\<rparr>)))"

definition start_coding_agent ::
  "watch_env \<Rightarrow> agent_task \<Rightarrow> agent \<Rightarrow> issue \<Rightarrow> local_repo \<Rightarrow> base_coding_agent \<Rightarrow> string \<Rightarrow> remote_call list \<Rightarrow> watch_result" where
  "start_coding_agent env task ag iss repo executor prompt calls =
     (case resume_target env task of
        None \<Rightarrow> start_fresh env task ag iss repo executor prompt calls
      | Some (session, workspace) \<Rightarrow>
          (if \<not> we_resume_container env then start_fresh env task ag iss repo executor prompt calls
           else (case we_resume_repos env of
               Some e \<Rightarrow> ended_with (calls @ fail_or_requeue task (Some (is_id iss)) (ag_name ag)
                 (''failed to load workspace repos for resume: '' @ e))
             | None \<Rightarrow>
                 (let calls' = calls @ [CallUpdate (at_id task)
                        (patch_running (Some (Some (wk_id workspace))) (Some (Some (se_id session))))] in
                  if we_resume_start env
                  then \<lparr>wr_calls = calls', wr_waiting = Some (se_id session, ag_name ag),
                        wr_action = Some (resume_action env session executor prompt)\<rparr>
                  else start_fresh env task ag iss repo executor prompt calls'))))"

definition run_claimed ::
  "(string \<Rightarrow> pipeline_job_spec option) \<Rightarrow> (string \<Rightarrow> uuid option) \<Rightarrow> watch_env \<Rightarrow> agent_task \<Rightarrow> watch_result" where
  \<comment> \<open>\<open>claim_and_run_once\<close> behind the claim of a task\<close>
  "run_claimed from_str parse_uuid env task =
     (case (case at_execution_prompt task of None \<Rightarrow> None | Some p \<Rightarrow> job_parse from_str p) of
        Some job \<Rightarrow> ended_with (run_pipeline_job (we_job env) task job)
      | None \<Rightarrow>
      (case we_agent env of
        Inl e \<Rightarrow> ended_with (fail_or_requeue task (Some (at_issue_id task)) ''agent'' (''failed to load agent: '' @ e))
      | Inr ag \<Rightarrow>
      (case we_issue env of
        Inl e \<Rightarrow> ended_with (fail_or_requeue task (Some (at_issue_id task)) (ag_name ag) (''failed to load issue: '' @ e))
      | Inr iss \<Rightarrow>
      (case we_repos env of
        Inl e \<Rightarrow> ended_with (fail_or_requeue task (Some (is_id iss)) (ag_name ag) (''failed to list repos: '' @ e))
      | Inr repos \<Rightarrow>
      (if repos = [] then ended_with (fail_or_requeue task (Some (is_id iss)) (ag_name ag)
           ''no local repos configured; register a repo before assigning agents'')
       else (case opt_or (select_repo_for_task parse_uuid repos (at_preferred_repo_id task)
                    (map_option str_lower (we_project_name env)))
                  (Some (hd repos)) of
          None \<Rightarrow> ended_with (fail_or_requeue task (Some (is_id iss)) (ag_name ag) ''no repo available'')
        | Some repo \<Rightarrow>
            (let resolved = resolve_executor (ag_default_executor ag);
                 calls = (case re_note resolved of None \<Rightarrow> []
                   | Some note \<Rightarrow> [CallUpdate (at_id task) (empty_patch\<lparr>tp_executor_note := Some (Some note)\<rparr>)]) in
             start_coding_agent env task ag iss repo (re_executor resolved) (task_prompt task ag iss) calls)))))))"

section \<open>Waiting for the end\<close>

datatype session_poll = PollFailed | PollProcesses "process_status list"

fun wait_loop :: "nat \<Rightarrow> session_poll list \<Rightarrow> bool option" where
  \<comment> \<open>at most so many polls; whether a process failed, or None after the last poll\<close>
  "wait_loop 0 polls = None"
| "wait_loop (Suc k) [] = None"
| "wait_loop (Suc k) (p # polls) =
     (case p of
        PollFailed \<Rightarrow> wait_loop k polls
      | PollProcesses procs \<Rightarrow>
          (if procs = [] \<or> PsRunning \<in> set procs then wait_loop k polls
           else Some (PsFailed \<in> set procs)))"

definition max_polls :: nat where
  "max_polls = 720"

definition wait_and_finalize ::
  "session_poll list \<Rightarrow> agent_task option \<Rightarrow> uuid \<Rightarrow> uuid \<Rightarrow> string \<Rightarrow> remote_call list" where
  \<comment> \<open>the results of the polls, and of \<open>get_agent_task\<close> when the loop is left\<close>
  "wait_and_finalize polls fetched task_id issue_id agent_name =
     (let retry = (case fetched of None \<Rightarrow> False | Some task \<Rightarrow> can_retry task) in
      case wait_loop max_polls polls of
        Some failed \<Rightarrow>
          (if failed \<and> retry
           then [CallUpdate task_id (patch_requeue ''coding agent execution failed; retrying''),
                 CallComment issue_id (''Agent **'' @ agent_name @ ''** failed and will retry. See linked workspace.'')]
           else [CallUpdate task_id (if failed then patch_ended Failed (Some ''coding agent execution failed'')
                   else patch_ended Completed None),
                 CallComment issue_id (if failed
                   then ''Agent **'' @ agent_name @ ''** finished with failures. See linked workspace session.''
                   else ''Agent **'' @ agent_name @ ''** completed this task. See linked workspace for details.'')])
      | None \<Rightarrow>
          (if retry
           then [CallUpdate task_id (patch_requeue ''timed out waiting for coding agent; retrying''),
                 CallComment issue_id (''Agent **'' @ agent_name @ ''** timed out and will retry. See linked workspace.'')]
           else [CallUpdate task_id (patch_ended Failed (Some ''timed out waiting for coding agent'')),
                 CallComment issue_id (''Agent **'' @ agent_name @ ''** failed: `timed out waiting for coding agent`'')]))"

section \<open>Watchers and the server\<close>

definition perform_call :: "uuid \<Rightarrow> remote_db \<Rightarrow> remote_call \<Rightarrow> remote_db" where
  \<comment> \<open>what a call of the host's user changes in the tasks; an error is ignored\<close>
  "perform_call user db c =
     (case c of
        CallUpdate i p \<Rightarrow> (case update_agent_task db user i p of Inl _ \<Rightarrow> db | Inr (_, db') \<Rightarrow> db')
      | _ \<Rightarrow> db)"

definition perform_calls :: "uuid \<Rightarrow> remote_db \<Rightarrow> remote_call list \<Rightarrow> remote_db" where
  "perform_calls user = foldl (perform_call user)"

record watched_world =
  ww_db :: remote_db
  ww_waiting :: "(uuid \<times> uuid \<times> string) list"  \<comment> \<open>task, issue and agent of each waiting coding agent\<close>

datatype watch_event =
    ClaimAndRun string watch_env
  | AgentDone nat "session_poll list"  \<comment> \<open>which of the waiting, and what its polls return\<close>

fun watch_step ::
  "(string \<Rightarrow> pipeline_job_spec option) \<Rightarrow> (string \<Rightarrow> uuid option) \<Rightarrow> uuid \<Rightarrow> watched_world \<Rightarrow> watch_event \<Rightarrow>
   watched_world" where
  "watch_step from_str parse_uuid user w (ClaimAndRun host env) =
     (case claim_agent_task (ww_db w) user host of
        Inl _ \<Rightarrow> w
      | Inr (None, db) \<Rightarrow> w\<lparr>ww_db := db\<rparr>
      | Inr (Some task, db) \<Rightarrow>
          (let r = run_claimed from_str parse_uuid env task in
           \<lparr>ww_db = perform_calls user db (wr_calls r),
            ww_waiting = ww_waiting w @ (case wr_waiting r of None \<Rightarrow> []
              | Some (_, name) \<Rightarrow> [(at_id task, at_issue_id task, name)])\<rparr>))"
| "watch_step from_str parse_uuid user w (AgentDone k polls) =
     (if k < length (ww_waiting w) then
        (case ww_waiting w ! k of (task_id, issue_id, name) \<Rightarrow>
           (let fetched = (case get_agent_task (ww_db w) user task_id of Inl _ \<Rightarrow> None | Inr t \<Rightarrow> Some t) in
            \<lparr>ww_db = perform_calls user (ww_db w) (wait_and_finalize polls fetched task_id issue_id name),
             ww_waiting = take k (ww_waiting w) @ drop (Suc k) (ww_waiting w)\<rparr>))
      else w)"

end
