(* ===== verification/Task_Watcher_Props.thy ===== *)
theory Task_Watcher_Props
  imports Task_Watcher Agent_Task_Routes_Props
begin

text \<open>
  What the local task watcher guarantees: a claimed task does not get lost between the watcher and
  the server, and retrying stops at the attempt budget.
\<close>

section \<open>What an update leaves as it was\<close>

lemma review_inv:
  assumes "queue_inv db" shows "queue_inv (maybe_enqueue_review_task db t)"
  using assms
  by (auto simp: maybe_enqueue_review_task_def split: option.splits sum.splits intro: enqueue_inv)

lemma update_agent_task_inv:
  assumes inv: "queue_inv db" and upd: "update_agent_task db user i p = Inr (t, db')"
  shows "queue_inv db'"
  using upd
proof (cases rule: update_agent_task_cases)
  case (quiet old)
  then show ?thesis using task_update_inv [OF inv] by blast
next
  case (ended old db1)
  have "queue_inv (notify_agent_task_terminal db1 t)"
    by (rule queue_inv_tasks [OF task_update_inv [OF inv ended(2)]
          same_but_inbox_tables(1) [OF notify_terminal(1) [OF ended(3)]]])
  then show ?thesis unfolding ended(5) by (rule review_inv)
qed

text \<open>The tables that the access check reads.\<close>

definition same_access :: "remote_db \<Rightarrow> remote_db \<Rightarrow> bool" where
  "same_access db db' = (db_issues db' = db_issues db \<and> db_projects db' = db_projects db \<and>
     db_org_members db' = db_org_members db)"

lemma ensure_issue_access_cong:
  "same_access db db' \<Longrightarrow> ensure_issue_access db' user i = ensure_issue_access db user i"
proof -
  assume "same_access db db'"
  then have "issue_find db' = issue_find db" "project_find db' = project_find db" "is_member db' = is_member db"
    by (simp_all add: same_access_def issue_find_def project_find_def is_member_def fun_eq_iff)
  then show ?thesis
    by (simp add: ensure_issue_access_def issue_organization_id_def cong: option.case_cong)
qed

lemma same_access_trans: "same_access a b \<Longrightarrow> same_access b c \<Longrightarrow> same_access a c"
  by (simp add: same_access_def)

lemma same_access_inbox: "same_but_inbox db db' \<Longrightarrow> same_access db db'"
  by (cases db; cases db') (simp add: same_but_inbox_def same_access_def)

lemma same_access_tables: "same_tables db db' \<Longrightarrow> same_access db db'"
  by (simp add: same_tables_def same_access_def)

lemma review_access: "same_access db (maybe_enqueue_review_task db t)"
proof -
  have "same_access db db" by (simp add: same_access_def)
  then show ?thesis
    by (auto simp: maybe_enqueue_review_task_def split: option.splits sum.splits
        dest!: enqueue_tables same_access_tables)
qed

lemma update_agent_task_access:
  assumes "update_agent_task db user i p = Inr (t, db')"
  shows "same_access db db'"
  using assms
proof (cases rule: update_agent_task_cases)
  case (quiet old)
  then show ?thesis
    using task_update_Inr(3) [OF quiet(2)] load_task_Inr [OF quiet(1)] by (simp add: same_access_def)
next
  case (ended old db1)
  have "same_access db db1"
    using task_update_Inr(3) [OF ended(2)] load_task_Inr [OF ended(1)] by (simp add: same_access_def)
  then show ?thesis
    unfolding ended(5)
    by (rule same_access_trans [OF same_access_trans [OF _ same_access_inbox [OF notify_terminal(1) [OF ended(3)]]]
          review_access])
qed

lemma update_agent_task_find:
  assumes "update_agent_task db user i p = Inr (t, db')" "task_find db j \<noteq> None"
  shows "task_find db' j = (if j = i then Some t else task_find db j)"
  using assms(1)
proof (cases rule: update_agent_task_cases)
  case (quiet old)
  then show ?thesis using task_update_Inr(2) [OF quiet(2)] load_task_Inr [OF quiet(1)] by simp
next
  case (ended old db1)
  then show ?thesis
    using update_ended(1) [OF ended(2) _ ended(3) assms(2)] load_task_Inr [OF ended(1)] by blast
qed

lemma update_agent_task_row:
  assumes "update_agent_task db user i p = Inr (t, db')"
  shows "\<exists>old. task_find db i = Some old \<and> t = apply_patch (db_now db) p old"
  using assms
  by (cases rule: update_agent_task_cases) (auto dest!: load_task_Inr dest: task_update_Inr(1))

section \<open>Updates of an active row\<close>

lemma distinct_map_filter_sub:
  "distinct (map k (filter P xs)) \<Longrightarrow> (\<And>x. x \<in> set xs \<Longrightarrow> Q x \<Longrightarrow> P x) \<Longrightarrow> distinct (map k (filter Q xs))"
proof (induction xs)
  case (Cons a xs)
  then show ?case by (cases "P a"; cases "Q a") auto
qed simp

lemma filter_map_update:
  "filter P (map f xs) = map f (filter (\<lambda>x. P (f x)) xs)"
  by (induction xs) auto

lemma active_unique_patch:
  assumes inv: "queue_inv db" and row: "task_find db i = Some r" "task_active r"
  shows "active_unique (tbl_update at_id i (apply_patch now p) (db_tasks db))"
proof -
  let ?f = "\<lambda>t. if at_id t = i then apply_patch now p t else t"
  have "active_solo (?f x) \<Longrightarrow> active_solo x" if x: "x \<in> set (db_tasks db)" for x
  proof -
    assume a: "active_solo (?f x)"
    have "r \<in> set (db_tasks db)" "at_id r = i" using row(1) by (auto simp: task_find_def dest: tbl_find_Some)
    then have "at_id x = i \<Longrightarrow> x = r" using queue_inv_same_row [OF inv, of r x] x by simp
    then show "active_solo x" using a row(2) by (cases "at_id x = i") (simp_all add: active_solo_def apply_patch_def)
  qed
  then have "distinct (map (\<lambda>t. (at_agent_id t, at_issue_id t)) (filter (\<lambda>x. active_solo (?f x)) (db_tasks db)))"
    using inv unfolding queue_inv_def active_unique_def
    by (blast intro: distinct_map_filter_sub [of _ active_solo])
  moreover have "map (\<lambda>t. (at_agent_id t, at_issue_id t)) (filter active_solo (map ?f (db_tasks db)))
      = map (\<lambda>t. (at_agent_id t, at_issue_id t)) (filter (\<lambda>x. active_solo (?f x)) (db_tasks db))"
    by (simp add: filter_map_update apply_patch_def)
  ultimately show ?thesis by (simp add: active_unique_def tbl_update_def)
qed

text \<open>A row that the user may write and that no update can be refused for.\<close>

definition live_row :: "remote_db \<Rightarrow> uuid \<Rightarrow> uuid \<Rightarrow> agent_task \<Rightarrow> bool" where
  "live_row db user i r =
     (queue_inv db \<and> task_find db i = Some r \<and> task_active r \<and>
      (\<exists>org. ensure_issue_access db user (at_issue_id r) = Inr org))"

lemma update_live_row:
  assumes live: "live_row db user i r"
  obtains db' now where "perform_call user db (CallUpdate i p) = db'"
    "task_find db' i = Some (apply_patch now p r)"
    "task_active (apply_patch now p r) \<Longrightarrow> live_row db' user i (apply_patch now p r)"
proof -
  let ?t = "apply_patch (db_now db) p r"
  from live obtain org where l: "queue_inv db" "task_find db i = Some r" "task_active r"
    "ensure_issue_access db user (at_issue_id r) = Inr org"
    by (auto simp: live_row_def)
  have load: "load_task db user i = Inr r" using l by (simp add: load_task_def)
  obtain db1 where "task_update db i p = Inr (?t, db1)"
    using l(2) active_unique_patch [OF l(1-3), of "db_now db" p]
    by (simp add: task_update_def Let_def patch_table.find_update task_find_def)
  then obtain db' where upd: "update_agent_task db user i p = Inr (?t, db')"
    using update_agent_task_returns [OF load] by blast
  have "task_find db' i = Some ?t" using update_agent_task_find [OF upd, of i] l(2) by simp
  moreover have "at_issue_id ?t = at_issue_id r" by (simp add: apply_patch_def)
  then have "task_active ?t \<Longrightarrow> live_row db' user i ?t"
    using calculation update_agent_task_inv [OF l(1) upd]
      ensure_issue_access_cong [OF update_agent_task_access [OF upd]] l(4)
    by (simp add: live_row_def)
  ultimately show ?thesis using that [of db' "db_now db"] upd by (simp add: perform_call_def)
qed

section \<open>The calls of one round\<close>

definition keeps_active :: "agent_task \<Rightarrow> remote_call \<Rightarrow> bool" where
  "keeps_active task c =
     (case c of CallUpdate i p \<Rightarrow> i = at_id task \<and> tp_status p \<in> {None, Some Running} \<and> tp_attempt p = None | _ \<Rightarrow> True)"

definition tells_only :: "remote_call \<Rightarrow> bool" where
  "tells_only c = (case c of CallUpdate i p \<Rightarrow> False | _ \<Rightarrow> True)"

definition settling :: "agent_task \<Rightarrow> (uuid \<times> string) option \<Rightarrow> task_patch \<Rightarrow> bool" where
  \<comment> \<open>the last update of a round\<close>
  "settling task waiting p = (tp_attempt p = None \<and>
     (case waiting of
        Some (session, _) \<Rightarrow> tp_status p = Some Running \<and> tp_local_session_id p = Some (Some session)
      | None \<Rightarrow> (tp_status p = Some Failed \<and> (\<exists>reason. tp_failure_reason p = Some (Some reason))) \<or>
          tp_status p = Some Completed \<or>
          (tp_status p = Some agent_task_status.Queued \<and> can_retry task \<and> tp_claimed_by_host p = Some None \<and>
           tp_local_session_id p = Some None)))"

definition settles :: "agent_task \<Rightarrow> watch_result \<Rightarrow> bool" where
  "settles task r =
     (\<exists>pre p post. wr_calls r = pre @ CallUpdate (at_id task) p # post \<and>
        list_all (keeps_active task) pre \<and> list_all tells_only post \<and> settling task (wr_waiting r) p)"

lemma patch_fields [simp]:
  "tp_status empty_patch = None" "tp_status (patch_running w s) = Some Running"
  "tp_local_session_id (patch_running w s) = s"
  "tp_status (patch_requeue e) = Some agent_task_status.Queued"
  "tp_claimed_by_host (patch_requeue e) = Some None" "tp_local_session_id (patch_requeue e) = Some None"
  "tp_status (patch_ended st f) = Some st" "tp_failure_reason (patch_ended st f) = map_option Some f"
  "tp_attempt empty_patch = None" "tp_attempt (patch_running w s) = None"
  "tp_attempt (patch_requeue e) = None" "tp_attempt (patch_ended st f) = None"
  by (simp_all add: empty_patch_def patch_running_def patch_requeue_def patch_ended_def)

lemma settlesI:
  "list_all (keeps_active task) pre \<Longrightarrow> list_all tells_only post \<Longrightarrow> settling task waiting p \<Longrightarrow>
   settles task \<lparr>wr_calls = pre @ CallUpdate (at_id task) p # post, wr_waiting = waiting, wr_action = a\<rparr>"
  by (auto simp: settles_def)

lemma fail_or_requeue_settles:
  assumes "list_all (keeps_active task) pre"
  shows "settles task (ended_with (pre @ fail_or_requeue task iss name reason))"
  unfolding ended_with_def fail_or_requeue_def Let_def
  using assms by (auto intro!: settlesI simp: tells_only_def settling_def split: option.splits)

lemma fail_pipeline_job_settles:
  assumes "list_all (keeps_active task) pre"
  shows "settles task (ended_with (pre @ fail_pipeline_job task reason))"
  unfolding ended_with_def fail_pipeline_job_def
  using assms by (auto intro!: settlesI simp: tells_only_def settling_def)

lemma run_pipeline_job_settles: "settles task (ended_with (run_pipeline_job env task job))"
proof -
  let ?c = "CallUpdate (at_id task) (patch_running (map_option Some (job_local_workspace_id job)) None)"
  have pre: "list_all (keeps_active task) [?c]" by (simp add: keeps_active_def)
  have ends: "settles task (ended_with [?c, CallUpdate (at_id task)
      ((patch_ended Completed None)\<lparr>tp_local_workspace_id := w\<rparr>), CallComment i m])" for w i m
    using settlesI [OF pre, of "[CallComment i m]" None "(patch_ended Completed None)\<lparr>tp_local_workspace_id := w\<rparr>"]
    by (simp add: ended_with_def tells_only_def settling_def)
  show ?thesis
    unfolding run_pipeline_job_def Let_def
    using fail_pipeline_job_settles [OF pre] ends by (simp split: sum.splits prod.splits)
qed

lemma start_fresh_settles:
  assumes "list_all (keeps_active task) calls"
  shows "settles task (start_fresh env task ag iss repo executor prompt calls)"
proof -
  let ?w = "we_new_workspace env"
  let ?r = "calls @ [CallRegisterWorkspace ?w (ag_project_id ag) (is_id iss),
    CallUpdate (at_id task) (patch_running (Some (Some ?w)) None)]"
  have r: "list_all (keeps_active task) ?r" using assms by (simp add: keeps_active_def)
  have "settles task \<lparr>wr_calls = ?r @ [CallUpdate (at_id task) (patch_running (Some (Some ?w)) (Some (Some s)))],
      wr_waiting = Some (s, n), wr_action = a\<rparr>" for s n a
    by (rule settlesI [OF r]) (simp_all add: settling_def)
  then show ?thesis
    unfolding start_fresh_def Let_def
    using fail_or_requeue_settles [OF r] fail_or_requeue_settles [OF assms]
    by (simp split: option.splits sum.splits)
qed

lemma start_coding_agent_settles:
  assumes "list_all (keeps_active task) calls"
  shows "settles task (start_coding_agent env task ag iss repo executor prompt calls)"
proof -
  let ?u = "\<lambda>w s. CallUpdate (at_id task) (patch_running (Some (Some w)) (Some (Some s)))"
  have r: "list_all (keeps_active task) (calls @ [?u w s])" for w s
    using assms by (simp add: keeps_active_def)
  have "settles task \<lparr>wr_calls = calls @ [?u w s], wr_waiting = Some (s, n), wr_action = a\<rparr>" for w s n a
    by (rule settlesI [OF assms]) (simp_all add: settling_def)
  then show ?thesis
    unfolding start_coding_agent_def Let_def
    using start_fresh_settles [OF assms] start_fresh_settles [OF r] fail_or_requeue_settles [OF assms]
    by (simp split: option.splits prod.splits)
qed

lemma run_claimed_settles: "settles task (run_claimed from_str parse_uuid env task)"
proof -
  have fails: "settles task (ended_with (fail_or_requeue task iss name reason))" for iss name reason
    using fail_or_requeue_settles [of task "[]"] by simp
  have "list_all (keeps_active task) []"
    "list_all (keeps_active task) [CallUpdate (at_id task) (empty_patch\<lparr>tp_executor_note := n\<rparr>)]" for n
    by (simp_all add: keeps_active_def)
  note starts = this [THEN start_coding_agent_settles]
  show ?thesis
    unfolding run_claimed_def Let_def
    using fails run_pipeline_job_settles starts by (auto split: option.split sum.split)
qed

section \<open>The row after a round\<close>

lemma perform_quiet [simp]: "tells_only c \<Longrightarrow> perform_call user db c = db"
  by (auto simp: perform_call_def tells_only_def split: remote_call.splits)

lemma perform_quiets: "list_all tells_only cs \<Longrightarrow> perform_calls user db cs = db"
  by (induction cs) (simp_all add: perform_calls_def)

definition same_budget :: "agent_task \<Rightarrow> agent_task \<Rightarrow> bool" where
  "same_budget t r = (at_attempt r = at_attempt t \<and> at_max_attempts r = at_max_attempts t)"

lemma same_budget_patch [simp]:
  "tp_attempt p = None \<Longrightarrow> same_budget t (apply_patch now p r) = same_budget t r"
  by (simp add: same_budget_def apply_patch_def unwrap_or_def)

lemma same_budget_retry: "same_budget t r \<Longrightarrow> can_retry r = can_retry t"
  by (simp add: same_budget_def can_retry_def)

lemma keeps_active_live:
  assumes "keeps_active task c" "live_row db user (at_id task) r" "same_budget task r"
  shows "\<exists>r'. live_row (perform_call user db c) user (at_id task) r' \<and> same_budget task r'"
proof (cases c)
  case (CallUpdate i p)
  then have p: "i = at_id task" "tp_status p \<in> {None, Some Running}" "tp_attempt p = None"
    using assms(1) by (simp_all add: keeps_active_def)
  have act: "task_active (apply_patch now p r)" for now
    using p(2) assms(2) by (auto simp: live_row_def task_active_def apply_patch_def unwrap_or_def)
  show ?thesis
    using update_live_row [OF assms(2), of p] act assms(3) p(1,3) CallUpdate
    by (metis same_budget_patch)
qed (use assms in \<open>auto simp: tells_only_def\<close>)

lemma prefix_live:
  "list_all (keeps_active task) cs \<Longrightarrow> live_row db user (at_id task) r \<Longrightarrow> same_budget task r \<Longrightarrow>
   \<exists>r'. live_row (perform_calls user db cs) user (at_id task) r' \<and> same_budget task r'"
proof (induction cs arbitrary: db r)
  case (Cons c cs)
  then show ?case using keeps_active_live [of task c db user r] by (fastforce simp: perform_calls_def)
qed (auto simp: perform_calls_def)

definition settled :: "agent_task \<Rightarrow> (uuid \<times> string) option \<Rightarrow> agent_task \<Rightarrow> bool" where
  \<comment> \<open>the row of a task after the round that claimed it\<close>
  "settled task waiting r =
     (case waiting of
        Some (session, _) \<Rightarrow> at_status r = Running \<and> at_local_session_id r = Some session
      | None \<Rightarrow> (at_status r = Failed \<and> at_failure_reason r \<noteq> None) \<or> at_status r = Completed \<or>
          (at_status r = agent_task_status.Queued \<and> at_attempt r < at_max_attempts r \<and>
           at_claimed_by_host r = None \<and> at_local_session_id r = None))"

lemma settling_patch:
  assumes "settling task waiting p" "same_budget task r"
  shows "settled task waiting (apply_patch now p r)"
proof -
  have row: "at_status (apply_patch now p r) = unwrap_or (tp_status p) (at_status r)"
    "at_failure_reason (apply_patch now p r) = patch_field (tp_failure_reason p) (at_failure_reason r)"
    "at_local_session_id (apply_patch now p r) = patch_field (tp_local_session_id p) (at_local_session_id r)"
    "at_claimed_by_host (apply_patch now p r) = patch_field (tp_claimed_by_host p) (at_claimed_by_host r)"
    "at_attempt (apply_patch now p r) = unwrap_or (tp_attempt p) (at_attempt r)"
    "at_max_attempts (apply_patch now p r) = at_max_attempts r"
    by (simp_all add: apply_patch_def)
  show ?thesis
    using assms unfolding settling_def settled_def row
    by (auto simp: unwrap_or_def patch_field_def same_budget_def can_retry_def split: option.splits)
qed

lemma settles_row:
  assumes "settles task w" "live_row db user (at_id task) r" "same_budget task r"
  shows "\<exists>r'. task_find (perform_calls user db (wr_calls w)) (at_id task) = Some r' \<and>
    settled task (wr_waiting w) r' \<and> same_budget task r'"
proof -
  obtain pre p post where w: "wr_calls w = pre @ CallUpdate (at_id task) p # post"
    "list_all (keeps_active task) pre" "list_all tells_only post" "settling task (wr_waiting w) p"
    using assms(1) by (auto simp: settles_def)
  obtain r1 where r1: "live_row (perform_calls user db pre) user (at_id task) r1" "same_budget task r1"
    using prefix_live [OF w(2) assms(2,3)] by blast
  obtain db' now where "perform_call user (perform_calls user db pre) (CallUpdate (at_id task) p) = db'"
    "task_find db' (at_id task) = Some (apply_patch now p r1)"
    using update_live_row [OF r1(1), of p] by metis
  moreover have "perform_calls user db (wr_calls w) =
      perform_call user (perform_calls user db pre) (CallUpdate (at_id task) p)"
    using perform_quiets [OF w(3)] by (simp add: w(1) perform_calls_def)
  moreover have "tp_attempt p = None" using w(4) by (simp add: settling_def)
  ultimately show ?thesis using settling_patch [OF w(4) r1(2)] r1(2) by auto
qed

lemma claimed_live:
  assumes inv: "queue_inv db" and claim: "claim_agent_task db user host = Inr (Some task, db')"
    and member: "ensure_issue_access db user (at_issue_id task) = Inr org"
  shows "live_row db' user (at_id task) task"
proof -
  obtain t where sel: "claim_select db [] = Some t" and db': "db' = claim_commit db host (at_id t)"
    and find: "task_find db' (at_id t) = Some task"
    using claim by (auto simp: claim_agent_task_def claim_next_def Let_def split: if_splits option.splits)
  have t: "t \<in> set (db_tasks db)" "at_status t = agent_task_status.Queued"
    using claim_select_Some [OF sel] by (auto simp: claimable_def)
  have "task_find db (at_id t) = Some t"
    using inv t(1) tbl_find_in_set [of at_id "db_tasks db" t] by (simp add: task_find_def queue_inv_def)
  then have task: "task = claim_row db host t"
    using find by (simp add: db' claim_commit_def task_find_def claim_table.find_update)
  have "queue_inv db'" using claim_commit_inv [OF inv t] db' by simp
  moreover have "same_access db db'" by (simp add: db' claim_commit_def same_access_def)
  then have "ensure_issue_access db' user (at_issue_id task) = Inr org"
    using member ensure_issue_access_cong by metis
  ultimately show ?thesis using find task by (simp add: live_row_def task_active_def)
qed

section \<open>The attempt budget\<close>

definition attempt_ok :: "agent_task \<Rightarrow> bool" where
  "attempt_ok r = (at_attempt r \<le> at_max_attempts r \<and>
     (at_status r = agent_task_status.Queued \<longrightarrow> at_attempt r < at_max_attempts r))"

definition budget_inv :: "remote_db \<Rightarrow> bool" where
  "budget_inv db = (queue_inv db \<and> list_all attempt_ok (db_tasks db))"

lemma enqueue_budget:
  assumes "budget_inv db" "enqueue db i a iss tr pr fr sq ld rp pm rv = Inr (t, db')"
  shows "budget_inv db'"
proof -
  have "list_all attempt_ok (db_tasks db')"
    using assms by (auto simp: budget_inv_def enqueue_def Let_def attempt_ok_def insert_task_def
        split: option.splits sum.splits if_splits)
  then show ?thesis using assms enqueue_inv by (auto simp: budget_inv_def)
qed

lemma claim_budget:
  assumes inv: "budget_inv db" shows "budget_inv (snd (claim_next db host))"
proof (cases "claim_select db []")
  case None
  then show ?thesis using inv by (simp add: claim_next_def)
next
  case (Some t)
  note sel = claim_select_Some [OF Some]
  have q: "queue_inv db" using inv by (simp add: budget_inv_def)
  have "attempt_ok (claim_row db host t)"
    using inv sel(1,2) by (auto simp: budget_inv_def list_all_iff attempt_ok_def claimable_def)
  then have "list_all attempt_ok (tbl_update at_id (at_id t) (claim_row db host) (db_tasks db))"
    using inv queue_inv_same_row [OF q sel(1)]
    by (auto simp: budget_inv_def list_all_iff set_tbl_update)
  then show ?thesis
    using claim_next_inv [OF q, of host] by (simp add: budget_inv_def claim_next_def Some Let_def claim_commit_def)
qed

lemma patch_budget:
  assumes inv: "budget_inv db" and row: "task_find db i = Some r"
    and p: "tp_attempt p = None" "tp_status p = Some agent_task_status.Queued \<Longrightarrow> can_retry r"
  shows "list_all attempt_ok (tbl_update at_id i (apply_patch now p) (db_tasks db))"
proof -
  have r: "r \<in> set (db_tasks db)" "at_id r = i" using row by (auto simp: task_find_def dest: tbl_find_Some)
  have "attempt_ok (apply_patch now p r)"
    using inv r(1) p
    by (cases "tp_status p") (auto simp: budget_inv_def list_all_iff attempt_ok_def apply_patch_def unwrap_or_def can_retry_def)
  moreover have "x \<in> set (db_tasks db) \<Longrightarrow> at_id x = i \<Longrightarrow> x = r" for x
    using inv queue_inv_same_row [of db r x] r by (auto simp: budget_inv_def)
  ultimately show ?thesis using inv by (auto simp: budget_inv_def list_all_iff set_tbl_update)
qed

lemma review_budget: "budget_inv db \<Longrightarrow> budget_inv (maybe_enqueue_review_task db t)"
  by (auto simp: maybe_enqueue_review_task_def split: option.splits sum.splits intro: enqueue_budget)

lemma update_budget:
  assumes inv: "budget_inv db" and upd: "update_agent_task db user i p = Inr (t, db')"
    and p: "tp_attempt p = None" "\<And>r. tp_status p = Some agent_task_status.Queued \<Longrightarrow> task_find db i = Some r \<Longrightarrow> can_retry r"
  shows "budget_inv db'"
  using upd
proof (cases rule: update_agent_task_cases)
  case (quiet old)
  have "task_find db i = Some old" using load_task_Inr [OF quiet(1)] by blast
  then show ?thesis
    using patch_budget [OF inv, of i old p "db_now db"] p task_update_Inr(3) [OF quiet(2)]
      task_update_inv [OF _ quiet(2)] inv by (simp add: budget_inv_def)
next
  case (ended old db1)
  have "task_find db i = Some old" using load_task_Inr [OF ended(1)] by blast
  then have "budget_inv db1"
    using patch_budget [OF inv, of i old p "db_now db"] p task_update_Inr(3) [OF ended(2)]
      task_update_inv [OF _ ended(2)] inv by (simp add: budget_inv_def)
  then have "budget_inv (notify_agent_task_terminal db1 t)"
    using same_but_inbox_tables(1) [OF notify_terminal(1) [OF ended(3), of db1]]
    by (simp add: budget_inv_def queue_inv_def)
  then show ?thesis unfolding ended(5) by (rule review_budget)
qed

definition call_ok :: "uuid \<Rightarrow> bool \<Rightarrow> remote_call \<Rightarrow> bool" where
  "call_ok i retry c =
     (case c of CallUpdate k p \<Rightarrow> k = i \<and> tp_attempt p = None \<and>
        (tp_status p = Some agent_task_status.Queued \<longrightarrow> retry) | _ \<Rightarrow> True)"

lemma update_keeps_budget_of_row:
  "update_agent_task db user i p = Inr (t, db') \<Longrightarrow> tp_attempt p = None \<Longrightarrow> task_find db j = Some r \<Longrightarrow>
   \<exists>r'. task_find db' j = Some r' \<and> same_budget r r'"
  using update_agent_task_find [of db user i p t db' j] update_agent_task_row [of db user i p t db']
  by (auto simp: same_budget_def apply_patch_def unwrap_or_def)

lemma calls_budget:
  "list_all (call_ok i retry) calls \<Longrightarrow> budget_inv db \<Longrightarrow>
   (retry \<Longrightarrow> \<exists>r. task_find db i = Some r \<and> can_retry r) \<Longrightarrow> budget_inv (perform_calls user db calls)"
proof (induction calls arbitrary: db)
  case (Cons c calls)
  have "budget_inv (perform_call user db c) \<and>
    (retry \<longrightarrow> (\<exists>r. task_find (perform_call user db c) i = Some r \<and> can_retry r))"
  proof (cases c)
    case (CallUpdate k p)
    then have p: "k = i" "tp_attempt p = None" "tp_status p = Some agent_task_status.Queued \<longrightarrow> retry"
      using Cons.prems(1) by (simp_all add: call_ok_def)
    show ?thesis
    proof (cases "update_agent_task db user k p")
      case (Inl e)
      then show ?thesis using Cons.prems CallUpdate by (simp add: perform_call_def)
    next
      case (Inr x)
      obtain t db' where upd: "update_agent_task db user i p = Inr (t, db')" using Inr p(1) by (cases x) auto
      have "budget_inv db'"
        using Cons.prems(3) p(3) by (intro update_budget [OF Cons.prems(2) upd p(2)]) auto
      moreover have "retry \<Longrightarrow> \<exists>r. task_find db' i = Some r \<and> can_retry r"
        using Cons.prems(3) update_keeps_budget_of_row [OF upd p(2), of i] same_budget_retry by metis
      ultimately show ?thesis using upd p(1) CallUpdate by (simp add: perform_call_def)
    qed
  qed (use Cons.prems in \<open>simp_all add: perform_call_def\<close>)
  then show ?case using Cons by (simp add: perform_calls_def)
qed (simp add: perform_calls_def)

lemma settles_calls_ok:
  assumes "settles task w" shows "list_all (call_ok (at_id task) (can_retry task)) (wr_calls w)"
proof -
  obtain pre p post where w: "wr_calls w = pre @ CallUpdate (at_id task) p # post"
    "list_all (keeps_active task) pre" "list_all tells_only post" "settling task (wr_waiting w) p"
    using assms by (auto simp: settles_def)
  have "list_all (call_ok (at_id task) (can_retry task)) pre"
    using w(2) by (rule list.pred_mono_strong) (auto simp: keeps_active_def call_ok_def split: remote_call.splits)
  moreover have "list_all (call_ok (at_id task) (can_retry task)) post"
    using w(3) by (rule list.pred_mono_strong) (auto simp: tells_only_def call_ok_def split: remote_call.splits)
  moreover have "call_ok (at_id task) (can_retry task) (CallUpdate (at_id task) p)"
    using w(4) by (auto simp: settling_def call_ok_def split: option.splits)
  ultimately show ?thesis by (simp add: w(1))
qed

lemma wait_calls_ok:
  "list_all (call_ok i (case fetched of None \<Rightarrow> False | Some t \<Rightarrow> can_retry t)) (wait_and_finalize polls fetched i iss name)"
  unfolding wait_and_finalize_def Let_def
  by (auto simp: call_ok_def split: option.splits)

lemma claim_find:
  assumes "claim_agent_task db user host = Inr (Some task, db')"
  shows "task_find db' (at_id task) = Some task"
proof -
  obtain i where i: "task_find db' i = Some task"
    using assms by (auto simp: claim_agent_task_def claim_next_def Let_def split: if_splits option.splits)
  then have "at_id task = i" by (auto simp: task_find_def dest: tbl_find_Some)
  then show ?thesis using i by simp
qed

lemma watch_step_budget:
  assumes inv: "budget_inv (ww_db w)"
  shows "budget_inv (ww_db (watch_step from_str parse_uuid user w ev))"
proof (cases ev)
  case (ClaimAndRun host env)
  show ?thesis
  proof (cases "claim_agent_task (ww_db w) user host")
    case (Inl e)
    then show ?thesis using inv ClaimAndRun by simp
  next
    case (Inr x)
    obtain t db where x: "x = (t, db)" by (cases x)
    have db: "budget_inv db"
      using claim_budget [OF inv, of host] Inr x by (simp add: claim_agent_task_def split: if_splits)
    show ?thesis
    proof (cases t)
      case None
      then show ?thesis using db Inr x ClaimAndRun by simp
    next
      case (Some task)
      have "task_find db (at_id task) = Some task" using claim_find Inr x Some by blast
      then have "budget_inv (perform_calls user db (wr_calls (run_claimed from_str parse_uuid env task)))"
        by (intro calls_budget [OF settles_calls_ok [OF run_claimed_settles] db]) auto
      then show ?thesis using Inr x Some ClaimAndRun by (simp add: Let_def)
    qed
  qed
next
  case (AgentDone k polls)
  have row: "get_agent_task (ww_db w) user i = Inr t \<Longrightarrow> task_find (ww_db w) i = Some t" for i t
    using load_task_Inr by (simp add: get_agent_task_def)
  have "budget_inv (perform_calls user (ww_db w) (wait_and_finalize polls
      (case get_agent_task (ww_db w) user i of Inl _ \<Rightarrow> None | Inr t \<Rightarrow> Some t) i iss name))" for i iss name
    by (rule calls_budget [OF wait_calls_ok inv]) (auto split: sum.splits dest: row)
  then show ?thesis using inv AgentDone by (simp add: Let_def split: prod.split)
qed

datatype board_event = Watcher uuid watch_event | Client route_op

fun board_step ::
  "(string \<Rightarrow> pipeline_job_spec option) \<Rightarrow> (string \<Rightarrow> uuid option) \<Rightarrow> watched_world \<Rightarrow> board_event \<Rightarrow> watched_world" where
  "board_step from_str parse_uuid w (Watcher user ev) = watch_step from_str parse_uuid user w ev"
| "board_step from_str parse_uuid w (Client op) = w\<lparr>ww_db := route_step (ww_db w) op\<rparr>"

fun leaves_budget :: "board_event \<Rightarrow> bool" where
  \<comment> \<open>a client neither sets the attempts of a task nor queues it again\<close>
  "leaves_budget (Client (PatchTask u i p)) =
     (tp_attempt p = None \<and> tp_status p \<noteq> Some agent_task_status.Queued)"
| "leaves_budget _ = True"

lemma board_step_budget:
  assumes inv: "budget_inv (ww_db w)" and ok: "leaves_budget ev"
  shows "budget_inv (ww_db (board_step from_str parse_uuid w ev))"
proof (cases ev)
  case (Watcher user wev)
  then show ?thesis using watch_step_budget [OF inv] by simp
next
  case (Client op)
  have "budget_inv (route_step (ww_db w) op)"
  proof (cases op)
    case (PostTask u q)
    then show ?thesis
      using inv by (auto simp: create_agent_task_def split: sum.splits option.splits intro: enqueue_budget)
  next
    case (PostClaim u h)
    then show ?thesis
      using inv claim_budget [OF inv, of h] by (auto simp: claim_agent_task_def split: prod.splits)
  next
    case (PatchTask u i p)
    then show ?thesis using inv ok Client by (auto split: sum.splits intro: update_budget)
  next
    case (DeleteTask u i)
    have "list_all attempt_ok (db_tasks (task_delete (ww_db w) i))"
      using inv by (auto simp: budget_inv_def list_all_iff task_delete_def set_tbl_delete
          unlink_review_def attempt_ok_def)
    then have "budget_inv (task_delete (ww_db w) i)" using inv task_delete_inv by (simp add: budget_inv_def)
    then show ?thesis using inv DeleteTask by (simp add: delete_agent_task_def split: sum.splits)
  qed
  then show ?thesis using Client by simp
qed

section \<open>Properties\<close>

definition job_env0 :: job_env where
  "job_env0 = \<lparr>je_workspace = (\<lambda>_. Inr None), je_container = None, je_repos = Inr [],
     je_script = (\<lambda>_ _. ScriptTimedOut), je_script_timeout_var = None, je_git = (\<lambda>_. GitDone)\<rparr>"

definition watch_env0 :: watch_env where
  \<comment> \<open>a host with one repository, where every start succeeds\<close>
  "watch_env0 = \<lparr>we_agent = Inr author_agent, we_issue = Inr scen_issue,
     we_repos = Inr [\<lparr>rp_id = 50, rp_path = ''/src/web'', rp_name = ''web'', rp_display_name = ''Web'',
       rp_default_target_branch = None\<rparr>],
     we_project_name = Some ''web'', we_session = (\<lambda>_. None), we_workspace = (\<lambda>_. None),
     we_resume_container = True, we_resume_repos = None, we_latest_turn = (\<lambda>_. None), we_resume_start = True,
     we_new_workspace = 60, we_create_workspace = None, we_attach_repo = None, we_start_workspace = Inr 70,
     we_job = job_env0\<rparr>"

definition watch_world :: watched_world where
  "watch_world = \<lparr>ww_db = review_db [new_task 0 20 1 2 Manual 0 False None False None None None], ww_waiting = []\<rparr>"



lemma wait_settles:
  assumes "at_id r = i"
  shows "settles r \<lparr>wr_calls = wait_and_finalize polls (Some r) i iss name, wr_waiting = None, wr_action = None\<rparr>"
proof -
  have "settles r \<lparr>wr_calls = [CallUpdate i p, CallComment iss m], wr_waiting = None, wr_action = None\<rparr>"
    if "settling r None p" for p m
    using settlesI [of r "[]" "[CallComment iss m]" None p None] that assms by (simp add: tells_only_def)
  then show ?thesis
    unfolding wait_and_finalize_def Let_def
    by (auto simp: settling_def split: option.split)
qed





text \<open>a session ends the wait with its processes: when the processes of an awaited session have
  ended, one killed by the user counts as success, so the task of a stopped agent is
  reported as completed.\<close>

theorem killed_counts_as_completed:
  "wait_and_finalize (PollProcesses [PsKilled] # polls) fetched task_id issue_id name =
     [CallUpdate task_id (patch_ended Completed None),
      CallComment issue_id (''Agent **'' @ name @ ''** completed this task. See linked workspace for details.'')]"
  by (simp add: wait_and_finalize_def max_polls_def numeral_eq_Suc)

text \<open>a session ends the wait with all its processes: a process that failed earlier counts, too, so
  a task that resumes a session with such a process is reported as failed although its own
  run completed.\<close>

theorem old_failure_fails_resume:
  "wait_and_finalize (PollProcesses [PsFailed, PsCompleted] # polls) None task_id issue_id name =
     [CallUpdate task_id (patch_ended Failed (Some ''coding agent execution failed'')),
      CallComment issue_id (''Agent **'' @ name @ ''** finished with failures. See linked workspace session.'')]"
  by (simp add: wait_and_finalize_def max_polls_def numeral_eq_Suc)

text \<open>whoever may not write the issue strands the task: a claim needs no membership, but every
  report of the round does, so a task claimed by an outsider's host stays as the claim
  left it, dispatched to that host.\<close>

theorem outsider_strands_task:
  assumes claim: "claim_agent_task (ww_db w) user host = Inr (Some task, db)"
    and outsider: "ensure_issue_access db user (at_issue_id task) = Inl e"
  shows "ww_db (watch_step from_str parse_uuid user w (ClaimAndRun host env)) = db \<and>
    task_find db (at_id task) = Some task \<and> at_status task = Dispatched"
proof -
  have find: "task_find db (at_id task) = Some task" by (rule claim_find [OF claim])
  have idle: "perform_call user db (CallUpdate (at_id task) p) = db" for p
    using find outsider by (simp add: perform_call_def update_agent_task_def load_task_def)
  have "perform_calls user db cs = db" if "list_all (call_ok (at_id task) b) cs" for cs b
    using that
  proof (induction cs)
    case (Cons c cs)
    then show ?case using idle by (cases c) (simp_all add: perform_calls_def perform_call_def call_ok_def)
  qed (simp add: perform_calls_def)
  then have "perform_calls user db (wr_calls (run_claimed from_str parse_uuid env task)) = db"
    using settles_calls_ok [OF run_claimed_settles] by blast
  moreover have "at_status task = Dispatched"
    using claim by (auto simp: claim_agent_task_def claim_next_def claim_commit_def Let_def task_find_def
        claim_table.find_update split: if_splits option.splits)
  ultimately show ?thesis using claim find by (simp add: Let_def)
qed

end
