(* ===== verification/Session_Queue_Props.thy ===== *)
theory Session_Queue_Props
  imports Session_Queue "HOL-Library.Multiset"
begin

text \<open>
  The table of queued follow-ups behaves like one list of messages per session. The positions
  of a session are 0, 1, ..., n - 1 after every operation, so reading by position gives the
  list, and the renumbering of a removal and of a reorder is not visible. The specification
  is \<open>spec_step\<close> on lists; the routes and the consumer refine it, and the locale
  \<open>fifo\<close> says what the consumer may rely on.
\<close>

section \<open>Reading by position\<close>

definition dense :: "queued_row list \<Rightarrow> bool" where
  "dense L = (map qr_position L = map int [0..<length L])"

abbreviation of_session :: "uuid \<Rightarrow> queued_row list \<Rightarrow> queued_row list" where
  "of_session s rows \<equiv> filter (\<lambda>r. qr_session_id r = s) rows"

lemma mset_session_rows: "mset (session_rows s rows) = mset (of_session s rows)"
  by (simp add: session_rows_def)

lemma set_session_rows [simp]: "set (session_rows s rows) = {r \<in> set rows. qr_session_id r = s}"
  by (simp add: session_rows_def)

lemma session_rows_eqI:
  assumes "mset L = mset (of_session s rows)" "dense L"
  shows "session_rows s rows = L"
proof -
  have "distinct (map qr_position L)" using assms(2) by (simp add: dense_def distinct_map)
  then have "inj_on qr_position (set (sort_key qr_queued_at (of_session s rows)))"
    using mset_eq_setD [OF assms(1)] by (simp add: distinct_map)
  moreover have "sorted (map qr_position L)"
    using assms(2) by (simp add: dense_def sorted_map sorted_wrt_mono_rel [OF _ sorted_upt])
  ultimately show ?thesis
    unfolding session_rows_def using assms(1) by (intro sort_key_inj_key_eq) simp_all
qed

lemma dense_snoc: "dense L \<Longrightarrow> qr_position r = int (length L) \<Longrightarrow> dense (L @ [r])"
  by (simp add: dense_def)

lemma dense_map: "dense L \<Longrightarrow> (\<And>r. qr_position (f r) = qr_position r) \<Longrightarrow> dense (map f L)"
  by (simp add: dense_def comp_def)

lemma session_rows_map:
  assumes "dense (session_rows s rows)"
    and "\<And>r. qr_position (f r) = qr_position r" "\<And>r. qr_session_id (f r) = qr_session_id r"
  shows "session_rows s (map f rows) = map f (session_rows s rows)"
proof (rule session_rows_eqI)
  have "mset (map f (session_rows s rows)) = image_mset f (mset (of_session s rows))"
    by (simp only: mset_map mset_session_rows)
  then show "mset (map f (session_rows s rows)) = mset (of_session s (map f rows))"
    by (simp add: filter_map comp_def assms(3))
qed (use assms dense_map in blast)

lemma session_rows_filter: "session_rows s (filter P rows) = filter P (session_rows s rows)"
  by (simp add: session_rows_def filter_sort conj_commute)

section \<open>Renumbering\<close>

definition ids_position :: "uuid list \<Rightarrow> queued_row \<Rightarrow> queued_row" where
  "ids_position ids r = r\<lparr>qr_position := int (length (takeWhile (\<lambda>i. i \<noteq> qr_id r) ids))\<rparr>"

lemma ids_position_simps [simp]:
  "qr_id (ids_position ids r) = qr_id r" "qr_session_id (ids_position ids r) = qr_session_id r"
  "message_of_row dec (ids_position ids r) = message_of_row dec r"
  "qr_executor_config (ids_position ids r) = qr_executor_config r"
  by (simp_all add: ids_position_def message_of_row_def split: option.split)

lemma set_positions_eq:
  assumes "distinct ids" "\<And>r p. P (r\<lparr>qr_position := p\<rparr>) = P r"
  shows "set_positions P ids rows = map (\<lambda>r. if qr_id r \<in> set ids \<and> P r then ids_position ids r else r) rows"
  using assms(1)
proof (induction ids rule: rev_induct)
  case Nil
  show ?case by (simp add: set_positions_def)
next
  case (snoc i ids)
  have *: "set_positions P (ids @ [i]) rows
      = map (\<lambda>r. if qr_id r = i \<and> P r then r\<lparr>qr_position := int (length ids)\<rparr> else r) (set_positions P ids rows)"
    by (simp add: set_positions_def enumerate_append_eq)
  have "takeWhile (\<lambda>j. j \<noteq> i) ids = ids" using snoc.prems by (auto simp: takeWhile_eq_all_conv)
  then show ?case
    using snoc unfolding *
    by (auto simp: assms(2) ids_position_def takeWhile_append1 intro!: map_cong [OF refl])
qed

lemma dense_ids_position:
  assumes "distinct (map qr_id L)"
  shows "dense (map (ids_position (map qr_id L)) L)"
proof -
  have "map (\<lambda>i. length (takeWhile (\<lambda>j. j \<noteq> i) ids)) ids = [0..<length ids]" if "distinct ids" for ids :: "uuid list"
    using that
  proof (induction ids rule: rev_induct)
    case (snoc i ids)
    have "takeWhile (\<lambda>j. j \<noteq> i) ids = ids" using snoc.prems by (auto simp: takeWhile_eq_all_conv)
    moreover have "map (\<lambda>k. length (takeWhile (\<lambda>j. j \<noteq> k) (ids @ [i]))) ids
        = map (\<lambda>k. length (takeWhile (\<lambda>j. j \<noteq> k) ids)) ids"
      by (auto simp: takeWhile_append1)
    ultimately show ?case using snoc by (simp del: map_eq_conv)
  qed simp
  from this [OF assms] have "map int (map (\<lambda>i. length (takeWhile (\<lambda>j. j \<noteq> i) (map qr_id L))) (map qr_id L))
      = map int [0..<length L]" by simp
  then show ?thesis by (simp add: dense_def ids_position_def comp_def)
qed

lemma session_rows_positions:
  assumes keys: "distinct (map qr_id rows)" and L: "mset L = mset (of_session s rows)"
    and P: "\<And>r p. P (r\<lparr>qr_position := p\<rparr>) = P r" "\<And>r. qr_session_id r = s \<Longrightarrow> P r"
  shows "session_rows s (set_positions P (map qr_id L) rows) = map (ids_position (map qr_id L)) L" (is ?own)
    "t \<noteq> s \<Longrightarrow> of_session t (set_positions P (map qr_id L) rows) = of_session t rows"
    "map qr_id (set_positions P (map qr_id L) rows) = map qr_id rows"
proof -
  let ?ids = "map qr_id L"
  let ?f = "\<lambda>r. if qr_id r \<in> set ?ids \<and> P r then ids_position ?ids r else r"
  have set_L: "set L = {r \<in> set rows. qr_session_id r = s}" using mset_eq_setD [OF L] by simp
  have "mset ?ids = image_mset qr_id (mset (of_session s rows))" using L by simp
  then have "distinct ?ids"
    using keys by (metis mset_map distinct_map_filter mset_eq_imp_distinct_iff)
  note eq = set_positions_eq [OF this P(1)]
  have own: "?f r = ids_position ?ids r" if "r \<in> set rows" "qr_session_id r = s" for r
    using that P(2) set_L by auto
  have other: "?f r = r" if "r \<in> set rows" "qr_session_id r \<noteq> s" for r
  proof -
    have "qr_id r \<noteq> qr_id r'" if "r' \<in> set L" for r'
      using that keys set_L \<open>r \<in> set rows\<close> \<open>qr_session_id r \<noteq> s\<close> by (auto simp: distinct_map inj_on_def)
    then show ?thesis by auto
  qed
  have fs: "qr_session_id (?f r) = qr_session_id r" for r by simp
  show ?own
  proof (rule session_rows_eqI)
    have "of_session s (map ?f rows) = map ?f (of_session s rows)"
      by (simp only: filter_map comp_def fs)
    also have "\<dots> = map (ids_position ?ids) (of_session s rows)" using own by auto
    finally show "mset (map (ids_position ?ids) L) = mset (of_session s (set_positions P ?ids rows))"
      unfolding eq using L by simp
    show "dense (map (ids_position ?ids) L)" using \<open>distinct ?ids\<close> by (rule dense_ids_position)
  qed
  show "of_session t (set_positions P ?ids rows) = of_session t rows" if "t \<noteq> s"
  proof -
    have "of_session t (map ?f rows) = map ?f (of_session t rows)" by (simp only: filter_map comp_def fs)
    also have "\<dots> = map id (of_session t rows)" using other that by (intro map_cong) auto
    finally show ?thesis unfolding eq by simp
  qed
  show "map qr_id (set_positions P ?ids rows) = map qr_id rows" unfolding eq by simp
qed


section \<open>The invariant of the table\<close>

definition queue_ok :: "(string \<Rightarrow> 'c option) \<Rightarrow> queue_db \<Rightarrow> bool" where
  "queue_ok dec db =
     (tbl_keys_ok qr_id (qd_rows db) \<and>
      (\<forall>r \<in> set (qd_rows db). qr_id r < qd_next_uuid db \<and> qr_session_id r \<in> set (qd_sessions db) \<and>
         dec (qr_executor_config r) \<noteq> None) \<and>
      (\<forall>s. dense (session_rows s (qd_rows db))))"

definition message_of :: "(string \<Rightarrow> 'c option) \<Rightarrow> queued_row \<Rightarrow> 'c queued_message" where
  "message_of dec r = projr (message_of_row dec r)"

lemma message_of_row: "dec (qr_executor_config r) \<noteq> None \<Longrightarrow> message_of_row dec r = Inr (message_of dec r)"
  by (auto simp: message_of_def message_of_row_def)

lemma qm_message_of: "dec (qr_executor_config r) \<noteq> None \<Longrightarrow> qm_id (message_of dec r) = qr_id r"
  "dec (qr_executor_config r) \<noteq> None \<Longrightarrow> qm_session_id (message_of dec r) = qr_session_id r"
  by (auto simp: message_of_def message_of_row_def)

definition messages :: "(string \<Rightarrow> 'c option) \<Rightarrow> queue_db \<Rightarrow> uuid \<Rightarrow> 'c queued_message list" where
  "messages dec db s = map (message_of dec) (session_rows s (qd_rows db))"

lemma collect_results_Inr: "collect_results (map (\<lambda>x. Inr (f x)) xs) = Inr (map f xs)"
  by (induction xs) auto

lemma list_by_session_ok: "queue_ok dec db \<Longrightarrow> list_by_session dec db s = Inr (messages dec db s)"
proof -
  assume ok: "queue_ok dec db"
  have "map (message_of_row dec) (session_rows s (qd_rows db))
      = map (\<lambda>r. Inr (message_of dec r)) (session_rows s (qd_rows db))"
    using ok by (auto simp: queue_ok_def intro: message_of_row)
  then show ?thesis by (simp only: list_by_session_def messages_def collect_results_Inr)
qed

lemma ids_of_messages: "queue_ok dec db \<Longrightarrow> map qm_id (messages dec db s) = map qr_id (session_rows s (qd_rows db))"
  by (auto simp: messages_def queue_ok_def qm_message_of)

lemma distinct_session_ids: "queue_ok dec db \<Longrightarrow> distinct (map qr_id (session_rows s (qd_rows db)))"
proof -
  assume "queue_ok dec db"
  then have "distinct (map qr_id (of_session s (qd_rows db)))"
    by (simp add: queue_ok_def tbl_keys_ok_def distinct_map_filter)
  then show ?thesis by (metis mset_map mset_session_rows mset_eq_imp_distinct_iff)
qed

text \<open>Replacing the rows by others of the same kind keeps the invariant.\<close>

lemma queue_ok_rows:
  assumes "queue_ok dec db" "tbl_keys_ok qr_id rows" "\<And>s. dense (session_rows s rows)"
    and "\<And>r. r \<in> set rows \<Longrightarrow> \<exists>r' \<in> set (qd_rows db). qr_id r = qr_id r' \<and> qr_session_id r = qr_session_id r' \<and>
      dec (qr_executor_config r) \<noteq> None"
  shows "queue_ok dec (db\<lparr>qd_rows := rows\<rparr>)"
proof -
  have "qr_id r < qd_next_uuid db \<and> qr_session_id r \<in> set (qd_sessions db) \<and> dec (qr_executor_config r) \<noteq> None"
    if "r \<in> set rows" for r
  proof -
    from assms(4) [OF that] obtain r' where "r' \<in> set (qd_rows db)" "qr_id r = qr_id r'"
      "qr_session_id r = qr_session_id r'" "dec (qr_executor_config r) \<noteq> None" by blast
    then show ?thesis using assms(1) by (simp add: queue_ok_def)
  qed
  then show ?thesis using assms(2,3) by (simp add: queue_ok_def)
qed

section \<open>Every operation on the lists\<close>

subsection \<open>Enqueue\<close>

lemma next_position_ok: "dense (session_rows s rows) \<Longrightarrow> next_position s rows = int (length (session_rows s rows))"
proof -
  assume d: "dense (session_rows s rows)"
  let ?L = "session_rows s rows" and ?ps = "map qr_position (of_session s rows)"
  have set: "set ?ps = int ` {0..<length ?L}"
    using d by (metis dense_def image_set list.set_map mset_map mset_session_rows set_mset_mset set_upt)
  have "length ?ps = length ?L" by (simp add: session_rows_def)
  show ?thesis
  proof (cases ?ps)
    case Nil
    then show ?thesis using \<open>length ?ps = length ?L\<close> by (simp add: next_position_def)
  next
    case (Cons p ps)
    then have "fold max ps p = Max (set ?ps)" by (metis Max.set_eq_fold)
    also have "\<dots> = int (length ?L) - 1"
      unfolding set using Cons \<open>length ?ps = length ?L\<close> by (intro Max_eqI) (auto simp: image_iff Bex_def intro: exI [of _ "length ?L - 1"])
    finally show ?thesis using Cons by (simp add: next_position_def)
  qed
qed

lemma enqueue_ok:
  fixes data :: "'c draft_follow_up"
  assumes ok: "queue_ok dec db" and dec: "\<And>c. dec (enc c) = Some c" and s: "s \<in> set (qd_sessions db)"
  defines "m \<equiv> \<lparr>qm_id = qd_next_uuid db, qm_session_id = s, qm_data = data, qm_queued_at = qd_now db\<rparr>"
  shows "fst (queue_enqueue enc dec db s data) = Inr m"
    "queue_ok dec (snd (queue_enqueue enc dec db s data))"
    "messages dec (snd (queue_enqueue enc dec db s data)) = (messages dec db)(s := messages dec db s @ [m])"
proof -
  let ?rows = "qd_rows db"
  define r where "r = \<lparr>qr_id = qd_next_uuid db, qr_session_id = s, qr_position = next_position s ?rows,
    qr_message = df_message data, qr_executor_config = enc (df_executor_config data), qr_queued_at = qd_now db\<rparr>"
  have d: "dense (session_rows t ?rows)" for t using ok by (simp add: queue_ok_def)
  have rm: "message_of_row dec r = Inr m" by (simp add: r_def m_def message_of_row_def dec)
  have eq: "queue_enqueue enc dec db s data = (Inr m, db\<lparr>qd_rows := ?rows @ [r], qd_next_uuid := Suc (qd_next_uuid db)\<rparr>)"
    using s rm by (simp add: queue_enqueue_def Let_def r_def)
  have ds: "dense (session_rows s ?rows @ [r])"
    using d by (intro dense_snoc) (simp_all add: r_def next_position_ok)
  have own: "session_rows s (?rows @ [r]) = session_rows s ?rows @ [r]"
    using ds by (intro session_rows_eqI) (simp_all add: mset_session_rows r_def)
  have other: "session_rows t (?rows @ [r]) = session_rows t ?rows" if "t \<noteq> s" for t
    using that by (simp add: session_rows_def r_def)
  show "fst (queue_enqueue enc dec db s data) = Inr m" by (simp add: eq)
  have "dense (session_rows t (?rows @ [r]))" for t using ds d own other by (cases "t = s") simp_all
  moreover have "tbl_keys_ok qr_id (?rows @ [r])"
    using ok by (force simp: queue_ok_def tbl_keys_ok_def r_def)
  ultimately show "queue_ok dec (snd (queue_enqueue enc dec db s data))"
    using ok s by (auto simp: eq queue_ok_def r_def dec less_Suc_eq)
  show "messages dec (snd (queue_enqueue enc dec db s data)) = (messages dec db)(s := messages dec db s @ [m])"
    using own other rm by (auto simp: eq messages_def message_of_def)
qed


subsection \<open>Removing rows\<close>

lemma compact_ok:
  assumes ok: "queue_ok dec db" and rows: "rows = filter P (qd_rows db)"
    and other: "\<And>t. t \<noteq> s \<Longrightarrow> session_rows t rows = session_rows t (qd_rows db)"
  defines "db' \<equiv> db\<lparr>qd_rows := compact_positions s rows\<rparr>"
  shows "queue_ok dec db'"
    "messages dec db' = (messages dec db)(s := map (message_of dec) (filter P (session_rows s (qd_rows db))))"
proof -
  let ?L = "session_rows s rows"
  have keys: "distinct (map qr_id rows)"
    using ok rows by (simp add: queue_ok_def tbl_keys_ok_def distinct_map_filter)
  note pos = session_rows_positions [OF keys mset_session_rows, of "\<lambda>_. True" s, simplified,
      folded compact_positions_def]
  have dist: "distinct (map qr_id ?L)"
    using keys by (metis distinct_map_filter mset_map mset_session_rows mset_eq_imp_distinct_iff)
  have own: "session_rows s (compact_positions s rows) = map (ids_position (map qr_id ?L)) ?L" by (rule pos(1))
  have others: "session_rows t (compact_positions s rows) = session_rows t (qd_rows db)" if "t \<noteq> s" for t
    using pos(2) [OF that] other [OF that] by (simp add: session_rows_def)
  have L: "?L = filter P (session_rows s (qd_rows db))" unfolding rows by (rule session_rows_filter)
  have eq: "set_positions (\<lambda>_. True) (map qr_id ?L) rows
      = map (\<lambda>r. if qr_id r \<in> set (map qr_id ?L) then ids_position (map qr_id ?L) r else r) rows"
    using set_positions_eq [OF dist, of "\<lambda>_. True"] by simp
  have kept: "\<exists>r' \<in> set (qd_rows db). qr_id r = qr_id r' \<and> qr_session_id r = qr_session_id r' \<and>
      dec (qr_executor_config r) \<noteq> None" if "r \<in> set (compact_positions s rows)" for r
  proof -
    have "r \<in> (\<lambda>r. if qr_id r \<in> set (map qr_id ?L) then ids_position (map qr_id ?L) r else r) ` set rows"
      using that eq by (simp only: compact_positions_def set_map)
    then obtain r0 where "r0 \<in> set rows" "r = (if qr_id r0 \<in> set (map qr_id ?L) then ids_position (map qr_id ?L) r0 else r0)"
      by blast
    then show ?thesis using ok rows by (intro bexI [of _ r0]) (auto simp: queue_ok_def)
  qed
  have "dense (session_rows t (compact_positions s rows))" for t
    using own others dense_ids_position [OF dist] ok by (cases "t = s") (simp_all add: queue_ok_def)
  then show "queue_ok dec db'"
    unfolding db'_def using ok pos(3) keys kept by (intro queue_ok_rows) (simp_all add: tbl_keys_ok_def)
  have "message_of dec (ids_position ids r) = message_of dec r" for ids r by (simp add: message_of_def)
  then show "messages dec db' = (messages dec db)(s := map (message_of dec) (filter P (session_rows s (qd_rows db))))"
    using own others by (auto simp: db'_def messages_def L)
qed

lemma session_rows_delete_other:
  assumes "queue_ok dec db" "queued_find db i = Some r" "qr_session_id r = s" "t \<noteq> s"
  shows "session_rows t (tbl_delete qr_id i (qd_rows db)) = session_rows t (qd_rows db)"
proof -
  have "r' = r" if "r' \<in> set (qd_rows db)" "qr_id r' = i" for r'
    using assms(1,2) that tbl_find_in_set [of qr_id "qd_rows db" r'] by (auto simp: queue_ok_def queued_find_def)
  then have "\<forall>r' \<in> set (session_rows t (qd_rows db)). qr_id r' \<noteq> i" using assms(3,4) by auto
  then show ?thesis by (simp add: tbl_delete_def session_rows_filter filter_id_conv)
qed

lemma delete_ok:
  assumes ok: "queue_ok dec db" and i: "queued_find db i = Some r" "qr_session_id r = s"
  defines "db' \<equiv> db\<lparr>qd_rows := compact_positions s (tbl_delete qr_id i (qd_rows db))\<rparr>"
  shows "queue_ok dec db'" "messages dec db' = (messages dec db)(s := filter (\<lambda>m. qm_id m \<noteq> i) (messages dec db s))"
proof -
  note c = compact_ok [where P = "\<lambda>r. qr_id r \<noteq> i", OF ok tbl_delete_def session_rows_delete_other [OF ok i]]
  show "queue_ok dec db'" unfolding db'_def by (rule c(1))
  have "qm_id (message_of dec r) = qr_id r" if "r \<in> set (session_rows s (qd_rows db))" for r
    using that ok by (intro qm_message_of) (auto simp: queue_ok_def)
  then have "filter (\<lambda>m. qm_id m \<noteq> i) (messages dec db s)
      = map (message_of dec) (filter (\<lambda>r. qr_id r \<noteq> i) (session_rows s (qd_rows db)))"
    unfolding messages_def filter_map comp_def by (intro arg_cong [where f = "map _"] filter_cong) auto
  then show "messages dec db' = (messages dec db)(s := filter (\<lambda>m. qm_id m \<noteq> i) (messages dec db s))"
    unfolding db'_def by (simp add: c(2))
qed

lemma clear_ok:
  assumes "queue_ok dec db"
  shows "queue_ok dec (queue_clear db s)" "messages dec (queue_clear db s) = (messages dec db)(s := [])"
proof -
  have own: "session_rows s (filter (\<lambda>r. qr_session_id r \<noteq> s) (qd_rows db)) = []"
    by (simp add: session_rows_filter filter_empty_conv)
  have other: "session_rows t (filter (\<lambda>r. qr_session_id r \<noteq> s) (qd_rows db)) = session_rows t (qd_rows db)"
    if "t \<noteq> s" for t using that by (simp add: session_rows_filter filter_id_conv)
  have "dense (session_rows t (filter (\<lambda>r. qr_session_id r \<noteq> s) (qd_rows db)))" for t
    using own other assms by (cases "t = s") (simp_all add: queue_ok_def dense_def)
  then show "queue_ok dec (queue_clear db s)"
    unfolding queue_clear_def using assms
    by (intro queue_ok_rows) (auto simp: queue_ok_def tbl_keys_ok_def distinct_map_filter)
  show "messages dec (queue_clear db s) = (messages dec db)(s := [])"
    using own other by (auto simp: messages_def queue_clear_def)
qed

subsection \<open>Update and reorder\<close>

lemma update_ok:
  fixes data :: "'c draft_follow_up"
  assumes ok: "queue_ok dec db" and dec: "\<And>c. dec (enc c) = Some c"
    and i: "queued_find db i = Some r" "qr_session_id r = s"
  defines "upd \<equiv> \<lambda>m. if qm_id m = i then m\<lparr>qm_data := data\<rparr> else m"
  shows "queue_guard dec db s i = None" "isl (fst (queue_update enc dec db s i data)) = False"
    "queue_ok dec (snd (queue_update enc dec db s i data))"
    "messages dec (snd (queue_update enc dec db s i data)) = (messages dec db)(s := map upd (messages dec db s))"
proof -
  let ?f = "\<lambda>r. if qr_id r = i then r\<lparr>qr_message := df_message data, qr_executor_config := enc (df_executor_config data)\<rparr> else r"
  let ?rows = "map ?f (qd_rows db)"
  have r: "r \<in> set (qd_rows db)" "qr_id r = i" using i by (auto simp: queued_find_def dest: tbl_find_Some)
  have dec_r: "dec (qr_executor_config r) \<noteq> None" if "r \<in> set (qd_rows db)" for r using ok that by (simp add: queue_ok_def)
  show g: "queue_guard dec db s i = None"
    using i dec_r [OF r(1)] message_of_row [of dec r] qm_message_of(2) [of dec r] by (simp add: queue_guard_def)
  have uniq: "r' = r" if "r' \<in> set (qd_rows db)" "qr_id r' = i" for r'
    using ok i that tbl_find_in_set [of qr_id "qd_rows db" r'] by (auto simp: queue_ok_def queued_find_def)
  have same: "map qr_id ?rows = map qr_id (qd_rows db)" by simp
  have "i \<in> set (map qr_id ?rows)" unfolding same using r by auto
  then have "tbl_find qr_id i ?rows \<noteq> None" by (simp only: tbl_find_None set_map not_not not_False_eq_True)
  then obtain r' where r': "tbl_find qr_id i ?rows = Some r'" by blast
  note r'_in = conjunct1 [OF tbl_find_Some [OF r']] and r'_id = conjunct2 [OF tbl_find_Some [OF r']]
  from r'_in obtain r0 where "r0 \<in> set (qd_rows db)" "r' = ?f r0" unfolding set_map by blast
  then have "dec (qr_executor_config r') \<noteq> None" using r'_id by (cases "qr_id r0 = i") (simp_all add: dec)
  with r' g message_of_row [of dec r'] have eq: "queue_update enc dec db s i data = (Inr (message_of dec r'), db\<lparr>qd_rows := ?rows\<rparr>)"
    by (simp add: queue_update_def queued_find_def tbl_update_def Let_def)
  show "isl (fst (queue_update enc dec db s i data)) = False" by (simp add: eq)
  have rows: "session_rows t ?rows = map ?f (session_rows t (qd_rows db))" for t
    using ok by (intro session_rows_map) (simp_all add: queue_ok_def)
  have "dense (map ?f (session_rows t (qd_rows db)))" for t using ok by (intro dense_map) (simp_all add: queue_ok_def)
  moreover have "tbl_keys_ok qr_id ?rows"
    unfolding tbl_keys_ok_def same using ok by (simp add: queue_ok_def tbl_keys_ok_def)
  moreover have "\<exists>r' \<in> set (qd_rows db). qr_id x = qr_id r' \<and> qr_session_id x = qr_session_id r' \<and>
      dec (qr_executor_config x) \<noteq> None" if "x \<in> set ?rows" for x
  proof -
    from that obtain r0 where "r0 \<in> set (qd_rows db)" "x = ?f r0" unfolding set_map by blast
    then show ?thesis using dec_r [of r0] by (intro bexI [of _ r0]) (simp_all add: dec)
  qed
  ultimately show "queue_ok dec (snd (queue_update enc dec db s i data))"
    unfolding eq snd_conv by (intro queue_ok_rows [OF ok]) (simp_all only: rows)
  have other: "map ?f (session_rows t (qd_rows db)) = session_rows t (qd_rows db)" if "t \<noteq> s" for t
    using uniq i that by (intro map_idI) auto
  have "message_of dec (?f r) = upd (message_of dec r)" if "r \<in> set (qd_rows db)" for r
    using dec_r [OF that] by (auto simp: message_of_def message_of_row_def upd_def dec)
  then have "map (message_of dec) (map ?f (session_rows s (qd_rows db))) = map upd (messages dec db s)"
    by (auto simp: messages_def)
  then show "messages dec (snd (queue_update enc dec db s i data)) = (messages dec db)(s := map upd (messages dec db s))"
    using other by (auto simp: eq messages_def rows simp del: map_map)
qed

lemma permuted_lookup:
  assumes "distinct (map key X)" "mset (map key X) = mset ids"
  shows "mset (map (\<lambda>i. the (tbl_find key i X)) ids) = mset X"
    "map key (map (\<lambda>i. the (tbl_find key i X)) ids) = ids"
proof -
  have "the (tbl_find key (key x) X) = x" if "x \<in> set X" for x
    using assms(1) that by (simp add: tbl_keys_ok_def tbl_find_in_set)
  then have X: "map (\<lambda>i. the (tbl_find key i X)) (map key X) = X" by (simp add: map_idI)
  have "mset (map (\<lambda>i. the (tbl_find key i X)) ids) = image_mset (\<lambda>i. the (tbl_find key i X)) (mset (map key X))"
    unfolding assms(2) by simp
  also have "\<dots> = mset X" using X by (metis mset_map)
  finally show "mset (map (\<lambda>i. the (tbl_find key i X)) ids) = mset X" .
  have "key (the (tbl_find key i X)) = i" if "i \<in> set ids" for i
  proof -
    have "i \<in> key ` set X" using that mset_eq_setD [OF assms(2)] by simp
    then obtain r where "tbl_find key i X = Some r" by (metis tbl_find_None option.exhaust)
    then show ?thesis using tbl_find_Some by fastforce
  qed
  then show "map key (map (\<lambda>i. the (tbl_find key i X)) ids) = ids" by (simp add: map_idI)
qed

lemma reorder_ok:
  assumes ok: "queue_ok dec db" and ids: "mset (map qm_id (messages dec db s)) = mset ids"
  defines "db' \<equiv> db\<lparr>qd_rows := set_positions (\<lambda>r. qr_session_id r = s) ids (qd_rows db)\<rparr>"
  shows "queue_ok dec db'"
    "messages dec db' = (messages dec db)(s := map (\<lambda>i. the (tbl_find qm_id i (messages dec db s))) ids)"
proof -
  let ?X = "session_rows s (qd_rows db)" and ?rows = "set_positions (\<lambda>r. qr_session_id r = s) ids (qd_rows db)"
  let ?L = "map (\<lambda>i. the (tbl_find qr_id i ?X)) ids"
  have keys: "distinct (map qr_id (qd_rows db))" using ok by (simp add: queue_ok_def tbl_keys_ok_def)
  have ids': "mset (map qr_id ?X) = mset ids" using ids ids_of_messages [OF ok] by simp
  note perm = permuted_lookup [OF distinct_session_ids [OF ok] ids']
  have L: "mset ?L = mset (of_session s (qd_rows db))" using perm(1) mset_session_rows by simp
  note pos = session_rows_positions [OF keys L, of "\<lambda>r. qr_session_id r = s", simplified perm(2)]
  have dist: "distinct (map qr_id ?L)"
    unfolding perm(2) using distinct_session_ids [OF ok] ids' mset_eq_imp_distinct_iff by blast
  have own: "session_rows s ?rows = map (ids_position ids) ?L" by (rule pos(1)) simp_all
  have others: "session_rows t ?rows = session_rows t (qd_rows db)" if "t \<noteq> s" for t
    using pos(2) [OF _ _ that] by (simp add: session_rows_def)
  have "dense (session_rows t ?rows)" for t
    using own others dense_ids_position [OF dist, unfolded perm(2)] ok by (cases "t = s") (simp_all add: queue_ok_def)
  moreover have "map qr_id ?rows = map qr_id (qd_rows db)" using pos(3) by simp
  then have "tbl_keys_ok qr_id ?rows" using keys by (simp only: tbl_keys_ok_def)
  moreover have "set_positions (\<lambda>r. qr_session_id r = s) ids (qd_rows db)
      = map (\<lambda>r. if qr_id r \<in> set ids \<and> qr_session_id r = s then ids_position ids r else r) (qd_rows db)"
    using dist unfolding perm(2) by (rule set_positions_eq) simp
  then have "\<exists>r' \<in> set (qd_rows db). qr_id r = qr_id r' \<and> qr_session_id r = qr_session_id r' \<and>
      dec (qr_executor_config r) \<noteq> None" if "r \<in> set ?rows" for r
    using that ok by (auto simp: queue_ok_def split: if_splits)
  ultimately show "queue_ok dec db'" unfolding db'_def by (intro queue_ok_rows [OF ok])
  have "message_of dec (the (tbl_find qr_id i ?X)) = the (tbl_find qm_id i (messages dec db s))"
    if "i \<in> set ids" for i
  proof -
    have "i \<in> qr_id ` set ?X" using that mset_eq_setD [OF ids'] by simp
    then obtain r where r: "tbl_find qr_id i ?X = Some r" by (metis tbl_find_None option.exhaust)
    then have "r \<in> set ?X" "qr_id r = i" using tbl_find_Some by fast+
    then have "message_of dec r \<in> set (messages dec db s)" "qm_id (message_of dec r) = i"
      using ok by (auto simp: messages_def queue_ok_def qm_message_of)
    moreover have "tbl_keys_ok qm_id (messages dec db s)"
      using distinct_session_ids [OF ok] by (simp add: tbl_keys_ok_def ids_of_messages [OF ok])
    ultimately show ?thesis using r tbl_find_in_set by fastforce
  qed
  moreover have "message_of dec (ids_position ids r) = message_of dec r" for r by (simp add: message_of_def)
  ultimately show "messages dec db' = (messages dec db)(s := map (\<lambda>i. the (tbl_find qm_id i (messages dec db s))) ids)"
    using own others by (auto simp: db'_def messages_def)
qed

section \<open>The specification: a list per session\<close>

record 'c queue_spec =
  sp_queue :: "uuid \<Rightarrow> 'c queued_message list"
  sp_sessions :: "uuid list"
  sp_now :: timestamp
  sp_next :: uuid

definition queue_spec_new :: "uuid list \<Rightarrow> 'c queue_spec" where
  "queue_spec_new sessions = \<lparr>sp_queue = (\<lambda>_. []), sp_sessions = sessions, sp_now = 0, sp_next = 0\<rparr>"

definition spec_set :: "uuid \<Rightarrow> 'c queued_message list \<Rightarrow> 'c queue_spec \<Rightarrow> 'c queue_spec" where
  "spec_set s q sp = sp\<lparr>sp_queue := (sp_queue sp)(s := q)\<rparr>"

definition spec_status :: "uuid \<Rightarrow> 'c queue_spec \<Rightarrow> 'c queue_output \<times> 'c queue_spec" where
  "spec_status s sp = (Answer (Inr (status_from_messages (sp_queue sp s))), sp)"

definition spec_guarded ::
  "uuid \<Rightarrow> uuid \<Rightarrow> 'c queued_message list \<Rightarrow> 'c queue_spec \<Rightarrow> 'c queue_output \<times> 'c queue_spec" where
  \<comment> \<open>replace the queue of \<open>s\<close> if it holds the message \<open>i\<close>\<close>
  "spec_guarded s i q sp =
     (if i \<in> qm_id ` set (sp_queue sp s) then spec_status s (spec_set s q sp)
      else if \<exists>t \<in> set (sp_sessions sp). i \<in> qm_id ` set (sp_queue sp t)
      then (Answer (Inl (map_queue_error QSessionMismatch)), sp)
      else (Answer (Inl (map_queue_error QNotFound)), sp))"

fun spec_step :: "'c queue_spec \<Rightarrow> 'c queue_event \<Rightarrow> 'c queue_output \<times> 'c queue_spec" where
  "spec_step sp (QCall s (QueueMessage d)) =
     (if s \<in> set (sp_sessions sp)
      then spec_status s ((spec_set s (sp_queue sp s @
             [\<lparr>qm_id = sp_next sp, qm_session_id = s, qm_data = d, qm_queued_at = sp_now sp\<rparr>]) sp)
             \<lparr>sp_next := Suc (sp_next sp)\<rparr>)
      else (Answer (Inl ApiDatabase), sp))"
| "spec_step sp (QCall s ClearQueue) = (Answer (Inr QueueEmpty), spec_set s [] sp)"
| "spec_step sp (QCall s GetQueueStatus) = spec_status s sp"
| "spec_step sp (QCall s (UpdateQueued i d)) =
     spec_guarded s i (map (\<lambda>m. if qm_id m = i then m\<lparr>qm_data := d\<rparr> else m) (sp_queue sp s)) sp"
| "spec_step sp (QCall s (RemoveQueued i)) =
     spec_guarded s i (filter (\<lambda>m. qm_id m \<noteq> i) (sp_queue sp s)) sp"
| "spec_step sp (QCall s (ReorderQueue ids)) =
     (if mset ids = mset (map qm_id (sp_queue sp s))
      then spec_status s (spec_set s (map (\<lambda>i. the (tbl_find qm_id i (sp_queue sp s))) ids) sp)
      else (Answer (Inl (map_queue_error QInvalidReorder)), sp))"
| "spec_step sp (QExit s st) =
     (if st \<in> {PsFailed, PsKilled} then (FollowUp None, spec_set s [] sp)
      else (case sp_queue sp s of
          [] \<Rightarrow> (FollowUp None, sp)
        | m # ms \<Rightarrow> (FollowUp (Some m), spec_set s ms sp)))"
| "spec_step sp QTick = (Ticked, sp\<lparr>sp_now := Suc (sp_now sp)\<rparr>)"

definition queue_abs :: "(string \<Rightarrow> 'c option) \<Rightarrow> queue_db \<Rightarrow> 'c queue_spec" where
  "queue_abs dec db = \<lparr>sp_queue = messages dec db, sp_sessions = qd_sessions db,
     sp_now = qd_now db, sp_next = qd_next_uuid db\<rparr>"

lemma queue_abs_simps [simp]:
  "sp_queue (queue_abs dec db) = messages dec db" "sp_sessions (queue_abs dec db) = qd_sessions db"
  "sp_now (queue_abs dec db) = qd_now db" "sp_next (queue_abs dec db) = qd_next_uuid db"
  by (simp_all add: queue_abs_def)

lemma queue_abs_set:
  "messages dec (db\<lparr>qd_rows := rows\<rparr>) = (messages dec db)(s := q) \<Longrightarrow>
   queue_abs dec (db\<lparr>qd_rows := rows\<rparr>) = spec_set s q (queue_abs dec db)"
  by (simp add: queue_abs_def spec_set_def)

lemma then_status:
  assumes "queue_ok dec db"
  shows "map_prod Answer id (queue_then_status dec s (Inr x, db)) = map_prod id (\<lambda>_. db) (spec_status s (queue_abs dec db))"
  using list_by_session_ok [OF assms] by (simp add: queue_then_status_def spec_status_def queue_get_status_def)

lemma guard_cases:
  assumes "queue_ok dec db"
  shows "i \<in> qm_id ` set (messages dec db s) \<Longrightarrow> \<exists>r. queued_find db i = Some r \<and> qr_session_id r = s"
    "i \<notin> qm_id ` set (messages dec db s) \<Longrightarrow> queue_guard dec db s i =
      Some (if \<exists>t \<in> set (qd_sessions db). i \<in> qm_id ` set (messages dec db t) then QSessionMismatch else QNotFound)"
proof -
  have mem: "i \<in> qm_id ` set (messages dec db t) \<longleftrightarrow> (\<exists>r. queued_find db i = Some r \<and> qr_session_id r = t)" for t
  proof -
    have "qm_id ` set (messages dec db t) = set (map qr_id (session_rows t (qd_rows db)))"
      using ids_of_messages [OF assms, of t] by (metis set_map)
    also have "i \<in> \<dots> \<longleftrightarrow> (\<exists>r \<in> set (qd_rows db). qr_id r = i \<and> qr_session_id r = t)" by auto
    also have "\<dots> \<longleftrightarrow> (\<exists>r. queued_find db i = Some r \<and> qr_session_id r = t)"
      using assms tbl_find_in_set tbl_find_Some
      unfolding queued_find_def queue_ok_def by metis
    finally show ?thesis .
  qed
  show "i \<in> qm_id ` set (messages dec db s) \<Longrightarrow> \<exists>r. queued_find db i = Some r \<and> qr_session_id r = s"
    by (simp add: mem)
  assume no: "i \<notin> qm_id ` set (messages dec db s)"
  show "queue_guard dec db s i =
      Some (if \<exists>t \<in> set (qd_sessions db). i \<in> qm_id ` set (messages dec db t) then QSessionMismatch else QNotFound)"
  proof (cases "queued_find db i")
    case None
    then show ?thesis by (simp only: mem queue_guard_def) simp
  next
    case (Some r)
    then have "r \<in> set (qd_rows db)" by (auto simp: queued_find_def dest: tbl_find_Some)
    then have "dec (qr_executor_config r) \<noteq> None" "qr_session_id r \<in> set (qd_sessions db)"
      using assms by (auto simp: queue_ok_def)
    then show ?thesis
      using no Some message_of_row [of dec r] qm_message_of(2) [of dec r]
      by (simp only: mem queue_guard_def) auto
  qed
qed

section \<open>The refinement\<close>

definition queue_inv :: "('c \<Rightarrow> string) \<Rightarrow> (string \<Rightarrow> 'c option) \<Rightarrow> queue_db \<Rightarrow> bool" where
  "queue_inv enc dec db = (queue_ok dec db \<and> (\<forall>c. dec (enc c) = Some c))"

definition refines_at ::
  "('c \<Rightarrow> string) \<Rightarrow> (string \<Rightarrow> 'c option) \<Rightarrow> queue_db \<Rightarrow> 'c queue_event \<Rightarrow> bool" where
  "refines_at enc dec db e =
     (queue_ok dec (snd (queue_step enc dec db e)) \<and>
      spec_step (queue_abs dec db) e = map_prod id (queue_abs dec) (queue_step enc dec db e))"

lemma refines_then_status:
  assumes route: "queue_step enc dec db e = map_prod Answer id (queue_then_status dec s (Inr x, db'))"
    and ok: "queue_ok dec db'" and spec: "spec_step (queue_abs dec db) e = spec_status s (queue_abs dec db')"
  shows "refines_at enc dec db e"
  using list_by_session_ok [OF ok]
  by (simp add: refines_at_def route spec queue_then_status_def queue_get_status_def spec_status_def ok)

lemma refines_guarded:
  assumes ok: "queue_ok dec db"
    and spec: "spec_step (queue_abs dec db) e = spec_guarded s i q (queue_abs dec db)"
    and fails: "\<And>err. queue_guard dec db s i = Some err \<Longrightarrow>
      queue_step enc dec db e = map_prod Answer id (queue_then_status dec s (Inl err :: queue_error + 'a, db))"
    and works: "\<And>r. queued_find db i = Some r \<Longrightarrow> qr_session_id r = s \<Longrightarrow>
      \<exists>rows (x :: 'a). queue_step enc dec db e = map_prod Answer id (queue_then_status dec s (Inr x, db\<lparr>qd_rows := rows\<rparr>)) \<and>
        queue_ok dec (db\<lparr>qd_rows := rows\<rparr>) \<and>
        messages dec (db\<lparr>qd_rows := rows\<rparr>) = (messages dec db)(s := q)"
  shows "refines_at enc dec db e"
proof (cases "i \<in> qm_id ` set (messages dec db s)")
  case True
  from guard_cases(1) [OF ok True] obtain r where "queued_find db i = Some r" "qr_session_id r = s" by blast
  from works [OF this] obtain rows and x :: 'a where r:
    "queue_step enc dec db e = map_prod Answer id (queue_then_status dec s (Inr x, db\<lparr>qd_rows := rows\<rparr>))"
    "queue_ok dec (db\<lparr>qd_rows := rows\<rparr>)"
    "messages dec (db\<lparr>qd_rows := rows\<rparr>) = (messages dec db)(s := q)" by blast
  show ?thesis
    using True by (intro refines_then_status [OF r(1,2)]) (simp add: spec spec_guarded_def queue_abs_set [OF r(3)])
next
  case False
  from fails [OF guard_cases(2) [OF ok False]] show ?thesis
    using False ok by (simp add: refines_at_def spec spec_guarded_def queue_then_status_def)
qed

lemma refines_enqueue:
  assumes ok: "queue_ok dec db" and dec: "\<And>c. dec (enc c) = Some c"
  shows "refines_at enc dec db (QCall s (QueueMessage d))"
proof (cases "s \<in> set (qd_sessions db)")
  case True
  note e = enqueue_ok [OF ok dec True, of d]
  obtain x db' where x: "queue_enqueue enc dec db s d = (Inr x, db')"
    using e(1) by (metis prod.collapse)
  have "qd_sessions db' = qd_sessions db" "qd_now db' = qd_now db" "qd_next_uuid db' = Suc (qd_next_uuid db)"
    using x True by (auto simp: queue_enqueue_def Let_def)
  then show ?thesis
    using True e(2,3) x
    by (intro refines_then_status [where db' = db' and s = s and x = x]) (simp_all add: queue_abs_def spec_set_def)
next
  case False
  then show ?thesis using ok by (simp add: refines_at_def queue_then_status_def queue_enqueue_def)
qed

lemma refines_update:
  fixes enc :: "'c \<Rightarrow> string"
  assumes ok: "queue_ok dec db" and dec: "\<And>c. dec (enc c) = Some c"
  shows "refines_at enc dec db (QCall s (UpdateQueued i d))"
proof (rule refines_guarded [OF ok, where 'a = "'c queued_message"])
  show "spec_step (queue_abs dec db) (QCall s (UpdateQueued i d)) = spec_guarded s i
      (map (\<lambda>m. if qm_id m = i then m\<lparr>qm_data := d\<rparr> else m) (messages dec db s)) (queue_abs dec db)" by simp
next
  show "queue_step enc dec db (QCall s (UpdateQueued i d))
      = map_prod Answer id (queue_then_status dec s (Inl err :: queue_error + 'c queued_message, db))" if "queue_guard dec db s i = Some err" for err
    using that by (simp add: queue_update_def)
next
  fix r assume r: "queued_find db i = Some r" "qr_session_id r = s"
  note u = update_ok(1) [OF ok dec r] update_ok(2-4) [OF ok dec r, of d]
  obtain x where x: "fst (queue_update enc dec db s i d) = Inr x" using u(2) by (cases "fst (queue_update enc dec db s i d)") auto
  obtain rows where db': "snd (queue_update enc dec db s i d) = db\<lparr>qd_rows := rows\<rparr>"
    using u(1) by (simp add: queue_update_def Let_def)
  have eq: "queue_update enc dec db s i d = (Inr x, db\<lparr>qd_rows := rows\<rparr>)" by (simp add: prod_eq_iff x db')
  show "\<exists>rows (x :: 'c queued_message). queue_step enc dec db (QCall s (UpdateQueued i d))
        = map_prod Answer id (queue_then_status dec s (Inr x, db\<lparr>qd_rows := rows\<rparr>)) \<and>
      queue_ok dec (db\<lparr>qd_rows := rows\<rparr>) \<and> messages dec (db\<lparr>qd_rows := rows\<rparr>)
        = (messages dec db)(s := map (\<lambda>m. if qm_id m = i then m\<lparr>qm_data := d\<rparr> else m) (messages dec db s))"
    using u(3,4) eq by (intro exI [of _ rows] exI [of _ x]) simp
qed

lemma refines_remove:
  assumes ok: "queue_ok dec db"
  shows "refines_at enc dec db (QCall s (RemoveQueued i))"
proof (rule refines_guarded [OF ok, where 'a = unit])
  show "spec_step (queue_abs dec db) (QCall s (RemoveQueued i)) = spec_guarded s i
      (filter (\<lambda>m. qm_id m \<noteq> i) (messages dec db s)) (queue_abs dec db)" by simp
next
  show "queue_step enc dec db (QCall s (RemoveQueued i))
      = map_prod Answer id (queue_then_status dec s (Inl err :: queue_error + unit, db))" if "queue_guard dec db s i = Some err" for err
    using that by (simp add: queue_remove_def)
next
  fix r assume r: "queued_find db i = Some r" "qr_session_id r = s"
  have g: "queue_guard dec db s i = None"
  proof -
    have "dec (qr_executor_config r) \<noteq> None"
      using ok r by (auto simp: queue_ok_def queued_find_def dest: tbl_find_Some)
    then show ?thesis using r message_of_row [of dec r] qm_message_of(2) [of dec r] by (simp add: queue_guard_def)
  qed
  show "\<exists>rows (x :: unit). queue_step enc dec db (QCall s (RemoveQueued i))
        = map_prod Answer id (queue_then_status dec s (Inr x, db\<lparr>qd_rows := rows\<rparr>)) \<and>
      queue_ok dec (db\<lparr>qd_rows := rows\<rparr>) \<and> messages dec (db\<lparr>qd_rows := rows\<rparr>)
        = (messages dec db)(s := filter (\<lambda>m. qm_id m \<noteq> i) (messages dec db s))"
    using delete_ok [OF ok r] g
    by (intro exI [of _ "compact_positions s (tbl_delete qr_id i (qd_rows db))"] exI) (simp add: queue_remove_def)
qed

lemma sort_eq_iff_mset: "sort xs = sort ys \<longleftrightarrow> mset xs = mset (ys :: nat list)"
  by (metis mset_sort properties_for_sort sorted_sort)

lemma refines_reorder:
  assumes ok: "queue_ok dec db"
  shows "refines_at enc dec db (QCall s (ReorderQueue ids))"
proof (cases "mset ids = mset (map qm_id (messages dec db s))")
  case True
  then have ids: "mset (map qm_id (messages dec db s)) = mset ids" by simp
  note r = reorder_ok [OF ok ids]
  let ?db' = "db\<lparr>qd_rows := set_positions (\<lambda>r. qr_session_id r = s) ids (qd_rows db)\<rparr>"
  have "length (messages dec db s) = length ids" using ids by (metis length_map mset_eq_length)
  moreover have "sort (map qm_id (messages dec db s)) = sort ids" using ids by (simp only: sort_eq_iff_mset)
  ultimately have eq: "queue_reorder dec db s ids = (Inr (messages dec ?db' s), ?db')"
    using list_by_session_ok [OF ok, of s] list_by_session_ok [OF r(1), of s] by (simp add: queue_reorder_def Let_def)
  show ?thesis
    using True r(1) queue_abs_set [OF r(2)] by (simp add: refines_at_def eq spec_status_def spec_set_def r(2))
next
  case False
  then have "sort (map qm_id (messages dec db s)) \<noteq> sort ids" by (simp only: sort_eq_iff_mset)
  then have "queue_reorder dec db s ids = (Inl QInvalidReorder, db)"
    using list_by_session_ok [OF ok, of s] by (simp add: queue_reorder_def)
  then show ?thesis using False ok by (simp add: refines_at_def)
qed

lemma pop_front_ok:
  assumes ok: "queue_ok dec db"
  shows "messages dec db s = [] \<Longrightarrow> pop_front dec db s = (Inr None, db)"
    "messages dec db s = m # ms \<Longrightarrow> \<exists>rows. pop_front dec db s = (Inr (Some m), db\<lparr>qd_rows := rows\<rparr>) \<and>
       queue_ok dec (db\<lparr>qd_rows := rows\<rparr>) \<and> messages dec (db\<lparr>qd_rows := rows\<rparr>) = (messages dec db)(s := ms)"
proof -
  show "messages dec db s = [] \<Longrightarrow> pop_front dec db s = (Inr None, db)"
    by (simp add: messages_def pop_front_def pop_select_def)
  assume ms: "messages dec db s = m # ms"
  then obtain r L where L: "session_rows s (qd_rows db) = r # L" "message_of dec r = m" "map (message_of dec) L = ms"
    by (auto simp: messages_def)
  then have r: "r \<in> set (session_rows s (qd_rows db))" by simp
  then have mem: "r \<in> set (qd_rows db)" "qr_session_id r = s" by auto
  then have find: "queued_find db (qr_id r) = Some r"
    using ok by (simp add: queued_find_def queue_ok_def tbl_find_in_set)
  have dec: "dec (qr_executor_config r) \<noteq> None" using ok mem by (simp add: queue_ok_def)
  note d = delete_ok [OF ok find mem(2)]
  have id: "qm_id m = qr_id r" using qm_message_of(1) [of dec r] dec L(2) by simp
  have "distinct (map qm_id (m # ms))"
    using distinct_session_ids [OF ok] by (simp add: ids_of_messages [OF ok, of s, unfolded ms] del: list.map)
  then have "filter (\<lambda>x. qm_id x \<noteq> qr_id r) (m # ms) = ms" using id by (simp add: filter_id_conv) (metis image_eqI)
  then show "\<exists>rows. pop_front dec db s = (Inr (Some m), db\<lparr>qd_rows := rows\<rparr>) \<and>
       queue_ok dec (db\<lparr>qd_rows := rows\<rparr>) \<and> messages dec (db\<lparr>qd_rows := rows\<rparr>) = (messages dec db)(s := ms)"
    using d ms L find message_of_row [of dec r] dec
    by (intro exI [of _ "compact_positions s (tbl_delete qr_id (qr_id r) (qd_rows db))"])
      (simp add: pop_front_def pop_select_def pop_claim_def)
qed

lemma refines_exit:
  assumes ok: "queue_ok dec db"
  shows "refines_at enc dec db (QExit s st)"
proof (cases "st \<in> {PsFailed, PsKilled}")
  case True
  then show ?thesis
    using clear_ok [OF ok, of s]
    by (auto simp: refines_at_def consume_queued_def queue_abs_def spec_set_def queue_clear_def)
next
  case alive: False
  show ?thesis
  proof (cases "messages dec db s")
    case Nil
    then show ?thesis
      using alive ok pop_front_ok(1) [OF ok Nil] by (auto simp: refines_at_def consume_queued_def)
  next
    case (Cons m ms)
    then show ?thesis
      using alive ok pop_front_ok(2) [OF ok Cons]
      by (auto simp: refines_at_def consume_queued_def queue_abs_set)
  qed
qed

lemma refines_step:
  assumes "queue_ok dec db" "\<And>c. dec (enc c) = Some c"
  shows "refines_at enc dec db e"
proof (cases e)
  case (QCall s c)
  show ?thesis
  proof (cases c)
    case ClearQueue
    then show ?thesis
      using QCall clear_ok [OF assms(1), of s]
      by (simp add: refines_at_def queue_abs_def spec_set_def queue_clear_def)
  next
    case GetQueueStatus
    then show ?thesis
      using QCall assms(1) by (intro refines_then_status [where db' = db and s = s and x = "()"]) simp_all
  next
    case (QueueMessage d)
    then show ?thesis using QCall refines_enqueue [OF assms] by simp
  next
    case (UpdateQueued i d)
    then show ?thesis using QCall refines_update [OF assms] by simp
  next
    case (RemoveQueued i)
    then show ?thesis using QCall refines_remove [OF assms(1)] by simp
  next
    case (ReorderQueue ids)
    then show ?thesis using QCall refines_reorder [OF assms(1)] by simp
  qed
next
  case (QExit s st)
  then show ?thesis using refines_exit [OF assms(1)] by simp
next
  case QTick
  have "messages dec (db\<lparr>qd_now := n\<rparr>) = messages dec db" for n by (simp add: messages_def fun_eq_iff)
  then show ?thesis using QTick assms(1) by (simp add: refines_at_def queue_ok_def queue_abs_def)
qed

interpretation session_queue: refinement "queue_step enc dec" spec_step "queue_inv enc dec" "queue_abs dec"
  for enc dec
  using refines_step by unfold_locales (auto simp: refines_at_def queue_inv_def)

lemma queue_ok_new: "queue_ok dec (queue_db_new ss)"
  by (simp add: queue_ok_def queue_db_new_def tbl_keys_ok_def session_rows_def dense_def)

lemma queue_abs_new: "queue_abs dec (queue_db_new ss) = queue_spec_new ss"
  by (simp add: queue_abs_def queue_spec_new_def queue_db_new_def messages_def session_rows_def fun_eq_iff)

section \<open>Identifiers\<close>

text \<open>Which identifiers an operation can bring into the table: only those it allocates.\<close>

definition ids_of :: "queue_db \<Rightarrow> uuid set" where
  "ids_of db = qr_id ` set (qd_rows db)"

definition ids_from :: "queue_db \<Rightarrow> queue_db \<Rightarrow> bool" where
  "ids_from db db' = (qd_next_uuid db \<le> qd_next_uuid db' \<and>
     ids_of db' \<subseteq> ids_of db \<union> {qd_next_uuid db ..< qd_next_uuid db'})"

lemma ids_set_positions: "qr_id ` set (set_positions P ids rows) = qr_id ` set rows"
proof -
  have one: "map qr_id (map (\<lambda>r. if qr_id r = i \<and> P r then r\<lparr>qr_position := p\<rparr> else r) rows) = map qr_id rows"
    for i p and rows by simp
  have "map qr_id (set_positions P ids rows) = map qr_id rows"
    by (induction ids rule: rev_induct) (simp_all add: set_positions_def enumerate_append_eq one del: map_map)
  then show ?thesis by (metis list.set_map)
qed

lemma ids_from_refl [simp]: "ids_from db db"
  by (simp add: ids_from_def)

lemma ids_from_rows: "qr_id ` set rows \<subseteq> ids_of db \<Longrightarrow> ids_from db (db\<lparr>qd_rows := rows\<rparr>)"
  by (simp add: ids_from_def ids_of_def)

lemma ids_compact_delete:
  "qr_id ` set (compact_positions s (tbl_delete qr_id i rows)) = qr_id ` set rows - {i}"
  by (auto simp: compact_positions_def ids_set_positions set_tbl_delete)

lemma ids_pop_claim:
  "ids_from db (snd (pop_claim dec db s front))"
  "fst (pop_claim dec db s front) = Inr (Some m) \<Longrightarrow>
     qm_id m = qr_id front \<and> qr_id front \<in> ids_of db \<and> qr_id front \<notin> ids_of (snd (pop_claim dec db s front))"
proof -
  show "ids_from db (snd (pop_claim dec db s front))"
    by (simp add: pop_claim_def ids_compact_delete ids_of_def ids_from_rows)
  assume m: "fst (pop_claim dec db s front) = Inr (Some m)"
  then have "queued_find db (qr_id front) \<noteq> None" by (auto simp: pop_claim_def split: if_splits)
  then show "qm_id m = qr_id front \<and> qr_id front \<in> ids_of db \<and> qr_id front \<notin> ids_of (snd (pop_claim dec db s front))"
    using m by (auto simp: pop_claim_def message_of_row_def ids_of_def ids_compact_delete queued_find_def tbl_find_None
        split: sum.splits option.splits)
qed

lemma ids_consume:
  "ids_from db (snd (consume_queued dec st db s))"
  "fst (consume_queued dec st db s) = Some m \<Longrightarrow>
     qm_id m \<in> ids_of db \<and> qm_id m \<notin> ids_of (snd (consume_queued dec st db s))"
proof -
  have clear: "ids_from db (queue_clear db s)" unfolding queue_clear_def by (rule ids_from_rows) (auto simp: ids_of_def)
  show "ids_from db (snd (consume_queued dec st db s))"
    using clear ids_pop_claim(1) [of db dec s]
    by (auto simp: consume_queued_def pop_front_def split: option.splits sum.splits prod.splits) (metis snd_conv)+
  show "fst (consume_queued dec st db s) = Some m \<Longrightarrow>
      qm_id m \<in> ids_of db \<and> qm_id m \<notin> ids_of (snd (consume_queued dec st db s))"
    using ids_pop_claim(2) [of dec db s _ m]
    by (auto simp: consume_queued_def pop_front_def split: option.splits sum.splits prod.splits if_splits) (metis fst_conv snd_conv)+
qed

lemma snd_then_status: "snd (queue_then_status dec s res) = snd res"
  by (auto simp: queue_then_status_def split: prod.split sum.split)

lemma ids_queue_step: "ids_from db (snd (queue_step enc dec db e))"
proof (cases e)
  case (QCall s c)
  have "ids_from db (snd (queue_route enc dec db s c))"
  proof (cases c)
    case (QueueMessage d)
    have "ids_from db (snd (queue_enqueue enc dec db s d))"
      by (auto simp: queue_enqueue_def Let_def ids_from_def ids_of_def)
    then show ?thesis using QueueMessage by (simp add: snd_then_status)
  next
    case (UpdateQueued i d)
    have "ids_from db (snd (queue_update enc dec db s i d))"
      by (auto simp: queue_update_def Let_def ids_of_def set_tbl_update intro!: ids_from_rows split: option.splits)
    then show ?thesis using UpdateQueued by (simp add: snd_then_status)
  next
    case (RemoveQueued i)
    have "ids_from db (snd (queue_remove dec db s i))"
      by (simp add: queue_remove_def ids_of_def ids_compact_delete ids_from_rows split: option.split)
    then show ?thesis using RemoveQueued by (simp add: snd_then_status)
  next
    case (ReorderQueue ids)
    have "ids_from db (snd (queue_reorder dec db s ids))"
      by (simp add: queue_reorder_def Let_def ids_of_def ids_set_positions ids_from_rows split: sum.split)
    moreover have "snd (queue_route enc dec db s c) = snd (queue_reorder dec db s ids)"
      unfolding ReorderQueue by (auto split: prod.split sum.split)
    ultimately show ?thesis by simp
  next
    case ClearQueue
    have "ids_from db (queue_clear db s)" unfolding queue_clear_def by (rule ids_from_rows) (auto simp: ids_of_def)
    then show ?thesis using ClearQueue by simp
  qed (simp add: snd_then_status)
  then show ?thesis using QCall by simp
next
  case (QExit s st)
  then show ?thesis using ids_consume(1) by simp
next
  case QTick
  then show ?thesis by (simp add: ids_from_def ids_of_def)
qed

definition race_inv :: "'c race_world \<Rightarrow> bool" where
  "race_inv w =
     (distinct (map qm_id (rw_delivered w)) \<and>
      (\<forall>i \<in> ids_of (rw_db w) \<union> qm_id ` set (rw_delivered w). i < qd_next_uuid (rw_db w)) \<and>
      ids_of (rw_db w) \<inter> qm_id ` set (rw_delivered w) = {})"

lemma race_inv_step:
  assumes "race_inv w" "ids_from (rw_db w) db'"
  shows "rw_db w' = db' \<Longrightarrow> rw_delivered w' = rw_delivered w \<Longrightarrow> race_inv w'"
    "rw_db w' = db' \<Longrightarrow> rw_delivered w' = rw_delivered w @ [m] \<Longrightarrow> qm_id m \<in> ids_of (rw_db w) \<Longrightarrow>
     qm_id m \<notin> ids_of db' \<Longrightarrow> race_inv w'"
proof -
  let ?D = "qm_id ` set (rw_delivered w)" and ?n = "qd_next_uuid (rw_db w)" and ?n' = "qd_next_uuid db'"
  have n: "?n \<le> ?n'" "ids_of db' \<subseteq> ids_of (rw_db w) \<union> {?n ..< ?n'}" using assms(2) by (simp_all add: ids_from_def)
  have w: "\<forall>i \<in> ids_of (rw_db w) \<union> ?D. i < ?n" "ids_of (rw_db w) \<inter> ?D = {}" "distinct (map qm_id (rw_delivered w))"
    using assms(1) by (simp_all add: race_inv_def)
  have bound: "\<forall>i \<in> ids_of db' \<union> ?D. i < ?n'"
  proof
    fix i assume "i \<in> ids_of db' \<union> ?D"
    then have "i \<in> ids_of (rw_db w) \<union> ?D \<or> i < ?n'" using n(2) by auto
    then show "i < ?n'" using w(1) n(1) less_le_trans by blast
  qed
  have "i \<notin> ?D" if "i \<in> ids_of db'" for i
  proof (cases "i \<in> ids_of (rw_db w)")
    case True
    then show ?thesis using w(2) by blast
  next
    case False
    then have "\<not> i < ?n" using n(2) that by auto
    then show ?thesis using w(1) by blast
  qed
  then have disj: "ids_of db' \<inter> ?D = {}" by blast
  show "rw_db w' = db' \<Longrightarrow> rw_delivered w' = rw_delivered w \<Longrightarrow> race_inv w'"
    using bound disj w(3) by (simp add: race_inv_def)
  assume w': "rw_db w' = db'" "rw_delivered w' = rw_delivered w @ [m]" and m: "qm_id m \<in> ids_of (rw_db w)" "qm_id m \<notin> ids_of db'"
  have "qm_id m < ?n'" using m(1) w(1) n(1) less_le_trans by blast
  moreover have "qm_id m \<notin> ?D" using m(1) w(2) by blast
  ultimately show "race_inv w'" using bound disj w(3) w' m(2) by (auto simp: race_inv_def)
qed

lemma race_inv_run_step:
  assumes "race_inv w"
  shows "race_inv (race_step enc dec w e)"
proof (cases e)
  case (RaceQueue ev)
  obtain out db' where st: "queue_step enc dec (rw_db w) ev = (out, db')" by fastforce
  have from_step: "ids_from (rw_db w) db'" using ids_queue_step [of "rw_db w" enc dec ev] st by simp
  note keep = race_inv_step [OF assms from_step]
  show ?thesis
  proof (cases "\<exists>m. out = FollowUp (Some m)")
    case True
    then obtain m where m: "out = FollowUp (Some m)" by blast
    then obtain s sta where "ev = QExit s sta" using st by (cases ev) (auto simp: map_prod_def split: prod.splits)
    then have "fst (consume_queued dec sta (rw_db w) s) = Some m" "snd (consume_queued dec sta (rw_db w) s) = db'"
      using st m by (auto simp: map_prod_def split: prod.splits)
    then have "qm_id m \<in> ids_of (rw_db w)" "qm_id m \<notin> ids_of db'" using ids_consume(2) by blast+
    then show ?thesis using RaceQueue st m by (intro keep(2) [of _ m]) simp_all
  next
    case False
    then have "race_step enc dec w e = w\<lparr>rw_db := db'\<rparr>"
      using RaceQueue st by (auto split: queue_output.split option.split)
    then show ?thesis by (intro keep(1)) simp_all
  qed
next
  case (RaceSelect k s)
  then show ?thesis using assms by (simp add: race_inv_def)
next
  case (RaceClaim k)
  show ?thesis
  proof (cases "rw_selected w k")
    case None
    then show ?thesis using RaceClaim assms by simp
  next
    case (Some p)
    obtain s front where p: "p = (s, front)" by (cases p)
    obtain res db' where cl: "pop_claim dec (rw_db w) s front = (res, db')" by fastforce
    note c = ids_pop_claim(1) [of "rw_db w" dec s front, unfolded cl snd_conv]
      ids_pop_claim(2) [of dec "rw_db w" s front, unfolded cl fst_conv snd_conv]
    note keep = race_inv_step [OF assms c(1)]
    show ?thesis
    proof (cases "\<exists>m. res = Inr (Some m)")
      case True
      then obtain m where m: "res = Inr (Some m)" by blast
      from c(2) [OF this] have "qm_id m \<in> ids_of (rw_db w)" "qm_id m \<notin> ids_of db'" by simp_all
      then show ?thesis using RaceClaim Some p cl m by (intro keep(2) [of _ m]) (simp_all add: Let_def)
    next
      case False
      then have "race_step enc dec w e = w\<lparr>rw_selected := (rw_selected w)(k := None), rw_db := db'\<rparr>"
        using RaceClaim Some p cl by (auto simp: Let_def split: sum.split option.split)
      then show ?thesis by (intro keep(1)) simp_all
    qed
  qed
qed

lemma race_inv_run: "race_inv w \<Longrightarrow> race_inv (foldl (race_step enc dec) w es)"
  by (induction es arbitrary: w) (auto intro: race_inv_run_step)

section \<open>Properties\<close>

text \<open>C24: the table of queued messages is, for every sequence of calls of the routes and exits of
  processes, one list per session: an enqueue appends, a removal and a reorder act on the list of
  the session alone, a successful exit takes the head and a failed one empties the list, and
  every answer, errors included, is the one computed from the lists.\<close>

theorem queues_refine_lists:
  assumes "\<And>c. dec (enc c) = Some c"
  shows "outputs (queue_step enc dec) (queue_db_new sessions) evs = outputs spec_step (queue_spec_new sessions) evs"
  using session_queue.same_outputs [of enc dec "queue_db_new sessions" evs] assms
  by (simp add: queue_inv_def queue_ok_new queue_abs_new)

theorem queues_refine_lists_witness:
  "outputs (queue_step id Some) (queue_db_new [1]) [QCall 1 (QueueMessage \<lparr>df_message = ''a'', df_executor_config = ''c''\<rparr>),
      QCall 2 (RemoveQueued 0), QExit 1 PsCompleted, QExit 1 PsCompleted]
   = [Answer (Inr (Queued [\<lparr>qm_id = 0, qm_session_id = 1, qm_data = \<lparr>df_message = ''a'', df_executor_config = ''c''\<rparr>,
        qm_queued_at = 0\<rparr>])),
      Answer (Inl (BadRequest ''Queued message does not belong to this session'')),
      FollowUp (Some \<lparr>qm_id = 0, qm_session_id = 1, qm_data = \<lparr>df_message = ''a'', df_executor_config = ''c''\<rparr>,
        qm_queued_at = 0\<rparr>), FollowUp None]"
proof -
  have "\<And>c. Some (id c) = Some c" by simp
  then show ?thesis
    by (subst queues_refine_lists)
      (simp_all add: queue_spec_new_def spec_status_def spec_set_def status_from_messages_def spec_guarded_def)
qed

text \<open>each follow-up is started at most once: whatever calls, exits and consumers run, and
  whatever runs between the two halves of a consumer's \<open>pop_front\<close>, no message is delivered twice.\<close>

theorem follow_ups_run_once:
  "distinct (map qm_id (rw_delivered (foldl (race_step enc dec) (race_world_new sessions) es)))"
proof -
  have "race_inv (race_world_new sessions)" by (simp add: race_inv_def race_world_new_def queue_db_new_def ids_of_def)
  from race_inv_run [OF this, of enc dec es] show ?thesis by (simp add: race_inv_def)
qed

text \<open>C33: the positions of a session stay dense: after any calls and exits the rows of each
  session, read by position, are at 0, 1, 2 and so on, and identifiers stay unique.\<close>

theorem positions_stay_dense:
  assumes "\<And>c. dec (enc c) = Some c"
  shows "let db = run_events (queue_step enc dec) (queue_db_new sessions) evs in
    map qr_position (session_rows s (qd_rows db)) = map int [0..<length (session_rows s (qd_rows db))] \<and>
    tbl_keys_ok qr_id (qd_rows db)"
proof -
  have "queue_inv enc dec (queue_db_new sessions)" by (simp add: queue_inv_def queue_ok_new assms)
  from session_queue.inv_run [OF this, of evs] show ?thesis
    by (simp add: queue_inv_def queue_ok_def dense_def Let_def)
qed

theorem positions_stay_dense_witness:
  "let db = run_events (queue_step id Some) (queue_db_new [1])
       [QCall 1 (QueueMessage \<lparr>df_message = ''a'', df_executor_config = ''c''\<rparr>),
        QCall 1 (QueueMessage \<lparr>df_message = ''b'', df_executor_config = ''c''\<rparr>), QCall 1 (RemoveQueued 0)] in
   map qr_position (session_rows 1 (qd_rows db)) = map int [0..<length (session_rows 1 (qd_rows db))]"
proof -
  have "\<And>c. Some (id c) = Some c" by simp
  from positions_stay_dense [of Some id, OF this, unfolded Let_def] show ?thesis
    unfolding Let_def by (rule conjunct1)
qed

text \<open>a message whose stored configuration does not parse blocks its session: its list and
  its status cannot be read, and the exit that takes it from the front deletes it and
  starts nothing.\<close>

theorem unreadable_message_lost:
  assumes "pop_select db s = Some r" "dec (qr_executor_config r) = None"
  shows "list_by_session dec db s = Inl QSerde \<and> queue_then_status dec s (Inr (), db) = (Inl (map_queue_error QSerde), db) \<and>
    fst (consume_queued dec PsCompleted db s) = None \<and>
    qr_id r \<notin> qr_id ` set (qd_rows (snd (consume_queued dec PsCompleted db s)))"
proof -
  have L: "\<exists>L. session_rows s (qd_rows db) = r # L"
    using assms(1) by (simp add: pop_select_def split: list.splits)
  have bad: "message_of_row dec r = Inl QSerde" using assms(2) by (simp add: message_of_row_def)
  have list: "list_by_session dec db s = Inl QSerde" using L bad by (auto simp: list_by_session_def)
  from L have "r \<in> set (session_rows s (qd_rows db))" by (metis list.set_intros(1))
  then have "queued_find db (qr_id r) \<noteq> None" by (auto simp: queued_find_def tbl_find_None)
  then have "pop_front dec db s = (Inl QSerde, db\<lparr>qd_rows := compact_positions s (tbl_delete qr_id (qr_id r) (qd_rows db))\<rparr>)"
    using assms(1) bad by (simp add: pop_front_def pop_claim_def)
  then show ?thesis
    using list by (simp add: consume_queued_def ids_compact_delete queue_then_status_def queue_get_status_def)
qed

theorem unreadable_message_lost_witness:
  "let db = queue_db_new [1]; r = \<lparr>qr_id = 0, qr_session_id = 1, qr_position = 0, qr_message = ''a'',
       qr_executor_config = ''?'', qr_queued_at = 0\<rparr>; db1 = db\<lparr>qd_rows := [r], qd_next_uuid := 1\<rparr> in
   list_by_session (\<lambda>c. if c = ''ok'' then Some c else None) db1 1 = Inl QSerde"
proof -
  let ?r = "\<lparr>qr_id = 0, qr_session_id = 1, qr_position = 0, qr_message = ''a'', qr_executor_config = ''?'', qr_queued_at = 0\<rparr>"
  let ?db = "(queue_db_new [1])\<lparr>qd_rows := [?r], qd_next_uuid := 1\<rparr>"
  have "pop_select ?db 1 = Some ?r" by (simp add: pop_select_def session_rows_def)
  from unreadable_message_lost [OF this, of "\<lambda>c. if c = ''ok'' then Some c else None"]
  show ?thesis by (simp add: Let_def)
qed

end
