(* ===== verification/Msg_Store.thy ===== *)
theory Msg_Store
  imports Vk_Prelude
begin

text \<open>
  The log store of an execution process: crates/utils/src/log_msg.rs and
  crates/utils/src/msg_store.rs. A store keeps a byte-bounded history and broadcasts live
  messages. JSON patches are a type of their own (\<open>'p\<close>), and the length of their JSON text,
  which \<open>serde_json\<close> computes, is the parameter \<open>plen\<close>.

  \<open>push\<close> sends to the live listeners first and then enters the history under a lock, and a new
  reader takes a copy of the history first and subscribes then; the section on readers runs
  these four steps in any order that the code allows.
\<close>

section \<open>Messages\<close>

datatype 'p log_msg =
    Stdout string | Stderr string | JsonPatch 'p | SessionId string | MessageId string | Ready | Finished

fun event_name :: "'p log_msg \<Rightarrow> string" where
  "event_name (Stdout _) = ''stdout''"
| "event_name (Stderr _) = ''stderr''"
| "event_name (JsonPatch _) = ''json_patch''"
| "event_name (SessionId _) = ''session_id''"
| "event_name (MessageId _) = ''message_id''"
| "event_name Ready = ''ready''"
| "event_name Finished = ''finished''"

fun approx_bytes :: "('p \<Rightarrow> nat) \<Rightarrow> 'p log_msg \<Rightarrow> nat" where
  "approx_bytes plen (Stdout s) = length ''stdout'' + length s + 8"
| "approx_bytes plen (Stderr s) = length ''stderr'' + length s + 8"
| "approx_bytes plen (JsonPatch p) = length ''json_patch'' + plen p + 8"
| "approx_bytes plen (SessionId s) = length ''session_id'' + length s + 8"
| "approx_bytes plen (MessageId s) = length ''message_id'' + length s + 8"
| "approx_bytes plen Ready = length ''ready'' + 8"
| "approx_bytes plen Finished = length ''finished'' + 8"

definition is_sentinel :: "'p log_msg \<Rightarrow> bool" where
  "is_sentinel m = (case m of Finished \<Rightarrow> True | Ready \<Rightarrow> True | _ \<Rightarrow> False)"

section \<open>The history\<close>

definition history_bytes :: nat where
  "history_bytes = 100000 * 1024"

definition usize_max :: nat where
  "usize_max = 2 ^ 64 - 1"

definition sat_add :: "nat \<Rightarrow> nat \<Rightarrow> nat" where
  "sat_add a b = min (a + b) usize_max"

text \<open>The rows of the history are \<open>StoredMsg\<close>: a message and its size.\<close>

record 'p msg_store =
  ms_history :: "('p log_msg \<times> nat) list"
  ms_total_bytes :: nat
  ms_exit_notifier :: "nat option"  \<comment> \<open>the installed one-shot channel\<close>
  ms_signalled :: "(nat \<times> bool) list"  \<comment> \<open>what was sent on such channels\<close>

definition msg_store_new :: "'p msg_store" where
  "msg_store_new = \<lparr>ms_history = [], ms_total_bytes = 0, ms_exit_notifier = None, ms_signalled = []\<rparr>"

function evict :: "nat \<Rightarrow> nat \<Rightarrow> ('p log_msg \<times> nat) list \<Rightarrow> nat \<Rightarrow> ('p log_msg \<times> nat) list \<times> nat" where
  \<comment> \<open>the while loop of \<open>push\<close>; \<open>-\<close> on \<open>nat\<close> is \<open>saturating_sub\<close>\<close>
  "evict limit bytes history tot =
     (if limit < sat_add tot bytes then
        (case history of
           [] \<Rightarrow> (history, tot)
         | front # rest \<Rightarrow>
             (if is_sentinel (fst front) then
                (case rest of
                   [] \<Rightarrow> (history, tot)
                 | removed # rest' \<Rightarrow> evict limit bytes (front # rest') (tot - snd removed))
              else evict limit bytes rest (tot - snd front)))
      else (history, tot))"
  by pat_completeness auto
termination by (relation "measure (\<lambda>(_, _, history, _). length history)") auto

declare evict.simps [simp del]

definition push_within :: "nat \<Rightarrow> ('p \<Rightarrow> nat) \<Rightarrow> 'p log_msg \<Rightarrow> 'p msg_store \<Rightarrow> 'p msg_store" where
  \<comment> \<open>the part of \<open>push\<close> under the lock, for a given limit\<close>
  "push_within limit plen m st =
     (let bytes = approx_bytes plen m in
      case evict limit bytes (ms_history st) (ms_total_bytes st) of
        (history, tot) \<Rightarrow>
          st\<lparr>ms_history := history @ [(m, bytes)], ms_total_bytes := sat_add tot bytes\<rparr>)"

definition push :: "('p \<Rightarrow> nat) \<Rightarrow> 'p log_msg \<Rightarrow> 'p msg_store \<Rightarrow> 'p msg_store" where
  "push = push_within history_bytes"

definition get_history :: "'p msg_store \<Rightarrow> 'p log_msg list" where
  "get_history st = map fst (ms_history st)"

section \<open>The exit notifier\<close>

definition set_exit_notifier :: "nat \<Rightarrow> 'p msg_store \<Rightarrow> 'p msg_store" where
  "set_exit_notifier tx st = st\<lparr>ms_exit_notifier := Some tx\<rparr>"

definition signal_executor_exit :: "bool \<Rightarrow> 'p msg_store \<Rightarrow> 'p msg_store" where
  "signal_executor_exit success st =
     (case ms_exit_notifier st of
        None \<Rightarrow> st
      | Some tx \<Rightarrow> st\<lparr>ms_exit_notifier := None, ms_signalled := ms_signalled st @ [(tx, success)]\<rparr>)"

section \<open>Streams\<close>

definition std_chunk :: "bool \<Rightarrow> 'p log_msg \<Rightarrow> string option" where
  "std_chunk stdout m =
     (case m of Stdout s \<Rightarrow> if stdout then Some s else None
      | Stderr s \<Rightarrow> if stdout then None else Some s
      | _ \<Rightarrow> None)"

definition stdio_chunked_stream ::
  "bool \<Rightarrow> 'p log_msg list \<Rightarrow> 'p log_msg list \<Rightarrow> 'p log_msg list \<Rightarrow> string list \<times> bool" where
  \<comment> \<open>the chunks for the first copy of the history, the copy that \<open>history_plus_stream\<close> takes and
    the live messages received after it, and whether the stream ends\<close>
  "stdio_chunked_stream stdout snapshot history live =
     (if Finished \<in> set snapshot
      then (List.map_filter (std_chunk stdout) (takeWhile (\<lambda>m. m \<noteq> Finished) snapshot), True)
      else (List.map_filter (std_chunk stdout) (takeWhile (\<lambda>m. m \<noteq> Finished) (history @ live)),
            Finished \<in> set (history @ live)))"

definition strip_cr :: "string \<Rightarrow> string" where
  "strip_cr l = (if l \<noteq> [] \<and> last l = CHR 0x0D then butlast l else l)"

fun str_lines :: "string \<Rightarrow> string \<Rightarrow> string list" where
  \<comment> \<open>\<open>str::lines\<close>; the first argument is the current line, reversed\<close>
  "str_lines acc [] = (if acc = [] then [] else [rev acc])"
| "str_lines acc (c # cs) =
     (if c = CHR 0x0A then strip_cr (rev acc) # str_lines [] cs else str_lines (c # acc) cs)"

definition stdout_lines_historic :: "'p log_msg list \<Rightarrow> string list" where
  \<comment> \<open>\<open>stdout_lines_stream\<close> when the history holds \<open>Finished\<close>\<close>
  "stdout_lines_historic history =
     filter (\<lambda>l. l \<noteq> [])
       (str_lines [] (concat (List.map_filter (std_chunk True) (takeWhile (\<lambda>m. m \<noteq> Finished) history))))"

text \<open>Otherwise the live chunks go through \<open>LinesCodec\<close> of tokio-util, the parameter \<open>codec\<close>.\<close>

definition stdout_lines_stream ::
  "(string list \<Rightarrow> string list) \<Rightarrow> 'p log_msg list \<Rightarrow> 'p log_msg list \<Rightarrow> 'p log_msg list \<Rightarrow> 'p log_msg list \<Rightarrow>
   string list \<times> bool" where
  "stdout_lines_stream codec first snapshot history live =
     (if Finished \<in> set first then (stdout_lines_historic first, True)
      else map_prod codec id (stdio_chunked_stream True snapshot history live))"

definition forward :: "('p \<Rightarrow> nat) \<Rightarrow> 'p msg_store \<Rightarrow> (string + 'p log_msg) list \<Rightarrow> 'p msg_store" where
  \<comment> \<open>\<open>spawn_forwarder\<close> over the items of the stream; an error carries its text\<close>
  "forward plen st items =
     foldl (\<lambda>st r. push plen (case r of Inl e \<Rightarrow> Stderr (''stream error: '' @ e) | Inr m \<Rightarrow> m) st) st items"

section \<open>Readers\<close>

text \<open>
  One reader and any number of writers. A writer sends a message to the live listeners
  (\<open>SendLive\<close>) and later enters it into the history (\<open>EnterHistory\<close>); the reader takes its copy
  of the history and subscribes later (\<open>history_plus_stream\<close>). The buffer of the broadcast
  channel, 100000 messages, is taken to suffice: a reader that lags further loses messages.
\<close>

datatype 'p log_step = SendLive "'p log_msg" | EnterHistory "'p log_msg" | TakeHistory | Subscribe

record 'p log_world =
  lw_store :: "'p msg_store"
  lw_copy :: "'p log_msg list option"
  lw_live :: "'p log_msg list option"  \<comment> \<open>what reached the subscription so far\<close>

definition log_world_new :: "'p log_world" where
  "log_world_new = \<lparr>lw_store = msg_store_new, lw_copy = None, lw_live = None\<rparr>"

fun log_step_run :: "nat \<Rightarrow> ('p \<Rightarrow> nat) \<Rightarrow> 'p log_world \<Rightarrow> 'p log_step \<Rightarrow> 'p log_world" where
  "log_step_run limit plen w (SendLive m) = w\<lparr>lw_live := map_option (\<lambda>l. l @ [m]) (lw_live w)\<rparr>"
| "log_step_run limit plen w (EnterHistory m) = w\<lparr>lw_store := push_within limit plen m (lw_store w)\<rparr>"
| "log_step_run limit plen w TakeHistory = w\<lparr>lw_copy := Some (get_history (lw_store w))\<rparr>"
| "log_step_run limit plen w Subscribe = w\<lparr>lw_live := Some []\<rparr>"

definition reader_sees :: "'p log_world \<Rightarrow> 'p log_msg list" where
  \<comment> \<open>\<open>hist.chain(live)\<close>\<close>
  "reader_sees w = unwrap_or (lw_copy w) [] @ unwrap_or (lw_live w) []"

definition comes_before :: "'a \<Rightarrow> 'a \<Rightarrow> 'a list \<Rightarrow> bool" where
  "comes_before a b xs = (b \<in> set xs \<longrightarrow> a \<in> set (takeWhile (\<lambda>x. x \<noteq> b) xs))"

definition code_order :: "'p log_step list \<Rightarrow> bool" where
  \<comment> \<open>the orders that the code allows: every message is sent before it is entered, each once, and
    the reader copies before it subscribes, once\<close>
  "code_order tr =
     (distinct tr \<and> comes_before TakeHistory Subscribe tr \<and>
      (\<forall>s \<in> set tr. case s of EnterHistory m \<Rightarrow> comes_before (SendLive m) s tr | _ \<Rightarrow> True))"

end
