(* ===== verification/Msg_Store_Props.thy ===== *)
theory Msg_Store_Props
  imports Msg_Store "HOL-Library.Sublist"
begin

text \<open>
  What the log store guarantees: the byte accounting and the bound of the history, what
  eviction keeps, and what a reader that joins a running process sees.
\<close>

section \<open>Eviction\<close>

definition stored_bytes :: "('p log_msg \<times> nat) list \<Rightarrow> nat" where
  "stored_bytes h = sum_list (map snd h)"

lemma evict_result:
  assumes "evict limit bytes h tot = (h', tot')"
  shows "subseq h' h \<and>
    List.find (is_sentinel \<circ> fst) h' = List.find (is_sentinel \<circ> fst) h \<and>
    (tot = stored_bytes h \<longrightarrow> tot' = stored_bytes h') \<and>
    (sat_add tot' bytes \<le> limit \<or> (length h' \<le> 1 \<and> (\<forall>r \<in> set h'. is_sentinel (fst r))))"
  using assms
proof (induction limit bytes h tot rule: evict.induct)
  case (1 limit bytes h tot)
  show ?case
  proof (cases "limit < sat_add tot bytes")
    case False
    then show ?thesis using "1.prems" by (simp add: evict.simps)
  next
    case over: True
    show ?thesis
    proof (cases h)
      case Nil
      then show ?thesis using "1.prems" over by (simp add: evict.simps)
    next
      case (Cons front rest)
      show ?thesis
      proof (cases "is_sentinel (fst front)")
        case False
        then have "evict limit bytes rest (tot - snd front) = (h', tot')"
          using "1.prems" over Cons by (subst (asm) evict.simps) simp
        from "1.IH"(2) [OF over Cons False this] show ?thesis
          using Cons False by (auto simp: stored_bytes_def intro: subseq_Cons')
      next
        case sent: True
        show ?thesis
        proof (cases rest)
          case Nil
          then have "h' = [front]" "tot' = tot"
            using "1.prems" over Cons sent by (simp_all add: evict.simps)
          then show ?thesis using Cons Nil sent by simp
        next
          case (Cons removed rest')
          then have "evict limit bytes (front # rest') (tot - snd removed) = (h', tot')"
            using "1.prems" over \<open>h = front # rest\<close> sent by (subst (asm) evict.simps) simp
          from "1.IH"(1) [OF over \<open>h = front # rest\<close> sent Cons this] show ?thesis
            using Cons \<open>h = front # rest\<close> sent
            by (auto simp: stored_bytes_def intro: subseq_order.trans [of _ "front # rest'"])
        qed
      qed
    qed
  qed
qed

section \<open>One push\<close>

definition store_ok :: "('p \<Rightarrow> nat) \<Rightarrow> 'p msg_store \<Rightarrow> bool" where
  "store_ok plen st =
     (ms_total_bytes st = stored_bytes (ms_history st) \<and>
      (\<forall>r \<in> set (ms_history st). snd r = approx_bytes plen (fst r)))"

lemma find_map: "List.find P (map f xs) = map_option f (List.find (P \<circ> f) xs)"
  by (induction xs) auto

lemma find_append: "List.find P (xs @ ys) = (case List.find P xs of None \<Rightarrow> List.find P ys | Some x \<Rightarrow> Some x)"
  by (induction xs) auto

lemma sentinel_bytes: "is_sentinel m \<Longrightarrow> approx_bytes plen m \<le> 16"
  by (cases m) (auto simp: is_sentinel_def)

lemma push_history:
  "subseq (get_history (push_within limit plen m st)) (get_history st @ [m])"
  "last (get_history (push_within limit plen m st)) = m"
  "get_history (push_within limit plen m st) \<noteq> []"
  "List.find is_sentinel (get_history (push_within limit plen m st))
     = List.find is_sentinel (get_history st @ [m])"
proof -
  obtain h tot where e: "evict limit (approx_bytes plen m) (ms_history st) (ms_total_bytes st) = (h, tot)"
    by fastforce
  then have new: "get_history (push_within limit plen m st) = map fst h @ [m]"
    by (simp add: push_within_def get_history_def Let_def)
  note r = evict_result [OF e]
  show "subseq (get_history (push_within limit plen m st)) (get_history st @ [m])"
    using r by (simp add: new get_history_def [of st] subseq_map)
  show "last (get_history (push_within limit plen m st)) = m"
    "get_history (push_within limit plen m st) \<noteq> []" by (simp_all add: new)
  show "List.find is_sentinel (get_history (push_within limit plen m st))
     = List.find is_sentinel (get_history st @ [m])"
    using r by (simp add: new get_history_def [of st] find_append find_map)
qed

lemma push_accounts:
  assumes ok: "store_ok plen st" and small: "approx_bytes plen m \<le> 2 ^ 63" and lim: "limit \<le> 2 ^ 63"
  shows "store_ok plen (push_within limit plen m st)"
    "ms_total_bytes (push_within limit plen m st) \<le> limit \<or> length (ms_history (push_within limit plen m st)) \<le> 2"
proof -
  let ?b = "approx_bytes plen m"
  obtain h tot where e: "evict limit ?b (ms_history st) (ms_total_bytes st) = (h, tot)" by fastforce
  note r = evict_result [OF e]
  have tot: "tot = stored_bytes h" using r ok by (simp add: store_ok_def)
  have rows: "\<forall>x \<in> set h. snd x = approx_bytes plen (fst x)"
    using r ok by (auto simp: store_ok_def dest: list_emb_set)
  have new: "ms_history (push_within limit plen m st) = h @ [(m, ?b)]"
    "ms_total_bytes (push_within limit plen m st) = sat_add tot ?b"
    by (simp_all add: push_within_def e Let_def)
  have "tot + ?b \<le> usize_max"
  proof (cases "sat_add tot ?b \<le> limit")
    case True
    then show ?thesis using lim by (auto simp: sat_add_def usize_max_def min_def split: if_splits)
  next
    case False
    then have "length h \<le> 1" "\<forall>x \<in> set h. is_sentinel (fst x)" using r by auto
    then have "stored_bytes h \<le> 16"
      using rows sentinel_bytes by (cases h) (fastforce simp: stored_bytes_def)+
    then show ?thesis using small by (simp add: tot usize_max_def)
  qed
  then have "sat_add tot ?b = stored_bytes (h @ [(m, ?b)])"
    by (simp add: sat_add_def stored_bytes_def tot)
  then show "store_ok plen (push_within limit plen m st)"
    using rows by (auto simp: store_ok_def new)
  show "ms_total_bytes (push_within limit plen m st) \<le> limit \<or> length (ms_history (push_within limit plen m st)) \<le> 2"
    using r by (auto simp: new)
qed

section \<open>Any sequence of messages\<close>

definition push_all :: "nat \<Rightarrow> ('p \<Rightarrow> nat) \<Rightarrow> 'p msg_store \<Rightarrow> 'p log_msg list \<Rightarrow> 'p msg_store" where
  "push_all limit plen st ms = foldl (\<lambda>st m. push_within limit plen m st) st ms"

lemma push_all_snoc: "push_all limit plen st (ms @ [m]) = push_within limit plen m (push_all limit plen st ms)"
  by (simp add: push_all_def)

lemma push_all_history:
  "subseq (get_history (push_all limit plen msg_store_new ms)) ms \<and>
   (ms \<noteq> [] \<longrightarrow> last (get_history (push_all limit plen msg_store_new ms)) = last ms) \<and>
   List.find is_sentinel (get_history (push_all limit plen msg_store_new ms)) = List.find is_sentinel ms"
proof (induction ms rule: rev_induct)
  case Nil
  show ?case by (simp add: push_all_def msg_store_new_def get_history_def)
next
  case (snoc m ms)
  let ?st = "push_all limit plen msg_store_new ms"
  have "subseq (get_history ?st @ [m]) (ms @ [m])" using snoc by simp
  then have "subseq (get_history (push_within limit plen m ?st)) (ms @ [m])"
    using push_history(1) subseq_order.trans by blast
  then show ?case
    using snoc push_history(2,4) [of limit plen m ?st] by (simp add: push_all_snoc find_append)
qed

lemma push_all_accounts:
  assumes "\<forall>m \<in> set ms. approx_bytes plen m \<le> 2 ^ 63" "limit \<le> 2 ^ 63"
  shows "store_ok plen (push_all limit plen msg_store_new ms) \<and>
    (ms_total_bytes (push_all limit plen msg_store_new ms) \<le> limit \<or>
     length (ms_history (push_all limit plen msg_store_new ms)) \<le> 2)"
  using assms
proof (induction ms rule: rev_induct)
  case Nil
  show ?case by (simp add: push_all_def msg_store_new_def store_ok_def stored_bytes_def)
next
  case (snoc m ms)
  then show ?case using push_accounts [of plen "push_all limit plen msg_store_new ms" m limit]
    by (simp add: push_all_snoc)
qed

section \<open>A reader that joins\<close>

lemma distinct_subseq: "subseq xs ys \<Longrightarrow> distinct ys \<Longrightarrow> distinct xs"
  by (metis distinct_nthsI subseq_conv_nths)

lemma comes_before_snoc: "comes_before a b (xs @ [x]) \<Longrightarrow> comes_before a b xs"
  by (auto simp: comes_before_def takeWhile_append1 split: if_splits)

lemma takeWhile_prefix: "b \<in> set xs \<Longrightarrow> takeWhile (\<lambda>x. x \<noteq> b) (xs @ ys) = takeWhile (\<lambda>x. x \<noteq> b) xs"
  by (rule takeWhile_append1) auto

lemma code_order_snoc:
  assumes "code_order (tr @ [s])"
  shows "code_order tr" "s \<notin> set tr"
    "\<And>m. s = EnterHistory m \<Longrightarrow> SendLive m \<in> set tr" "s = Subscribe \<Longrightarrow> TakeHistory \<in> set tr"
proof -
  have before: "comes_before a b tr" if "comes_before a b (tr @ [s])" for a b
    using comes_before_snoc that .
  show "code_order tr"
    using assms before unfolding code_order_def by (auto split: log_step.splits)
  show new: "s \<notin> set tr" using assms by (simp add: code_order_def)
  show "SendLive m \<in> set tr" if "s = EnterHistory m" for m
    using assms that new by (auto simp: code_order_def comes_before_def dest: set_takeWhileD split: if_splits)
  show "TakeHistory \<in> set tr" if "s = Subscribe"
    using assms that new by (auto simp: code_order_def comes_before_def dest: set_takeWhileD split: if_splits)
qed

definition reader_inv :: "'p log_step list \<Rightarrow> 'p log_world \<Rightarrow> bool" where
  "reader_inv tr w =
     (distinct (get_history (lw_store w)) \<and>
      (\<forall>m \<in> set (get_history (lw_store w)). EnterHistory m \<in> set tr) \<and>
      (\<forall>h \<in> set_option (lw_copy w). distinct h \<and> TakeHistory \<in> set tr \<and> (\<forall>m \<in> set h. EnterHistory m \<in> set tr)) \<and>
      (\<forall>l \<in> set_option (lw_live w). distinct l \<and> Subscribe \<in> set tr \<and> (\<forall>m \<in> set l. SendLive m \<in> set tr)) \<and>
      (\<forall>h \<in> set_option (lw_copy w). \<forall>l \<in> set_option (lw_live w). set h \<inter> set l = {}))"

lemma entered_was_sent:
  "code_order tr \<Longrightarrow> EnterHistory m \<in> set tr \<Longrightarrow> SendLive m \<in> set tr"
  by (fastforce simp: code_order_def comes_before_def dest: set_takeWhileD)

lemma reader_inv_step:
  assumes ord: "code_order (tr @ [s])" and inv: "reader_inv tr w"
  shows "reader_inv (tr @ [s]) (log_step_run limit plen w s)"
proof (cases s)
  case (SendLive m)
  have "SendLive m \<notin> set tr" "code_order tr" using code_order_snoc [OF ord] SendLive by auto
  then have "EnterHistory m \<notin> set tr" using entered_was_sent by blast
  then show ?thesis using inv SendLive \<open>SendLive m \<notin> set tr\<close> by (fastforce simp: reader_inv_def)
next
  case (EnterHistory m)
  have new: "EnterHistory m \<notin> set tr" using code_order_snoc(2) [OF ord] EnterHistory by simp
  let ?h = "get_history (lw_store w)" and ?h' = "get_history (push_within limit plen m (lw_store w))"
  have "distinct (?h @ [m])" using inv new by (auto simp: reader_inv_def)
  moreover have sub: "subseq ?h' (?h @ [m])" by (rule push_history(1))
  ultimately have "distinct ?h'" by (rule distinct_subseq [rotated])
  moreover have "set ?h' \<subseteq> set (?h @ [m])" using sub by (metis set_nths_subset subseq_conv_nths)
  then have "set ?h' \<subseteq> insert m (set ?h)" by simp
  moreover have "\<forall>x \<in> insert m (set ?h). EnterHistory x \<in> set (tr @ [s])"
    using inv EnterHistory by (auto simp: reader_inv_def)
  ultimately have "distinct ?h' \<and> (\<forall>x \<in> set ?h'. EnterHistory x \<in> set (tr @ [s]))" by blast
  moreover have "log_step_run limit plen w s = w\<lparr>lw_store := push_within limit plen m (lw_store w)\<rparr>"
    by (simp add: EnterHistory)
  ultimately show ?thesis using inv by (simp add: reader_inv_def)
next
  case TakeHistory
  have "TakeHistory \<notin> set tr" "code_order tr" using code_order_snoc [OF ord] TakeHistory by auto
  then have "Subscribe \<notin> set tr" by (auto simp: code_order_def comes_before_def dest: set_takeWhileD)
  then have "lw_live w = None" using inv by (cases "lw_live w") (auto simp: reader_inv_def)
  then show ?thesis using inv TakeHistory by (auto simp: reader_inv_def)
next
  case Subscribe
  then show ?thesis using inv by (auto simp: reader_inv_def)
qed

lemma reader_inv_run:
  "code_order tr \<Longrightarrow> reader_inv tr (foldl (log_step_run limit plen) log_world_new tr)"
proof (induction tr rule: rev_induct)
  case Nil
  show ?case by (simp add: reader_inv_def log_world_new_def msg_store_new_def get_history_def)
next
  case (snoc s tr)
  then show ?case using code_order_snoc(1) [OF snoc.prems] reader_inv_step by fastforce
qed

subsection \<open>What a reader can miss\<close>

definition entered :: "'p log_step list \<Rightarrow> 'p log_msg list" where
  "entered tr = List.map_filter (\<lambda>s. case s of EnterHistory m \<Rightarrow> Some m | _ \<Rightarrow> None) tr"

lemma entered_snoc:
  "entered (tr @ [s]) = entered tr @ (case s of EnterHistory m \<Rightarrow> [m] | _ \<Rightarrow> [])"
  by (simp add: entered_def map_filter_def split: log_step.split)

lemma set_entered: "m \<in> set (entered tr) \<longleftrightarrow> EnterHistory m \<in> set tr"
  by (induction tr rule: rev_induct) (auto simp: entered_snoc entered_def [of "[]"] map_filter_def split: log_step.splits)

lemma store_of_run:
  "lw_store (foldl (log_step_run limit plen) log_world_new tr) = push_all limit plen msg_store_new (entered tr)"
proof (induction tr rule: rev_induct)
  case Nil
  show ?case by (simp add: log_world_new_def entered_def map_filter_def push_all_def)
next
  case (snoc s tr)
  then show ?case by (cases s) (simp_all add: entered_snoc push_all_snoc)
qed

lemma nothing_evicted:
  assumes "sum_list (map (approx_bytes plen) ms) \<le> limit" "limit \<le> 2 ^ 63"
  shows "get_history (push_all limit plen msg_store_new ms) = ms \<and>
    ms_total_bytes (push_all limit plen msg_store_new ms) = sum_list (map (approx_bytes plen) ms)"
  using assms
proof (induction ms rule: rev_induct)
  case Nil
  show ?case by (simp add: push_all_def msg_store_new_def get_history_def)
next
  case (snoc m ms)
  let ?st = "push_all limit plen msg_store_new ms" and ?b = "approx_bytes plen m"
  have ih: "get_history ?st = ms" "ms_total_bytes ?st = sum_list (map (approx_bytes plen) ms)"
    using snoc by simp_all
  have fits: "ms_total_bytes ?st + ?b \<le> limit" using snoc.prems(1) ih(2) by simp
  then have "sat_add (ms_total_bytes ?st) ?b = ms_total_bytes ?st + ?b"
    using snoc.prems(2) by (simp add: sat_add_def usize_max_def)
  then show ?case
    using fits ih by (simp add: push_all_snoc push_within_def Let_def evict.simps get_history_def)
qed

lemma takeWhile_snoc:
  "takeWhile (\<lambda>x. x \<noteq> b) (xs @ [s]) = (if b \<in> set xs then takeWhile (\<lambda>x. x \<noteq> b) xs
     else if s = b then xs else xs @ [s])"
  by (induction xs) auto

lemma copy_of_run:
  assumes "TakeHistory \<in> set tr" "distinct tr"
  shows "lw_copy (foldl (log_step_run limit plen) log_world_new tr) =
    Some (get_history (push_all limit plen msg_store_new (entered (takeWhile (\<lambda>s. s \<noteq> TakeHistory) tr))))"
  using assms
proof (induction tr rule: rev_induct)
  case (snoc s tr)
  show ?case
  proof (cases "TakeHistory \<in> set tr")
    case True
    then have "s \<noteq> TakeHistory" using snoc.prems by auto
    then show ?thesis using True snoc by (cases s) (simp_all add: takeWhile_snoc)
  next
    case False
    then show ?thesis using snoc.prems by (simp add: takeWhile_snoc store_of_run)
  qed
qed simp

lemma live_of_run:
  assumes "Subscribe \<in> set tr" "distinct tr"
  shows "\<exists>l. lw_live (foldl (log_step_run limit plen) log_world_new tr) = Some l \<and>
    (\<forall>m. SendLive m \<in> set tr \<longrightarrow> SendLive m \<notin> set (takeWhile (\<lambda>s. s \<noteq> Subscribe) tr) \<longrightarrow> m \<in> set l)"
  using assms
proof (induction tr rule: rev_induct)
  case (snoc s tr)
  show ?case
  proof (cases "Subscribe \<in> set tr")
    case True
    then have "s \<noteq> Subscribe" using snoc.prems by auto
    then show ?thesis using True snoc by (cases s) (auto simp: takeWhile_snoc)
  next
    case False
    then show ?thesis using snoc.prems by (auto simp: takeWhile_snoc)
  qed
qed simp

lemma count_list_distinct_le: "distinct xs \<Longrightarrow> count_list xs x \<le> 1"
  by (induction xs) (auto simp: count_list_0_iff)

lemma one_comes_first:
  "a \<in> set xs \<Longrightarrow> a \<notin> set (takeWhile (\<lambda>x. x \<noteq> b) xs) \<Longrightarrow> a \<noteq> b \<Longrightarrow> comes_before b a xs"
  by (induction xs) (auto simp: comes_before_def split: if_splits)

section \<open>Properties\<close>



text \<open>a reader that joins a running process sees no message twice, whatever the writers do
  meanwhile; and as long as nothing was evicted, the only messages it misses are those that
  were sent before it subscribed and entered the history after it had taken its copy.\<close>

theorem reader_sees_at_most_once:
  fixes limit :: nat and plen :: "'p \<Rightarrow> nat" and tr :: "'p log_step list" and m :: "'p log_msg"
  assumes ord: "code_order tr"
  defines "w \<equiv> foldl (log_step_run limit plen) log_world_new tr"
  shows "count_list (reader_sees w) m \<le> 1 \<and>
    (TakeHistory \<in> set tr \<and> Subscribe \<in> set tr \<and> EnterHistory m \<in> set tr \<and> limit \<le> 2 ^ 63 \<and>
     sum_list (map (approx_bytes plen) (entered tr)) \<le> limit \<and> m \<notin> set (reader_sees w) \<longrightarrow>
       comes_before (SendLive m) Subscribe tr \<and> comes_before TakeHistory (EnterHistory m) tr)"
proof -
  have dist: "distinct tr" using ord by (simp add: code_order_def)
  have inv: "reader_inv tr w" unfolding w_def by (rule reader_inv_run [OF ord])
  then have "distinct (reader_sees w)"
    by (auto simp: reader_inv_def reader_sees_def unwrap_or_def split: option.splits)
  then have once: "count_list (reader_sees w) m \<le> 1" by (rule count_list_distinct_le)
  have gap: "comes_before (SendLive m) Subscribe tr \<and> comes_before TakeHistory (EnterHistory m) tr"
    if tr: "TakeHistory \<in> set tr" "Subscribe \<in> set tr" "EnterHistory m \<in> set tr" "limit \<le> 2 ^ 63"
      and small: "sum_list (map (approx_bytes plen) (entered tr)) \<le> limit"
      and missed: "m \<notin> set (reader_sees w)"
  proof
    let ?pre = "takeWhile (\<lambda>s. s \<noteq> TakeHistory) tr"
    obtain post where post: "tr = ?pre @ post" by (metis takeWhile_dropWhile_id)
    have "entered tr = entered ?pre @ entered post"
      using post by (metis entered_def map_filter_def filter_append map_append)
    then have "sum_list (map (approx_bytes plen) (entered ?pre)) \<le> limit" using small by simp
    from nothing_evicted [OF this tr(4)] copy_of_run [OF tr(1) dist, of limit plen]
    have "lw_copy w = Some (entered ?pre)" by (simp add: w_def)
    then have "EnterHistory m \<notin> set ?pre"
      using missed by (auto simp: reader_sees_def unwrap_or_def set_entered)
    then show "comes_before TakeHistory (EnterHistory m) tr" using one_comes_first [OF tr(3)] by simp
    obtain l where "lw_live w = Some l"
      "SendLive m \<in> set tr \<longrightarrow> SendLive m \<notin> set (takeWhile (\<lambda>s. s \<noteq> Subscribe) tr) \<longrightarrow> m \<in> set l"
      using live_of_run [OF tr(2) dist, of limit plen] unfolding w_def by blast
    then show "comes_before (SendLive m) Subscribe tr"
      using missed entered_was_sent [OF ord tr(3)] by (auto simp: comes_before_def reader_sees_def unwrap_or_def)
  qed
  show ?thesis using once gap by blast
qed

theorem reader_sees_at_most_once_witness:
  "let tr = [SendLive (Stdout ''a''), EnterHistory (Stdout ''a''), TakeHistory, Subscribe, SendLive Finished,
             EnterHistory (Finished :: unit log_msg)];
       w = foldl (log_step_run 1000 (\<lambda>_. 2)) log_world_new tr in
   code_order tr \<and> count_list (reader_sees w) Finished \<le> 1"
proof -
  let ?tr = "[SendLive (Stdout ''a''), EnterHistory (Stdout ''a''), TakeHistory, Subscribe, SendLive Finished,
             EnterHistory (Finished :: unit log_msg)]"
  have "code_order ?tr" by code_simp
  with reader_sees_at_most_once [OF this, of 1000 "\<lambda>_. 2" Finished] show ?thesis by (simp add: Let_def)
qed

text \<open>a message that is sent before the reader subscribes and enters the history after the
  reader has copied it is lost for that reader: here this is \<open>Finished\<close>, and the reader waits
  for a message that never comes.\<close>

theorem reader_may_miss:
  "let tr = [SendLive (Stdout ''a''), EnterHistory (Stdout ''a''), SendLive Finished, TakeHistory,
             EnterHistory (Finished :: unit log_msg), Subscribe];
       w = foldl (log_step_run history_bytes (\<lambda>_. 2)) log_world_new tr in
   code_order tr \<and> reader_sees w = [Stdout ''a''] \<and>
   snd (stdio_chunked_stream True [Stdout ''a''] (unwrap_or (lw_copy w) []) (unwrap_or (lw_live w) [])) = False"
proof -
  have "code_order [SendLive (Stdout ''a''), EnterHistory (Stdout ''a''), SendLive Finished, TakeHistory,
          EnterHistory (Finished :: unit log_msg), Subscribe]" by code_simp
  then show ?thesis
    by (simp add: Let_def log_world_new_def msg_store_new_def push_within_def evict.simps sat_add_def
        usize_max_def history_bytes_def get_history_def reader_sees_def unwrap_or_def stdio_chunked_stream_def)
qed

text \<open>only the first sentinel is safe from eviction: once \<open>Ready\<close> heads the history, a large
  message evicts what follows it, \<open>Finished\<close> included, and a reader that comes later never
  sees the end of the stream.\<close>

theorem second_sentinel_evicted:
  "get_history (foldl (\<lambda>st m. push_within 60 (\<lambda>_. 2) m st) msg_store_new
     [Ready, Finished, Stdout ''0123456789012345678901234567890123456789'' :: unit log_msg])
   = [Ready, Stdout ''0123456789012345678901234567890123456789'']"
  by (simp add: msg_store_new_def push_within_def evict.simps sat_add_def usize_max_def get_history_def
      is_sentinel_def)

text \<open>readers that join at different times get the same output: whatever part of a finished
  run was history and whatever part arrived live, the chunks are those of the finished history
  (as long as nothing was evicted or missed).\<close>

theorem readers_agree:
  assumes "Finished \<in> set ms" "ms = history @ live"
  shows "stdio_chunked_stream stdout history history live = stdio_chunked_stream stdout ms ms []"
  using assms by (auto simp: stdio_chunked_stream_def takeWhile_append)

theorem readers_agree_witness:
  "stdio_chunked_stream True [Ready, Stdout ''a''] [Ready, Stdout ''a''] [Stderr ''x'', Stdout ''b'', Finished :: unit log_msg]
   = ([''a'', ''b''], True)"
proof -
  let ?h = "[Ready, Stdout ''a'']" and ?l = "[Stderr ''x'', Stdout ''b'', Finished :: unit log_msg]"
  have "Finished \<in> set (?h @ ?l)" by simp
  from readers_agree [OF this refl, of True]
  show ?thesis by (simp add: stdio_chunked_stream_def map_filter_def std_chunk_def)
qed

end
