(* ===== verification/Dc_Fragment.thy ===== *)
theory Dc_Fragment
  imports "HOL-Library.Word" Vk_Prelude
begin

unbundle bit_operations_syntax

text \<open>
  The fragmentation of data channel messages in crates/relay-webrtc/src/fragment.rs: \<open>fragment\<close>
  cuts a message into chunks with a one-byte header, \<open>process\<close> is \<open>Defragmenter::process\<close>, whose
  state is the buffer. The chunks of a reliable, ordered channel arrive in the order they were
  sent; \<open>feed\<close> is the defragmenter over a sequence of them. The lemmas show that messages come
  out as they went in, how large chunks get, and that the state machine computes the messages
  of a declarative specification of the protocol.
\<close>

type_synonym byte = "8 word"

section \<open>Cutting a message\<close>

definition chunk_payload_size :: nat where
  "chunk_payload_size = 60 * 1024"

definition bitfield_more :: byte where
  "bitfield_more = 0b00000110"

definition bitfield_end :: byte where
  "bitfield_end = 0b00000111"

function chunks :: "nat \<Rightarrow> 'a list \<Rightarrow> 'a list list" where
  \<comment> \<open>\<open>slice::chunks\<close>, which panics for size 0\<close>
  "chunks n xs = (if n = 0 \<or> xs = [] then [] else take n xs # chunks n (drop n xs))"
  by pat_completeness auto
termination by (relation "measure (\<lambda>(n, xs). length xs)") auto

declare chunks.simps [simp del]

definition fragment :: "byte list \<Rightarrow> byte list list" where
  "fragment data =
     (if length data \<le> chunk_payload_size then [bitfield_end # data]
      else (let pieces = chunks chunk_payload_size data; last_idx = length pieces - 1 in
            map (\<lambda>(i, payload). (if i = last_idx then bitfield_end else bitfield_more) # payload)
              (enumerate 0 pieces)))"

section \<open>Putting it together again\<close>

definition is_end :: "byte \<Rightarrow> bool" where
  "is_end header = (header AND 1 \<noteq> 0)"

definition process :: "byte list \<Rightarrow> byte list \<Rightarrow> byte list option \<times> byte list" where
  \<comment> \<open>the buffer before, the chunk; the result and the buffer after\<close>
  "process buffer data =
     (case data of
        [] \<Rightarrow> (None, buffer)
      | header # payload \<Rightarrow>
          (if buffer = [] \<and> is_end header then (Some payload, buffer)
           else (let buffer' = buffer @ payload in
                 if is_end header then (Some buffer', []) else (None, buffer'))))"

fun feed :: "byte list \<Rightarrow> byte list list \<Rightarrow> byte list list \<times> byte list" where
  "feed buffer [] = ([], buffer)"
| "feed buffer (c # cs) =
     (case process buffer c of
        (None, b) \<Rightarrow> feed b cs
      | (Some m, b) \<Rightarrow> (case feed b cs of (ms, b') \<Rightarrow> (m # ms, b')))"

section \<open>Chunks\<close>

lemma chunks_Nil [simp]: "chunks n [] = []"
  by (simp add: chunks.simps)

lemma chunks_step: "0 < n \<Longrightarrow> xs \<noteq> [] \<Longrightarrow> chunks n xs = take n xs # chunks n (drop n xs)"
  by (subst chunks.simps) simp

lemma concat_chunks: "0 < n \<Longrightarrow> concat (chunks n xs) = xs"
  by (induction n xs rule: chunks.induct) (metis append_take_drop_id chunks_Nil chunks_step
      concat.simps(2) less_numeral_extra(3) concat.simps(1))

lemma chunks_length: "p \<in> set (chunks n xs) \<Longrightarrow> length p \<le> n \<and> p \<noteq> []"
proof (induction n xs rule: chunks.induct)
  case (1 n xs)
  show ?case
  proof (cases "n = 0 \<or> xs = []")
    case True
    then show ?thesis using 1(2) by (subst (asm) chunks.simps) simp
  next
    case False
    then show ?thesis using 1 by (subst (asm) (2) chunks.simps) auto
  qed
qed

lemma number_of_chunks: "0 < n \<Longrightarrow> length (chunks n xs) = (length xs + n - 1) div n"
proof (induction n xs rule: chunks.induct)
  case (1 n xs)
  show ?case
  proof (cases "xs = []")
    case False
    with 1 have "length (chunks n xs) = Suc ((length xs - n + n - 1) div n)"
      by (simp add: chunks_step)
    also have "\<dots> = (length xs + n - 1) div n"
    proof (cases "n \<le> length xs")
      case True
      then have "length xs + n - 1 = (length xs - n + n - 1) + n" using 1(2) by simp
      then show ?thesis using 1(2) by (metis add.commute div_add_self2 less_not_refl2 plus_1_eq_Suc)
    next
      case F: False
      have sum: "length xs + n - 1 = n + (length xs - 1)" using \<open>xs \<noteq> []\<close> by (cases xs) auto
      have "(length xs + n - 1) div n = Suc ((length xs - 1) div n)"
        unfolding sum using 1(2) div_add_self1 [of n "length xs - 1"] by simp
      moreover have "(length xs - 1) div n = 0" "(length xs - n + n - 1) div n = 0"
        using F 1(2) by auto
      ultimately show ?thesis by simp
    qed
    finally show ?thesis .
  qed (use 1 in simp)
qed

section \<open>Fragments\<close>

lemma chunk_size_pos [simp]: "0 < chunk_payload_size"
  by (simp add: chunk_payload_size_def)

lemma end_bits [simp]: "is_end bitfield_end" "\<not> is_end bitfield_more"
  "bitfield_end AND 0b11111000 = 0" "bitfield_more AND 0b11111000 = 0"
  by (simp_all add: is_end_def bitfield_end_def bitfield_more_def)

fun frame_pieces :: "byte list list \<Rightarrow> byte list list" where
  \<comment> \<open>every piece with its header, the last one with the end header\<close>
  "frame_pieces [] = []"
| "frame_pieces [p] = [bitfield_end # p]"
| "frame_pieces (p # q # ps) = (bitfield_more # p) # frame_pieces (q # ps)"

lemma enumerate_frames:
  "ps \<noteq> [] \<Longrightarrow> map (\<lambda>(i, p). (if i = k + length ps - 1 then bitfield_end else bitfield_more) # p) (enumerate k ps)
     = frame_pieces ps"
proof (induction ps arbitrary: k rule: frame_pieces.induct)
  case (3 p q ps)
  have "map (\<lambda>(i, p). (if i = Suc k + length (q # ps) - 1 then bitfield_end else bitfield_more) # p)
      (enumerate (Suc k) (q # ps)) = frame_pieces (q # ps)" by (rule 3) simp
  then show ?case by simp
qed simp_all

lemma fragment_pieces:
  "fragment data = frame_pieces (if length data \<le> chunk_payload_size then [data] else chunks chunk_payload_size data)"
proof (cases "length data \<le> chunk_payload_size")
  case False
  then have "data \<noteq> []" by auto
  then have "chunks chunk_payload_size data \<noteq> []" by (simp add: chunks_step)
  then show ?thesis
    using False enumerate_frames [of "chunks chunk_payload_size data" 0] by (simp add: fragment_def Let_def)
qed (simp add: fragment_def)

lemma frame_pieces_nonempty: "frame_pieces ps = [] \<longleftrightarrow> ps = []"
  by (cases ps rule: frame_pieces.cases) auto

text \<open>One message through the defragmenter, whatever follows it.\<close>

lemma feed_cons_end: "feed b ((bitfield_end # p) # cs) = (case feed [] cs of (ms, b') \<Rightarrow> ((b @ p) # ms, b'))"
  by (cases "b = []") (simp_all add: process_def)

lemma feed_frames:
  "ps \<noteq> [] \<Longrightarrow> feed b (frame_pieces ps @ cs) = (case feed [] cs of (ms, b') \<Rightarrow> ((b @ concat ps) # ms, b'))"
proof (induction ps arbitrary: b rule: frame_pieces.induct)
  case (2 p)
  then show ?case using feed_cons_end [of b p cs] by simp
next
  case (3 p q ps)
  have "feed b (frame_pieces (p # q # ps) @ cs) = feed (b @ p) (frame_pieces (q # ps) @ cs)"
    by (simp add: process_def)
  also have "\<dots> = (case feed [] cs of (ms, b') \<Rightarrow> (((b @ p) @ concat (q # ps)) # ms, b'))"
    by (rule 3) simp
  finally show ?case by simp
qed simp

lemma concat_fragment_pieces:
  "concat (if length data \<le> chunk_payload_size then [data] else chunks chunk_payload_size data) = data"
  by (simp add: concat_chunks)

lemma feed_fragment:
  "feed [] (fragment data @ cs) = (case feed [] cs of (ms, b') \<Rightarrow> (data # ms, b'))"
proof -
  let ?ps = "if length data \<le> chunk_payload_size then [data] else chunks chunk_payload_size data"
  have "?ps \<noteq> []" using chunks_step [OF chunk_size_pos, of data] by (cases data) auto
  then show ?thesis
    using feed_frames [of ?ps "[]" cs] concat_fragment_pieces [of data] by (simp add: fragment_pieces)
qed

section \<open>The protocol as a specification\<close>

text \<open>
  A declarative reading of the chunk protocol: empty chunks are ignored, the payloads up to and
  including the first chunk with the end bit are one message. \<open>spec_messages\<close> needs no state and
  knows no shortcut for messages of one chunk.
\<close>

definition payloads :: "byte list list \<Rightarrow> byte list" where
  "payloads cs = concat (map tl cs)"

function spec_messages :: "byte list list \<Rightarrow> byte list list" where
  "spec_messages cs =
     (case dropWhile (\<lambda>c. \<not> is_end (hd c)) (filter (\<lambda>c. c \<noteq> []) cs) of
        [] \<Rightarrow> []
      | c # rest \<Rightarrow> payloads (takeWhile (\<lambda>c. \<not> is_end (hd c)) (filter (\<lambda>c. c \<noteq> []) cs) @ [c]) # spec_messages rest)"
  by pat_completeness auto
termination
proof (relation "measure length")
  fix cs c rest assume "dropWhile (\<lambda>c. \<not> is_end (hd c)) (filter (\<lambda>c. c \<noteq> []) cs) = c # rest"
  then have "length (c # rest) \<le> length cs"
    by (metis length_dropWhile_le length_filter_le order_trans)
  then show "(rest, cs) \<in> measure length" by simp
qed simp

declare spec_messages.simps [simp del]

lemma process_empty [simp]: "process b [] = (None, b)"
  by (simp add: process_def)

lemma feed_filter: "feed b (filter (\<lambda>c. c \<noteq> []) cs) = feed b cs"
  by (induction cs arbitrary: b) (auto split: prod.splits option.splits)

lemma feed_until_end:
  assumes "\<forall>c \<in> set cs. c \<noteq> []"
  shows "feed b cs = (case dropWhile (\<lambda>c. \<not> is_end (hd c)) cs of
      [] \<Rightarrow> ([], b @ payloads cs)
    | c # rest \<Rightarrow> (case feed [] rest of (ms, b') \<Rightarrow>
        ((b @ payloads (takeWhile (\<lambda>c. \<not> is_end (hd c)) cs @ [c])) # ms, b')))"
  using assms
proof (induction cs arbitrary: b)
  case (Cons c cs)
  then obtain h p where c: "c = h # p" by (cases c) auto
  show ?case
  proof (cases "is_end h")
    case True
    then show ?thesis by (cases "b = []") (simp_all add: c process_def payloads_def)
  next
    case False
    then have "feed b (c # cs) = feed (b @ p) cs" by (simp add: c process_def)
    also have "\<dots> = (case dropWhile (\<lambda>c. \<not> is_end (hd c)) cs of
        [] \<Rightarrow> ([], (b @ p) @ payloads cs)
      | c # rest \<Rightarrow> (case feed [] rest of (ms, b') \<Rightarrow>
          (((b @ p) @ payloads (takeWhile (\<lambda>c. \<not> is_end (hd c)) cs @ [c])) # ms, b')))"
      using Cons by simp
    finally have step: "feed b (c # cs) = (case dropWhile (\<lambda>c. \<not> is_end (hd c)) cs of
        [] \<Rightarrow> ([], (b @ p) @ payloads cs)
      | c # rest \<Rightarrow> (case feed [] rest of (ms, b') \<Rightarrow>
          (((b @ p) @ payloads (takeWhile (\<lambda>c. \<not> is_end (hd c)) cs @ [c])) # ms, b')))" .
    show ?thesis
      unfolding step using False
      by (cases "dropWhile (\<lambda>c. \<not> is_end (hd c)) cs") 
        (simp_all add: c payloads_def del: dropWhile_eq_Nil_conv dropWhile_eq_Cons_conv split: prod.split)
  qed
qed (simp add: payloads_def)

lemma feed_spec: "fst (feed [] cs) = spec_messages cs"
proof (induction cs rule: spec_messages.induct)
  case (1 cs)
  let ?cs = "filter (\<lambda>c. c \<noteq> []) cs"
  have "fst (feed [] cs) = fst (feed [] ?cs)" by (simp add: feed_filter)
  also have "\<dots> = spec_messages cs"
  proof (cases "dropWhile (\<lambda>c. \<not> is_end (hd c)) ?cs")
    case Nil
    then show ?thesis
      using feed_until_end [of ?cs "[]"] by (simp add: spec_messages.simps [of cs] del: dropWhile_eq_Nil_conv)
  next
    case (Cons c rest)
    then show ?thesis
      using feed_until_end [of ?cs "[]"] 1 [OF Cons]
      by (cases "feed [] rest")
        (simp add: spec_messages.simps [of cs] del: dropWhile_eq_Cons_conv)
  qed
  finally show ?case .
qed

section \<open>Properties\<close>

text \<open>messages cross the data channel unchanged: whatever sequence of messages, empty ones and ones
  longer than a chunk included, is fragmented and sent in order, a new defragmenter hands out
  exactly these messages in this order and ends with an empty buffer.\<close>

theorem messages_cross_unchanged:
  "feed [] (concat (map fragment msgs)) = (msgs, [])"
  by (induction msgs) (simp_all add: feed_fragment)

text \<open>no chunk exceeds the limit of the channel: every chunk of a message has one header byte, with the
  reserved bits zero, and at most 60 KiB of payload, so that it stays below the 65536 bytes of
  SCTP; a message of n bytes takes one chunk, or n / 60 KiB rounded up, and only the last one
  ends it.\<close>

theorem fragments_fit_the_channel:
  "(\<forall>c \<in> set (fragment data). length c < 65536 \<and> hd c AND 0b11111000 = 0) \<and>
   length (fragment data) = max 1 ((length data + 61439) div 61440) \<and>
   map (is_end \<circ> hd) (fragment data) = replicate (length (fragment data) - 1) False @ [True]"
proof -
  let ?ps = "if length data \<le> chunk_payload_size then [data] else chunks chunk_payload_size data"
  have ne: "?ps \<noteq> []" using chunks_step [OF chunk_size_pos, of data] by (cases data) auto
  have small: "\<forall>p \<in> set ?ps. length p \<le> chunk_payload_size" using chunks_length by auto
  have frames: "(\<forall>c \<in> set (frame_pieces ps). \<exists>h p. c = h # p \<and> p \<in> set ps \<and> h AND 0b11111000 = 0) \<and>
      length (frame_pieces ps) = length ps \<and>
      (ps \<noteq> [] \<longrightarrow> map (is_end \<circ> hd) (frame_pieces ps) = replicate (length ps - 1) False @ [True])" for ps
    by (induction ps rule: frame_pieces.induct) auto
  have len: "length ?ps = max 1 ((length data + 61439) div 61440)"
    using number_of_chunks [OF chunk_size_pos, of data]
    by (auto simp: chunk_payload_size_def max_def)
  have fit: "length c < 65536 \<and> hd c AND 0b11111000 = 0" if c: "c \<in> set (frame_pieces ?ps)" for c
  proof -
    obtain h p where "c = h # p" "p \<in> set ?ps" "h AND 0b11111000 = 0" using frames c by blast
    moreover have "length p \<le> chunk_payload_size" using small \<open>p \<in> set ?ps\<close> by blast
    ultimately show ?thesis by (simp add: chunk_payload_size_def)
  qed
  have "length (frame_pieces ?ps) = length ?ps"
    "map (is_end \<circ> hd) (frame_pieces ?ps) = replicate (length ?ps - 1) False @ [True]"
    using frames [of ?ps] ne by blast+
  then show ?thesis unfolding fragment_pieces using fit len by simp
qed

text \<open>the defragmenter implements the chunk protocol: for any chunks a peer sends, well-formed or not,
  its buffer and its shortcut for single-chunk messages compute exactly the messages of the
  declarative specification.\<close>

theorem defragmenter_implements_protocol:
  "fst (feed [] cs) = spec_messages cs"
  by (rule feed_spec)

end
