(* ===== verification/Utf8_Decoder.thy ===== *)
theory Utf8_Decoder
  imports Vk_Prelude
begin

text \<open>
  The decoder of process output, crates/utils/src/utf8_chunk_decoder.rs. It rests on three
  functions of Rust's standard library over UTF-8: \<open>str::from_utf8\<close> with its
  \<open>Utf8Error::valid_up_to\<close>, and \<open>String::from_utf8_lossy\<close>, which are defined first. A string
  holds bytes. The lemmas show that the decoder does not depend on how the output was cut into
  chunks, and what one invalid byte does to it.
\<close>

section \<open>UTF-8 in the standard library\<close>

datatype utf8_item = Scalar nat  \<comment> \<open>a scalar value of that many bytes\<close>
  | Incomplete  \<comment> \<open>the text ends inside a scalar value\<close>
  | Invalid nat  \<comment> \<open>\<open>error_len\<close>\<close>

definition byte_in :: "nat \<Rightarrow> nat \<Rightarrow> char \<Rightarrow> bool" where
  "byte_in lo hi c = (let n = of_char c :: nat in lo \<le> n \<and> n \<le> hi)"

definition utf8_width :: "char \<Rightarrow> nat" where
  "utf8_width b = (if byte_in 0 0x7F b then 1 else if byte_in 0xC2 0xDF b then 2
     else if byte_in 0xE0 0xEF b then 3 else if byte_in 0xF0 0xF4 b then 4 else 0)"

definition utf8_second :: "char \<Rightarrow> char \<Rightarrow> bool" where
  "utf8_second b c =
     (if b = CHR 0xE0 then byte_in 0xA0 0xBF c else if b = CHR 0xED then byte_in 0x80 0x9F c
      else if b = CHR 0xF0 then byte_in 0x90 0xBF c else if b = CHR 0xF4 then byte_in 0x80 0x8F c
      else byte_in 0x80 0xBF c)"

definition utf8_tail :: "nat \<Rightarrow> nat \<Rightarrow> string \<Rightarrow> utf8_item" where
  \<comment> \<open>the third and fourth bytes of a scalar value of \<open>w\<close> bytes, \<open>k\<close> of them seen\<close>
  "utf8_tail w k bs =
     (if w = k then Scalar w
      else (case bs of [] \<Rightarrow> Incomplete
        | c # cs \<Rightarrow>
            (if \<not> byte_in 0x80 0xBF c then Invalid k
             else if w = Suc k then Scalar w
             else (case cs of [] \<Rightarrow> Incomplete
               | d # _ \<Rightarrow> if byte_in 0x80 0xBF d then Scalar w else Invalid (Suc k)))))"

fun utf8_next :: "string \<Rightarrow> utf8_item" where
  "utf8_next [] = Incomplete"
| "utf8_next (b # bs) =
     (let w = utf8_width b in
      if w = 0 then Invalid 1
      else if w = 1 then Scalar 1
      else (case bs of [] \<Rightarrow> Incomplete
        | c # cs \<Rightarrow> if utf8_second b c then utf8_tail w 2 cs else Invalid 1))"

lemma utf8_tail_bounds:
  "2 \<le> k \<Longrightarrow> k \<le> w \<Longrightarrow> w \<le> k + 2 \<Longrightarrow> utf8_tail w k bs = Scalar n \<Longrightarrow> n = w \<and> w \<le> k + length bs"
  "2 \<le> k \<Longrightarrow> utf8_tail w k bs = Invalid n \<Longrightarrow> 0 < n \<and> n \<le> k + length bs"
  by (auto simp: utf8_tail_def split: if_splits list.splits)

lemma utf8_width_le: "utf8_width b \<le> 4"
  by (simp add: utf8_width_def)

lemma utf8_next_scalar: "utf8_next bs = Scalar n \<Longrightarrow> 0 < n \<and> n \<le> length bs"
proof (cases bs)
  case (Cons b cs)
  assume item: "utf8_next bs = Scalar n"
  let ?w = "utf8_width b"
  have w: "?w \<noteq> 0" using item Cons by (auto simp: Let_def split: if_splits)
  show ?thesis
  proof (cases "?w = 1")
    case True
    then show ?thesis using item Cons by simp
  next
    case False
    then obtain d ds where "cs = d # ds" "utf8_tail ?w 2 ds = Scalar n"
      using item Cons w by (auto simp: Let_def split: list.splits if_splits)
    moreover have "2 \<le> ?w" "?w \<le> 2 + 2" using w False utf8_width_le [of b] by simp_all
    ultimately show ?thesis using utf8_tail_bounds(1) [of 2 ?w ds n] Cons by simp
  qed
qed simp

lemma utf8_next_invalid: "bs \<noteq> [] \<Longrightarrow> utf8_next bs = Invalid n \<Longrightarrow> 0 < n \<and> n \<le> length bs"
  using utf8_tail_bounds(2) [of 2 _ _ n]
  by (cases bs) (fastforce simp: Let_def split: if_splits list.splits)+

lemmas utf8_next_bounds = utf8_next_scalar utf8_next_invalid

function valid_up_to :: "string \<Rightarrow> nat" where
  "valid_up_to bs = (case utf8_next bs of Scalar n \<Rightarrow> n + valid_up_to (drop n bs) | _ \<Rightarrow> 0)"
  by pat_completeness auto
termination by (relation "measure length") (auto dest: utf8_next_bounds(1))

declare valid_up_to.simps [simp del]

definition from_utf8_ok :: "string \<Rightarrow> bool" where
  "from_utf8_ok bs = (valid_up_to bs = length bs)"

definition replacement :: string where
  "replacement = utf8 [0xEF, 0xBF, 0xBD]"

function from_utf8_lossy :: "string \<Rightarrow> string" where
  "from_utf8_lossy bs =
     (if bs = [] then []
      else (case utf8_next bs of
          Scalar n \<Rightarrow> take n bs @ from_utf8_lossy (drop n bs)
        | Incomplete \<Rightarrow> replacement
        | Invalid n \<Rightarrow> replacement @ from_utf8_lossy (drop n bs)))"
  by pat_completeness auto
termination by (relation "measure length") (auto dest: utf8_next_bounds)

declare from_utf8_lossy.simps [simp del]

lemma from_utf8_lossy_Nil [simp]: "from_utf8_lossy [] = []"
  by (simp add: from_utf8_lossy.simps)

section \<open>The decoder\<close>

definition decoder_push :: "string \<Rightarrow> string \<Rightarrow> string \<times> string" where
  \<comment> \<open>the pending bytes and a chunk; the text and the pending bytes after it\<close>
  "decoder_push pending chunk =
     (if chunk = [] then ([], pending)
      else (let pending' = pending @ chunk;
                valid_len = (if from_utf8_ok pending' then length pending' else valid_up_to pending') in
            if valid_len = 0 then ([], pending')
            else (take valid_len pending', drop valid_len pending')))"

definition decoder_finish :: "string \<Rightarrow> string" where
  "decoder_finish pending = (if pending = [] then [] else from_utf8_lossy pending)"

fun decode_stream :: "string \<Rightarrow> ('e + string) list \<Rightarrow> ('e + string) list" where
  \<comment> \<open>the items of \<open>Utf8DecodeStream\<close> for the items of the inner stream\<close>
  "decode_stream pending [] = (let remaining = decoder_finish pending in if remaining = [] then [] else [Inr remaining])"
| "decode_stream pending (Inl e # items) = Inl e # decode_stream pending items"
| "decode_stream pending (Inr bytes # items) =
     (case decoder_push pending bytes of (decoded, pending') \<Rightarrow>
        if decoded = [] then decode_stream pending' items else Inr decoded # decode_stream pending' items)"

section \<open>Chunks do not matter\<close>

lemma utf8_tail_append: "utf8_tail w k bs = r \<Longrightarrow> r \<noteq> Incomplete \<Longrightarrow> utf8_tail w k (bs @ cs) = r"
  by (auto simp: utf8_tail_def split: if_splits list.splits)

lemma utf8_next_append: "utf8_next bs = r \<Longrightarrow> r \<noteq> Incomplete \<Longrightarrow> utf8_next (bs @ cs) = r"
  by (cases bs) (auto simp: Let_def intro: utf8_tail_append split: if_splits list.splits)

lemma valid_up_to_le: "valid_up_to bs \<le> length bs"
proof (induction bs rule: valid_up_to.induct)
  case (1 bs)
  then show ?case
    using utf8_next_bounds(1) [of bs] by (subst valid_up_to.simps) (auto split: utf8_item.split)
qed

lemma lossy_valid_prefix:
  "from_utf8_lossy (bs @ cs) = take (valid_up_to bs) bs @ from_utf8_lossy (drop (valid_up_to bs) bs @ cs)"
proof (induction bs rule: valid_up_to.induct)
  case (1 bs)
  show ?case
  proof (cases "utf8_next bs")
    case (Scalar n)
    from utf8_next_bounds(1) [OF Scalar] have n: "0 < n" "n \<le> length bs" by simp_all
    then have "bs @ cs \<noteq> []" by auto
    then have "from_utf8_lossy (bs @ cs) = take n bs @ from_utf8_lossy (drop n bs @ cs)"
      using utf8_next_append [OF Scalar, of cs] n by (subst from_utf8_lossy.simps) simp
    moreover have "valid_up_to bs = n + valid_up_to (drop n bs)"
      using Scalar by (subst valid_up_to.simps) simp
    ultimately show ?thesis
      using 1 [OF Scalar] by (simp add: take_add add.commute [of _ n])
  qed (simp_all add: valid_up_to.simps [of bs])
qed

lemma decoder_push_eq:
  assumes "decoder_push pending chunk = (out, pending')"
  shows "from_utf8_lossy (pending @ chunk @ rest) = out @ from_utf8_lossy (pending' @ rest)"
proof -
  have "out = take n (pending @ chunk) \<and> pending' = drop n (pending @ chunk)"
    if "chunk \<noteq> []" "n = valid_up_to (pending @ chunk)" for n
    using assms that by (auto simp: decoder_push_def Let_def from_utf8_ok_def split: if_splits)
  then show ?thesis
    using assms lossy_valid_prefix [of "pending @ chunk" rest]
    by (cases "chunk = []") (auto simp: decoder_push_def)
qed

lemma decoder_finish_eq: "decoder_finish pending = from_utf8_lossy pending"
  by (simp add: decoder_finish_def from_utf8_lossy.simps)

lemma decode_stream_text:
  "concat (map projr (filter (\<lambda>r. \<not> isl r) (decode_stream pending items)))
     = from_utf8_lossy (pending @ concat (map projr (filter (\<lambda>r. \<not> isl r) items)))"
proof (induction pending items rule: decode_stream.induct)
  case (3 pending bytes items)
  obtain out pending' where p: "decoder_push pending bytes = (out, pending')" by fastforce
  show ?case using "3.IH" [OF p [symmetric]] decoder_push_eq [OF p] p by (cases "out = []") auto
qed (simp_all add: Let_def decoder_finish_eq)

lemma decode_stream_errors: "filter isl (decode_stream pending items) = filter isl items"
  by (induction pending items rule: decode_stream.induct) (auto simp: Let_def split: prod.splits)

section \<open>Properties\<close>

text \<open>C37: the text of a stream does not depend on how its bytes were cut into chunks: whatever the
  chunks, the decoder's output is the lossy decoding of all the bytes, and the errors of the
  inner stream pass through, in order.\<close>

theorem decoder_ignores_chunking:
  "concat (map projr (filter (\<lambda>r. \<not> isl r) (decode_stream [] items)))
     = from_utf8_lossy (concat (map projr (filter (\<lambda>r. \<not> isl r) items))) \<and>
   filter isl (decode_stream [] items) = filter isl items"
  using decode_stream_text [of "[]" items] decode_stream_errors [of "[]" items] by simp

text \<open>an invalid byte holds back everything behind it: once the pending bytes start with a byte
  that cannot start or continue a scalar value, no later chunk yields any text, and the pending
  bytes grow until the stream ends.\<close>

theorem invalid_byte_holds_back:
  assumes "utf8_next pending = Invalid n"
  shows "decode_stream pending (map Inr chunks) = [Inr (from_utf8_lossy (pending @ concat chunks))]"
  using assms
proof (induction chunks arbitrary: pending)
  case Nil
  have "pending \<noteq> []" using Nil by auto
  then have "from_utf8_lossy pending \<noteq> []"
    using Nil by (subst from_utf8_lossy.simps) (simp add: replacement_def utf8_def)
  then show ?case by (simp add: Let_def decoder_finish_eq)
next
  case (Cons c cs)
  have inv: "utf8_next (pending @ c) = Invalid n" using utf8_next_append [OF Cons.prems] by simp
  then have "valid_up_to (pending @ c) = 0" by (simp add: valid_up_to.simps)
  then have "decoder_push pending c = ([], pending @ c)"
    by (auto simp: decoder_push_def Let_def from_utf8_ok_def)
  then show ?case using Cons.IH [OF inv] by simp
qed

theorem invalid_byte_holds_back_witness:
  "decode_stream [CHR 0xFF] (map Inr [''all '', ''good'']) = [Inr (from_utf8_lossy (CHR 0xFF # ''all good'')) :: unit + string]"
proof -
  have "utf8_next [CHR 0xFF] = Invalid 1" by code_simp
  from invalid_byte_holds_back [OF this, of "[''all '', ''good'']"] show ?thesis by simp
qed

end
