(* ===== verification/Relay_Signing.thy ===== *)
theory Relay_Signing
  imports "HOL-Library.Word" Vk_Prelude
begin

text \<open>
  Signed requests over the relay, crates/relay-control/src/signing.rs: the messages that are
  signed, the sessions with the nonces that were seen, and the verification of a request.

  Ed25519, SHA-256 and base64 are libraries; they are the record \<open>relay_crypto\<close>, a parameter.
  Wall-clock time is in seconds and may be before the epoch; \<open>Instant\<close> is monotonic time in
  nanoseconds. One call of the service happens at one instant. A table of sessions is a list
  with unique keys.
\<close>

section \<open>Libraries and clocks\<close>

record ('k, 's) relay_crypto =
  rc_verify :: "'k \<Rightarrow> string \<Rightarrow> 's \<Rightarrow> bool"
  rc_signature_from_slice :: "string \<Rightarrow> 's option"
  rc_sha256 :: "string \<Rightarrow> string"
  rc_b64_encode :: "string \<Rightarrow> string"
  rc_b64_decode :: "string \<Rightarrow> string option"

record relay_clock =
  ck_wall :: int
  ck_mono :: nat

definition i64_min :: int where
  "i64_min = - (2 ^ 63)"

definition i64_max :: int where
  "i64_max = 2 ^ 63 - 1"

definition i64_sat_sub :: "int \<Rightarrow> int \<Rightarrow> int" where
  "i64_sat_sub a b = max i64_min (min i64_max (a - b))"

definition i64_abs :: "int \<Rightarrow> int" where
  \<comment> \<open>\<open>abs\<close> of the least value wraps around in a release build\<close>
  "i64_abs a = (if a = i64_min then i64_min else abs a)"

definition duration_secs :: "nat \<Rightarrow> nat" where
  "duration_secs s = s * 10 ^ 9"

section \<open>What is signed\<close>

record request_signature =
  sg_session :: uuid
  sg_timestamp :: "64 word"  \<comment> \<open>\<open>i64\<close>: read with \<open>sint\<close>\<close>
  sg_nonce :: uuid
  sg_signature_b64 :: string

definition build_request_signing_message ::
  "('k, 's) relay_crypto \<Rightarrow> request_signature \<Rightarrow> string \<Rightarrow> string \<Rightarrow> string \<Rightarrow> string" where
  "build_request_signing_message cr sig http_method path_and_query body =
     (let body_hash = rc_b64_encode cr (rc_sha256 cr body) in
      ''v1|'' @ show_int (sint (sg_timestamp sig)) @ ''|'' @ http_method @ ''|'' @ path_and_query @ ''|'' @
      show_uuid (sg_session sig) @ ''|'' @ show_uuid (sg_nonce sig) @ ''|'' @ body_hash)"

definition build_request_signature ::
  "('k, 's) relay_crypto \<Rightarrow> (string \<Rightarrow> string) \<Rightarrow> relay_clock \<Rightarrow> uuid \<Rightarrow> uuid \<Rightarrow> string \<Rightarrow> string \<Rightarrow> string \<Rightarrow>
   request_signature" where
  \<comment> \<open>\<open>sign\<close> gives the bytes of a signature; the nonce is a fresh random UUID\<close>
  "build_request_signature cr sign now nonce session http_method path_and_query body =
     (let sig = \<lparr>sg_session = session, sg_timestamp = word_of_int (ck_wall now), sg_nonce = nonce, sg_signature_b64 = []\<rparr> in
      sig\<lparr>sg_signature_b64 :=
        rc_b64_encode cr (sign (build_request_signing_message cr sig http_method path_and_query body))\<rparr>)"

definition build_response_signing_message ::
  "('k, 's) relay_crypto \<Rightarrow> int \<Rightarrow> nat \<Rightarrow> string \<Rightarrow> uuid \<Rightarrow> uuid \<Rightarrow> uuid \<Rightarrow> string \<Rightarrow> string" where
  "build_response_signing_message cr timestamp status path_and_query session request_nonce response_nonce body =
     (let body_hash = rc_b64_encode cr (rc_sha256 cr body) in
      ''v1|'' @ show_int timestamp @ ''|'' @ show_nat status @ ''|'' @ path_and_query @ ''|'' @
      show_uuid session @ ''|'' @ show_uuid request_nonce @ ''|'' @ show_uuid response_nonce @ ''|'' @ body_hash)"

section \<open>Sessions\<close>

record 'k relay_session =
  rs_peer_public_key :: 'k
  rs_created_at :: nat
  rs_last_used_at :: nat
  rs_seen_nonces :: "(uuid \<times> nat) list"

type_synonym 'k relay_sessions = "(uuid \<times> 'k relay_session) list"

datatype relay_signature_error =
  TimestampOutOfDrift | MissingSigningSession | InvalidNonce | ReplayNonce | InvalidSignature

fun relay_signature_error_as_str :: "relay_signature_error \<Rightarrow> string" where
  "relay_signature_error_as_str TimestampOutOfDrift = ''timestamp outside drift window''"
| "relay_signature_error_as_str MissingSigningSession = ''missing or expired signing session''"
| "relay_signature_error_as_str InvalidNonce = ''invalid nonce''"
| "relay_signature_error_as_str ReplayNonce = ''replayed nonce''"
| "relay_signature_error_as_str InvalidSignature = ''invalid signature''"

definition max_timestamp_drift_secs :: int where
  "max_timestamp_drift_secs = 30"

definition signing_session_ttl :: nat where
  "signing_session_ttl = duration_secs (60 * 60)"

definition signing_session_idle_ttl :: nat where
  "signing_session_idle_ttl = duration_secs (15 * 60)"

definition nonce_ttl :: nat where
  "nonce_ttl = duration_secs (2 * 60)"

definition put_session :: "uuid \<Rightarrow> 'k relay_session \<Rightarrow> 'k relay_sessions \<Rightarrow> 'k relay_sessions" where
  "put_session i s ss = (i, s) # filter (\<lambda>e. fst e \<noteq> i) ss"

definition register_session :: "relay_clock \<Rightarrow> uuid \<Rightarrow> 'k \<Rightarrow> 'k relay_sessions \<Rightarrow> 'k relay_sessions" where
  "register_session now i key ss =
     put_session i \<lparr>rs_peer_public_key = key, rs_created_at = ck_mono now, rs_last_used_at = ck_mono now,
       rs_seen_nonces = []\<rparr> ss"

definition session_live :: "relay_clock \<Rightarrow> 'k relay_session \<Rightarrow> bool" where
  "session_live now s =
     (ck_mono now - rs_created_at s \<le> signing_session_ttl \<and>
      ck_mono now - rs_last_used_at s \<le> signing_session_idle_ttl)"

definition get_session_peer_key :: "relay_clock \<Rightarrow> uuid \<Rightarrow> 'k relay_sessions \<Rightarrow> 'k option" where
  "get_session_peer_key now i ss =
     (case map_of ss i of None \<Rightarrow> None
      | Some s \<Rightarrow> if session_live now s then Some (rs_peer_public_key s) else None)"

definition has_active_session_with_key :: "relay_clock \<Rightarrow> 'k \<Rightarrow> 'k relay_sessions \<Rightarrow> bool" where
  "has_active_session_with_key now key ss =
     list_ex (\<lambda>(_, s). session_live now s \<and> rs_peer_public_key s = key) ss"

definition retain_live :: "relay_clock \<Rightarrow> 'k relay_sessions \<Rightarrow> 'k relay_sessions" where
  \<comment> \<open>what \<open>get_valid_session\<close> does before it looks the session up\<close>
  "retain_live now ss = filter (\<lambda>(_, s). session_live now s) ss"

definition validate_timestamp :: "relay_clock \<Rightarrow> 64 word \<Rightarrow> relay_signature_error + unit" where
  "validate_timestamp now timestamp =
     (if ck_wall now < 0 \<or> i64_max < ck_wall now then Inl TimestampOutOfDrift
      else if max_timestamp_drift_secs < i64_abs (i64_sat_sub (ck_wall now) (sint timestamp)) then Inl TimestampOutOfDrift
      else Inr ())"

definition parse_signature_b64 :: "('k, 's) relay_crypto \<Rightarrow> string \<Rightarrow> relay_signature_error + 's" where
  "parse_signature_b64 cr b64 =
     (case rc_b64_decode cr b64 of None \<Rightarrow> Inl InvalidSignature
      | Some bytes \<Rightarrow> (case rc_signature_from_slice cr bytes of None \<Rightarrow> Inl InvalidSignature | Some s \<Rightarrow> Inr s))"

definition forget_nonces :: "relay_clock \<Rightarrow> 'k relay_session \<Rightarrow> 'k relay_session" where
  "forget_nonces now s =
     s\<lparr>rs_seen_nonces := filter (\<lambda>(_, seen_at). ck_mono now - seen_at \<le> nonce_ttl) (rs_seen_nonces s)\<rparr>"

definition note_nonce :: "relay_clock \<Rightarrow> uuid \<Rightarrow> 'k relay_session \<Rightarrow> 'k relay_session" where
  "note_nonce now nonce s =
     s\<lparr>rs_seen_nonces := (nonce, ck_mono now) # rs_seen_nonces s, rs_last_used_at := ck_mono now\<rparr>"

definition verify_request ::
  "('k, 's) relay_crypto \<Rightarrow> relay_clock \<Rightarrow> request_signature \<Rightarrow> string \<Rightarrow> string \<Rightarrow> string \<Rightarrow> 'k relay_sessions \<Rightarrow>
   (relay_signature_error + unit) \<times> 'k relay_sessions" where
  "verify_request cr now sig http_method path_and_query body ss =
     (case validate_timestamp now (sg_timestamp sig) of Inl e \<Rightarrow> (Inl e, ss) | Inr _ \<Rightarrow>
      (case parse_signature_b64 cr (sg_signature_b64 sig) of Inl e \<Rightarrow> (Inl e, ss) | Inr signature \<Rightarrow>
       (let ss1 = retain_live now ss in
        case map_of ss1 (sg_session sig) of None \<Rightarrow> (Inl MissingSigningSession, ss1)
        | Some session \<Rightarrow>
          (let session1 = forget_nonces now session in
           if sg_nonce sig \<in> fst ` set (rs_seen_nonces session1)
           then (Inl ReplayNonce, put_session (sg_session sig) session1 ss1)
           else if \<not> rc_verify cr (rs_peer_public_key session1)
                     (build_request_signing_message cr sig http_method path_and_query body) signature
           then (Inl InvalidSignature, put_session (sg_session sig) session1 ss1)
           else (Inr (), put_session (sg_session sig) (note_nonce now (sg_nonce sig) session1) ss1)))))"

section \<open>The service at work\<close>

datatype 'k relay_event =
    RegisterSession uuid 'k
  | VerifyRequest request_signature string string string

record 'k relay_world =
  rv_sessions :: "'k relay_sessions"
  rv_accepted :: "(uuid \<times> 64 word \<times> uuid) list"  \<comment> \<open>session, timestamp and nonce\<close>

definition relay_world_new :: "'k relay_world" where
  "relay_world_new = \<lparr>rv_sessions = [], rv_accepted = []\<rparr>"

fun relay_step :: "('k, 's) relay_crypto \<Rightarrow> 'k relay_world \<Rightarrow> relay_clock \<times> 'k relay_event \<Rightarrow> 'k relay_world" where
  "relay_step cr w (now, RegisterSession i key) = w\<lparr>rv_sessions := register_session now i key (rv_sessions w)\<rparr>"
| "relay_step cr w (now, VerifyRequest sig m p body) =
     (case verify_request cr now sig m p body (rv_sessions w) of
        (Inl _, ss) \<Rightarrow> w\<lparr>rv_sessions := ss\<rparr>
      | (Inr _, ss) \<Rightarrow> w\<lparr>rv_sessions := ss,
          rv_accepted := rv_accepted w @ [(sg_session sig, sg_timestamp sig, sg_nonce sig)]\<rparr>)"

fun registered :: "(relay_clock \<times> 'k relay_event) list \<Rightarrow> uuid list" where
  "registered [] = []"
| "registered ((_, RegisterSession i _) # es) = i # registered es"
| "registered ((_, VerifyRequest _ _ _ _) # es) = registered es"

definition clocks_agree :: "(relay_clock \<times> 'e) list \<Rightarrow> bool" where
  \<comment> \<open>monotonic time does not go back, and the wall clock is never set back by more than a
    minute with respect to it\<close>
  "clocks_agree es = sorted_wrt (\<lambda>(a, _) (b, _). ck_mono a \<le> ck_mono b \<and>
     int (ck_mono b) - int (ck_mono a) \<le> (ck_wall b - ck_wall a + 60) * 10 ^ 9) es"

section \<open>A signature is good for one request\<close>

lemma map_of_filter_key: "map_of (filter (\<lambda>e. fst e \<noteq> i) ss) j = (if j = i then None else map_of ss j)"
  by (induction ss) auto

lemma map_of_put: "map_of (put_session i s ss) = (map_of ss)(i \<mapsto> s)"
  by (auto simp: put_session_def map_of_filter_key)

lemma map_of_retain_distinct:
  "distinct (map fst ss) \<Longrightarrow>
   map_of (retain_live now ss) j = (case map_of ss j of None \<Rightarrow> None | Some s \<Rightarrow> if session_live now s then Some s else None)"
  by (induction ss) (auto simp: retain_live_def map_of_eq_None_iff split: option.splits)

lemma distinct_put: "distinct (map fst ss) \<Longrightarrow> distinct (map fst (put_session i s ss))"
  by (auto simp: put_session_def distinct_map_filter)

lemma distinct_retain: "distinct (map fst ss) \<Longrightarrow> distinct (map fst (retain_live now ss))"
  by (simp add: retain_live_def distinct_map_filter)

lemma sint_64_bounds: "- (2 ^ 63) \<le> sint (w :: 64 word)" "sint (w :: 64 word) < 2 ^ 63"
  using sint_ge [of w] sint_lt [of w] by simp_all

lemma drift_bound: "validate_timestamp now ts = Inr u \<Longrightarrow> \<bar>ck_wall now - sint ts\<bar> \<le> 30"
  using sint_64_bounds [of ts]
  by (auto simp: validate_timestamp_def i64_abs_def i64_sat_sub_def i64_min_def i64_max_def max_timestamp_drift_secs_def
      split: if_splits)

definition remembers :: "relay_clock \<Rightarrow> 'k relay_sessions \<Rightarrow> uuid \<Rightarrow> uuid \<Rightarrow> nat \<Rightarrow> bool" where
  \<comment> \<open>the nonce of a request accepted at \<open>t\<close> is stored, or its session is gone, or it is old\<close>
  "remembers now ss i nonce t =
     (case map_of ss i of None \<Rightarrow> True
      | Some s \<Rightarrow> (nonce, t) \<in> set (rs_seen_nonces s) \<or> nonce_ttl < ck_mono now - t)"

lemma verify_request_cases [consumes 1, case_names unchanged pruned forgot accepted]:
  assumes "verify_request cr now sig m p body ss = (r, ss')"
  obtains e where "r = Inl e" "ss' = ss"
  | e where "r = Inl e" "ss' = retain_live now ss"
  | e s where "r = Inl e" "map_of (retain_live now ss) (sg_session sig) = Some s"
      "ss' = put_session (sg_session sig) (forget_nonces now s) (retain_live now ss)"
  | u signature s where "r = Inr ()" "validate_timestamp now (sg_timestamp sig) = Inr u"
      "parse_signature_b64 cr (sg_signature_b64 sig) = Inr signature"
      "map_of (retain_live now ss) (sg_session sig) = Some s"
      "sg_nonce sig \<notin> fst ` set (rs_seen_nonces (forget_nonces now s))"
      "rc_verify cr (rs_peer_public_key (forget_nonces now s)) (build_request_signing_message cr sig m p body) signature"
      "ss' = put_session (sg_session sig) (note_nonce now (sg_nonce sig) (forget_nonces now s)) (retain_live now ss)"
proof (cases "validate_timestamp now (sg_timestamp sig)")
  case (Inl e)
  then show ?thesis using assms by (intro that(1) [of e]) (simp_all add: verify_request_def)
next
  case ts: (Inr u)
  show ?thesis
  proof (cases "parse_signature_b64 cr (sg_signature_b64 sig)")
    case (Inl e)
    then show ?thesis using ts assms by (intro that(1) [of e]) (simp_all add: verify_request_def)
  next
    case sg: (Inr signature)
    show ?thesis
    proof (cases "map_of (retain_live now ss) (sg_session sig)")
      case None
      then show ?thesis using ts sg assms by (intro that(2) [of MissingSigningSession]) (simp_all add: verify_request_def)
    next
      case (Some s)
      then show ?thesis
        using ts sg assms that(3) [OF _ Some] that(4) [OF _ ts sg Some]
        by (auto simp: verify_request_def Let_def split: if_splits)
    qed
  qed
qed

lemma verify_distinct:
  assumes "verify_request cr now sig m p body ss = (r, ss')" "distinct (map fst ss)"
  shows "distinct (map fst ss')"
  using assms by (cases rule: verify_request_cases) (simp_all add: distinct_put distinct_retain)

lemma remembers_later:
  "remembers before ss i nonce t \<Longrightarrow> ck_mono before \<le> ck_mono now \<Longrightarrow> remembers now ss i nonce t"
  by (auto simp: remembers_def split: option.splits)

lemma remembers_retain:
  assumes "remembers now ss i nonce t" "distinct (map fst ss)"
  shows "remembers now (retain_live now ss) i nonce t"
  using assms(1) unfolding remembers_def map_of_retain_distinct [OF assms(2)]
  by (cases "map_of ss i") (simp_all split: if_splits)

lemma remembers_put:
  assumes "remembers now ss i nonce t" "map_of ss j = Some s"
    and "set (filter (\<lambda>(_, seen_at). ck_mono now - seen_at \<le> nonce_ttl) (rs_seen_nonces s)) \<subseteq> set (rs_seen_nonces s')"
  shows "remembers now (put_session j s' ss) i nonce t"
  using assms by (cases "i = j") (auto simp: remembers_def map_of_put)

lemma verify_remembers:
  assumes v: "verify_request cr now sig m p body ss = (r, ss')" and ss: "distinct (map fst ss)"
    and rem: "remembers before ss i nonce t" and mono: "ck_mono before \<le> ck_mono now"
  shows "remembers now ss' i nonce t"
proof -
  have keep: "remembers now ss i nonce t" using rem mono by (rule remembers_later)
  then have retain: "remembers now (retain_live now ss) i nonce t" using ss by (rule remembers_retain)
  show ?thesis using v
  proof (cases rule: verify_request_cases)
    case (forgot e s)
    then show ?thesis using remembers_put [OF retain forgot(2)] by (simp add: forget_nonces_def)
  next
    case (accepted u signature s)
    have "set (filter (\<lambda>(_, seen_at). ck_mono now - seen_at \<le> nonce_ttl) (rs_seen_nonces s))
        \<subseteq> set (rs_seen_nonces (note_nonce now (sg_nonce sig) (forget_nonces now s)))"
      by (auto simp: note_nonce_def forget_nonces_def)
    then show ?thesis using remembers_put [OF retain accepted(4)] accepted(7) by simp
  qed (use keep retain in simp_all)
qed

lemma accepted_now_remembered:
  assumes v: "verify_request cr now sig m p body ss = (Inr u, ss')"
  shows "remembers now ss' (sg_session sig) (sg_nonce sig) (ck_mono now)"
  using v by (cases rule: verify_request_cases) (auto simp: remembers_def map_of_put note_nonce_def)

lemma no_second_acceptance:
  assumes v: "verify_request cr now sig m p body ss = (Inr u, ss')" and ss: "distinct (map fst ss)"
    and rem: "remembers before ss (sg_session sig) (sg_nonce sig) (ck_mono at)"
    and mono: "ck_mono before \<le> ck_mono now" "ck_mono at \<le> ck_mono now"
    and drift: "\<bar>ck_wall at - sint (sg_timestamp sig)\<bar> \<le> 30"
    and agree: "int (ck_mono now) - int (ck_mono at) \<le> (ck_wall now - ck_wall at + 60) * 10 ^ 9"
  shows False
  using v
proof (cases rule: verify_request_cases)
  case (accepted u signature s)
  have "\<bar>ck_wall now - sint (sg_timestamp sig)\<bar> \<le> 30" using accepted(2) by (rule drift_bound)
  then have "ck_wall now - ck_wall at + 60 \<le> 120" using drift by simp
  then have "(ck_wall now - ck_wall at + 60) * 10 ^ 9 \<le> 120 * 10 ^ 9" by simp
  then have "ck_mono now - ck_mono at \<le> nonce_ttl"
    using agree mono(2) by (simp add: nonce_ttl_def duration_secs_def)
  moreover have "remembers now (retain_live now ss) (sg_session sig) (sg_nonce sig) (ck_mono at)"
    using remembers_retain [OF remembers_later [OF rem mono(1)] ss] .
  ultimately have "(sg_nonce sig, ck_mono at) \<in> set (rs_seen_nonces (forget_nonces now s))"
    using accepted(4) by (auto simp: remembers_def forget_nonces_def)
  then show False using accepted(5) by force
qed simp_all

section \<open>Properties\<close>

definition logged :: "(relay_clock \<times> 'k relay_event) list \<Rightarrow> 'k relay_sessions \<Rightarrow> uuid \<times> 64 word \<times> uuid \<Rightarrow> bool" where
  \<comment> \<open>an accepted request was in time, and it is remembered at any later instant\<close>
  "logged es ss = (\<lambda>(i, ts, nonce). i \<in> set (registered es) \<and>
     (\<exists>at \<in> fst ` set es. \<bar>ck_wall at - sint ts\<bar> \<le> 30 \<and>
        (\<forall>now. (\<forall>c \<in> fst ` set es. ck_mono c \<le> ck_mono now) \<longrightarrow> remembers now ss i nonce (ck_mono at))))"

definition relay_inv :: "(relay_clock \<times> 'k relay_event) list \<Rightarrow> 'k relay_world \<Rightarrow> bool" where
  "relay_inv es w =
     (distinct (map fst (rv_sessions w)) \<and> distinct (rv_accepted w) \<and>
      (\<forall>e \<in> set (rv_accepted w). logged es (rv_sessions w) e) \<and>
      fst ` set (rv_sessions w) \<subseteq> set (registered es))"

lemma registered_snoc: "registered (es @ [e]) = registered es @ (case snd e of RegisterSession i _ \<Rightarrow> [i] | _ \<Rightarrow> [])"
  by (induction es rule: registered.induct; cases e) (auto split: relay_event.split)

lemma relay_inv_keep:
  assumes inv: "relay_inv es w" and late: "\<forall>c \<in> fst ` set es. ck_mono c \<le> ck_mono now"
    and ss: "distinct (map fst ss')" "fst ` set ss' \<subseteq> set (registered (es @ [(now, ev)]))"
    and keep: "\<And>i nonce t. i \<in> set (registered es) \<Longrightarrow> remembers now (rv_sessions w) i nonce t \<Longrightarrow> remembers now ss' i nonce t"
  shows "relay_inv (es @ [(now, ev)]) (w\<lparr>rv_sessions := ss'\<rparr>)"
proof -
  have "logged (es @ [(now, ev)]) ss' e" if "logged es (rv_sessions w) e" for e
  proof -
    obtain i ts nonce where e: "e = (i, ts, nonce)" by (cases e)
    from that obtain at where at: "i \<in> set (registered es)" "at \<in> fst ` set es" "\<bar>ck_wall at - sint ts\<bar> \<le> 30"
      "\<forall>now. (\<forall>c \<in> fst ` set es. ck_mono c \<le> ck_mono now) \<longrightarrow> remembers now (rv_sessions w) i nonce (ck_mono at)"
      unfolding logged_def e by blast
    then have "remembers now ss' i nonce (ck_mono at)" using late keep by blast
    then have "\<forall>now'. (\<forall>c \<in> fst ` set (es @ [(now, ev)]). ck_mono c \<le> ck_mono now') \<longrightarrow> remembers now' ss' i nonce (ck_mono at)"
      using remembers_later [of now ss' i nonce "ck_mono at"] by auto
    then show ?thesis using at(1-3) unfolding logged_def e by (auto simp: registered_snoc)
  qed
  then show ?thesis using inv ss by (simp add: relay_inv_def)
qed

lemma verify_keys:
  assumes "verify_request cr now sig m p body ss = (r, ss')"
  shows "fst ` set ss' \<subseteq> fst ` set ss"
  using assms
proof (cases rule: verify_request_cases)
  case (forgot e s)
  then have "sg_session sig \<in> fst ` set (retain_live now ss)" by (metis map_of_SomeD fst_conv image_eqI)
  then show ?thesis using forgot by (auto simp: put_session_def retain_live_def)
next
  case (accepted u signature s)
  then have "sg_session sig \<in> fst ` set (retain_live now ss)" by (metis map_of_SomeD fst_conv image_eqI)
  then show ?thesis using accepted by (auto simp: put_session_def retain_live_def)
qed (auto simp: retain_live_def)

lemma relay_inv_step:
  assumes inv: "relay_inv es w" and agree: "clocks_agree (es @ [(now, ev)])" and reg: "distinct (registered (es @ [(now, ev)]))"
  shows "relay_inv (es @ [(now, ev)]) (relay_step cr w (now, ev))"
proof -
  have late: "\<forall>c \<in> fst ` set es. ck_mono c \<le> ck_mono now"
    and skew: "\<forall>c \<in> fst ` set es. int (ck_mono now) - int (ck_mono c) \<le> (ck_wall now - ck_wall c + 60) * 10 ^ 9"
    using agree by (auto simp: clocks_agree_def sorted_wrt_append)
  note keep = relay_inv_keep [OF inv late]
  have ss: "distinct (map fst (rv_sessions w))" "fst ` set (rv_sessions w) \<subseteq> set (registered es)"
    using inv by (simp_all add: relay_inv_def)
  show ?thesis
  proof (cases ev)
    case (RegisterSession i key)
    have "i \<notin> set (registered es)" using reg RegisterSession by (simp add: registered_snoc)
    then have "remembers now (register_session now i key (rv_sessions w)) j nonce t"
      if "j \<in> set (registered es)" "remembers now (rv_sessions w) j nonce t" for j nonce t
      using that by (auto simp: remembers_def register_session_def map_of_put)
    then have "relay_inv (es @ [(now, ev)]) (w\<lparr>rv_sessions := register_session now i key (rv_sessions w)\<rparr>)"
      using RegisterSession ss
      by (intro keep) (auto simp: register_session_def distinct_put registered_snoc put_session_def distinct_map_filter)
    then show ?thesis using RegisterSession by simp
  next
    case (VerifyRequest sig m p body)
    obtain r ss' where v: "verify_request cr now sig m p body (rv_sessions w) = (r, ss')" by fastforce
    let ?w = "w\<lparr>rv_sessions := ss'\<rparr>" and ?key = "(sg_session sig, sg_timestamp sig, sg_nonce sig)"
    have inv': "relay_inv (es @ [(now, ev)]) ?w"
      using verify_remembers [OF v ss(1), of now] verify_distinct [OF v ss(1)] verify_keys [OF v] ss(2) VerifyRequest
      by (intro keep) (auto simp: registered_snoc)
    show ?thesis
    proof (cases r)
      case (Inl e)
      then show ?thesis using VerifyRequest v inv' by simp
    next
      case (Inr u)
      note v = v [unfolded Inr]
      obtain u' where ts: "validate_timestamp now (sg_timestamp sig) = Inr u'"
        and live: "\<exists>s. map_of (retain_live now (rv_sessions w)) (sg_session sig) = Some s"
        using v by (cases rule: verify_request_cases) auto
      have "?key \<notin> set (rv_accepted w)"
      proof
        assume "?key \<in> set (rv_accepted w)"
        then have "logged es (rv_sessions w) ?key" using inv by (simp add: relay_inv_def)
        then obtain at where at: "at \<in> fst ` set es" "\<bar>ck_wall at - sint (sg_timestamp sig)\<bar> \<le> 30"
          "remembers now (rv_sessions w) (sg_session sig) (sg_nonce sig) (ck_mono at)"
          using late unfolding logged_def by blast
        then show False using no_second_acceptance [OF v ss(1) at(3) le_refl _ at(2)] late skew by blast
      qed
      moreover have "sg_session sig \<in> fst ` set (rv_sessions w)"
        using live by (auto simp: retain_live_def dest!: map_of_SomeD intro: rev_image_eqI)
      then have "sg_session sig \<in> set (registered (es @ [(now, ev)]))" using ss(2) by (auto simp: registered_snoc)
      moreover have "\<forall>now'. (\<forall>c \<in> fst ` set (es @ [(now, ev)]). ck_mono c \<le> ck_mono now') \<longrightarrow>
          remembers now' ss' (sg_session sig) (sg_nonce sig) (ck_mono now)"
        using remembers_later [OF accepted_now_remembered [OF v]] by auto
      moreover have "\<bar>ck_wall now - sint (sg_timestamp sig)\<bar> \<le> 30" using ts by (rule drift_bound)
      ultimately show ?thesis
        using inv' VerifyRequest v by (simp add: relay_inv_def logged_def)
    qed
  qed
qed

lemma relay_inv_run:
  "clocks_agree es \<Longrightarrow> distinct (registered es) \<Longrightarrow> relay_inv es (foldl (relay_step cr) relay_world_new es)"
proof (induction es rule: rev_induct)
  case Nil
  show ?case by (simp add: relay_inv_def relay_world_new_def)
next
  case (snoc e es)
  obtain now ev where e: "e = (now, ev)" by (cases e)
  have "clocks_agree es" "distinct (registered es)"
    using snoc.prems by (auto simp: clocks_agree_def sorted_wrt_append registered_snoc)
  then show ?case using snoc relay_inv_step [of es _ now ev cr] e by simp
qed

text \<open>C34: a signed request is accepted once: the timestamps that are accepted lie within a minute and
  a nonce is remembered for two, so however often a request is replayed, in whatever order and
  between whatever other requests, the service accepts its session, timestamp and nonce only once,
  as long as session identifiers are not reused and the clocks agree.\<close>

theorem request_accepted_once:
  assumes "clocks_agree es" "distinct (registered es)"
  shows "distinct (rv_accepted (foldl (relay_step cr) relay_world_new es))"
  using relay_inv_run [OF assms, of cr] by (simp add: relay_inv_def)

definition demo_relay :: "(relay_clock \<times> unit relay_event) list" where
  "demo_relay = (let sig = \<lparr>sg_session = 1, sg_timestamp = 100, sg_nonce = 2, sg_signature_b64 = ''s''\<rparr> in
     [(\<lparr>ck_wall = 100, ck_mono = 0\<rparr>, RegisterSession 1 ()),
      (\<lparr>ck_wall = 100, ck_mono = 5\<rparr>, VerifyRequest sig ''GET'' ''/'' []),
      (\<lparr>ck_wall = 100, ck_mono = 7\<rparr>, VerifyRequest sig ''GET'' ''/'' [])])"

definition demo_crypto :: "(unit, string) relay_crypto" where
  "demo_crypto = \<lparr>rc_verify = (\<lambda>_ _ s. s = ''s''), rc_signature_from_slice = Some, rc_sha256 = id,
     rc_b64_encode = id, rc_b64_decode = Some\<rparr>"

theorem request_accepted_once_witness:
  "distinct (rv_accepted (foldl (relay_step demo_crypto) relay_world_new demo_relay)) \<and>
   rv_accepted (foldl (relay_step demo_crypto) relay_world_new (take 2 demo_relay)) = [(1, 100, 2)]"
proof
  have "clocks_agree demo_relay" by (simp add: clocks_agree_def demo_relay_def Let_def)
  moreover have "distinct (registered demo_relay)" by (simp add: demo_relay_def Let_def)
  ultimately show "distinct (rv_accepted (foldl (relay_step demo_crypto) relay_world_new demo_relay))"
    by (rule request_accepted_once)
  show "rv_accepted (foldl (relay_step demo_crypto) relay_world_new (take 2 demo_relay)) = [(1, 100, 2)]"
    by (simp add: demo_relay_def demo_crypto_def Let_def relay_world_new_def register_session_def put_session_def
        verify_request_def validate_timestamp_def i64_max_def i64_min_def i64_sat_sub_def i64_abs_def
        max_timestamp_drift_secs_def parse_signature_b64_def retain_live_def session_live_def
        signing_session_ttl_def signing_session_idle_ttl_def duration_secs_def forget_nonces_def)
qed

end
