(* ===== verification/Ws_Frames.thy ===== *)
theory Ws_Frames
  imports Relay_Signing Utf8_Decoder
begin

text \<open>
  The signed WebSocket channel of the relay: the frames of crates/relay-protocol/src/lib.rs,
  the signer and verifier of crates/relay-ws/src/crypto.rs, and sending and receiving in
  crates/relay-ws/src/signed.rs. Ed25519, SHA-256 and base64 are the parameter \<open>relay_crypto\<close>, the
  JSON text of an envelope is given by \<open>to_json\<close> and read by \<open>of_json\<close>, and \<open>sign\<close> gives the
  bytes of a signature. The transport is under the control of an adversary, who delivers any
  bytes in any order.
\<close>

section \<open>Messages and frames\<close>

datatype ws_message_type = TyText | TyBinary | TyPing | TyPong | TyClose

fun ws_type_as_str :: "ws_message_type \<Rightarrow> string" where
  "ws_type_as_str TyText = ''text''"
| "ws_type_as_str TyBinary = ''binary''"
| "ws_type_as_str TyPing = ''ping''"
| "ws_type_as_str TyPong = ''pong''"
| "ws_type_as_str TyClose = ''close''"

record ws_frame =
  fr_type :: ws_message_type
  fr_payload :: string

text \<open>A message of axum; the code of a close frame is a \<open>u16\<close>.\<close>

datatype ws_message =
  MsgText string | MsgBinary string | MsgPing string | MsgPong string | MsgClose "(16 word \<times> string) option"

definition u16_to_be_bytes :: "16 word \<Rightarrow> string" where
  "u16_to_be_bytes c = [char_of (unat c div 256), char_of (unat c mod 256)]"

definition u16_from_be_bytes :: "char \<Rightarrow> char \<Rightarrow> 16 word" where
  "u16_from_be_bytes a b = word_of_nat (of_char a * 256 + of_char b)"

fun into_frame :: "ws_message \<Rightarrow> ws_frame" where
  "into_frame (MsgText t) = \<lparr>fr_type = TyText, fr_payload = t\<rparr>"
| "into_frame (MsgBinary p) = \<lparr>fr_type = TyBinary, fr_payload = p\<rparr>"
| "into_frame (MsgPing p) = \<lparr>fr_type = TyPing, fr_payload = p\<rparr>"
| "into_frame (MsgPong p) = \<lparr>fr_type = TyPong, fr_payload = p\<rparr>"
| "into_frame (MsgClose c) = \<lparr>fr_type = TyClose, fr_payload =
     (case c of None \<Rightarrow> [] | Some (code, reason) \<Rightarrow> u16_to_be_bytes code @ reason)\<rparr>"

definition try_from_frame :: "ws_frame \<Rightarrow> ws_message option" where
  "try_from_frame f =
     (let p = fr_payload f in
      case fr_type f of
        TyText \<Rightarrow> if from_utf8_ok p then Some (MsgText p) else None
      | TyBinary \<Rightarrow> Some (MsgBinary p)
      | TyPing \<Rightarrow> Some (MsgPing p)
      | TyPong \<Rightarrow> Some (MsgPong p)
      | TyClose \<Rightarrow>
          (case p of [] \<Rightarrow> Some (MsgClose None)
           | [_] \<Rightarrow> None
           | a # b # reason \<Rightarrow>
               if from_utf8_ok reason then Some (MsgClose (Some (u16_from_be_bytes a b, reason))) else None))"

definition message_ok :: "ws_message \<Rightarrow> bool" where
  \<comment> \<open>the texts of a message are UTF-8, as the type \<open>Utf8Bytes\<close> guarantees\<close>
  "message_ok m = (case m of MsgText t \<Rightarrow> from_utf8_ok t | MsgClose (Some (_, r)) \<Rightarrow> from_utf8_ok r | _ \<Rightarrow> True)"

section \<open>The signer\<close>

definition u64_max :: nat where
  "u64_max = 2 ^ 64 - 1"

definition seq_next :: "nat \<Rightarrow> nat" where
  \<comment> \<open>\<open>saturating_add(1)\<close>\<close>
  "seq_next n = min (n + 1) u64_max"

definition ws_signing_input ::
  "('k, 's) relay_crypto \<Rightarrow> request_signature \<Rightarrow> nat \<Rightarrow> ws_message_type \<Rightarrow> string \<Rightarrow> string" where
  "ws_signing_input cr sig sq ty payload =
     (let payload_hash = rc_b64_encode cr (rc_sha256 cr payload) in
      ''v1|'' @ show_uuid (sg_session sig) @ ''|'' @ show_uuid (sg_nonce sig) @ ''|'' @ show_nat sq @ ''|'' @
      ws_type_as_str ty @ ''|'' @ payload_hash)"

record ws_envelope =
  ev_version :: nat
  ev_seq :: nat
  ev_type :: ws_message_type
  ev_payload_b64 :: string
  ev_signature_b64 :: string

definition envelope_version :: nat where
  "envelope_version = 1"

record ws_signer =
  sn_signature :: request_signature
  sn_outbound_seq :: nat

definition signer_new :: "request_signature \<Rightarrow> ws_signer" where
  "signer_new sig = \<lparr>sn_signature = sig, sn_outbound_seq = 0\<rparr>"

definition ws_encode ::
  "('k, 's) relay_crypto \<Rightarrow> (string \<Rightarrow> string) \<Rightarrow> (ws_envelope \<Rightarrow> string) \<Rightarrow> ws_signer \<Rightarrow> ws_frame \<Rightarrow> string \<times> ws_signer" where
  "ws_encode cr sign to_json s f =
     (let sq = seq_next (sn_outbound_seq s);
          signing_input = ws_signing_input cr (sn_signature s) sq (fr_type f) (fr_payload f) in
      (to_json \<lparr>ev_version = envelope_version, ev_seq = sq, ev_type = fr_type f,
         ev_payload_b64 = rc_b64_encode cr (fr_payload f),
         ev_signature_b64 = rc_b64_encode cr (sign signing_input)\<rparr>,
       s\<lparr>sn_outbound_seq := sq\<rparr>))"

section \<open>The verifier\<close>

datatype ws_error = BadEnvelope | BadVersion | BadSequence nat nat | BadPayload | BadSignatureEncoding | BadSignature

record 'k ws_verifier =
  vf_signature :: request_signature
  vf_inbound_seq :: nat
  vf_peer_key :: 'k

definition verifier_new :: "request_signature \<Rightarrow> 'k \<Rightarrow> 'k ws_verifier" where
  "verifier_new sig key = \<lparr>vf_signature = sig, vf_inbound_seq = 0, vf_peer_key = key\<rparr>"

definition ws_decode ::
  "('k, 's) relay_crypto \<Rightarrow> (string \<Rightarrow> ws_envelope option) \<Rightarrow> 'k ws_verifier \<Rightarrow> string \<Rightarrow>
   (ws_error + ws_frame) \<times> 'k ws_verifier" where
  "ws_decode cr of_json v raw =
     (case of_json raw of None \<Rightarrow> (Inl BadEnvelope, v) | Some e \<Rightarrow>
      (if ev_version e \<noteq> envelope_version then (Inl BadVersion, v)
       else if ev_seq e \<noteq> seq_next (vf_inbound_seq v)
       then (Inl (BadSequence (seq_next (vf_inbound_seq v)) (ev_seq e)), v)
       else (case rc_b64_decode cr (ev_payload_b64 e) of None \<Rightarrow> (Inl BadPayload, v) | Some payload \<Rightarrow>
        (case rc_b64_decode cr (ev_signature_b64 e) of None \<Rightarrow> (Inl BadSignatureEncoding, v) | Some bytes \<Rightarrow>
         (case rc_signature_from_slice cr bytes of None \<Rightarrow> (Inl BadSignature, v) | Some signature \<Rightarrow>
          (if rc_verify cr (vf_peer_key v) (ws_signing_input cr (vf_signature v) (ev_seq e) (ev_type e) payload) signature
           then (Inr \<lparr>fr_type = ev_type e, fr_payload = payload\<rparr>, v\<lparr>vf_inbound_seq := ev_seq e\<rparr>)
           else (Inl BadSignature, v)))))))"

section \<open>The channel\<close>

definition ws_send ::
  "('k, 's) relay_crypto \<Rightarrow> (string \<Rightarrow> string) \<Rightarrow> (ws_envelope \<Rightarrow> string) \<Rightarrow> ws_signer \<Rightarrow> ws_message \<Rightarrow>
   ws_message option \<times> ws_signer" where
  "ws_send cr sign to_json s m =
     (case ws_encode cr sign to_json s (into_frame m) of
        (bytes, s') \<Rightarrow> (try_from_frame \<lparr>fr_type = TyBinary, fr_payload = bytes\<rparr>, s'))"

datatype ws_received = Received ws_message | ReceiveFailed "ws_error option" | EndOfStream

fun ws_recv ::
  "('k, 's) relay_crypto \<Rightarrow> (string \<Rightarrow> ws_envelope option) \<Rightarrow> 'k ws_verifier \<Rightarrow> ws_message list \<Rightarrow>
   ws_received \<times> 'k ws_verifier \<times> ws_message list" where
  \<comment> \<open>the next message of the channel, and the messages of the transport that are left; a
    failure without an error is a decoded frame that is no message\<close>
  "ws_recv cr of_json v [] = (EndOfStream, v, [])"
| "ws_recv cr of_json v (m # ms) =
     (let f = into_frame m in
      case fr_type f of
        TyPing \<Rightarrow> ws_recv cr of_json v ms
      | TyPong \<Rightarrow> ws_recv cr of_json v ms
      | TyClose \<Rightarrow> (EndOfStream, v, ms)
      | _ \<Rightarrow> (case ws_decode cr of_json v (fr_payload f) of
            (Inl e, v') \<Rightarrow> (ReceiveFailed (Some e), v', ms)
          | (Inr decoded, v') \<Rightarrow>
              (case try_from_frame decoded of None \<Rightarrow> ReceiveFailed None | Some r \<Rightarrow> Received r, v', ms)))"

section \<open>Messages survive their frames\<close>

lemma frame_roundtrip: "message_ok m \<Longrightarrow> try_from_frame (into_frame m) = Some m"
proof (cases m)
  case (MsgClose c)
  assume ok: "message_ok m"
  show ?thesis
  proof (cases c)
    case (Some cr)
    obtain code reason where cr: "cr = (code, reason)" by (cases cr)
    have "unat code < 65536" using unsigned_less [of code, where ?'a = nat] by simp
    then have "u16_from_be_bytes (char_of (unat code div 256)) (char_of (unat code mod 256)) = code"
      by (simp add: u16_from_be_bytes_def less_mult_imp_div_less)
    then show ?thesis using ok MsgClose Some cr by (simp add: try_from_frame_def u16_to_be_bytes_def message_ok_def)
  qed (use MsgClose in \<open>simp add: try_from_frame_def\<close>)
qed (simp_all add: try_from_frame_def message_ok_def)

section \<open>What the signing input binds\<close>

lemma split_at_bar: "xs @ c # as = ys @ c # bs \<Longrightarrow> c \<notin> set xs \<Longrightarrow> c \<notin> set ys \<Longrightarrow> xs = ys \<and> as = bs"
  by (induction xs arbitrary: ys) (auto simp: Cons_eq_append_conv)

lemma bar_not_digit: "CHR ''|'' \<notin> set (show_nat n)"
  using show_nat_chars [of "CHR ''|''" n] by auto

lemma ws_signing_input_inj:
  assumes "ws_signing_input cr sig n ty p = ws_signing_input cr sig n' ty' p'"
  shows "n = n' \<and> ty = ty' \<and> rc_b64_encode cr (rc_sha256 cr p) = rc_b64_encode cr (rc_sha256 cr p')"
proof -
  have "show_nat n @ CHR ''|'' # ws_type_as_str ty @ CHR ''|'' # rc_b64_encode cr (rc_sha256 cr p)
      = show_nat n' @ CHR ''|'' # ws_type_as_str ty' @ CHR ''|'' # rc_b64_encode cr (rc_sha256 cr p')"
    using assms by (simp add: ws_signing_input_def Let_def)
  from split_at_bar [OF this bar_not_digit bar_not_digit]
  have n: "n = n'" and rest: "ws_type_as_str ty @ CHR ''|'' # rc_b64_encode cr (rc_sha256 cr p)
      = ws_type_as_str ty' @ CHR ''|'' # rc_b64_encode cr (rc_sha256 cr p')"
    using show_nat_inj by auto
  have "CHR ''|'' \<notin> set (ws_type_as_str t)" for t by (cases t) auto
  from split_at_bar [OF rest this this] have "ws_type_as_str ty = ws_type_as_str ty'"
    "rc_b64_encode cr (rc_sha256 cr p) = rc_b64_encode cr (rc_sha256 cr p')" by auto
  moreover have "ty = ty'" using calculation(1) by (cases ty; cases ty') auto
  ultimately show ?thesis using n by simp
qed

section \<open>A session with an adversary\<close>

text \<open>The signer sends frames; the adversary delivers bytes to the verifier.\<close>

datatype ws_event = SendFrame ws_frame | Deliver string

record 'k ws_world =
  wd_signer :: ws_signer
  wd_verifier :: "'k ws_verifier"
  wd_got :: "ws_frame list"

definition ws_world_new :: "request_signature \<Rightarrow> 'k \<Rightarrow> 'k ws_world" where
  "ws_world_new sig key = \<lparr>wd_signer = signer_new sig, wd_verifier = verifier_new sig key, wd_got = []\<rparr>"

fun ws_step ::
  "('k, 's) relay_crypto \<Rightarrow> (string \<Rightarrow> string) \<Rightarrow> (ws_envelope \<Rightarrow> string) \<Rightarrow> (string \<Rightarrow> ws_envelope option) \<Rightarrow>
   'k ws_world \<Rightarrow> ws_event \<Rightarrow> 'k ws_world" where
  "ws_step cr sign to_json of_json w (SendFrame f) =
     w\<lparr>wd_signer := snd (ws_encode cr sign to_json (wd_signer w) f)\<rparr>"
| "ws_step cr sign to_json of_json w (Deliver raw) =
     (case ws_decode cr of_json (wd_verifier w) raw of
        (Inl _, v) \<Rightarrow> w\<lparr>wd_verifier := v\<rparr>
      | (Inr f, v) \<Rightarrow> w\<lparr>wd_verifier := v, wd_got := wd_got w @ [f]\<rparr>)"

fun frames_sent :: "ws_event list \<Rightarrow> ws_frame list" where
  "frames_sent [] = []"
| "frames_sent (SendFrame f # es) = f # frames_sent es"
| "frames_sent (Deliver _ # es) = frames_sent es"

definition inputs_signed :: "('k, 's) relay_crypto \<Rightarrow> request_signature \<Rightarrow> ws_frame list \<Rightarrow> string set" where
  \<comment> \<open>what the signer signs for these frames, as long as the counter does not saturate\<close>
  "inputs_signed cr sig fs = {ws_signing_input cr sig (Suc k) (fr_type (fs ! k)) (fr_payload (fs ! k)) | k. k < length fs}"

text \<open>
  The hypotheses on the libraries. No signature that the adversary delivers is a forgery: it
  verifies only for a message that the key has signed, in this session or elsewhere
  (\<open>others\<close>). No two payloads of the session collide.
\<close>

definition unforged ::
  "('k, 's) relay_crypto \<Rightarrow> (string \<Rightarrow> ws_envelope option) \<Rightarrow> 'k \<Rightarrow> string set \<Rightarrow> ws_event list \<Rightarrow> bool" where
  "unforged cr of_json key known es =
     (\<forall>raw e bytes s m. Deliver raw \<in> set es \<longrightarrow> of_json raw = Some e \<longrightarrow>
        rc_b64_decode cr (ev_signature_b64 e) = Some bytes \<longrightarrow> rc_signature_from_slice cr bytes = Some s \<longrightarrow>
        rc_verify cr key m s \<longrightarrow> m \<in> known)"

definition payloads_in :: "('k, 's) relay_crypto \<Rightarrow> (string \<Rightarrow> ws_envelope option) \<Rightarrow> ws_event list \<Rightarrow> string set" where
  "payloads_in cr of_json es = fr_payload ` set (frames_sent es) \<union>
     {p. \<exists>raw e. Deliver raw \<in> set es \<and> of_json raw = Some e \<and> rc_b64_decode cr (ev_payload_b64 e) = Some p}"

lemma ws_decode_Inr:
  assumes "ws_decode cr of_json v raw = (Inr f, v')"
  obtains e payload bytes s where "of_json raw = Some e" "ev_seq e = seq_next (vf_inbound_seq v)"
    "rc_b64_decode cr (ev_payload_b64 e) = Some payload" "rc_b64_decode cr (ev_signature_b64 e) = Some bytes"
    "rc_signature_from_slice cr bytes = Some s"
    "rc_verify cr (vf_peer_key v) (ws_signing_input cr (vf_signature v) (ev_seq e) (ev_type e) payload) s"
    "f = \<lparr>fr_type = ev_type e, fr_payload = payload\<rparr>" "v' = v\<lparr>vf_inbound_seq := ev_seq e\<rparr>"
  using assms by (auto simp: ws_decode_def split: option.splits if_splits)

lemma ws_decode_Inl: "ws_decode cr of_json v raw = (Inl e, v') \<Longrightarrow> v' = v"
  by (auto simp: ws_decode_def split: option.splits if_splits)

definition ws_inv :: "request_signature \<Rightarrow> 'k \<Rightarrow> ws_frame list \<Rightarrow> 'k ws_world \<Rightarrow> bool" where
  "ws_inv sig key fs w =
     (vf_signature (wd_verifier w) = sig \<and> vf_peer_key (wd_verifier w) = key \<and>
      vf_inbound_seq (wd_verifier w) = length (wd_got w) \<and> length (wd_got w) \<le> length fs \<and>
      wd_got w = take (length (wd_got w)) fs)"

lemma ws_inv_deliver:
  assumes inv: "ws_inv sig key fs w"
    and unf: "unforged cr of_json key (inputs_signed cr sig fs \<union> others) es" and raw: "Deliver raw \<in> set es"
    and others: "\<forall>m \<in> others. \<forall>n ty p. m \<noteq> ws_signing_input cr sig n ty p"
    and inj: "inj_on (\<lambda>p. rc_b64_encode cr (rc_sha256 cr p)) (payloads_in cr of_json es)"
    and fs: "fs = frames_sent es" "length fs < u64_max"
  shows "ws_inv sig key fs (ws_step cr sign to_json of_json w (Deliver raw))"
proof (cases "ws_decode cr of_json (wd_verifier w) raw")
  case (Pair r v')
  show ?thesis
  proof (cases r)
    case (Inl e)
    then show ?thesis using Pair inv ws_decode_Inl [of cr of_json "wd_verifier w" raw e v'] by (simp add: ws_inv_def)
  next
    case (Inr f)
    from Pair [unfolded Inr] obtain e payload bytes s where d: "of_json raw = Some e"
      "ev_seq e = seq_next (vf_inbound_seq (wd_verifier w))"
      "rc_b64_decode cr (ev_payload_b64 e) = Some payload" "rc_b64_decode cr (ev_signature_b64 e) = Some bytes"
      "rc_signature_from_slice cr bytes = Some s"
      "rc_verify cr (vf_peer_key (wd_verifier w))
         (ws_signing_input cr (vf_signature (wd_verifier w)) (ev_seq e) (ev_type e) payload) s"
      "f = \<lparr>fr_type = ev_type e, fr_payload = payload\<rparr>" "v' = (wd_verifier w)\<lparr>vf_inbound_seq := ev_seq e\<rparr>"
      by (rule ws_decode_Inr)
    let ?n = "length (wd_got w)"
    have i: "vf_signature (wd_verifier w) = sig" "vf_peer_key (wd_verifier w) = key"
      "vf_inbound_seq (wd_verifier w) = ?n" "?n \<le> length fs" "wd_got w = take ?n fs"
      using inv by (simp_all add: ws_inv_def)
    have n: "ev_seq e = Suc ?n" using d(2) i(3,4) fs(2) by (simp add: seq_next_def)
    have "rc_verify cr key (ws_signing_input cr sig (Suc ?n) (ev_type e) payload) s"
      using d(6) i(1,2) n by simp
    then have "ws_signing_input cr sig (Suc ?n) (ev_type e) payload \<in> inputs_signed cr sig fs \<union> others"
      using unf raw d(1,4,5) unfolding unforged_def by blast
    then have "ws_signing_input cr sig (Suc ?n) (ev_type e) payload \<in> inputs_signed cr sig fs"
      using others by blast
    then obtain k where k: "k < length fs" "ws_signing_input cr sig (Suc ?n) (ev_type e) payload
        = ws_signing_input cr sig (Suc k) (fr_type (fs ! k)) (fr_payload (fs ! k))"
      unfolding inputs_signed_def by blast
    from ws_signing_input_inj [OF k(2)] have eq: "k = ?n" "ev_type e = fr_type (fs ! k)"
      "rc_b64_encode cr (rc_sha256 cr payload) = rc_b64_encode cr (rc_sha256 cr (fr_payload (fs ! k)))" by simp_all
    have "payload \<in> payloads_in cr of_json es" using raw d(1,3) by (auto simp: payloads_in_def)
    moreover have "fr_payload (fs ! k) \<in> payloads_in cr of_json es" using k(1) fs(1) by (auto simp: payloads_in_def)
    ultimately have "payload = fr_payload (fs ! k)" using inj_onD [OF inj eq(3)] by simp
    then have "f = fs ! ?n" using d(7) eq(1,2) by simp
    then have "wd_got w @ [f] = take (Suc ?n) fs" using i(5) k(1) eq(1) by (simp add: take_Suc_conv_app_nth)
    then show ?thesis using Pair Inr d(8) i n k(1) eq(1) by (simp add: ws_inv_def)
  qed
qed

lemma ws_inv_run:
  assumes "unforged cr of_json key (inputs_signed cr sig fs \<union> others) es"
    and "\<forall>m \<in> others. \<forall>n ty p. m \<noteq> ws_signing_input cr sig n ty p"
    and "inj_on (\<lambda>p. rc_b64_encode cr (rc_sha256 cr p)) (payloads_in cr of_json es)"
    and "fs = frames_sent es" "length fs < u64_max" and "set es' \<subseteq> set es" and "ws_inv sig key fs w"
  shows "ws_inv sig key fs (foldl (ws_step cr sign to_json of_json) w es')"
  using assms(6,7)
proof (induction es' arbitrary: w)
  case (Cons e es')
  have "ws_inv sig key fs (ws_step cr sign to_json of_json w e)"
  proof (cases e)
    case (SendFrame f)
    then show ?thesis using Cons.prems(2) by (simp add: ws_inv_def)
  next
    case (Deliver raw)
    then show ?thesis
      using Cons.prems ws_inv_deliver [OF Cons.prems(2) assms(1) _ assms(2-5), of raw sign to_json] by simp
  qed
  then show ?case using Cons by simp
qed simp

section \<open>Properties\<close>

text \<open>C35: the frames that a verifier accepts are the frames that the signer sent, in the order in
  which it sent them, without gaps, repetitions or changes, whatever the transport delivers, as
  long as signatures cannot be forged, payloads do not collide and the counter does not saturate;
  signatures of the same key for other sessions or other purposes do not help.\<close>

theorem frames_accepted_in_order:
  assumes "unforged cr of_json key (inputs_signed cr sig (frames_sent es) \<union> others) es"
    and "\<forall>m \<in> others. \<forall>n ty p. m \<noteq> ws_signing_input cr sig n ty p"
    and "inj_on (\<lambda>p. rc_b64_encode cr (rc_sha256 cr p)) (payloads_in cr of_json es)"
    and "length (frames_sent es) < u64_max"
  shows "\<exists>n. wd_got (foldl (ws_step cr sign to_json of_json) (ws_world_new sig key) es) = take n (frames_sent es)"
proof -
  have "ws_inv sig key (frames_sent es) (ws_world_new sig key)"
    by (simp add: ws_inv_def ws_world_new_def verifier_new_def)
  from ws_inv_run [OF assms(1-3) refl assms(4) subset_refl this] show ?thesis
    unfolding ws_inv_def by blast
qed

text \<open>A concrete session: signatures are the signed text, and the adversary swaps, drops and
  repeats envelopes.\<close>

definition demo_sig :: request_signature where
  "demo_sig = \<lparr>sg_session = 1, sg_timestamp = 0, sg_nonce = 2, sg_signature_b64 = []\<rparr>"

definition ws_crypto :: "(unit, string) relay_crypto" where
  "ws_crypto = \<lparr>rc_verify = (\<lambda>_ m s. m = s), rc_signature_from_slice = Some, rc_sha256 = id,
     rc_b64_encode = id, rc_b64_decode = Some\<rparr>"

definition demo_frame :: ws_frame where
  "demo_frame = \<lparr>fr_type = TyText, fr_payload = ''hi''\<rparr>"

definition demo_envelope :: ws_envelope where
  "demo_envelope = \<lparr>ev_version = 1, ev_seq = 1, ev_type = TyText, ev_payload_b64 = ''hi'',
     ev_signature_b64 = ws_signing_input ws_crypto demo_sig 1 TyText ''hi''\<rparr>"

definition demo_json :: "string \<Rightarrow> ws_envelope option" where
  "demo_json raw = (if raw = ''first'' then Some demo_envelope else None)"

theorem frames_accepted_in_order_witness:
  "\<exists>n. wd_got (foldl (ws_step ws_crypto id (\<lambda>_. ''first'') demo_json) (ws_world_new demo_sig ())
      [SendFrame demo_frame, Deliver ''first'', Deliver ''first'', Deliver ''noise'']) = take n [demo_frame]"
proof -
  let ?es = "[SendFrame demo_frame, Deliver ''first'', Deliver ''first'', Deliver ''noise'']"
  have u: "unforged ws_crypto demo_json () (inputs_signed ws_crypto demo_sig (frames_sent ?es) \<union> {}) ?es"
    by (auto simp: unforged_def demo_json_def demo_envelope_def ws_crypto_def inputs_signed_def demo_frame_def
        split: if_splits)
  have "inj_on (\<lambda>p. rc_b64_encode ws_crypto (rc_sha256 ws_crypto p)) (payloads_in ws_crypto demo_json ?es)"
    by (simp add: ws_crypto_def)
  moreover have "length (frames_sent ?es) < u64_max" by (simp add: u64_max_def)
  ultimately show ?thesis using frames_accepted_in_order [OF u] by simp
qed

text \<open>Sending and receiving everything, over an honest transport.\<close>

fun send_all ::
  "('k, 's) relay_crypto \<Rightarrow> (string \<Rightarrow> string) \<Rightarrow> (ws_envelope \<Rightarrow> string) \<Rightarrow> ws_signer \<Rightarrow> ws_message list \<Rightarrow> ws_message list" where
  "send_all cr sign to_json s [] = []"
| "send_all cr sign to_json s (m # ms) =
     (case ws_send cr sign to_json s m of (r, s') \<Rightarrow>
        (case r of None \<Rightarrow> [] | Some e \<Rightarrow> [e]) @ send_all cr sign to_json s' ms)"

fun recv_all ::
  "('k, 's) relay_crypto \<Rightarrow> (string \<Rightarrow> ws_envelope option) \<Rightarrow> 'k ws_verifier \<Rightarrow> ws_message list \<Rightarrow> ws_received list" where
  "recv_all cr of_json v [] = []"
| "recv_all cr of_json v (m # ms) =
     (case ws_recv cr of_json v [m] of
        (EndOfStream, v', _) \<Rightarrow> recv_all cr of_json v' ms
      | (r, v', _) \<Rightarrow> r # recv_all cr of_json v' ms)"

lemma recv_send_all:
  assumes json: "\<And>e. of_json (to_json e) = Some e" and b64: "\<And>x. rc_b64_decode cr (rc_b64_encode cr x) = Some x"
    and sig: "\<And>m. \<exists>s. rc_signature_from_slice cr (sign m) = Some s \<and> rc_verify cr (vf_peer_key v) m s"
    and "\<forall>m \<in> set ms. message_ok m" "sn_outbound_seq s + length ms < u64_max"
    and "vf_signature v = sn_signature s" "vf_inbound_seq v = sn_outbound_seq s"
  shows "recv_all cr of_json v (send_all cr sign to_json s ms) = map Received ms"
  using assms
proof (induction ms arbitrary: s v)
  case (Cons m ms)
  let ?sq = "Suc (sn_outbound_seq s)" and ?f = "into_frame m"
  have sq: "seq_next (sn_outbound_seq s) = ?sq" using Cons.prems(5) by (simp add: seq_next_def)
  let ?m = "ws_signing_input cr (sn_signature s) ?sq (fr_type ?f) (fr_payload ?f)"
  obtain g where g: "rc_signature_from_slice cr (sign ?m) = Some g" "rc_verify cr (vf_peer_key v) ?m g"
    using sig [of ?m] Cons.prems(3) by blast
  obtain raw s' where enc: "ws_encode cr sign to_json s ?f = (raw, s')" by fastforce
  have s': "s' = s\<lparr>sn_outbound_seq := ?sq\<rparr>" using enc sq by (auto simp: ws_encode_def Let_def)
  have dec: "ws_decode cr of_json v raw = (Inr ?f, v\<lparr>vf_inbound_seq := ?sq\<rparr>)"
    using enc sq g Cons.prems(6,7) json b64 by (auto simp: ws_encode_def ws_decode_def Let_def)
  have "ws_recv cr of_json v [MsgBinary raw] = (Received m, v\<lparr>vf_inbound_seq := ?sq\<rparr>, [])"
    using dec frame_roundtrip [of m] Cons.prems(4) by (simp add: Let_def)
  moreover have "ws_send cr sign to_json s m = (Some (MsgBinary raw), s')"
    using enc by (simp add: ws_send_def try_from_frame_def)
  moreover have "recv_all cr of_json (v\<lparr>vf_inbound_seq := ?sq\<rparr>) (send_all cr sign to_json s' ms) = map Received ms"
    using Cons.prems unfolding s' by (intro Cons.IH) simp_all
  ultimately show ?case by simp
qed simp

text \<open>An envelope codec, to instantiate the one of \<open>serde_json\<close>: every character of a field is
  preceded by \<open>0\<close>, and \<open>1\<close> ends the field.\<close>

definition demo_field :: "string \<Rightarrow> string" where
  "demo_field x = concat (map (\<lambda>c. [CHR ''0'', c]) x) @ ''1''"

fun demo_unfield :: "string \<Rightarrow> (string \<times> string) option" where
  "demo_unfield (k # cs) =
     (if k = CHR ''1'' then Some ([], cs)
      else (case cs of [] \<Rightarrow> None
        | c # cs' \<Rightarrow> (case demo_unfield cs' of None \<Rightarrow> None | Some (x, r) \<Rightarrow> Some (c # x, r))))"
| "demo_unfield [] = None"

lemma demo_unfield_field: "demo_unfield (demo_field x @ r) = Some (x, r)"
  by (induction x) (auto simp: demo_field_def)

definition demo_to_json :: "ws_envelope \<Rightarrow> string" where
  "demo_to_json e = concat (map demo_field [replicate (ev_version e) CHR ''0'', replicate (ev_seq e) CHR ''0'',
     ws_type_as_str (ev_type e), ev_payload_b64 e, ev_signature_b64 e])"

fun demo_unfields :: "nat \<Rightarrow> string \<Rightarrow> string list option" where
  "demo_unfields 0 s = Some []"
| "demo_unfields (Suc n) s = (case demo_unfield s of None \<Rightarrow> None
     | Some (x, r) \<Rightarrow> map_option ((#) x) (demo_unfields n r))"

definition demo_type :: "string \<Rightarrow> ws_message_type" where
  "demo_type s = hd (filter (\<lambda>t. ws_type_as_str t = s) [TyText, TyBinary, TyPing, TyPong, TyClose])"

definition demo_of_json :: "string \<Rightarrow> ws_envelope option" where
  "demo_of_json s = (case demo_unfields 5 s of
     Some [v, n, t, p, g] \<Rightarrow> Some \<lparr>ev_version = length v, ev_seq = length n, ev_type = demo_type t,
       ev_payload_b64 = p, ev_signature_b64 = g\<rparr>
   | _ \<Rightarrow> None)"

lemma demo_json_roundtrip: "demo_of_json (demo_to_json e) = Some e"
proof -
  have "demo_unfields (length xs) (concat (map demo_field xs)) = Some xs" for xs
    by (induction xs) (simp_all add: demo_unfield_field)
  from this [of "[replicate (ev_version e) CHR ''0'', replicate (ev_seq e) CHR ''0'',
     ws_type_as_str (ev_type e), ev_payload_b64 e, ev_signature_b64 e]"]
  have "demo_unfields 5 (demo_to_json e) = Some [replicate (ev_version e) CHR ''0'', replicate (ev_seq e) CHR ''0'',
     ws_type_as_str (ev_type e), ev_payload_b64 e, ev_signature_b64 e]"
    by (simp add: demo_to_json_def demo_unfield_field eval_nat_numeral)
  moreover have "demo_type (ws_type_as_str (ev_type e)) = ev_type e"
    by (cases "ev_type e") (simp_all add: demo_type_def)
  ultimately show ?thesis by (simp add: demo_of_json_def)
qed

text \<open>C36: over an honest transport the channel delivers what was sent: every message the signer
  sends comes out of the verifier of the same session unchanged, in order, up to the 2^64 - 2
  messages that the counter can number.\<close>

theorem channel_delivers:
  assumes "\<And>e. of_json (to_json e) = Some e" and "\<And>x. rc_b64_decode cr (rc_b64_encode cr x) = Some x"
    and "\<And>m. \<exists>s. rc_signature_from_slice cr (sign m) = Some s \<and> rc_verify cr key m s"
    and "\<forall>m \<in> set ms. message_ok m" "length ms < u64_max"
  shows "recv_all cr of_json (verifier_new sig key) (send_all cr sign to_json (signer_new sig) ms) = map Received ms"
  using assms by (intro recv_send_all) (simp_all add: verifier_new_def signer_new_def)

theorem channel_delivers_witness:
  "recv_all ws_crypto demo_of_json (verifier_new demo_sig ())
     (send_all ws_crypto id demo_to_json (signer_new demo_sig) [MsgText ''hi'', MsgClose None])
   = [Received (MsgText ''hi''), Received (MsgClose None)]"
proof -
  have "\<exists>s. rc_signature_from_slice ws_crypto (id m) = Some s \<and> rc_verify ws_crypto () m s" for m
    by (simp add: ws_crypto_def)
  moreover have "rc_b64_decode ws_crypto (rc_b64_encode ws_crypto x) = Some x" for x by (simp add: ws_crypto_def)
  moreover have "\<forall>m \<in> set [MsgText ''hi'', MsgClose None]. message_ok m" by code_simp
  moreover have "length [MsgText ''hi'', MsgClose None] < u64_max" by (simp add: u64_max_def)
  ultimately show ?thesis
    using channel_delivers [of demo_of_json demo_to_json ws_crypto id "()" "[MsgText ''hi'', MsgClose None]" demo_sig]
      demo_json_roundtrip by simp
qed

end
