(* ===== verification/Relay_Pairing.thy ===== *)
theory Relay_Pairing
  imports Relay_Signing "HOL-Library.Multiset"
begin

text \<open>
  Pairing a browser with a host, crates/trusted-key-auth (runtime.rs, trusted_keys.rs, refresh.rs,
  key_confirmation.rs, spake2.rs) and crates/server/src/relay_pairing/server.rs: one-time codes,
  enrollments, the file of trusted clients, refreshed signing sessions and rate limits.

  SPAKE2, HKDF, HMAC, Ed25519, base64 and serde_json are libraries and parameters; fresh random values (codes,
  identifiers, the randomness of SPAKE2) are inputs of the calls. One call happens at one instant.
  A hash map is a list with unique keys. \<open>ApiError\<close> has the same five errors as the crate.
\<close>

section \<open>Libraries\<close>

record trusted_client =
  tc_client_id :: uuid
  tc_client_name :: string
  tc_client_browser :: string
  tc_client_os :: string
  tc_client_device :: string
  tc_public_key_b64 :: string

record 'k pairing_libs =
  pb_key_from_bytes :: "string \<Rightarrow> 'k option"
  pb_key_bytes :: "'k \<Rightarrow> string"
  pb_spake2 :: "nat \<Rightarrow> string \<Rightarrow> string \<Rightarrow> (string \<times> string) option"
    \<comment> \<open>randomness, code and the client's message; the shared key and the server's message\<close>
  pb_hkdf :: "string \<Rightarrow> string \<Rightarrow> string"
  pb_hmac :: "string \<Rightarrow> string \<Rightarrow> string"
  pb_of_json :: "string \<Rightarrow> string + trusted_client list"
  pb_to_json :: "trusted_client list \<Rightarrow> string + string"

record disk =
  dk_read_error :: "string option"
  dk_write_error :: "string option"

datatype key_auth_error =
  KaUnauthorized | KaBadRequest string | KaForbidden string | KaTooManyRequests string | KaIo string

definition uuid_bytes :: "uuid \<Rightarrow> string" where
  "uuid_bytes u = map (\<lambda>i. char_of (u div 256 ^ (15 - i) mod 256)) [0..<16]"

section \<open>Trusted clients\<close>

definition parse_public_key_base64 ::
  "('k, 's) relay_crypto \<Rightarrow> 'k pairing_libs \<Rightarrow> string \<Rightarrow> key_auth_error + 'k" where
  "parse_public_key_base64 cr lb raw =
     (case rc_b64_decode cr raw of None \<Rightarrow> Inl KaUnauthorized
      | Some bytes \<Rightarrow>
          (if length bytes \<noteq> 32 then Inl KaUnauthorized
           else (case pb_key_from_bytes lb bytes of None \<Rightarrow> Inl KaUnauthorized | Some k \<Rightarrow> Inr k)))"

definition validate_client ::
  "('k, 's) relay_crypto \<Rightarrow> 'k pairing_libs \<Rightarrow> trusted_client \<Rightarrow> key_auth_error + unit" where
  "validate_client cr lb c =
     (if str_trim (tc_client_name c) = [] then Inl (KaBadRequest ''Trusted key file contains invalid client name'')
      else if str_trim (tc_client_browser c) = [] then Inl (KaBadRequest ''Trusted key file contains invalid client browser'')
      else if str_trim (tc_client_os c) = [] then Inl (KaBadRequest ''Trusted key file contains invalid client OS'')
      else if str_trim (tc_client_device c) = [] then Inl (KaBadRequest ''Trusted key file contains invalid client device'')
      else (case parse_public_key_base64 cr lb (tc_public_key_b64 c) of
          Inl _ \<Rightarrow> Inl (KaBadRequest ''Trusted key file contains invalid keys'') | Inr _ \<Rightarrow> Inr ()))"

fun validate_clients ::
  "('k, 's) relay_crypto \<Rightarrow> 'k pairing_libs \<Rightarrow> trusted_client list \<Rightarrow> key_auth_error + unit" where
  "validate_clients cr lb [] = Inr ()"
| "validate_clients cr lb (c # cs) =
     (case validate_client cr lb c of Inl e \<Rightarrow> Inl e | Inr _ \<Rightarrow> validate_clients cr lb cs)"

definition read_trusted_clients_file ::
  "('k, 's) relay_crypto \<Rightarrow> 'k pairing_libs \<Rightarrow> disk \<Rightarrow> string option \<Rightarrow> key_auth_error + trusted_client list" where
  "read_trusted_clients_file cr lb dk f =
     (case f of None \<Rightarrow> Inr []
      | Some contents \<Rightarrow>
      (case dk_read_error dk of Some e \<Rightarrow> Inl (KaIo e) | None \<Rightarrow>
      (if str_trim contents = [] then Inr []
       else (case pb_of_json lb contents of
           Inl e \<Rightarrow> Inl (KaBadRequest (''Trusted key file is invalid JSON: '' @ e))
         | Inr cs \<Rightarrow> (case validate_clients cr lb cs of Inl e \<Rightarrow> Inl e | Inr _ \<Rightarrow> Inr cs)))))"

definition write_trusted_clients_file ::
  "'k pairing_libs \<Rightarrow> disk \<Rightarrow> trusted_client list \<Rightarrow> key_auth_error + string" where
  \<comment> \<open>the new contents of the file\<close>
  "write_trusted_clients_file lb dk cs =
     (case pb_to_json lb cs of
        Inl e \<Rightarrow> Inl (KaBadRequest (''Failed to serialize trusted keys: '' @ e))
      | Inr s \<Rightarrow> (case dk_write_error dk of Some e \<Rightarrow> Inl (KaIo e) | None \<Rightarrow> Inr (s @ nl)))"

fun replace_first :: "('a \<Rightarrow> bool) \<Rightarrow> 'a \<Rightarrow> 'a list \<Rightarrow> 'a list option" where
  "replace_first P y [] = None"
| "replace_first P y (x # xs) = (if P x then Some (y # xs) else map_option ((#) x) (replace_first P y xs))"

definition upsert_trusted_client ::
  "('k, 's) relay_crypto \<Rightarrow> 'k pairing_libs \<Rightarrow> disk \<Rightarrow> string option \<Rightarrow> trusted_client \<Rightarrow>
   (key_auth_error + bool) \<times> string option" where
  "upsert_trusted_client cr lb dk f client =
     (case validate_client cr lb client of Inl e \<Rightarrow> (Inl e, f) | Inr _ \<Rightarrow>
      (case read_trusted_clients_file cr lb dk f of Inl e \<Rightarrow> (Inl e, f) | Inr clients \<Rightarrow>
      (let same = (\<lambda>c. tc_client_id c = tc_client_id client \<or> tc_public_key_b64 c = tc_public_key_b64 client);
           write = (\<lambda>cs added. case write_trusted_clients_file lb dk cs of
               Inl e \<Rightarrow> (Inl e, f) | Inr s \<Rightarrow> (Inr added, Some s)) in
       case replace_first same client clients of
         Some cs \<Rightarrow> write cs False
       | None \<Rightarrow> write (clients @ [client]) True)))"

definition remove_trusted_client ::
  "('k, 's) relay_crypto \<Rightarrow> 'k pairing_libs \<Rightarrow> disk \<Rightarrow> string option \<Rightarrow> uuid \<Rightarrow>
   (key_auth_error + bool) \<times> string option" where
  "remove_trusted_client cr lb dk f client_id =
     (case read_trusted_clients_file cr lb dk f of Inl e \<Rightarrow> (Inl e, f) | Inr clients \<Rightarrow>
      (let kept = filter (\<lambda>c. tc_client_id c \<noteq> client_id) clients in
       if length kept = length clients then (Inr False, f)
       else (case write_trusted_clients_file lb dk kept of Inl e \<Rightarrow> (Inl e, f) | Inr s \<Rightarrow> (Inr True, Some s))))"

section \<open>Codes and proofs\<close>

definition enrollment_code_length :: nat where
  "enrollment_code_length = 6"

definition code_char :: "char \<Rightarrow> bool" where
  "code_char c = (let n = of_char c :: nat in (65 \<le> n \<and> n \<le> 90) \<or> (48 \<le> n \<and> n \<le> 57))"

definition normalize_enrollment_code :: "string \<Rightarrow> key_auth_error + string" where
  "normalize_enrollment_code raw =
     (let code = map upper_char (str_trim raw) in
      if length code \<noteq> enrollment_code_length
      then Inl (KaBadRequest ''Invalid enrollment code length. Expected 6 characters.'')
      else if \<not> list_all code_char code
      then Inl (KaBadRequest ''Enrollment code must contain only A-Z and 0-9.'')
      else Inr code)"

record spake2_outcome =
  sp_enrollment_code :: string
  sp_shared_key :: string
  sp_server_message_b64 :: string

definition start_spake2_enrollment ::
  "('k, 's) relay_crypto \<Rightarrow> 'k pairing_libs \<Rightarrow> nat \<Rightarrow> string \<Rightarrow> string \<Rightarrow> key_auth_error + spake2_outcome" where
  "start_spake2_enrollment cr lb rng raw_code client_message_b64 =
     (case normalize_enrollment_code raw_code of Inl e \<Rightarrow> Inl e | Inr code \<Rightarrow>
      (case rc_b64_decode cr client_message_b64 of None \<Rightarrow> Inl (KaBadRequest ''Invalid client_message_b64'')
       | Some client_message \<Rightarrow>
      (case pb_spake2 lb rng code client_message of None \<Rightarrow> Inl KaUnauthorized
       | Some (shared_key, server_message) \<Rightarrow>
           Inr \<lparr>sp_enrollment_code = code, sp_shared_key = shared_key,
             sp_server_message_b64 = rc_b64_encode cr server_message\<rparr>)))"

definition derive_confirmation_key :: "'k pairing_libs \<Rightarrow> string \<Rightarrow> string" where
  "derive_confirmation_key lb shared_key = pb_hkdf lb shared_key ''key-confirmation''"

definition build_client_proof ::
  "('k, 's) relay_crypto \<Rightarrow> 'k pairing_libs \<Rightarrow> string \<Rightarrow> uuid \<Rightarrow> string \<Rightarrow> string" where
  "build_client_proof cr lb shared_key enrollment_id browser_pk =
     rc_b64_encode cr (pb_hmac lb (derive_confirmation_key lb shared_key)
       (''vk-spake2-client-proof-v2'' @ uuid_bytes enrollment_id @ browser_pk))"

definition verify_client_proof ::
  "('k, 's) relay_crypto \<Rightarrow> 'k pairing_libs \<Rightarrow> string \<Rightarrow> uuid \<Rightarrow> string \<Rightarrow> string \<Rightarrow> key_auth_error + unit" where
  "verify_client_proof cr lb shared_key enrollment_id browser_pk proof_b64 =
     (case rc_b64_decode cr proof_b64 of None \<Rightarrow> Inl KaUnauthorized
      | Some provided \<Rightarrow>
          (if provided = pb_hmac lb (derive_confirmation_key lb shared_key)
                (''vk-spake2-client-proof-v2'' @ uuid_bytes enrollment_id @ browser_pk)
           then Inr () else Inl KaUnauthorized))"

definition build_server_proof ::
  "('k, 's) relay_crypto \<Rightarrow> 'k pairing_libs \<Rightarrow> string \<Rightarrow> uuid \<Rightarrow> string \<Rightarrow> string \<Rightarrow> string" where
  "build_server_proof cr lb shared_key enrollment_id browser_pk server_pk =
     rc_b64_encode cr (pb_hmac lb (derive_confirmation_key lb shared_key)
       (''vk-spake2-server-proof-v2'' @ uuid_bytes enrollment_id @ browser_pk @ server_pk))"

definition verify_server_proof ::
  "('k, 's) relay_crypto \<Rightarrow> 'k pairing_libs \<Rightarrow> string \<Rightarrow> uuid \<Rightarrow> string \<Rightarrow> string \<Rightarrow> string \<Rightarrow> key_auth_error + unit" where
  "verify_server_proof cr lb shared_key enrollment_id browser_pk server_pk proof_b64 =
     (case rc_b64_decode cr proof_b64 of None \<Rightarrow> Inl KaUnauthorized
      | Some provided \<Rightarrow>
          (if provided = pb_hmac lb (derive_confirmation_key lb shared_key)
                (''vk-spake2-server-proof-v2'' @ uuid_bytes enrollment_id @ browser_pk @ server_pk)
           then Inr () else Inl KaUnauthorized))"

section \<open>Refreshing a session\<close>

definition refresh_max_timestamp_drift_secs :: int where
  "refresh_max_timestamp_drift_secs = 30"

definition build_refresh_message :: "64 word \<Rightarrow> string \<Rightarrow> uuid \<Rightarrow> string" where
  "build_refresh_message timestamp nonce client_id =
     ''v1|refresh|'' @ show_int (sint timestamp) @ ''|'' @ nonce @ ''|'' @ show_uuid client_id"

definition validate_refresh_timestamp :: "relay_clock \<Rightarrow> 64 word \<Rightarrow> key_auth_error + unit" where
  "validate_refresh_timestamp now timestamp =
     (if ck_wall now < 0 \<or> i64_max < ck_wall now then Inl KaUnauthorized
      else if refresh_max_timestamp_drift_secs < i64_abs (i64_sat_sub (ck_wall now) (sint timestamp))
      then Inl KaUnauthorized else Inr ())"

definition verify_refresh_signature ::
  "('k, 's) relay_crypto \<Rightarrow> 'k \<Rightarrow> string \<Rightarrow> string \<Rightarrow> key_auth_error + unit" where
  "verify_refresh_signature cr key message signature_b64 =
     (case rc_b64_decode cr signature_b64 of None \<Rightarrow> Inl KaUnauthorized | Some bytes \<Rightarrow>
      (case rc_signature_from_slice cr bytes of None \<Rightarrow> Inl KaUnauthorized | Some signature \<Rightarrow>
       (if rc_verify cr key message signature then Inr () else Inl KaUnauthorized)))"

section \<open>The runtime\<close>

definition pake_enrollment_ttl :: nat where
  "pake_enrollment_ttl = duration_secs (5 * 60)"

definition refresh_nonce_ttl :: nat where
  "refresh_nonce_ttl = duration_secs (2 * 60)"

record 'k pairing =
  pr_file :: "string option"
  pr_pake_enrollments :: "(uuid \<times> string \<times> nat) list"
  pr_enrollment_code :: "string option"
  pr_rate_limit_windows :: "(string \<times> nat list) list"
  pr_refresh_nonces :: "(string \<times> nat) list"
  pr_sessions :: "'k relay_sessions"  \<comment> \<open>of the signing service\<close>

definition store_pake_enrollment :: "relay_clock \<Rightarrow> uuid \<Rightarrow> string \<Rightarrow> 'k pairing \<Rightarrow> 'k pairing" where
  "store_pake_enrollment now i shared_key st =
     st\<lparr>pr_pake_enrollments := (i, shared_key, ck_mono now) # filter (\<lambda>e. fst e \<noteq> i) (pr_pake_enrollments st)\<rparr>"

definition take_pake_enrollment :: "relay_clock \<Rightarrow> uuid \<Rightarrow> 'k pairing \<Rightarrow> string option \<times> 'k pairing" where
  "take_pake_enrollment now i st =
     (case map_of (pr_pake_enrollments st) i of None \<Rightarrow> (None, st)
      | Some (shared_key, created_at) \<Rightarrow>
          (if pake_enrollment_ttl < ck_mono now - created_at then None else Some shared_key,
           st\<lparr>pr_pake_enrollments := filter (\<lambda>e. fst e \<noteq> i) (pr_pake_enrollments st)\<rparr>))"

definition get_or_set_enrollment_code :: "string \<Rightarrow> 'k pairing \<Rightarrow> string \<times> 'k pairing" where
  "get_or_set_enrollment_code new_code st =
     (case pr_enrollment_code st of Some code \<Rightarrow> (code, st)
      | None \<Rightarrow> (new_code, st\<lparr>pr_enrollment_code := Some new_code\<rparr>))"

definition consume_enrollment_code :: "string \<Rightarrow> 'k pairing \<Rightarrow> bool \<times> 'k pairing" where
  "consume_enrollment_code code st =
     (if pr_enrollment_code st \<noteq> Some code then (False, st) else (True, st\<lparr>pr_enrollment_code := None\<rparr>))"

definition rate_window :: "string \<Rightarrow> (string \<times> nat list) list \<Rightarrow> nat list" where
  "rate_window bucket ws = unwrap_or (map_of ws bucket) []"

definition set_rate_window :: "string \<Rightarrow> nat list \<Rightarrow> (string \<times> nat list) list \<Rightarrow> (string \<times> nat list) list" where
  "set_rate_window bucket ts ws = (bucket, ts) # filter (\<lambda>e. fst e \<noteq> bucket) ws"

definition enforce_rate_limit ::
  "relay_clock \<Rightarrow> string \<Rightarrow> nat \<Rightarrow> nat \<Rightarrow> 'k pairing \<Rightarrow> (key_auth_error + unit) \<times> 'k pairing" where
  "enforce_rate_limit now bucket max_requests window st =
     (let entry = filter (\<lambda>t. ck_mono now - t \<le> window) (rate_window bucket (pr_rate_limit_windows st));
          put = (\<lambda>e. st\<lparr>pr_rate_limit_windows := set_rate_window bucket e (pr_rate_limit_windows st)\<rparr>) in
      if max_requests \<le> length entry
      then (Inl (KaTooManyRequests ''Too many requests. Please wait and try again.''), put entry)
      else (Inr (), put (entry @ [ck_mono now])))"

definition claim_refresh_nonce :: "relay_clock \<Rightarrow> string \<Rightarrow> 'k pairing \<Rightarrow> (key_auth_error + unit) \<times> 'k pairing" where
  "claim_refresh_nonce now nonce st =
     (let normalized = str_trim nonce in
      if normalized = [] \<or> 128 < length normalized then (Inl KaUnauthorized, st)
      else (let seen = filter (\<lambda>(_, inserted_at). ck_mono now - inserted_at \<le> refresh_nonce_ttl) (pr_refresh_nonces st) in
        if normalized \<in> fst ` set seen then (Inl KaUnauthorized, st\<lparr>pr_refresh_nonces := seen\<rparr>)
        else (Inr (), st\<lparr>pr_refresh_nonces := (normalized, ck_mono now) # seen\<rparr>)))"

definition find_trusted_client ::
  "('k, 's) relay_crypto \<Rightarrow> 'k pairing_libs \<Rightarrow> disk \<Rightarrow> uuid \<Rightarrow> 'k pairing \<Rightarrow> key_auth_error + trusted_client option" where
  "find_trusted_client cr lb dk client_id st =
     (case read_trusted_clients_file cr lb dk (pr_file st) of Inl e \<Rightarrow> Inl e
      | Inr clients \<Rightarrow> Inr (List.find (\<lambda>c. tc_client_id c = client_id) clients))"

section \<open>The pairing server\<close>

definition rate_limit_window :: nat where
  "rate_limit_window = duration_secs 60"

definition generate_code_global_limit :: nat where
  "generate_code_global_limit = 5"

definition spake2_start_global_limit :: nat where
  "spake2_start_global_limit = 30"

definition signing_session_refresh_global_limit :: nat where
  "signing_session_refresh_global_limit = 30"

definition generate_enrollment_code ::
  "relay_clock \<Rightarrow> string \<Rightarrow> 'k pairing \<Rightarrow> (key_auth_error + string) \<times> 'k pairing" where
  "generate_enrollment_code now new_code st =
     (case enforce_rate_limit now ''relay-auth:code-generation:global'' generate_code_global_limit rate_limit_window st of
        (Inl e, st) \<Rightarrow> (Inl e, st)
      | (Inr _, st) \<Rightarrow> (case get_or_set_enrollment_code new_code st of (code, st) \<Rightarrow> (Inr code, st)))"

definition start_enrollment ::
  "('k, 's) relay_crypto \<Rightarrow> 'k pairing_libs \<Rightarrow> relay_clock \<Rightarrow> nat \<Rightarrow> uuid \<Rightarrow> string \<Rightarrow> string \<Rightarrow> 'k pairing \<Rightarrow>
   (key_auth_error + (uuid \<times> string)) \<times> 'k pairing" where
  "start_enrollment cr lb now rng enrollment_id code client_message_b64 st =
     (case enforce_rate_limit now ''relay-auth:spake2-start:global'' spake2_start_global_limit rate_limit_window st of
        (Inl e, st) \<Rightarrow> (Inl e, st)
      | (Inr _, st) \<Rightarrow>
      (case start_spake2_enrollment cr lb rng code client_message_b64 of Inl e \<Rightarrow> (Inl e, st) | Inr start \<Rightarrow>
      (case consume_enrollment_code (sp_enrollment_code start) st of
         (False, st) \<Rightarrow> (Inl KaUnauthorized, st)
       | (True, st) \<Rightarrow>
           (Inr (enrollment_id, sp_server_message_b64 start),
            store_pake_enrollment now enrollment_id (sp_shared_key start) st))))"

definition list_paired_clients ::
  "('k, 's) relay_crypto \<Rightarrow> 'k pairing_libs \<Rightarrow> disk \<Rightarrow> 'k pairing \<Rightarrow> key_auth_error + trusted_client list" where
  \<comment> \<open>the keys are left out of the answer\<close>
  "list_paired_clients cr lb dk st =
     (case read_trusted_clients_file cr lb dk (pr_file st) of Inl e \<Rightarrow> Inl e
      | Inr clients \<Rightarrow> Inr (map (\<lambda>c. c\<lparr>tc_public_key_b64 := []\<rparr>) clients))"

definition remove_paired_client ::
  "('k, 's) relay_crypto \<Rightarrow> 'k pairing_libs \<Rightarrow> disk \<Rightarrow> uuid \<Rightarrow> 'k pairing \<Rightarrow> (key_auth_error + bool) \<times> 'k pairing" where
  "remove_paired_client cr lb dk client_id st =
     (case remove_trusted_client cr lb dk (pr_file st) client_id of (r, f) \<Rightarrow> (r, st\<lparr>pr_file := f\<rparr>))"

record finish_request =
  fq_enrollment_id :: uuid
  fq_client :: trusted_client  \<comment> \<open>the five fields of the client and its \<open>public_key_b64\<close>\<close>
  fq_client_proof_b64 :: string

definition finish_enrollment ::
  "('k, 's) relay_crypto \<Rightarrow> 'k pairing_libs \<Rightarrow> disk \<Rightarrow> relay_clock \<Rightarrow> 'k \<Rightarrow> uuid \<Rightarrow> finish_request \<Rightarrow> 'k pairing \<Rightarrow>
   (key_auth_error + (uuid \<times> string \<times> string)) \<times> 'k pairing" where
  "finish_enrollment cr lb dk now server_key session_id q st =
     (case take_pake_enrollment now (fq_enrollment_id q) st of
        (None, st) \<Rightarrow> (Inl KaUnauthorized, st)
      | (Some shared_key, st) \<Rightarrow>
      (case parse_public_key_base64 cr lb (tc_public_key_b64 (fq_client q)) of
         Inl _ \<Rightarrow> (Inl (KaBadRequest ''Invalid public_key_b64''), st)
       | Inr key \<Rightarrow>
      (case verify_client_proof cr lb shared_key (fq_enrollment_id q) (pb_key_bytes lb key) (fq_client_proof_b64 q) of
         Inl _ \<Rightarrow> (Inl KaUnauthorized, st)
       | Inr _ \<Rightarrow>
      (case upsert_trusted_client cr lb dk (pr_file st) (fq_client q) of
         (Inl e, f) \<Rightarrow> (Inl e, st\<lparr>pr_file := f\<rparr>)
       | (Inr _, f) \<Rightarrow>
           (Inr (session_id, rc_b64_encode cr (pb_key_bytes lb server_key),
              build_server_proof cr lb shared_key (fq_enrollment_id q) (pb_key_bytes lb key) (pb_key_bytes lb server_key)),
            st\<lparr>pr_file := f, pr_sessions := register_session now session_id key (pr_sessions st)\<rparr>)))))"

record refresh_request =
  rq_client_id :: uuid
  rq_timestamp :: "64 word"
  rq_nonce :: string
  rq_signature_b64 :: string

definition refresh_signing_session ::
  "('k, 's) relay_crypto \<Rightarrow> 'k pairing_libs \<Rightarrow> disk \<Rightarrow> relay_clock \<Rightarrow> uuid \<Rightarrow> refresh_request \<Rightarrow> 'k pairing \<Rightarrow>
   (key_auth_error + uuid) \<times> 'k pairing" where
  "refresh_signing_session cr lb dk now session_id q st =
     (case enforce_rate_limit now ''relay-auth:signing-refresh:global'' signing_session_refresh_global_limit
          rate_limit_window st of
        (Inl e, st) \<Rightarrow> (Inl e, st)
      | (Inr _, st) \<Rightarrow>
      (case find_trusted_client cr lb dk (rq_client_id q) st of
         Inl e \<Rightarrow> (Inl e, st)
       | Inr None \<Rightarrow> (Inl KaUnauthorized, st)
       | Inr (Some client) \<Rightarrow>
      (case parse_public_key_base64 cr lb (tc_public_key_b64 client) of
         Inl _ \<Rightarrow> (Inl KaUnauthorized, st)
       | Inr key \<Rightarrow>
      (case validate_refresh_timestamp now (rq_timestamp q) of
         Inl e \<Rightarrow> (Inl e, st)
       | Inr _ \<Rightarrow>
      (case claim_refresh_nonce now (rq_nonce q) st of
         (Inl e, st) \<Rightarrow> (Inl e, st)
       | (Inr _, st) \<Rightarrow>
      (case verify_refresh_signature cr key
            (build_refresh_message (rq_timestamp q) (rq_nonce q) (rq_client_id q)) (rq_signature_b64 q) of
         Inl e \<Rightarrow> (Inl e, st)
       | Inr _ \<Rightarrow> (Inr session_id, st\<lparr>pr_sessions := register_session now session_id key (pr_sessions st)\<rparr>)))))))"

end
