(* ===== verification/Relay_Pairing_Props.thy ===== *)
theory Relay_Pairing_Props
  imports Relay_Pairing "HOL-Library.Code_Target_Nat"
begin

text \<open>
  What pairing guarantees: every browser that is let in has used up a code of its own and knows
  the key that SPAKE2 derives from it, sessions belong to keys that were let in, a signed refresh is
  good for one session, and the rate limits hold for every window of time.
\<close>

section \<open>The service at work\<close>

datatype pairing_event =
    GenerateCode string
  | StartEnrollment nat uuid string string
  | FinishEnrollment disk uuid finish_request
  | RefreshSession disk uuid refresh_request
  | RemoveClient disk uuid
  | SignedRequest request_signature string string string

record 'k paired =
  pd_code :: string
  pd_enrollment :: uuid
  pd_key :: 'k
  pd_proof :: string

record 'k pairing_world =
  pw_state :: "'k pairing"
  pw_issued :: "string list"  \<comment> \<open>the codes that were made, in order\<close>
  pw_codes :: "(uuid \<times> string) list"  \<comment> \<open>the code of each open enrollment\<close>
  pw_paired :: "'k paired list"
  pw_refreshed :: "(uuid \<times> 64 word \<times> string) list"

definition pairing_world_new :: "string option \<Rightarrow> 'k pairing_world" where
  "pairing_world_new f = \<lparr>pw_state = \<lparr>pr_file = f, pr_pake_enrollments = [], pr_enrollment_code = None,
     pr_rate_limit_windows = [], pr_refresh_nonces = [], pr_sessions = []\<rparr>,
     pw_issued = [], pw_codes = [], pw_paired = [], pw_refreshed = []\<rparr>"

definition key_of :: "('k, 's) relay_crypto \<Rightarrow> 'k pairing_libs \<Rightarrow> trusted_client \<Rightarrow> 'k" where
  "key_of cr lb c = projr (parse_public_key_base64 cr lb (tc_public_key_b64 c))"

fun pairing_step ::
  "('k, 's) relay_crypto \<Rightarrow> 'k pairing_libs \<Rightarrow> 'k \<Rightarrow> 'k pairing_world \<Rightarrow> relay_clock \<times> pairing_event \<Rightarrow> 'k pairing_world" where
  "pairing_step cr lb server_key w (now, GenerateCode c) =
     (case generate_enrollment_code now c (pw_state w) of
        (Inl _, st) \<Rightarrow> w\<lparr>pw_state := st\<rparr>
      | (Inr code, st) \<Rightarrow> w\<lparr>pw_state := st,
          pw_issued := pw_issued w @ (if pr_enrollment_code (pw_state w) = None then [code] else [])\<rparr>)"
| "pairing_step cr lb server_key w (now, StartEnrollment rng i raw msg) =
     (case start_enrollment cr lb now rng i raw msg (pw_state w) of
        (Inl _, st) \<Rightarrow> w\<lparr>pw_state := st\<rparr>
      | (Inr _, st) \<Rightarrow> w\<lparr>pw_state := st,
          pw_codes := (i, the (pr_enrollment_code (pw_state w))) # filter (\<lambda>e. fst e \<noteq> i) (pw_codes w)\<rparr>)"
| "pairing_step cr lb server_key w (now, FinishEnrollment dk session q) =
     (let i = fq_enrollment_id q; codes = filter (\<lambda>e. fst e \<noteq> i) (pw_codes w) in
      case finish_enrollment cr lb dk now server_key session q (pw_state w) of
        (Inl _, st) \<Rightarrow> w\<lparr>pw_state := st, pw_codes := codes\<rparr>
      | (Inr _, st) \<Rightarrow> w\<lparr>pw_state := st, pw_codes := codes,
          pw_paired := pw_paired w @ [\<lparr>pd_code = the (map_of (pw_codes w) i), pd_enrollment = i,
            pd_key = key_of cr lb (fq_client q), pd_proof = fq_client_proof_b64 q\<rparr>]\<rparr>)"
| "pairing_step cr lb server_key w (now, RefreshSession dk session q) =
     (case refresh_signing_session cr lb dk now session q (pw_state w) of
        (Inl _, st) \<Rightarrow> w\<lparr>pw_state := st\<rparr>
      | (Inr _, st) \<Rightarrow> w\<lparr>pw_state := st,
          pw_refreshed := pw_refreshed w @ [(rq_client_id q, rq_timestamp q, rq_nonce q)]\<rparr>)"
| "pairing_step cr lb server_key w (now, RemoveClient dk i) =
     w\<lparr>pw_state := snd (remove_paired_client cr lb dk i (pw_state w))\<rparr>"
| "pairing_step cr lb server_key w (now, SignedRequest sig m p body) =
     w\<lparr>pw_state := (pw_state w)\<lparr>pr_sessions :=
        snd (verify_request cr now sig m p body (pr_sessions (pw_state w)))\<rparr>\<rparr>"

section \<open>The file of trusted clients\<close>

definition ok_disk :: disk where
  "ok_disk = \<lparr>dk_read_error = None, dk_write_error = None\<rparr>"

definition json_faithful :: "'k pairing_libs \<Rightarrow> bool" where
  \<comment> \<open>serde_json reads back what it wrote, with white space behind it\<close>
  "json_faithful lb = (\<forall>cs s. pb_to_json lb cs = Inr s \<longrightarrow> pb_of_json lb (s @ nl) = Inr cs)"

definition trusted_key :: "('k, 's) relay_crypto \<Rightarrow> 'k pairing_libs \<Rightarrow> string option \<Rightarrow> 'k \<Rightarrow> bool" where
  "trusted_key cr lb f k =
     (case read_trusted_clients_file cr lb ok_disk f of Inl _ \<Rightarrow> False
      | Inr cs \<Rightarrow> list_ex (\<lambda>c. parse_public_key_base64 cr lb (tc_public_key_b64 c) = Inr k) cs)"

lemma read_ok_disk:
  "read_trusted_clients_file cr lb dk f = Inr cs \<Longrightarrow> read_trusted_clients_file cr lb ok_disk f = Inr cs"
  by (auto simp: read_trusted_clients_file_def ok_disk_def split: option.splits if_splits)

lemma trusted_keyI:
  "read_trusted_clients_file cr lb dk f = Inr cs \<Longrightarrow> c \<in> set cs \<Longrightarrow>
   parse_public_key_base64 cr lb (tc_public_key_b64 c) = Inr k \<Longrightarrow> trusted_key cr lb f k"
  using read_ok_disk [of cr lb dk f cs] by (auto simp: trusted_key_def list_ex_iff)

lemma read_written:
  assumes "json_faithful lb" "write_trusted_clients_file lb dk cs = Inr s"
    "read_trusted_clients_file cr lb dk' (Some s) = Inr cs'"
  shows "set cs' \<subseteq> set cs"
  using assms
  by (auto simp: json_faithful_def write_trusted_clients_file_def read_trusted_clients_file_def
      split: sum.splits option.splits if_splits)

lemma trusted_written:
  assumes "json_faithful lb" "write_trusted_clients_file lb dk cs = Inr s" "trusted_key cr lb (Some s) k"
  shows "\<exists>c \<in> set cs. parse_public_key_base64 cr lb (tc_public_key_b64 c) = Inr k"
proof -
  obtain cs' c where "read_trusted_clients_file cr lb ok_disk (Some s) = Inr cs'" "c \<in> set cs'"
    "parse_public_key_base64 cr lb (tc_public_key_b64 c) = Inr k"
    using assms(3) by (auto simp: trusted_key_def list_ex_iff split: sum.splits)
  then show ?thesis using read_written [OF assms(1,2)] by blast
qed

lemma replace_first_set: "replace_first P y xs = Some ys \<Longrightarrow> set ys \<subseteq> insert y (set xs)"
  by (induction xs arbitrary: ys) (auto split: if_splits)

lemma upsert_trusted:
  assumes json: "json_faithful lb" and up: "upsert_trusted_client cr lb dk f client = (r, f')"
    and k: "trusted_key cr lb f' k"
  shows "trusted_key cr lb f k \<or> (isl r = False \<and> parse_public_key_base64 cr lb (tc_public_key_b64 client) = Inr k)"
proof (cases "f' = f")
  case True
  then show ?thesis using k by simp
next
  case False
  have "\<exists>clients cs s b. read_trusted_clients_file cr lb dk f = Inr clients \<and>
    set cs \<subseteq> insert client (set clients) \<and> write_trusted_clients_file lb dk cs = Inr s \<and> f' = Some s \<and> r = Inr b"
    (is "\<exists>clients cs s b. ?written clients cs s b")
  proof -
    obtain clients where r: "read_trusted_clients_file cr lb dk f = Inr clients"
      using up False by (auto simp: upsert_trusted_client_def split: sum.splits)
    let ?same = "\<lambda>c. tc_client_id c = tc_client_id client \<or> tc_public_key_b64 c = tc_public_key_b64 client"
    let ?cs = "case replace_first ?same client clients of Some cs \<Rightarrow> cs | None \<Rightarrow> clients @ [client]"
    have "set ?cs \<subseteq> insert client (set clients)"
      using replace_first_set [of ?same client clients] by (auto split: option.splits)
    moreover obtain s b where "write_trusted_clients_file lb dk ?cs = Inr s" "f' = Some s" "r = Inr b"
      using up False r by (auto simp: upsert_trusted_client_def Let_def split: sum.splits option.splits)
    ultimately show ?thesis using r by blast
  qed
  then obtain clients cs s b where c: "read_trusted_clients_file cr lb dk f = Inr clients"
    "set cs \<subseteq> insert client (set clients)" "write_trusted_clients_file lb dk cs = Inr s" "f' = Some s" "r = Inr b"
    by blast
  then obtain c' where "c' \<in> insert client (set clients)" "parse_public_key_base64 cr lb (tc_public_key_b64 c') = Inr k"
    using trusted_written [OF json c(3)] k by blast
  then show ?thesis using trusted_keyI [OF c(1)] c(5) by auto
qed

lemma remove_trusted:
  assumes json: "json_faithful lb" and rm: "remove_trusted_client cr lb dk f i = (r, f')"
    and k: "trusted_key cr lb f' k"
  shows "trusted_key cr lb f k"
proof (cases "f' = f")
  case True
  then show ?thesis using k by simp
next
  case False
  then obtain clients s where c: "read_trusted_clients_file cr lb dk f = Inr clients" "f' = Some s"
    "write_trusted_clients_file lb dk (filter (\<lambda>c. tc_client_id c \<noteq> i) clients) = Inr s"
    using rm by (auto simp: remove_trusted_client_def Let_def split: sum.splits if_splits)
  then obtain c' where "c' \<in> set clients" "parse_public_key_base64 cr lb (tc_public_key_b64 c') = Inr k"
    using trusted_written [OF json c(3)] k by auto
  then show ?thesis using trusted_keyI [OF c(1)] by blast
qed

section \<open>One lemma per call\<close>

lemma enforce_keeps:
  assumes "enforce_rate_limit now b m wd st = (r, st')"
  shows "pr_file st' = pr_file st" "pr_pake_enrollments st' = pr_pake_enrollments st"
    "pr_enrollment_code st' = pr_enrollment_code st" "pr_refresh_nonces st' = pr_refresh_nonces st"
    "pr_sessions st' = pr_sessions st"
  using assms by (auto simp: enforce_rate_limit_def Let_def split: if_splits)

lemma generate_cases:
  assumes "generate_enrollment_code now c st = (r, st')"
  shows "pr_file st' = pr_file st" "pr_pake_enrollments st' = pr_pake_enrollments st"
    "pr_refresh_nonces st' = pr_refresh_nonces st" "pr_sessions st' = pr_sessions st"
    "isl r \<Longrightarrow> pr_enrollment_code st' = pr_enrollment_code st"
    "r = Inr code \<Longrightarrow> pr_enrollment_code st' = Some code \<and> (pr_enrollment_code st = None \<or> pr_enrollment_code st = Some code)"
  using assms
  by (auto simp: generate_enrollment_code_def get_or_set_enrollment_code_def dest: enforce_keeps
      split: prod.splits sum.splits option.splits)

lemma start_cases:
  assumes "start_enrollment cr lb now rng i raw msg st = (r, st')"
  shows "pr_file st' = pr_file st" "pr_refresh_nonces st' = pr_refresh_nonces st" "pr_sessions st' = pr_sessions st"
    "isl r \<Longrightarrow> pr_enrollment_code st' = pr_enrollment_code st \<and> pr_pake_enrollments st' = pr_pake_enrollments st"
    "\<not> isl r \<Longrightarrow> \<exists>code m key sm. pr_enrollment_code st = Some code \<and> pr_enrollment_code st' = None \<and>
       pb_spake2 lb rng code m = Some (key, sm) \<and>
       pr_pake_enrollments st' = (i, key, ck_mono now) # filter (\<lambda>e. fst e \<noteq> i) (pr_pake_enrollments st)"
proof -
  obtain r1 st1 where e: "enforce_rate_limit now ''relay-auth:spake2-start:global'' spake2_start_global_limit
      rate_limit_window st = (r1, st1)" by fastforce
  note keeps = enforce_keeps [OF e]
  show "pr_file st' = pr_file st" "pr_refresh_nonces st' = pr_refresh_nonces st" "pr_sessions st' = pr_sessions st"
    "isl r \<Longrightarrow> pr_enrollment_code st' = pr_enrollment_code st \<and> pr_pake_enrollments st' = pr_pake_enrollments st"
    using assms keeps e
    by (auto simp: start_enrollment_def consume_enrollment_code_def store_pake_enrollment_def
        split: sum.splits if_splits)
  show "\<not> isl r \<Longrightarrow> \<exists>code m key sm. pr_enrollment_code st = Some code \<and> pr_enrollment_code st' = None \<and>
       pb_spake2 lb rng code m = Some (key, sm) \<and>
       pr_pake_enrollments st' = (i, key, ck_mono now) # filter (\<lambda>e. fst e \<noteq> i) (pr_pake_enrollments st)"
    using assms keeps e
    by (auto simp: start_enrollment_def consume_enrollment_code_def store_pake_enrollment_def
        start_spake2_enrollment_def split: sum.splits option.splits if_splits) blast+
qed

lemma take_cases:
  assumes "take_pake_enrollment now i st = (r, st')"
  shows "pr_file st' = pr_file st" "pr_refresh_nonces st' = pr_refresh_nonces st" "pr_sessions st' = pr_sessions st"
    "pr_enrollment_code st' = pr_enrollment_code st"
    "pr_pake_enrollments st' = filter (\<lambda>e. fst e \<noteq> i) (pr_pake_enrollments st)"
    "r = Some key \<Longrightarrow> \<exists>t. map_of (pr_pake_enrollments st) i = Some (key, t)"
proof -
  have "map_of es i = None \<Longrightarrow> filter (\<lambda>e. fst e \<noteq> i) es = es" for es :: "(uuid \<times> string \<times> nat) list"
    by (induction es) (auto split: if_splits)
  then show "pr_pake_enrollments st' = filter (\<lambda>e. fst e \<noteq> i) (pr_pake_enrollments st)"
    using assms by (auto simp: take_pake_enrollment_def split: option.splits)
qed (use assms in \<open>auto simp: take_pake_enrollment_def split: option.splits if_splits\<close>)

lemma upsert_failed: "upsert_trusted_client cr lb dk f client = (Inl e, f') \<Longrightarrow> f' = f"
  by (auto simp: upsert_trusted_client_def Let_def split: sum.splits option.splits)

lemma finish_cases:
  assumes fin: "finish_enrollment cr lb dk now server_key session q st = (r, st')"
  shows "pr_refresh_nonces st' = pr_refresh_nonces st" "pr_enrollment_code st' = pr_enrollment_code st"
    "pr_pake_enrollments st' = filter (\<lambda>e. fst e \<noteq> fq_enrollment_id q) (pr_pake_enrollments st)"
    "isl r \<Longrightarrow> pr_sessions st' = pr_sessions st \<and> pr_file st' = pr_file st"
    "\<not> isl r \<Longrightarrow> \<exists>shared t key b. map_of (pr_pake_enrollments st) (fq_enrollment_id q) = Some (shared, t) \<and>
       parse_public_key_base64 cr lb (tc_public_key_b64 (fq_client q)) = Inr key \<and>
       verify_client_proof cr lb shared (fq_enrollment_id q) (pb_key_bytes lb key) (fq_client_proof_b64 q) = Inr () \<and>
       upsert_trusted_client cr lb dk (pr_file st) (fq_client q) = (Inr b, pr_file st') \<and>
       pr_sessions st' = register_session now session key (pr_sessions st)"
proof -
  obtain k st1 where e: "take_pake_enrollment now (fq_enrollment_id q) st = (k, st1)" by fastforce
  note keeps = take_cases [OF e]
  show "pr_refresh_nonces st' = pr_refresh_nonces st" "pr_enrollment_code st' = pr_enrollment_code st"
    "pr_pake_enrollments st' = filter (\<lambda>e. fst e \<noteq> fq_enrollment_id q) (pr_pake_enrollments st)"
    "isl r \<Longrightarrow> pr_sessions st' = pr_sessions st \<and> pr_file st' = pr_file st"
    using fin e keeps(1-5)
    by (auto simp: finish_enrollment_def dest: upsert_failed split: option.splits sum.splits prod.splits)
  assume ok: "\<not> isl r"
  obtain shared where k: "k = Some shared"
    using fin e ok by (cases k) (auto simp: finish_enrollment_def)
  obtain t where "map_of (pr_pake_enrollments st) (fq_enrollment_id q) = Some (shared, t)" using keeps(6) [OF k] by blast
  then show "\<exists>shared t key b. map_of (pr_pake_enrollments st) (fq_enrollment_id q) = Some (shared, t) \<and>
       parse_public_key_base64 cr lb (tc_public_key_b64 (fq_client q)) = Inr key \<and>
       verify_client_proof cr lb shared (fq_enrollment_id q) (pb_key_bytes lb key) (fq_client_proof_b64 q) = Inr () \<and>
       upsert_trusted_client cr lb dk (pr_file st) (fq_client q) = (Inr b, pr_file st') \<and>
       pr_sessions st' = register_session now session key (pr_sessions st)"
    using fin e k ok keeps(1,3) by (auto simp: finish_enrollment_def split: sum.splits prod.splits)
qed

lemma claim_nonce_cases:
  assumes "claim_refresh_nonce now nonce st = (r, st')"
  shows "pr_file st' = pr_file st" "pr_pake_enrollments st' = pr_pake_enrollments st"
    "pr_enrollment_code st' = pr_enrollment_code st" "pr_sessions st' = pr_sessions st"
    "(n, t) \<in> set (pr_refresh_nonces st) \<Longrightarrow> ck_mono now - t \<le> refresh_nonce_ttl \<Longrightarrow> (n, t) \<in> set (pr_refresh_nonces st')"
    "r = Inr () \<Longrightarrow> (str_trim nonce, ck_mono now) \<in> set (pr_refresh_nonces st')"
    "r = Inr () \<Longrightarrow> (str_trim nonce, t) \<in> set (pr_refresh_nonces st) \<Longrightarrow> refresh_nonce_ttl < ck_mono now - t"
proof -
  show "r = Inr () \<Longrightarrow> (str_trim nonce, t) \<in> set (pr_refresh_nonces st) \<Longrightarrow> refresh_nonce_ttl < ck_mono now - t"
    using assms by (force simp: claim_refresh_nonce_def Let_def not_le [symmetric] split: if_splits)
qed (use assms in \<open>auto simp: claim_refresh_nonce_def Let_def split: if_splits\<close>)

lemma refresh_cases:
  assumes ref: "refresh_signing_session cr lb dk now session q st = (r, st')"
  shows "pr_file st' = pr_file st" "pr_pake_enrollments st' = pr_pake_enrollments st"
    "pr_enrollment_code st' = pr_enrollment_code st"
    "(n, t) \<in> set (pr_refresh_nonces st) \<Longrightarrow> ck_mono now - t \<le> refresh_nonce_ttl \<Longrightarrow> (n, t) \<in> set (pr_refresh_nonces st')"
    "isl r \<Longrightarrow> pr_sessions st' = pr_sessions st"
    "\<not> isl r \<Longrightarrow> \<exists>key. trusted_key cr lb (pr_file st) key \<and> pr_sessions st' = register_session now session key (pr_sessions st)"
    "\<not> isl r \<Longrightarrow> validate_refresh_timestamp now (rq_timestamp q) = Inr ()"
    "\<not> isl r \<Longrightarrow> (str_trim (rq_nonce q), ck_mono now) \<in> set (pr_refresh_nonces st')"
    "\<not> isl r \<Longrightarrow> (str_trim (rq_nonce q), t) \<in> set (pr_refresh_nonces st) \<Longrightarrow> refresh_nonce_ttl < ck_mono now - t"
proof -
  obtain r1 st1 where e: "enforce_rate_limit now ''relay-auth:signing-refresh:global''
      signing_session_refresh_global_limit rate_limit_window st = (r1, st1)" by fastforce
  obtain r2 st2 where n: "claim_refresh_nonce now (rq_nonce q) st1 = (r2, st2)" by fastforce
  note keeps = enforce_keeps [OF e] and claim = claim_nonce_cases [OF n]
  note ref' = ref [unfolded refresh_signing_session_def e prod.case]
  show "pr_file st' = pr_file st" "pr_pake_enrollments st' = pr_pake_enrollments st"
    "pr_enrollment_code st' = pr_enrollment_code st" "isl r \<Longrightarrow> pr_sessions st' = pr_sessions st"
    using ref' n keeps claim(1-4) by (auto split: sum.splits option.splits)
  show "(n, t) \<in> set (pr_refresh_nonces st) \<Longrightarrow> ck_mono now - t \<le> refresh_nonce_ttl \<Longrightarrow> (n, t) \<in> set (pr_refresh_nonces st')"
    using ref' n keeps(4) claim(5) by (auto split: sum.splits option.splits)
  assume ok: "\<not> isl r"
  then obtain client key where c: "r1 = Inr ()" "find_trusted_client cr lb dk (rq_client_id q) st1 = Inr (Some client)"
    "parse_public_key_base64 cr lb (tc_public_key_b64 client) = Inr key" "r2 = Inr ()"
    "validate_refresh_timestamp now (rq_timestamp q) = Inr ()"
    "st' = st2\<lparr>pr_sessions := register_session now session key (pr_sessions st2)\<rparr>"
    using ref' n by (auto split: sum.splits option.splits)
  have "trusted_key cr lb (pr_file st) key"
    using c(2,3) keeps(1)
    by (auto simp: find_trusted_client_def dest!: find_SomeD split: sum.splits intro: trusted_keyI)
  then show "\<exists>key. trusted_key cr lb (pr_file st) key \<and> pr_sessions st' = register_session now session key (pr_sessions st)"
    using c(6) keeps(5) claim(4) by auto
  show "validate_refresh_timestamp now (rq_timestamp q) = Inr ()" by (rule c(5))
  show "(str_trim (rq_nonce q), ck_mono now) \<in> set (pr_refresh_nonces st')" using claim(6) c(4,6) by simp
  show "(str_trim (rq_nonce q), t) \<in> set (pr_refresh_nonces st) \<Longrightarrow> refresh_nonce_ttl < ck_mono now - t"
    using claim(7) c(4) keeps(4) by simp
qed

lemma verify_peer_keys:
  assumes v: "verify_request cr now sig m p body ss = (r, ss')"
  shows "rs_peer_public_key ` snd ` set ss' \<subseteq> rs_peer_public_key ` snd ` set ss"
proof -
  have put: "rs_peer_public_key ` snd ` set (put_session i s' (retain_live now ss)) \<subseteq> rs_peer_public_key ` snd ` set ss"
    if "map_of (retain_live now ss) i = Some s" "rs_peer_public_key s' = rs_peer_public_key s" for i s s'
  proof -
    have "(i, s) \<in> set ss" using map_of_SomeD [OF that(1)] by (simp add: retain_live_def)
    then have "rs_peer_public_key s \<in> rs_peer_public_key ` snd ` set ss" by force
    then show ?thesis using that(2) by (auto simp: put_session_def retain_live_def)
  qed
  show ?thesis
    using v
  proof (cases rule: verify_request_cases)
    case (forgot e s)
    then show ?thesis using put [OF forgot(2), of "forget_nonces now s"] by (simp add: forget_nonces_def)
  next
    case (accepted u signature s)
    then show ?thesis
      using put [OF accepted(4), of "note_nonce now (sg_nonce sig) (forget_nonces now s)"]
      by (simp add: forget_nonces_def note_nonce_def)
  qed (auto simp: retain_live_def)
qed

section \<open>Codes, keys and sessions\<close>

definition spake2_key :: "'k pairing_libs \<Rightarrow> string \<Rightarrow> string \<Rightarrow> bool" where
  \<comment> \<open>a key that the host derives in a run of SPAKE2 with that code\<close>
  "spake2_key lb code shared = (\<exists>rng m sm. pb_spake2 lb rng code m = Some (shared, sm))"

definition proved :: "('k, 's) relay_crypto \<Rightarrow> 'k pairing_libs \<Rightarrow> 'k paired \<Rightarrow> bool" where
  "proved cr lb p = (\<exists>shared. spake2_key lb (pd_code p) shared \<and>
     verify_client_proof cr lb shared (pd_enrollment p) (pb_key_bytes lb (pd_key p)) (pd_proof p) = Inr ())"

definition open_codes :: "'k pairing_world \<Rightarrow> string multiset" where
  "open_codes w = mset (map pd_code (pw_paired w)) + mset (map snd (pw_codes w)) +
     mset (case pr_enrollment_code (pw_state w) of None \<Rightarrow> [] | Some c \<Rightarrow> [c])"

definition pairing_inv :: "('k, 's) relay_crypto \<Rightarrow> 'k pairing_libs \<Rightarrow> string option \<Rightarrow> 'k pairing_world \<Rightarrow> bool" where
  "pairing_inv cr lb f0 w =
     (open_codes w \<subseteq># mset (pw_issued w) \<and>
      distinct (map fst (pw_codes w)) \<and>
      (\<forall>(i, shared, t) \<in> set (pr_pake_enrollments (pw_state w)).
         \<exists>code. map_of (pw_codes w) i = Some code \<and> spake2_key lb code shared) \<and>
      (\<forall>p \<in> set (pw_paired w). proved cr lb p) \<and>
      (\<forall>k. trusted_key cr lb (pr_file (pw_state w)) k \<longrightarrow> trusted_key cr lb f0 k \<or> k \<in> pd_key ` set (pw_paired w)) \<and>
      (\<forall>e \<in> set (pr_sessions (pw_state w)). trusted_key cr lb f0 (rs_peer_public_key (snd e)) \<or>
         rs_peer_public_key (snd e) \<in> pd_key ` set (pw_paired w)))"

definition admitted :: "('k, 's) relay_crypto \<Rightarrow> 'k pairing_libs \<Rightarrow> string option \<Rightarrow> 'k pairing_world \<Rightarrow> 'k \<Rightarrow> bool" where
  \<comment> \<open>trusted from the beginning, or paired\<close>
  "admitted cr lb f0 w k = (trusted_key cr lb f0 k \<or> k \<in> pd_key ` set (pw_paired w))"

lemma pairing_invD:
  assumes "pairing_inv cr lb f0 w"
  shows "open_codes w \<subseteq># mset (pw_issued w)" "distinct (map fst (pw_codes w))"
    "(i, shared, t) \<in> set (pr_pake_enrollments (pw_state w)) \<Longrightarrow>
       \<exists>code. map_of (pw_codes w) i = Some code \<and> spake2_key lb code shared"
    "p \<in> set (pw_paired w) \<Longrightarrow> proved cr lb p"
    "trusted_key cr lb (pr_file (pw_state w)) k \<Longrightarrow> admitted cr lb f0 w k"
    "k \<in> rs_peer_public_key ` snd ` set (pr_sessions (pw_state w)) \<Longrightarrow> admitted cr lb f0 w k"
  using assms unfolding pairing_inv_def admitted_def by fastforce+

lemma pairing_invI:
  assumes "open_codes w \<subseteq># mset (pw_issued w)" "distinct (map fst (pw_codes w))"
    "\<And>i shared t. (i, shared, t) \<in> set (pr_pake_enrollments (pw_state w)) \<Longrightarrow>
       \<exists>code. map_of (pw_codes w) i = Some code \<and> spake2_key lb code shared"
    "\<And>p. p \<in> set (pw_paired w) \<Longrightarrow> proved cr lb p"
    "\<And>k. trusted_key cr lb (pr_file (pw_state w)) k \<Longrightarrow> admitted cr lb f0 w k"
    "\<And>k. k \<in> rs_peer_public_key ` snd ` set (pr_sessions (pw_state w)) \<Longrightarrow> admitted cr lb f0 w k"
  shows "pairing_inv cr lb f0 w"
  using assms unfolding pairing_inv_def admitted_def by (intro conjI) (blast | fastforce)+

lemma mset_filter_sub: "mset (map snd (filter P es)) \<subseteq># mset (map snd es)"
  by (simp add: multiset_filter_subset image_mset_subseteq_mono)

lemma mset_drop_code:
  assumes "distinct (map fst es)" "map_of es i = Some c"
  shows "add_mset c (mset (map snd (filter (\<lambda>e. fst e \<noteq> i) es))) = mset (map snd es)"
  using assms
proof (induction es)
  case (Cons e es)
  show ?case
  proof (cases "fst e = i")
    case True
    then have "\<forall>x \<in> set es. fst x \<noteq> i" using Cons.prems(1) by (auto simp: image_iff)
    then have "filter (\<lambda>e. fst e \<noteq> i) es = es" by (rule filter_True)
    then show ?thesis using True Cons.prems by (cases e) auto
  next
    case False
    then show ?thesis using Cons by (cases e) (auto simp: add_mset_commute)
  qed
qed simp

lemma map_of_filter_fst: "map_of (filter (\<lambda>e. fst e \<noteq> i) es) j = (if j = i then None else map_of es j)"
  by (induction es) auto

text \<open>A call that touches neither codes nor enrollments and adds no key but a trusted one.\<close>

lemma pairing_inv_quiet:
  assumes inv: "pairing_inv cr lb f0 w"
    and st: "pr_enrollment_code st = pr_enrollment_code (pw_state w)"
      "pr_pake_enrollments st = pr_pake_enrollments (pw_state w)"
      "\<And>k. trusted_key cr lb (pr_file st) k \<Longrightarrow> trusted_key cr lb (pr_file (pw_state w)) k"
      "\<And>k. k \<in> rs_peer_public_key ` snd ` set (pr_sessions st) \<Longrightarrow>
         k \<in> rs_peer_public_key ` snd ` set (pr_sessions (pw_state w)) \<or> trusted_key cr lb (pr_file (pw_state w)) k"
    and w': "pw_state w' = st" "pw_issued w' = pw_issued w" "pw_codes w' = pw_codes w" "pw_paired w' = pw_paired w"
  shows "pairing_inv cr lb f0 w'"
proof (rule pairing_invI)
  have adm: "admitted cr lb f0 w' = admitted cr lb f0 w" by (simp add: admitted_def fun_eq_iff w')
  show "open_codes w' \<subseteq># mset (pw_issued w')" using pairing_invD(1) [OF inv] by (simp add: open_codes_def w' st(1))
  show "distinct (map fst (pw_codes w'))" using pairing_invD(2) [OF inv] by (simp add: w')
  show "(i, shared, t) \<in> set (pr_pake_enrollments (pw_state w')) \<Longrightarrow>
       \<exists>code. map_of (pw_codes w') i = Some code \<and> spake2_key lb code shared" for i shared t
    using pairing_invD(3) [OF inv] by (simp add: w' st(2))
  show "p \<in> set (pw_paired w') \<Longrightarrow> proved cr lb p" for p using pairing_invD(4) [OF inv] by (simp add: w')
  show "trusted_key cr lb (pr_file (pw_state w')) k \<Longrightarrow> admitted cr lb f0 w' k" for k
    using pairing_invD(5) [OF inv] st(3) unfolding adm w'(1) by blast
  show "admitted cr lb f0 w' k" if k: "k \<in> rs_peer_public_key ` snd ` set (pr_sessions (pw_state w'))" for k
    unfolding adm
    by (rule disjE [OF st(4) [OF k [unfolded w'(1)]]]) (erule pairing_invD(6) [OF inv] pairing_invD(5) [OF inv])+
qed

lemma register_peer_keys:
  "k \<in> rs_peer_public_key ` snd ` set (register_session now i key ss) \<Longrightarrow>
   k = key \<or> k \<in> rs_peer_public_key ` snd ` set ss"
  by (auto simp: register_session_def put_session_def)

lemma generate_step:
  assumes inv: "pairing_inv cr lb f0 w"
  shows "pairing_inv cr lb f0 (pairing_step cr lb server_key w (now, GenerateCode c))"
proof -
  obtain r st where g: "generate_enrollment_code now c (pw_state w) = (r, st)" by fastforce
  note gen = generate_cases [OF g]
  show ?thesis
  proof (cases "isl r \<or> pr_enrollment_code (pw_state w) \<noteq> None")
    case True
    then have "pr_enrollment_code st = pr_enrollment_code (pw_state w)"
      using gen(5) gen(6) [of "projr r"] by (cases r) auto
    then show ?thesis
      by (rule pairing_inv_quiet [OF inv]) (use gen(1,2,4) g True in \<open>auto split: sum.splits\<close>)
  next
    case False
    then obtain code where r: "r = Inr code" by (cases r) auto
    let ?w' = "pairing_step cr lb server_key w (now, GenerateCode c)"
    have w': "pw_state ?w' = st" "pw_issued ?w' = pw_issued w @ [code]" "pw_codes ?w' = pw_codes w" "pw_paired ?w' = pw_paired w"
      using g r False by simp_all
    have "open_codes ?w' = open_codes w + {#code#}"
      using gen(6) [OF r] False unfolding open_codes_def w' by simp
    then have "open_codes ?w' \<subseteq># mset (pw_issued ?w')" using pairing_invD(1) [OF inv] unfolding w' by simp
    then show ?thesis
      by (rule pairing_invI) (use pairing_invD(2-6) [OF inv] in
        \<open>simp_all only: w' gen(1,2,4) admitted_def simp_thms\<close>)
  qed
qed

lemma start_step:
  assumes inv: "pairing_inv cr lb f0 w"
  shows "pairing_inv cr lb f0 (pairing_step cr lb server_key w (now, StartEnrollment rng i raw msg))"
proof -
  obtain r st where g: "start_enrollment cr lb now rng i raw msg (pw_state w) = (r, st)" by fastforce
  note st = start_cases [OF g]
  let ?w' = "pairing_step cr lb server_key w (now, StartEnrollment rng i raw msg)"
  show ?thesis
  proof (cases r)
    case (Inl e)
    then show ?thesis
      by (intro pairing_inv_quiet [OF inv, of st]) (use st(1,3,4) g in auto)
  next
    case (Inr x)
    then obtain code m key sm where ok: "pr_enrollment_code (pw_state w) = Some code" "pr_enrollment_code st = None"
      "pb_spake2 lb rng code m = Some (key, sm)"
      "pr_pake_enrollments st = (i, key, ck_mono now) # filter (\<lambda>e. fst e \<noteq> i) (pr_pake_enrollments (pw_state w))"
      using st(5) by auto
    have w': "pw_state ?w' = st" "pw_issued ?w' = pw_issued w"
      "pw_codes ?w' = (i, code) # filter (\<lambda>e. fst e \<noteq> i) (pw_codes w)" "pw_paired ?w' = pw_paired w"
      using g Inr ok(1) by (cases x; simp)+
    have "open_codes ?w' \<subseteq># open_codes w"
      using mset_filter_sub [of "\<lambda>e. fst e \<noteq> i" "pw_codes w"] unfolding open_codes_def w' ok(1,2) by simp
    then have "open_codes ?w' \<subseteq># mset (pw_issued ?w')"
      using pairing_invD(1) [OF inv] subset_mset.order_trans unfolding w'(2) by blast
    moreover have "distinct (map fst (pw_codes ?w'))"
      using pairing_invD(2) [OF inv] unfolding w'(3) by (auto simp: distinct_map_filter)
    moreover have "\<exists>code. map_of (pw_codes ?w') j = Some code \<and> spake2_key lb code shared"
      if "(j, shared, t) \<in> set (pr_pake_enrollments st)" for j shared t
      using that ok(3) pairing_invD(3) [OF inv, of j shared t] unfolding ok(4) w'(3)
      by (auto simp: map_of_filter_fst spake2_key_def)
    ultimately show ?thesis
      by (rule pairing_invI) (use pairing_invD(4-6) [OF inv] in
        \<open>simp_all only: w'(1,4) st(1,3) admitted_def simp_thms\<close>)
  qed
qed

lemma finish_step:
  assumes json: "json_faithful lb" and inv: "pairing_inv cr lb f0 w"
  shows "pairing_inv cr lb f0 (pairing_step cr lb server_key w (now, FinishEnrollment dk session q))"
proof -
  let ?i = "fq_enrollment_id q" and ?w' = "pairing_step cr lb server_key w (now, FinishEnrollment dk session q)"
  obtain r st where g: "finish_enrollment cr lb dk now server_key session q (pw_state w) = (r, st)" by fastforce
  note fin = finish_cases [OF g]
  let ?codes = "filter (\<lambda>e. fst e \<noteq> ?i) (pw_codes w)"
  have w': "pw_state ?w' = st" "pw_issued ?w' = pw_issued w" "pw_codes ?w' = ?codes"
    using g by (cases r; simp add: Let_def)+
  have pake: "\<exists>code. map_of ?codes j = Some code \<and> spake2_key lb code shared"
    if "(j, shared, t) \<in> set (pr_pake_enrollments st)" for j shared t
    using that pairing_invD(3) [OF inv, of j shared t] unfolding fin(3) by (auto simp: map_of_filter_fst)
  have dist: "distinct (map fst ?codes)" using pairing_invD(2) [OF inv] by (simp add: distinct_map_filter)
  show ?thesis
  proof (cases "isl r")
    case True
    then have p: "pw_paired ?w' = pw_paired w" using g by (cases r) (simp_all add: Let_def)
    have "open_codes ?w' \<subseteq># open_codes w"
      using mset_filter_sub [of "\<lambda>e. fst e \<noteq> ?i" "pw_codes w"] unfolding open_codes_def w' p fin(2) by simp
    then have "open_codes ?w' \<subseteq># mset (pw_issued ?w')"
      using pairing_invD(1) [OF inv] subset_mset.order_trans unfolding w'(2) by blast
    then show ?thesis
      by (rule pairing_invI) (use pairing_invD(4-6) [OF inv] pake dist fin(4) [OF True] in
        \<open>simp_all only: w' p admitted_def simp_thms\<close>)
  next
    case False
    then obtain shared t key b where ok: "map_of (pr_pake_enrollments (pw_state w)) ?i = Some (shared, t)"
      "parse_public_key_base64 cr lb (tc_public_key_b64 (fq_client q)) = Inr key"
      "verify_client_proof cr lb shared ?i (pb_key_bytes lb key) (fq_client_proof_b64 q) = Inr ()"
      "upsert_trusted_client cr lb dk (pr_file (pw_state w)) (fq_client q) = (Inr b, pr_file st)"
      "pr_sessions st = register_session now session key (pr_sessions (pw_state w))"
      using fin(5) by blast
    obtain code where code: "map_of (pw_codes w) ?i = Some code" "spake2_key lb code shared"
      using pairing_invD(3) [OF inv map_of_SomeD [OF ok(1)]] by blast
    let ?p = "\<lparr>pd_code = code, pd_enrollment = ?i, pd_key = key, pd_proof = fq_client_proof_b64 q\<rparr>"
    have p: "pw_paired ?w' = pw_paired w @ [?p]"
      using g False ok(2) code(1) by (cases r) (auto simp: Let_def key_of_def)
    have adm: "admitted cr lb f0 ?w' k \<longleftrightarrow> k = key \<or> admitted cr lb f0 w k" for k
      unfolding admitted_def p by auto
    have "open_codes ?w' = open_codes w"
      using mset_drop_code [OF pairing_invD(2) [OF inv] code(1)] unfolding open_codes_def w' p fin(2) by simp
    then have "open_codes ?w' \<subseteq># mset (pw_issued ?w')" using pairing_invD(1) [OF inv] w'(2) by simp
    moreover have "proved cr lb ?p" using code(2) ok(3) by (auto simp: proved_def)
    then have "p \<in> set (pw_paired ?w') \<Longrightarrow> proved cr lb p" for p
      using pairing_invD(4) [OF inv] unfolding p by auto
    moreover have "trusted_key cr lb (pr_file st) k \<Longrightarrow> admitted cr lb f0 ?w' k" for k
      using upsert_trusted [OF json ok(4), of k] ok(2) pairing_invD(5) [OF inv, of k] unfolding adm by auto
    moreover have "k \<in> rs_peer_public_key ` snd ` set (pr_sessions st) \<Longrightarrow> admitted cr lb f0 ?w' k" for k
      using register_peer_keys [of k now session key] pairing_invD(6) [OF inv, of k] unfolding adm ok(5) by blast
    ultimately show ?thesis
      using pake dist by (intro pairing_invI) (simp_all only: w')
  qed
qed

lemma pairing_inv_step:
  assumes json: "json_faithful lb" and inv: "pairing_inv cr lb f0 w"
  shows "pairing_inv cr lb f0 (pairing_step cr lb server_key w (now, ev))"
proof (cases ev)
  case (RefreshSession dk session q)
  obtain r st where g: "refresh_signing_session cr lb dk now session q (pw_state w) = (r, st)" by fastforce
  note ref = refresh_cases [OF g]
  have "k \<in> rs_peer_public_key ` snd ` set (pr_sessions (pw_state w)) \<or> trusted_key cr lb (pr_file (pw_state w)) k"
    if k: "k \<in> rs_peer_public_key ` snd ` set (pr_sessions st)" for k
  proof (cases "isl r")
    case True
    then show ?thesis using k ref(5) by simp
  next
    case False
    then obtain key where key: "trusted_key cr lb (pr_file (pw_state w)) key"
      "pr_sessions st = register_session now session key (pr_sessions (pw_state w))" using ref(6) by blast
    show ?thesis using register_peer_keys [OF k [unfolded key(2)]] key(1) by (elim disjE) simp_all
  qed
  then show ?thesis
    unfolding RefreshSession
    by (intro pairing_inv_quiet [OF inv ref(3,2)]) (use ref(1) g in \<open>auto split: sum.splits\<close>)
next
  case (RemoveClient dk i)
  obtain r f where g: "remove_trusted_client cr lb dk (pr_file (pw_state w)) i = (r, f)" by fastforce
  show ?thesis
    unfolding RemoveClient
    by (rule pairing_inv_quiet [OF inv, of "(pw_state w)\<lparr>pr_file := f\<rparr>"])
      (use remove_trusted [OF json g] g in \<open>auto simp: remove_paired_client_def\<close>)
next
  case (SignedRequest sig m p body)
  obtain r ss where g: "verify_request cr now sig m p body (pr_sessions (pw_state w)) = (r, ss)" by fastforce
  have ss: "k \<in> rs_peer_public_key ` snd ` set ss \<Longrightarrow>
      k \<in> rs_peer_public_key ` snd ` set (pr_sessions (pw_state w)) \<or> trusted_key cr lb (pr_file (pw_state w)) k" for k
    using verify_peer_keys [OF g] by blast
  show ?thesis
    unfolding SignedRequest
    by (rule pairing_inv_quiet [OF inv, of "(pw_state w)\<lparr>pr_sessions := ss\<rparr>"]) (simp_all add: g ss del: image_iff)
qed (simp_all only: generate_step [OF inv] start_step [OF inv] finish_step [OF json inv])

lemma pairing_inv_run:
  "json_faithful lb \<Longrightarrow> pairing_inv cr lb f0 (foldl (pairing_step cr lb server_key) (pairing_world_new f0) es)"
proof (induction es rule: rev_induct)
  case Nil
  show ?case by (simp add: pairing_inv_def pairing_world_new_def open_codes_def)
next
  case (snoc e es)
  then show ?case using pairing_inv_step [of lb cr f0] by (cases e) simp
qed

section \<open>Refreshing once\<close>

lemma refresh_drift_bound: "validate_refresh_timestamp now ts = Inr u \<Longrightarrow> \<bar>ck_wall now - sint ts\<bar> \<le> 30"
  using sint_64_bounds [of ts]
  by (auto simp: validate_refresh_timestamp_def i64_abs_def i64_sat_sub_def i64_min_def i64_max_def
      refresh_max_timestamp_drift_secs_def split: if_splits)

definition nonce_kept :: "(string \<times> nat) list \<Rightarrow> string \<Rightarrow> nat \<Rightarrow> relay_clock \<Rightarrow> bool" where
  "nonce_kept nonces n t now = ((n, t) \<in> set nonces \<or> refresh_nonce_ttl < ck_mono now - t)"

definition refresh_logged ::
  "(relay_clock \<times> 'e) list \<Rightarrow> (string \<times> nat) list \<Rightarrow> uuid \<times> 64 word \<times> string \<Rightarrow> bool" where
  "refresh_logged es nonces = (\<lambda>(_, ts, nonce).
     \<exists>at \<in> fst ` set es. \<bar>ck_wall at - sint ts\<bar> \<le> 30 \<and>
       (\<forall>now. (\<forall>c \<in> fst ` set es. ck_mono c \<le> ck_mono now) \<longrightarrow> nonce_kept nonces (str_trim nonce) (ck_mono at) now))"

definition refresh_inv :: "(relay_clock \<times> 'e) list \<Rightarrow> 'k pairing_world \<Rightarrow> bool" where
  "refresh_inv es w = (distinct (pw_refreshed w) \<and>
     (\<forall>e \<in> set (pw_refreshed w). refresh_logged es (pr_refresh_nonces (pw_state w)) e))"

lemma refresh_logged_later:
  assumes "refresh_logged es ns e" and late: "\<forall>c \<in> fst ` set es. ck_mono c \<le> ck_mono now"
    and keep: "\<And>n t. (n, t) \<in> set ns \<Longrightarrow> ck_mono now - t \<le> refresh_nonce_ttl \<Longrightarrow> (n, t) \<in> set ns'"
  shows "refresh_logged (es @ [(now, ev)]) ns' e"
proof -
  obtain i ts nonce where e: "e = (i, ts, nonce)" by (cases e)
  from assms(1) obtain at where at: "at \<in> fst ` set es" "\<bar>ck_wall at - sint ts\<bar> \<le> 30"
    "\<forall>now. (\<forall>c \<in> fst ` set es. ck_mono c \<le> ck_mono now) \<longrightarrow> nonce_kept ns (str_trim nonce) (ck_mono at) now"
    unfolding refresh_logged_def e by blast
  then have "nonce_kept ns' (str_trim nonce) (ck_mono at) now" using late keep by (auto simp: nonce_kept_def not_less)
  then have "ck_mono now \<le> ck_mono now' \<Longrightarrow> nonce_kept ns' (str_trim nonce) (ck_mono at) now'" for now'
    by (auto simp: nonce_kept_def)
  then show ?thesis using at(1,2) unfolding refresh_logged_def e by (auto intro!: bexI [of _ at])
qed

lemma pairing_step_nonces:
  "(n, t) \<in> set (pr_refresh_nonces (pw_state w)) \<Longrightarrow> ck_mono now - t \<le> refresh_nonce_ttl \<Longrightarrow>
   (n, t) \<in> set (pr_refresh_nonces (pw_state (pairing_step cr lb server_key w (now, ev))))"
  by (cases ev)
    (auto simp: remove_paired_client_def Let_def generate_cases start_cases finish_cases
      dest: generate_cases(3) start_cases(2) finish_cases(1) refresh_cases(4) split: prod.split sum.split)

lemma refresh_inv_step:
  assumes inv: "refresh_inv es w" and agree: "clocks_agree (es @ [(now, ev)])"
  shows "refresh_inv (es @ [(now, ev)]) (pairing_step cr lb server_key w (now, ev))"
proof -
  let ?w' = "pairing_step cr lb server_key w (now, ev)"
  have late: "\<forall>c \<in> fst ` set es. ck_mono c \<le> ck_mono now"
    and skew: "\<forall>c \<in> fst ` set es. int (ck_mono now) - int (ck_mono c) \<le> (ck_wall now - ck_wall c + 60) * 10 ^ 9"
    using agree by (auto simp: clocks_agree_def sorted_wrt_append)
  have old: "\<forall>e \<in> set (pw_refreshed w). refresh_logged (es @ [(now, ev)]) (pr_refresh_nonces (pw_state ?w')) e"
  proof
    fix e assume "e \<in> set (pw_refreshed w)"
    then have "refresh_logged es (pr_refresh_nonces (pw_state w)) e" using inv by (simp add: refresh_inv_def)
    then show "refresh_logged (es @ [(now, ev)]) (pr_refresh_nonces (pw_state ?w')) e"
      by (rule refresh_logged_later [OF _ late pairing_step_nonces])
  qed
  show ?thesis
  proof (cases "pw_refreshed ?w' = pw_refreshed w")
    case True
    then show ?thesis using inv old by (simp add: refresh_inv_def)
  next
    case False
    then obtain dk session q where ev: "ev = RefreshSession dk session q"
      by (cases ev) (auto simp: Let_def split: prod.splits sum.splits)
    obtain r st where g: "refresh_signing_session cr lb dk now session q (pw_state w) = (r, st)" by fastforce
    note ref = refresh_cases [OF g]
    have ok: "\<not> isl r" using False g ev by (cases r) auto
    let ?key = "(rq_client_id q, rq_timestamp q, rq_nonce q)"
    have w': "pw_refreshed ?w' = pw_refreshed w @ [?key]" "pw_state ?w' = st" using g ev ok by (cases r; simp)+
    have drift: "\<bar>ck_wall now - sint (rq_timestamp q)\<bar> \<le> 30" using refresh_drift_bound ref(7) [OF ok] by blast
    have "?key \<notin> set (pw_refreshed w)"
    proof
      assume "?key \<in> set (pw_refreshed w)"
      then have "refresh_logged es (pr_refresh_nonces (pw_state w)) ?key" using inv by (simp add: refresh_inv_def)
      then obtain at where at: "at \<in> fst ` set es" "\<bar>ck_wall at - sint (rq_timestamp q)\<bar> \<le> 30"
        "nonce_kept (pr_refresh_nonces (pw_state w)) (str_trim (rq_nonce q)) (ck_mono at) now"
        using late unfolding refresh_logged_def by blast
      have "(ck_wall now - ck_wall at + 60) * 10 ^ 9 \<le> 120 * 10 ^ 9" using drift at(2) by simp
      then have "ck_mono now - ck_mono at \<le> refresh_nonce_ttl"
        using bspec [OF skew at(1)] bspec [OF late at(1)] by (simp add: refresh_nonce_ttl_def duration_secs_def)
      then show False using at(3) ref(9) [OF ok, where t = "ck_mono at"] by (auto simp: nonce_kept_def)
    qed
    moreover have "refresh_logged (es @ [(now, ev)]) (pr_refresh_nonces st) ?key"
      using drift ref(8) [OF ok] by (auto simp: refresh_logged_def nonce_kept_def)
    ultimately show ?thesis using inv old by (simp add: refresh_inv_def w')
  qed
qed

lemma refresh_inv_run:
  "clocks_agree es \<Longrightarrow> refresh_inv es (foldl (pairing_step cr lb server_key) (pairing_world_new f0) es)"
proof (induction es rule: rev_induct)
  case Nil
  show ?case by (simp add: refresh_inv_def pairing_world_new_def)
next
  case (snoc e es)
  then show ?case
    using refresh_inv_step [of es _ "fst e" "snd e" cr lb server_key] by (simp add: clocks_agree_def sorted_wrt_append)
qed

section \<open>Rate limits\<close>

fun rate_accepted ::
  "(string \<Rightarrow> nat \<times> nat) \<Rightarrow> 'k pairing \<Rightarrow> (relay_clock \<times> string) list \<Rightarrow> (string \<times> nat) list" where
  \<comment> \<open>the requests that pass, with their times; a bucket has a maximum and a window\<close>
  "rate_accepted lim st [] = []"
| "rate_accepted lim st ((now, b) # cs) =
     (case enforce_rate_limit now b (fst (lim b)) (snd (lim b)) st of
        (Inl _, st') \<Rightarrow> rate_accepted lim st' cs
      | (Inr _, st') \<Rightarrow> (b, ck_mono now) # rate_accepted lim st' cs)"

definition times_of :: "string \<Rightarrow> (string \<times> nat) list \<Rightarrow> nat list" where
  "times_of b acc = map snd (filter (\<lambda>e. fst e = b) acc)"

definition in_window :: "nat \<Rightarrow> nat \<Rightarrow> nat list \<Rightarrow> nat" where
  "in_window t0 wd ts = length (filter (\<lambda>t. t0 \<le> t \<and> t \<le> t0 + wd) ts)"

definition recent :: "nat \<Rightarrow> nat \<Rightarrow> nat list \<Rightarrow> nat list" where
  "recent now wd ts = filter (\<lambda>t. now - t \<le> wd) ts"

definition rate_inv :: "(string \<Rightarrow> nat \<times> nat) \<Rightarrow> 'k pairing \<Rightarrow> nat \<Rightarrow> (string \<times> nat) list \<Rightarrow> bool" where
  "rate_inv lim st before acc =
     (\<forall>b. recent before (snd (lim b)) (rate_window b (pr_rate_limit_windows st)) = recent before (snd (lim b)) (times_of b acc) \<and>
        list_all (\<lambda>t. t \<le> before) (times_of b acc) \<and>
        (\<forall>t0. in_window t0 (snd (lim b)) (times_of b acc) \<le> fst (lim b)))"

lemma recent_recent: "before \<le> now \<Longrightarrow> recent now wd (recent before wd ts) = recent now wd ts"
  by (auto simp: recent_def intro!: filter_cong)

lemma rate_window_set: "rate_window b (set_rate_window b' ts ws) = (if b = b' then ts else rate_window b ws)"
proof -
  have "map_of (filter (\<lambda>e. fst e \<noteq> b') ws) b = (if b = b' then None else map_of ws b)" by (induction ws) auto
  then show ?thesis by (simp add: rate_window_def set_rate_window_def unwrap_or_def)
qed

lemma times_of_snoc: "times_of b (acc @ [(b', t)]) = times_of b acc @ (if b = b' then [t] else [])"
  by (auto simp: times_of_def)

lemma in_window_snoc:
  assumes "list_all (\<lambda>t. t \<le> now) ts" "length (recent now wd ts) < m" "in_window t0 wd ts \<le> m"
  shows "in_window t0 wd (ts @ [now]) \<le> m"
proof (cases "t0 \<le> now \<and> now \<le> t0 + wd")
  case True
  have "in_window t0 wd ts \<le> length (recent now wd ts)"
    using True assms(1) unfolding in_window_def recent_def
    by (induction ts) auto
  then show ?thesis using assms(2) True by (simp add: in_window_def)
next
  case False
  then show ?thesis using assms(3) by (auto simp: in_window_def)
qed

lemma rate_inv_step:
  assumes inv: "rate_inv lim st before acc" and mono: "before \<le> ck_mono now"
    and e: "enforce_rate_limit now b (fst (lim b)) (snd (lim b)) st = (r, st')"
  shows "rate_inv lim st' (ck_mono now) (acc @ (if isl r then [] else [(b, ck_mono now)]))"
proof -
  let ?n = "ck_mono now"
  have recent: "recent ?n (snd (lim b')) (rate_window b' (pr_rate_limit_windows st)) = recent ?n (snd (lim b')) (times_of b' acc)" for b'
    using inv recent_recent [OF mono] unfolding rate_inv_def by metis
  have le: "list_all (\<lambda>t. t \<le> ?n) (times_of b' acc)" for b'
  proof -
    have "list_all (\<lambda>t. t \<le> before) (times_of b' acc)" using inv by (simp add: rate_inv_def)
    then show ?thesis using mono by (auto simp: list_all_iff)
  qed
  have idem: "recent ?n wd (recent ?n wd ts) = recent ?n wd ts" for wd ts by (simp add: recent_def)
  let ?entry = "recent ?n (snd (lim b)) (times_of b acc)"
  have filt: "filter (\<lambda>t. ?n - t \<le> snd (lim b)) (rate_window b (pr_rate_limit_windows st)) = ?entry"
    using recent [of b] by (simp add: recent_def)
  show ?thesis
  proof (cases "fst (lim b) \<le> length ?entry")
    case True
    then have r: "isl r" "st' = st\<lparr>pr_rate_limit_windows := set_rate_window b ?entry (pr_rate_limit_windows st)\<rparr>"
      using e unfolding enforce_rate_limit_def filt Let_def by auto
    show ?thesis
      using inv recent le idem unfolding rate_inv_def r(2) by (simp add: r(1) rate_window_set)
  next
    case False
    then have r: "\<not> isl r" "st' = st\<lparr>pr_rate_limit_windows := set_rate_window b (?entry @ [?n]) (pr_rate_limit_windows st)\<rparr>"
      using e unfolding enforce_rate_limit_def filt Let_def by auto
    have "in_window t0 (snd (lim b)) (times_of b acc @ [?n]) \<le> fst (lim b)" for t0
      using in_window_snoc [OF le] False inv by (auto simp: rate_inv_def)
    then show ?thesis
      using inv recent le idem unfolding rate_inv_def r(2)
      by (simp add: r(1) rate_window_set times_of_snoc) (simp add: recent_def)
  qed
qed

lemma rate_inv_run:
  "rate_inv lim st before acc \<Longrightarrow> sorted (before # map (\<lambda>c. ck_mono (fst c)) cs) \<Longrightarrow>
   in_window t0 (snd (lim b)) (times_of b (acc @ rate_accepted lim st cs)) \<le> fst (lim b)"
proof (induction cs arbitrary: st before acc)
  case Nil
  then show ?case by (simp add: rate_inv_def)
next
  case (Cons c cs)
  obtain now b' where c: "c = (now, b')" by (cases c)
  obtain r st' where e: "enforce_rate_limit now b' (fst (lim b')) (snd (lim b')) st = (r, st')" by fastforce
  have "before \<le> ck_mono now" "sorted (ck_mono now # map (\<lambda>c. ck_mono (fst c)) cs)" using Cons.prems(2) c by auto
  then show ?case
    using Cons.IH [OF rate_inv_step [OF Cons.prems(1) _ e]] e by (cases r) (simp_all add: c)
qed

section \<open>Properties\<close>

definition pairing_crypto :: "(unit, string) relay_crypto" where
  "pairing_crypto = \<lparr>rc_verify = (\<lambda>_ _ s. s = ''s''), rc_signature_from_slice = Some, rc_sha256 = id,
     rc_b64_encode = id, rc_b64_decode = Some\<rparr>"

definition pairing_libs0 :: "unit pairing_libs" where
  "pairing_libs0 = \<lparr>pb_key_from_bytes = (\<lambda>_. Some ()), pb_key_bytes = (\<lambda>_. ''k''),
     pb_spake2 = (\<lambda>_ code m. Some (code @ m, m)), pb_hkdf = (\<lambda>k _. k), pb_hmac = (\<lambda>k m. ''mac''),
     pb_of_json = (\<lambda>_. Inr []), pb_to_json = (\<lambda>_. Inl ''unsupported'')\<rparr>"

definition browser :: "trusted_client" where
  "browser = \<lparr>tc_client_id = 4, tc_client_name = ''laptop'', tc_client_browser = ''Firefox'', tc_client_os = ''Linux'',
     tc_client_device = ''PC'', tc_public_key_b64 = replicate 32 (CHR ''k'')\<rparr>"

definition browser_libs :: "unit pairing_libs" where
  \<comment> \<open>a file format that can hold that browser\<close>
  "browser_libs = pairing_libs0\<lparr>
     pb_of_json := (\<lambda>s. Inr (replicate (length s - 2) browser)),
     pb_to_json := (\<lambda>cs. if cs = replicate (length cs) browser then Inr (CHR ''c'' # replicate (length cs) (CHR ''c''))
       else Inl ''unsupported'')\<rparr>"

definition tick :: "nat \<Rightarrow> relay_clock" where
  "tick n = \<lparr>ck_wall = 100, ck_mono = n\<rparr>"

definition refresh0 :: refresh_request where
  "refresh0 = \<lparr>rq_client_id = 4, rq_timestamp = 100, rq_nonce = ''n'', rq_signature_b64 = ''s''\<rparr>"

definition demo_pairing :: "(relay_clock \<times> pairing_event) list" where
  "demo_pairing = [(tick 1, GenerateCode ''ABC123''), (tick 2, StartEnrollment 0 7 '' abc123'' ''m''),
     (tick 3, FinishEnrollment ok_disk 8 \<lparr>fq_enrollment_id = 7, fq_client = browser, fq_client_proof_b64 = ''mac''\<rparr>),
     (tick 4, RefreshSession ok_disk 9 refresh0), (tick 5, RefreshSession ok_disk 10 refresh0)]"

lemma browser_json: "json_faithful browser_libs"
  by (auto simp: json_faithful_def browser_libs_def pairing_libs0_def nl_def split: if_splits)

lemma demo_pairing_run:
  "pw_paired (foldl (pairing_step pairing_crypto browser_libs ()) (pairing_world_new None) demo_pairing) =
     [\<lparr>pd_code = ''ABC123'', pd_enrollment = 7, pd_key = (), pd_proof = ''mac''\<rparr>]"
  "map fst (pr_sessions (pw_state (foldl (pairing_step pairing_crypto browser_libs ()) (pairing_world_new None) demo_pairing))) = [9, 8]"
  "pw_refreshed (foldl (pairing_step pairing_crypto browser_libs ()) (pairing_world_new None) demo_pairing) = [(4, 100, ''n'')]"
  by code_simp+

text \<open>C38: pairing uses up codes: however the calls of browsers, the relay and the user of the host are
  interleaved, every browser that was let in is charged to a one-time code of its own that the
  host had made, and has proved that it knows the key of a SPAKE2 run with that code, for its own public
  key and enrollment.\<close>

theorem pairing_uses_up_codes:
  fixes cr lb server_key f0 es
  assumes "json_faithful lb"
  defines "w \<equiv> foldl (pairing_step cr lb server_key) (pairing_world_new f0) es"
  shows "mset (map pd_code (pw_paired w)) \<subseteq># mset (pw_issued w) \<and> (\<forall>p \<in> set (pw_paired w). proved cr lb p)"
proof -
  have inv: "pairing_inv cr lb f0 w" unfolding w_def by (rule pairing_inv_run [OF assms(1)])
  have "mset (map pd_code (pw_paired w)) \<subseteq># open_codes w" by (simp add: open_codes_def)
  then have "mset (map pd_code (pw_paired w)) \<subseteq># mset (pw_issued w)"
    using pairing_invD(1) [OF inv] by (rule subset_mset.order_trans)
  then show ?thesis using pairing_invD(4) [OF inv] by blast
qed

theorem pairing_uses_up_codes_witness:
  "let w = foldl (pairing_step pairing_crypto browser_libs ()) (pairing_world_new None) demo_pairing in
   mset (map pd_code (pw_paired w)) \<subseteq># mset (pw_issued w) \<and> map pd_code (pw_paired w) = [''ABC123'']"
  using pairing_uses_up_codes [OF browser_json, of pairing_crypto "()" None demo_pairing]
  unfolding Let_def by (simp add: demo_pairing_run(1))

text \<open>C39: sessions belong to browsers that were let in: every signing session, whether it comes from
  pairing or from a refresh, carries the public key of a browser that was paired since the host
  started, with its proof, or that the file of trusted clients already listed then.\<close>

theorem sessions_belong_to_paired:
  fixes cr lb server_key f0 es
  assumes "json_faithful lb"
  defines "w \<equiv> foldl (pairing_step cr lb server_key) (pairing_world_new f0) es"
  shows "\<forall>s \<in> snd ` set (pr_sessions (pw_state w)).
    trusted_key cr lb f0 (rs_peer_public_key s) \<or>
    (\<exists>p \<in> set (pw_paired w). pd_key p = rs_peer_public_key s \<and> proved cr lb p)"
proof
  fix s assume s: "s \<in> snd ` set (pr_sessions (pw_state w))"
  have inv: "pairing_inv cr lb f0 w" unfolding w_def by (rule pairing_inv_run [OF assms(1)])
  have "admitted cr lb f0 w (rs_peer_public_key s)" using pairing_invD(6) [OF inv imageI [OF s]] .
  then show "trusted_key cr lb f0 (rs_peer_public_key s) \<or>
    (\<exists>p \<in> set (pw_paired w). pd_key p = rs_peer_public_key s \<and> proved cr lb p)"
    using pairing_invD(4) [OF inv] by (auto simp: admitted_def)
qed

theorem sessions_belong_to_paired_witness:
  "let w = foldl (pairing_step pairing_crypto browser_libs ()) (pairing_world_new None) demo_pairing in
   map fst (pr_sessions (pw_state w)) = [9, 8] \<and>
   list_all (\<lambda>(_, s). trusted_key pairing_crypto browser_libs None (rs_peer_public_key s) \<or>
     list_ex (\<lambda>p. pd_key p = rs_peer_public_key s) (pw_paired w)) (pr_sessions (pw_state w))"
  using sessions_belong_to_paired [OF browser_json, of pairing_crypto "()" None demo_pairing]
  unfolding Let_def by (auto simp: demo_pairing_run(2) list_all_iff list_ex_iff)

text \<open>a signed refresh is good for one session: however often the same request is replayed, between
  whatever other calls, it is answered with a new signing session only once, as long as the
  clocks agree.\<close>

theorem refresh_accepted_once:
  assumes "clocks_agree es"
  shows "distinct (pw_refreshed (foldl (pairing_step cr lb server_key) (pairing_world_new f0) es))"
  using refresh_inv_run [OF assms, of cr lb server_key f0] by (simp add: refresh_inv_def)

theorem refresh_accepted_once_witness:
  "let w = foldl (pairing_step pairing_crypto browser_libs ()) (pairing_world_new None) demo_pairing in
   distinct (pw_refreshed w) \<and> pw_refreshed w = [(4, 100, ''n'')]"
proof -
  have "clocks_agree demo_pairing" by (simp add: clocks_agree_def demo_pairing_def tick_def)
  from refresh_accepted_once [OF this] show ?thesis unfolding Let_def by (simp add: demo_pairing_run(3))
qed

text \<open>C40: the rate limits hold for every window of time, not only for some: among the calls of a
  bucket that pass, at any moments in any order with the calls of other buckets, no stretch of
  time as long as the window contains more than the maximum.\<close>

theorem rate_limits_hold:
  assumes "pr_rate_limit_windows st = []" "sorted (map (\<lambda>c. ck_mono (fst c)) cs)"
  shows "length (filter (\<lambda>(b', t). b' = b \<and> t0 \<le> t \<and> t \<le> t0 + snd (lim b)) (rate_accepted lim st cs)) \<le> fst (lim b)"
proof -
  have "rate_inv lim st 0 []"
    using assms(1) by (simp add: rate_inv_def rate_window_def times_of_def in_window_def recent_def unwrap_or_def)
  moreover have "sorted (0 # map (\<lambda>c. ck_mono (fst c)) cs)" using assms(2) by simp
  ultimately have "in_window t0 (snd (lim b)) (times_of b ([] @ rate_accepted lim st cs)) \<le> fst (lim b)"
    by (rule rate_inv_run)
  moreover have "in_window t0 wd (times_of b acc) = length (filter (\<lambda>(b', t). b' = b \<and> t0 \<le> t \<and> t \<le> t0 + wd) acc)" for wd acc
    by (induction acc) (auto simp: in_window_def times_of_def)
  ultimately show ?thesis by simp
qed

theorem rate_limits_hold_witness:
  "let cs = map (\<lambda>n. (tick n, ''b'')) [0, 1, 2, 9, 10, 11];
       acc = rate_accepted (\<lambda>_. (2, 5)) (pw_state (pairing_world_new None) :: unit pairing) cs in
   acc = [(''b'', 0), (''b'', 1), (''b'', 9), (''b'', 10)] \<and>
   length (filter (\<lambda>(b', t). b' = ''b'' \<and> 5 \<le> t \<and> t \<le> 5 + snd (2 :: nat, 5)) acc) \<le> 2"
proof -
  let ?cs = "map (\<lambda>n. (tick n, ''b'')) [0, 1, 2, 9, 10, 11]" and ?st = "pw_state (pairing_world_new None) :: unit pairing"
  have "pr_rate_limit_windows ?st = []" "sorted (map (\<lambda>c. ck_mono (fst c)) ?cs)"
    by (simp_all add: pairing_world_new_def tick_def)
  from rate_limits_hold [OF this, of "''b''" 5 "\<lambda>_. (2, 5)"] show ?thesis
    unfolding Let_def by (intro conjI) (code_simp, simp)
qed

text \<open>removing a paired client does not end its sessions: they are untouched, so requests
  signed with the removed key are accepted as before.\<close>

theorem removed_client_keeps_session:
  "verify_request cr now sig m p body (pr_sessions (snd (remove_paired_client cr lb dk i st))) =
   verify_request cr now sig m p body (pr_sessions st)"
  by (simp add: remove_paired_client_def split: prod.split)

definition two_libs :: "unit pairing_libs" where
  "two_libs = pairing_libs0\<lparr>pb_of_json := (\<lambda>_. Inr [browser\<lparr>tc_client_id := 1, tc_public_key_b64 := replicate 32 (CHR ''a'')\<rparr>,
     browser\<lparr>tc_client_id := 2, tc_public_key_b64 := replicate 32 (CHR ''b'')\<rparr>]),
     pb_to_json := (\<lambda>cs. Inr (concat (map (\<lambda>c. show_nat (tc_client_id c)) cs)))\<rparr>"

text \<open>an update of the trusted clients replaces the first entry that has the identifier or the
  key, and leaves a second one: afterwards two clients may have the same identifier.\<close>

theorem upsert_may_duplicate:
  "upsert_trusted_client pairing_crypto two_libs ok_disk (Some ''12'')
     (browser\<lparr>tc_client_id := 2, tc_public_key_b64 := replicate 32 (CHR ''a'')\<rparr>) = (Inr False, Some (''22'' @ nl))"
  by code_simp

end
