(* ===== verification/Organizations.thy ===== *)
theory Organizations
  imports Remote_Db
begin

text \<open>
  Organizations, their members and invitations: crates/remote/src/db/organizations.rs,
  db/organization_members.rs, db/invitations.rs and the handlers of routes/organizations.rs and
  routes/organization_members.rs, with the constraints of the tables.

  A handler first asks the pool whether the caller may do what it asks, and then writes, most
  handlers in a transaction of its own. Other requests may come between. So every operation
  takes two states: \<open>db0\<close>, what its questions saw, and \<open>db\<close>, what the write finds. With
  \<open>db0 = db\<close> it is the request that nothing interrupts. Rows that a transaction locks
  (\<open>FOR UPDATE\<close>) are read in \<open>db\<close>.

  The table of users, \<open>last_seen_at\<close>, the audit log and the analytics are not modelled. The tags
  and statuses of the initial project belong to other components. A generated UUID is \<open>od_next_uuid\<close>.
\<close>

section \<open>Rows\<close>

datatype member_role = Admin | Member

datatype invitation_status = Pending | Accepted | Declined | Expired

record organization =
  og_id :: uuid
  og_name :: string
  og_slug :: string
  og_is_personal :: bool
  og_issue_prefix :: string
  og_created_at :: timestamp
  og_updated_at :: timestamp

record org_member =
  om_organization_id :: uuid
  om_user_id :: uuid
  om_role :: member_role
  om_joined_at :: timestamp

record invitation =
  iv_id :: uuid
  iv_organization_id :: uuid
  iv_invited_by_user_id :: "uuid option"
  iv_email :: string
  iv_role :: member_role
  iv_status :: invitation_status
  iv_token :: string
  iv_expires_at :: timestamp
  iv_created_at :: timestamp
  iv_updated_at :: timestamp

record org_db =
  od_organizations :: "organization list"
  od_members :: "org_member list"
  od_invitations :: "invitation list"
  od_projects :: "project list"
  od_next_uuid :: uuid
  od_now :: timestamp

datatype identity_error =
  IdNotFound | IdPermissionDenied | IdInvitationError string | IdCannotDelete string | IdConflict string | IdDatabase db_error

section \<open>Members\<close>

definition org_find :: "org_db \<Rightarrow> uuid \<Rightarrow> organization option" where
  "org_find db i = tbl_find og_id i (od_organizations db)"

definition member_key :: "org_member \<Rightarrow> uuid \<times> uuid" where
  "member_key m = (om_organization_id m, om_user_id m)"

definition find_member :: "org_db \<Rightarrow> uuid \<Rightarrow> uuid \<Rightarrow> org_member option" where
  "find_member db org user = tbl_find member_key (org, user) (od_members db)"

definition put_member :: "org_db \<Rightarrow> uuid \<Rightarrow> uuid \<Rightarrow> member_role \<Rightarrow> db_error + org_db" where
  \<comment> \<open>\<open>add_member\<close>: an upsert\<close>
  "put_member db org user role =
     (if org_find db org = None then Inl ForeignKeyViolation
      else Inr (db\<lparr>od_members :=
        (if find_member db org user = None
         then od_members db @ [\<lparr>om_organization_id = org, om_user_id = user, om_role = role, om_joined_at = od_now db\<rparr>]
         else tbl_update member_key (org, user) (om_role_update (\<lambda>_. role)) (od_members db))\<rparr>))"

definition check_user_role :: "org_db \<Rightarrow> uuid \<Rightarrow> uuid \<Rightarrow> member_role option" where
  "check_user_role db org user = map_option om_role (find_member db org user)"

definition is_org_member :: "org_db \<Rightarrow> uuid \<Rightarrow> uuid \<Rightarrow> bool" where
  "is_org_member db org user = (find_member db org user \<noteq> None)"

definition assert_membership :: "org_db \<Rightarrow> uuid \<Rightarrow> uuid \<Rightarrow> identity_error + unit" where
  "assert_membership db org user = (if is_org_member db org user then Inr () else Inl IdNotFound)"

definition assert_admin :: "org_db \<Rightarrow> uuid \<Rightarrow> uuid \<Rightarrow> identity_error + unit" where
  "assert_admin db org user =
     (case check_user_role db org user of Some Admin \<Rightarrow> Inr () | _ \<Rightarrow> Inl IdPermissionDenied)"

definition list_by_organization :: "org_db \<Rightarrow> uuid \<Rightarrow> org_member list" where
  "list_by_organization db org = filter (\<lambda>m. om_organization_id m = org) (od_members db)"

section \<open>Organizations\<close>

definition fetch_organization :: "org_db \<Rightarrow> uuid \<Rightarrow> identity_error + organization" where
  "fetch_organization db i = (case org_find db i of None \<Rightarrow> Inl IdNotFound | Some o' \<Rightarrow> Inr o')"

definition is_personal_org :: "org_db \<Rightarrow> uuid \<Rightarrow> identity_error + bool" where
  "is_personal_org db i = (case org_find db i of None \<Rightarrow> Inl IdNotFound | Some o' \<Rightarrow> Inr (og_is_personal o'))"

definition find_organization_by_slug :: "org_db \<Rightarrow> string \<Rightarrow> organization option" where
  "find_organization_by_slug db slug = tbl_find og_slug slug (od_organizations db)"

definition ascii_letter :: "char \<Rightarrow> bool" where
  "ascii_letter c = (let n = of_char c :: nat in (65 \<le> n \<and> n \<le> 90) \<or> (97 \<le> n \<and> n \<le> 122))"

definition derive_issue_prefix :: "string \<Rightarrow> string" where
  "derive_issue_prefix name =
     (let prefix = map upper_char (take 3 (filter ascii_letter name)) in if prefix = [] then ''ISS'' else prefix)"

definition personal_org_name :: "string option \<Rightarrow> uuid \<Rightarrow> string" where
  "personal_org_name hint user = unwrap_or hint (show_uuid user) @ [CHR 0x27] @ ''s Org''"

definition personal_org_slug :: "uuid \<Rightarrow> string" where
  "personal_org_slug user = ''personal-'' @ show_uuid user"

definition insert_organization :: "org_db \<Rightarrow> string \<Rightarrow> string \<Rightarrow> bool \<Rightarrow> db_error + (organization \<times> org_db)" where
  "insert_organization db name slug personal =
     (let o' = \<lparr>og_id = od_next_uuid db, og_name = name, og_slug = slug, og_is_personal = personal,
            og_issue_prefix = derive_issue_prefix name, og_created_at = od_now db, og_updated_at = od_now db\<rparr> in
      if find_organization_by_slug db slug \<noteq> None then Inl UniqueViolation
      else Inr (o', db\<lparr>od_organizations := od_organizations db @ [o'], od_next_uuid := Suc (od_next_uuid db)\<rparr>))"

definition create_initial_project :: "org_db \<Rightarrow> uuid \<Rightarrow> org_db" where
  "create_initial_project db org =
     db\<lparr>od_projects := od_projects db @
          [\<lparr>pj_id = od_next_uuid db, pj_organization_id = org, pj_name = ''Initial Project''\<rparr>],
        od_next_uuid := Suc (od_next_uuid db)\<rparr>"

definition ensure_personal_org_and_admin_membership ::
  "org_db \<Rightarrow> org_db \<Rightarrow> uuid \<Rightarrow> string option \<Rightarrow> (identity_error + organization) \<times> org_db" where
  "ensure_personal_org_and_admin_membership db0 db user hint =
     (let name = personal_org_name hint user; slug = personal_org_slug user;
          join = (\<lambda>o' db. case put_member db (og_id o') user Admin of
              Inl e \<Rightarrow> (Inl (IdDatabase e), db) | Inr db \<Rightarrow> (Inr o', db)) in
      case find_organization_by_slug db0 slug of
        Some o' \<Rightarrow> join o' db
      | None \<Rightarrow>
          (case insert_organization db name slug True of
             Inl e \<Rightarrow> (Inl (IdDatabase e), db)
           | Inr (o', db) \<Rightarrow> join o' (create_initial_project db (og_id o'))))"

definition org_create :: "org_db \<Rightarrow> string \<Rightarrow> string \<Rightarrow> uuid \<Rightarrow> (identity_error + (organization \<times> member_role)) \<times> org_db" where
  \<comment> \<open>\<open>create_organization\<close>, one transaction\<close>
  "org_create db name slug creator =
     (case insert_organization db name slug False of
        Inl UniqueViolation \<Rightarrow> (Inl (IdConflict ''An organization with this slug already exists''), db)
      | Inl e \<Rightarrow> (Inl (IdDatabase e), db)
      | Inr (o', db1) \<Rightarrow>
          (case put_member (create_initial_project db1 (og_id o')) (og_id o') creator Admin of
             Inl e \<Rightarrow> (Inl (IdDatabase e), db)
           | Inr db2 \<Rightarrow> (Inr (o', Admin), db2)))"

definition list_user_organizations :: "org_db \<Rightarrow> uuid \<Rightarrow> (organization \<times> member_role) list" where
  "list_user_organizations db user =
     sort_key (\<lambda>(o', _). - int (og_created_at o'))
       (concat (map (\<lambda>o'. case check_user_role db (og_id o') user of None \<Rightarrow> [] | Some r \<Rightarrow> [(o', r)])
          (od_organizations db)))"

definition update_organization_name ::
  "org_db \<Rightarrow> org_db \<Rightarrow> uuid \<Rightarrow> uuid \<Rightarrow> string \<Rightarrow> (identity_error + organization) \<times> org_db" where
  "update_organization_name db0 db org user name =
     (case assert_admin db0 org user of Inl e \<Rightarrow> (Inl e, db) | Inr _ \<Rightarrow>
      (let db1 = db\<lparr>od_organizations := tbl_update og_id org
             (\<lambda>o'. o'\<lparr>og_name := name, og_updated_at := od_now db\<rparr>) (od_organizations db)\<rparr> in
       case org_find db1 org of None \<Rightarrow> (Inl IdNotFound, db) | Some o' \<Rightarrow> (Inr o', db1)))"

definition org_cascade :: "uuid \<Rightarrow> org_db \<Rightarrow> org_db" where
  "org_cascade org db = db\<lparr>od_organizations := tbl_delete og_id org (od_organizations db),
     od_members := filter (\<lambda>m. om_organization_id m \<noteq> org) (od_members db),
     od_invitations := filter (\<lambda>v. iv_organization_id v \<noteq> org) (od_invitations db),
     od_projects := filter (\<lambda>p. pj_organization_id p \<noteq> org) (od_projects db)\<rparr>"

definition org_delete :: "org_db \<Rightarrow> org_db \<Rightarrow> uuid \<Rightarrow> uuid \<Rightarrow> (identity_error + unit) \<times> org_db" where
  "org_delete db0 db org user =
     (case fetch_organization db0 org of Inl e \<Rightarrow> (Inl e, db) | Inr o' \<Rightarrow>
      (if og_is_personal o' then (Inl (IdCannotDelete ''Cannot delete personal organizations''), db)
       else if org_find db org \<noteq> None \<and>
          list_ex (\<lambda>m. om_user_id m = user \<and> om_role m = Admin) (list_by_organization db org)
       then (Inr (), org_cascade org db)
       else (Inl IdPermissionDenied, db)))"

section \<open>Invitations\<close>

definition pending_twins :: "invitation \<Rightarrow> invitation \<Rightarrow> bool" where
  \<comment> \<open>the partial unique index \<open>uniq_pending_invite_per_email_per_org\<close>\<close>
  "pending_twins a b = (iv_status a = Pending \<and> iv_status b = Pending \<and>
     iv_organization_id a = iv_organization_id b \<and> str_lower (iv_email a) = str_lower (iv_email b))"

definition invitation_create ::
  "org_db \<Rightarrow> org_db \<Rightarrow> uuid \<Rightarrow> uuid \<Rightarrow> string \<Rightarrow> member_role \<Rightarrow> timestamp \<Rightarrow> string \<Rightarrow>
   (identity_error + invitation) \<times> org_db" where
  "invitation_create db0 db org user email role expires_at token =
     (case assert_admin db0 org user of Inl e \<Rightarrow> (Inl e, db) | Inr _ \<Rightarrow>
      (case is_personal_org db0 org of Inl e \<Rightarrow> (Inl e, db) | Inr personal \<Rightarrow>
       (if personal then (Inl (IdInvitationError ''Cannot invite members to a personal organization''), db)
        else
         (let v = \<lparr>iv_id = od_next_uuid db, iv_organization_id = org, iv_invited_by_user_id = Some user,
               iv_email = email, iv_role = role, iv_status = Pending, iv_token = token,
               iv_expires_at = expires_at, iv_created_at = od_now db, iv_updated_at = od_now db\<rparr> in
          if list_ex (\<lambda>w. iv_token w = token \<or> pending_twins v w) (od_invitations db)
          then (Inl (IdInvitationError ''A pending invitation already exists for this email''), db)
          else if org_find db org = None then (Inl (IdDatabase ForeignKeyViolation), db)
          else (Inr v, db\<lparr>od_invitations := od_invitations db @ [v], od_next_uuid := Suc (od_next_uuid db)\<rparr>)))))"

definition invitation_list :: "org_db \<Rightarrow> uuid \<Rightarrow> uuid \<Rightarrow> identity_error + invitation list" where
  "invitation_list db org user =
     (case assert_admin db org user of Inl e \<Rightarrow> Inl e | Inr _ \<Rightarrow>
      (case is_personal_org db org of Inl e \<Rightarrow> Inl e | Inr personal \<Rightarrow>
       (if personal then Inl (IdInvitationError ''Personal organizations do not support invitations'')
        else Inr (sort_key (\<lambda>v. - int (iv_created_at v))
          (filter (\<lambda>v. iv_organization_id v = org) (od_invitations db))))))"

definition get_invitation_by_token :: "org_db \<Rightarrow> string \<Rightarrow> identity_error + invitation" where
  "get_invitation_by_token db token =
     (case tbl_find iv_token token (od_invitations db) of None \<Rightarrow> Inl IdNotFound | Some v \<Rightarrow> Inr v)"

definition invitation_revoke :: "org_db \<Rightarrow> org_db \<Rightarrow> uuid \<Rightarrow> uuid \<Rightarrow> uuid \<Rightarrow> (identity_error + unit) \<times> org_db" where
  "invitation_revoke db0 db org i user =
     (case assert_admin db0 org user of Inl e \<Rightarrow> (Inl e, db) | Inr _ \<Rightarrow>
      (if list_ex (\<lambda>v. iv_id v = i \<and> iv_organization_id v = org) (od_invitations db)
       then (Inr (), db\<lparr>od_invitations := filter (\<lambda>v. \<not> (iv_id v = i \<and> iv_organization_id v = org)) (od_invitations db)\<rparr>)
       else (Inl IdNotFound, db)))"

definition set_invitation :: "uuid \<Rightarrow> invitation_status \<Rightarrow> org_db \<Rightarrow> org_db" where
  "set_invitation i s db = db\<lparr>od_invitations :=
     tbl_update iv_id i (\<lambda>v. v\<lparr>iv_status := s, iv_updated_at := od_now db\<rparr>) (od_invitations db)\<rparr>"

definition invitation_accept ::
  "org_db \<Rightarrow> org_db \<Rightarrow> string \<Rightarrow> uuid \<Rightarrow> (identity_error + (organization \<times> member_role)) \<times> org_db" where
  \<comment> \<open>one transaction; the row of the invitation is locked\<close>
  "invitation_accept db0 db token user =
     (case tbl_find iv_token token (filter (\<lambda>v. iv_status v = Pending) (od_invitations db)) of
        None \<Rightarrow> (Inl (IdInvitationError ''Invitation not found or already used''), db)
      | Some v \<Rightarrow>
      (case is_personal_org db (iv_organization_id v) of
         Inl e \<Rightarrow> (Inl e, db)
       | Inr personal \<Rightarrow>
      (if personal then (Inl (IdInvitationError ''Cannot accept invitations for a personal organization''), db)
       else if iv_expires_at v < od_now db
       then (Inl (IdInvitationError ''Invitation has expired''), set_invitation (iv_id v) Expired db)
       else if is_org_member db0 (iv_organization_id v) user
       then (Inl (IdInvitationError ''You are already a member of the organization''), db)
       else
        (case put_member db (iv_organization_id v) user (iv_role v) of
           Inl e \<Rightarrow> (Inl (IdDatabase e), db)
         | Inr db1 \<Rightarrow>
            (let db2 = set_invitation (iv_id v) Accepted db1 in
             case fetch_organization db2 (iv_organization_id v) of
               Inl e \<Rightarrow> (Inl e, db2) | Inr o' \<Rightarrow> (Inr (o', iv_role v), db2))))))"

section \<open>Handlers\<close>

definition membership_error :: "identity_error \<Rightarrow> string \<Rightarrow> error_response" where
  "membership_error e forbidden =
     (case e of IdDatabase _ \<Rightarrow> error_new INTERNAL_SERVER_ERROR ''Database error'' | _ \<Rightarrow> error_new FORBIDDEN forbidden)"

definition ensure_member_access :: "org_db \<Rightarrow> uuid \<Rightarrow> uuid \<Rightarrow> error_response + unit" where
  "ensure_member_access db org user =
     (case assert_membership db org user of Inl e \<Rightarrow> Inl (membership_error e ''Not a member of organization'') | Inr u \<Rightarrow> Inr u)"

definition ensure_admin_access :: "org_db \<Rightarrow> uuid \<Rightarrow> uuid \<Rightarrow> error_response + unit" where
  "ensure_admin_access db org user =
     (case assert_admin db org user of Inl e \<Rightarrow> Inl (membership_error e ''Admin access required'') | Inr u \<Rightarrow> Inr u)"

definition invitation_error :: "identity_error \<Rightarrow> error_response" where
  \<comment> \<open>the error mapping of the handlers that create and list invitations\<close>
  "invitation_error e =
     (case e of IdPermissionDenied \<Rightarrow> error_new FORBIDDEN ''Admin access required''
      | IdInvitationError msg \<Rightarrow> error_new BAD_REQUEST msg
      | _ \<Rightarrow> error_new INTERNAL_SERVER_ERROR ''Database error'')"

record org_mail =
  ml_org_name :: string
  ml_email :: string
  ml_accept_url :: string
  ml_role :: member_role
  ml_invited_by :: "string option"

definition create_invitation ::
  "string \<Rightarrow> org_db \<Rightarrow> org_db \<Rightarrow> uuid \<times> string option \<Rightarrow> uuid \<Rightarrow> string \<Rightarrow> member_role \<Rightarrow> uuid \<Rightarrow>
   (error_response + (invitation \<times> org_mail)) \<times> org_db" where
  \<comment> \<open>the base URL of the server, the user with its name, and the UUID that becomes the token\<close>
  "create_invitation base db0 db user org email role token_uuid =
     (case ensure_admin_access db0 org (fst user) of Inl e \<Rightarrow> (Inl e, db) | Inr _ \<Rightarrow>
      (let token = show_uuid token_uuid in
       case invitation_create db0 db org (fst user) email role (od_now db + 7 * 24 * 60 * 60) token of
         (Inl e, db) \<Rightarrow> (Inl (invitation_error e), db)
       | (Inr v, db) \<Rightarrow>
          (case fetch_organization db org of
             Inl _ \<Rightarrow> (Inl (error_new INTERNAL_SERVER_ERROR ''Failed to fetch organization''), db)
           | Inr o' \<Rightarrow> (Inr (v, \<lparr>ml_org_name = og_name o', ml_email = email,
                 ml_accept_url = base @ ''/invitations/'' @ token @ ''/accept'', ml_role = role,
                 ml_invited_by = snd user\<rparr>), db))))"

definition list_invitations :: "org_db \<Rightarrow> uuid \<Rightarrow> uuid \<Rightarrow> error_response + invitation list" where
  "list_invitations db user org =
     (case ensure_admin_access db org user of Inl e \<Rightarrow> Inl e | Inr _ \<Rightarrow>
      (case invitation_list db org user of Inl e \<Rightarrow> Inl (invitation_error e) | Inr vs \<Rightarrow> Inr vs))"

definition get_invitation :: "org_db \<Rightarrow> string \<Rightarrow> error_response + (uuid \<times> string \<times> string \<times> member_role \<times> timestamp)" where
  \<comment> \<open>id, slug and name of the organization, role, expiry\<close>
  "get_invitation db token =
     (case get_invitation_by_token db token of
        Inl _ \<Rightarrow> Inl (error_new NOT_FOUND ''Invitation not found'')
      | Inr v \<Rightarrow>
         (case fetch_organization db (iv_organization_id v) of
            Inl _ \<Rightarrow> Inl (error_new INTERNAL_SERVER_ERROR ''Failed to fetch organization'')
          | Inr o' \<Rightarrow> Inr (iv_id v, og_slug o', og_name o', iv_role v, iv_expires_at v)))"

definition revoke_invitation :: "org_db \<Rightarrow> org_db \<Rightarrow> uuid \<Rightarrow> uuid \<Rightarrow> uuid \<Rightarrow> (error_response + unit) \<times> org_db" where
  "revoke_invitation db0 db user org i =
     (case ensure_admin_access db0 org user of Inl e \<Rightarrow> (Inl e, db) | Inr _ \<Rightarrow>
      (case invitation_revoke db0 db org i user of
         (Inl IdPermissionDenied, db) \<Rightarrow> (Inl (error_new FORBIDDEN ''Admin access required''), db)
       | (Inl IdNotFound, db) \<Rightarrow> (Inl (error_new NOT_FOUND ''Invitation not found''), db)
       | (Inl _, db) \<Rightarrow> (Inl (error_new INTERNAL_SERVER_ERROR ''Database error''), db)
       | (Inr u, db) \<Rightarrow> (Inr u, db)))"

definition accept_invitation ::
  "org_db \<Rightarrow> org_db \<Rightarrow> uuid \<Rightarrow> string \<Rightarrow> (error_response + (string \<times> string \<times> member_role)) \<times> org_db" where
  "accept_invitation db0 db user token =
     (case invitation_accept db0 db token user of
        (Inl (IdInvitationError msg), db) \<Rightarrow> (Inl (error_new BAD_REQUEST msg), db)
      | (Inl IdNotFound, db) \<Rightarrow> (Inl (error_new NOT_FOUND ''Invitation not found''), db)
      | (Inl _, db) \<Rightarrow> (Inl (error_new INTERNAL_SERVER_ERROR ''Database error''), db)
      | (Inr (o', role), db) \<Rightarrow> (Inr (show_uuid (og_id o'), og_slug o', role), db))"

definition list_org_members :: "org_db \<Rightarrow> uuid \<Rightarrow> uuid \<Rightarrow> error_response + org_member list" where
  \<comment> \<open>without the profiles\<close>
  "list_org_members db user org =
     (case ensure_member_access db org user of Inl e \<Rightarrow> Inl e
      | Inr _ \<Rightarrow> Inr (sort_key om_joined_at (list_by_organization db org)))"

definition admin_ids :: "org_db \<Rightarrow> uuid \<Rightarrow> uuid list" where
  "admin_ids db org = map om_user_id (filter (\<lambda>m. om_role m = Admin) (list_by_organization db org))"

definition org_remove_member :: "org_db \<Rightarrow> org_db \<Rightarrow> uuid \<Rightarrow> uuid \<Rightarrow> uuid \<Rightarrow> (error_response + unit) \<times> org_db" where
  "org_remove_member db0 db user org user_id =
     (if user = user_id then (Inl (error_new BAD_REQUEST ''Cannot remove yourself''), db)
      else (case is_personal_org db0 org of
         Inl _ \<Rightarrow> (Inl (error_new NOT_FOUND ''Organization not found''), db)
       | Inr personal \<Rightarrow>
      (if personal then (Inl (error_new BAD_REQUEST ''Cannot modify members of a personal organization''), db)
       else (case ensure_admin_access db0 org user of Inl e \<Rightarrow> (Inl e, db) | Inr _ \<Rightarrow>
      (case find_member db org user_id of
         None \<Rightarrow> (Inl (error_new NOT_FOUND ''Member not found''), db)
       | Some target \<Rightarrow>
          (if om_role target = Admin \<and> admin_ids db org = [user_id]
           then (Inl (error_new CONFLICT ''Cannot remove the last admin''), db)
           else (Inr (), db\<lparr>od_members := tbl_delete member_key (org, user_id) (od_members db)\<rparr>)))))))"

definition update_member_role ::
  "org_db \<Rightarrow> org_db \<Rightarrow> uuid \<Rightarrow> uuid \<Rightarrow> uuid \<Rightarrow> member_role \<Rightarrow> (error_response + (uuid \<times> member_role)) \<times> org_db" where
  "update_member_role db0 db user org user_id role =
     (if user = user_id \<and> role = Member then (Inl (error_new BAD_REQUEST ''Cannot demote yourself''), db)
      else (case is_personal_org db0 org of
         Inl _ \<Rightarrow> (Inl (error_new NOT_FOUND ''Organization not found''), db)
       | Inr personal \<Rightarrow>
      (if personal then (Inl (error_new BAD_REQUEST ''Cannot modify members of a personal organization''), db)
       else (case ensure_admin_access db0 org user of Inl e \<Rightarrow> (Inl e, db) | Inr _ \<Rightarrow>
      (case find_member db org user_id of
         None \<Rightarrow> (Inl (error_new NOT_FOUND ''Member not found''), db)
       | Some target \<Rightarrow>
          (if om_role target = role then (Inr (user_id, role), db)
           else if om_role target = Admin \<and> role = Member \<and> admin_ids db org = [user_id]
           then (Inl (error_new CONFLICT ''Cannot demote the last admin''), db)
           else (Inr (user_id, role), db\<lparr>od_members :=
             tbl_update member_key (org, user_id) (om_role_update (\<lambda>_. role)) (od_members db)\<rparr>)))))))"

definition name_ok :: "string \<Rightarrow> bool" where
  "name_ok s = (s \<noteq> [] \<and> length s \<le> 100)"

definition create_organization ::
  "org_db \<Rightarrow> uuid \<Rightarrow> string \<Rightarrow> string \<Rightarrow> (error_response + (organization \<times> member_role)) \<times> org_db" where
  "create_organization db user raw_name raw_slug =
     (let name = str_trim raw_name; slug = str_trim raw_slug in
      if \<not> name_ok name then (Inl (error_new BAD_REQUEST ''Organization name must be between 1 and 100 characters''), db)
      else if \<not> name_ok slug then (Inl (error_new BAD_REQUEST ''Organization slug must be between 1 and 100 characters''), db)
      else (case org_create db name slug user of
          (Inl (IdConflict msg), db) \<Rightarrow> (Inl (error_new CONFLICT msg), db)
        | (Inl _, db) \<Rightarrow> (Inl (error_new INTERNAL_SERVER_ERROR ''Database error''), db)
        | (Inr r, db) \<Rightarrow> (Inr r, db)))"

definition list_organizations :: "org_db \<Rightarrow> uuid \<Rightarrow> error_response + (organization \<times> member_role) list" where
  "list_organizations db user = Inr (list_user_organizations db user)"

definition get_organization :: "org_db \<Rightarrow> uuid \<Rightarrow> uuid \<Rightarrow> error_response + (organization \<times> string)" where
  "get_organization db user org =
     (case assert_membership db org user of
        Inl IdNotFound \<Rightarrow> Inl (error_new NOT_FOUND ''Organization not found'')
      | Inl _ \<Rightarrow> Inl (error_new FORBIDDEN ''Access denied'')
      | Inr _ \<Rightarrow>
         (case fetch_organization db org of
            Inl _ \<Rightarrow> Inl (error_new INTERNAL_SERVER_ERROR ''Failed to fetch organization'')
          | Inr o' \<Rightarrow> Inr (o', case unwrap_or (check_user_role db org user) Member of
                Admin \<Rightarrow> ''ADMIN'' | Member \<Rightarrow> ''MEMBER'')))"

definition update_organization ::
  "org_db \<Rightarrow> org_db \<Rightarrow> uuid \<Rightarrow> uuid \<Rightarrow> string \<Rightarrow> (error_response + organization) \<times> org_db" where
  "update_organization db0 db user org raw_name =
     (let name = str_trim raw_name in
      if \<not> name_ok name then (Inl (error_new BAD_REQUEST ''Organization name must be between 1 and 100 characters''), db)
      else (case update_organization_name db0 db org user name of
          (Inl IdPermissionDenied, db) \<Rightarrow> (Inl (error_new FORBIDDEN ''Admin access required''), db)
        | (Inl IdNotFound, db) \<Rightarrow> (Inl (error_new NOT_FOUND ''Organization not found''), db)
        | (Inl _, db) \<Rightarrow> (Inl (error_new INTERNAL_SERVER_ERROR ''Database error''), db)
        | (Inr o', db) \<Rightarrow> (Inr o', db)))"

definition delete_organization :: "org_db \<Rightarrow> org_db \<Rightarrow> uuid \<Rightarrow> uuid \<Rightarrow> (error_response + unit) \<times> org_db" where
  "delete_organization db0 db user org =
     (case org_delete db0 db org user of
        (Inl IdPermissionDenied, db) \<Rightarrow> (Inl (error_new FORBIDDEN ''Admin access required''), db)
      | (Inl (IdCannotDelete msg), db) \<Rightarrow> (Inl (error_new CONFLICT msg), db)
      | (Inl IdNotFound, db) \<Rightarrow> (Inl (error_new NOT_FOUND ''Organization not found''), db)
      | (Inl _, db) \<Rightarrow> (Inl (error_new INTERNAL_SERVER_ERROR ''Database error''), db)
      | (Inr u, db) \<Rightarrow> (Inr u, db))"

end
