(* ===== verification/Organizations_Props.thy ===== *)
theory Organizations_Props
  imports Organizations "HOL-Library.Code_Target_Nat"
begin

text \<open>
  What the tables of organizations guarantee under any requests, when other requests come between
  the questions of a handler and its write: every organization keeps an admin, personal
  organizations stay personal, and members are let in by an invitation that is used once.
\<close>

section \<open>Requests and histories\<close>

datatype org_request =
    CreateOrganization uuid string string
  | UpdateOrganization uuid uuid string
  | DeleteOrganization uuid uuid
  | SignIn uuid "string option"
  | CreateInvitation "uuid \<times> string option" uuid string member_role uuid
  | RevokeInvitation uuid uuid uuid
  | AcceptInvitation uuid string
  | RemoveMember uuid uuid uuid
  | UpdateMemberRole uuid uuid uuid member_role
  | TimePasses nat

fun org_handle :: "org_db \<Rightarrow> org_db \<Rightarrow> org_request \<Rightarrow> org_db" where
  "org_handle db0 db (CreateOrganization user name slug) = snd (create_organization db user name slug)"
| "org_handle db0 db (UpdateOrganization user org name) = snd (update_organization db0 db user org name)"
| "org_handle db0 db (DeleteOrganization user org) = snd (delete_organization db0 db user org)"
| "org_handle db0 db (SignIn user hint) = snd (ensure_personal_org_and_admin_membership db0 db user hint)"
| "org_handle db0 db (CreateInvitation user org email role token) =
     snd (create_invitation [] db0 db user org email role token)"
| "org_handle db0 db (RevokeInvitation user org i) = snd (revoke_invitation db0 db user org i)"
| "org_handle db0 db (AcceptInvitation user token) = snd (accept_invitation db0 db user token)"
| "org_handle db0 db (RemoveMember user org user_id) = snd (org_remove_member db0 db user org user_id)"
| "org_handle db0 db (UpdateMemberRole user org user_id role) = snd (update_member_role db0 db user org user_id role)"
| "org_handle db0 db (TimePasses n) = db\<lparr>od_now := od_now db + n\<rparr>"

text \<open>A history holds the states so far, the latest first; an event is a request and how many
  states ago it asked its questions.\<close>

definition org_before :: "org_db list \<Rightarrow> nat \<Rightarrow> org_db" where
  "org_before h lag = h ! min lag (length h - 1)"

definition org_step :: "org_db list \<Rightarrow> nat \<times> org_request \<Rightarrow> org_db list" where
  "org_step h e = org_handle (org_before h (fst e)) (hd h) (snd e) # h"

definition org_run :: "org_db \<Rightarrow> (nat \<times> org_request) list \<Rightarrow> org_db list" where
  "org_run db es = foldl org_step [db] es"

fun accepts :: "org_request \<Rightarrow> bool" where
  "accepts (AcceptInvitation _ _) = True" | "accepts _ = False"

definition accepts_alone :: "(nat \<times> org_request) list \<Rightarrow> bool" where
  \<comment> \<open>no request comes between the questions of an acceptance and its write\<close>
  "accepts_alone es = list_all (\<lambda>(lag, r). accepts r \<longrightarrow> lag = 0) es"

section \<open>Tables\<close>

definition org_tables :: "org_db \<Rightarrow> bool" where
  "org_tables db =
     (distinct (map og_id (od_organizations db)) \<and> distinct (map og_slug (od_organizations db)) \<and>
      distinct (map member_key (od_members db)) \<and>
      distinct (map iv_id (od_invitations db)) \<and> distinct (map iv_token (od_invitations db)) \<and>
      (\<forall>v \<in> set (od_invitations db). \<forall>w \<in> set (od_invitations db). pending_twins v w \<longrightarrow> v = w) \<and>
      (\<forall>o' \<in> set (od_organizations db). og_id o' < od_next_uuid db) \<and>
      (\<forall>m \<in> set (od_members db). om_organization_id m \<in> og_id ` set (od_organizations db)) \<and>
      (\<forall>v \<in> set (od_invitations db). iv_id v < od_next_uuid db \<and> iv_organization_id v \<in> og_id ` set (od_organizations db)) \<and>
      (\<forall>p \<in> set (od_projects db). pj_id p < od_next_uuid db \<and> pj_organization_id p \<in> og_id ` set (od_organizations db)))"

definition has_admin :: "org_db \<Rightarrow> uuid \<Rightarrow> bool" where
  "has_admin db org = list_ex (\<lambda>m. om_role m = Admin) (list_by_organization db org)"

definition admins_remain :: "org_db \<Rightarrow> bool" where
  "admins_remain db = list_all (\<lambda>o'. og_is_personal o' \<or> has_admin db (og_id o')) (od_organizations db)"

definition personal_private :: "org_db \<Rightarrow> bool" where
  \<comment> \<open>a personal organization has no member but its owner, and no invitation\<close>
  "personal_private db = list_all (\<lambda>o'. og_is_personal o' \<longrightarrow>
     list_all (\<lambda>m. og_slug o' = personal_org_slug (om_user_id m) \<and> om_role m = Admin) (list_by_organization db (og_id o')) \<and>
     list_all (\<lambda>v. iv_organization_id v \<noteq> og_id o') (od_invitations db)) (od_organizations db)"

definition same_kind :: "org_db \<Rightarrow> org_db \<Rightarrow> bool" where
  \<comment> \<open>an identifier is never given to another organization\<close>
  "same_kind db0 db = (od_next_uuid db0 \<le> od_next_uuid db \<and>
     (\<forall>o0 \<in> set (od_organizations db0). og_id o0 < od_next_uuid db0) \<and>
     (\<forall>o0 \<in> set (od_organizations db0). \<forall>o' \<in> set (od_organizations db). og_id o0 = og_id o' \<longrightarrow>
        og_is_personal o0 = og_is_personal o' \<and> og_slug o0 = og_slug o'))"


section \<open>Who is let in\<close>

datatype admission = Founded uuid uuid | Joined invitation uuid timestamp

definition pending_invitation :: "org_db \<Rightarrow> string \<Rightarrow> invitation option" where
  "pending_invitation db token = tbl_find iv_token token (filter (\<lambda>v. iv_status v = Pending) (od_invitations db))"

fun org_entry :: "org_db \<Rightarrow> org_db \<Rightarrow> org_request \<Rightarrow> admission list" where
  "org_entry db0 db (CreateOrganization user name slug) =
     (case fst (create_organization db user name slug) of Inr (o', _) \<Rightarrow> [Founded (og_id o') user] | Inl _ \<Rightarrow> [])"
| "org_entry db0 db (AcceptInvitation user token) =
     (case fst (accept_invitation db0 db user token) of
        Inr _ \<Rightarrow> [Joined (the (pending_invitation db token)) user (od_now db)] | Inl _ \<Rightarrow> [])"
| "org_entry db0 db _ = []"

fun org_log :: "org_db list \<Rightarrow> (nat \<times> org_request) list \<Rightarrow> admission list" where
  "org_log h [] = []"
| "org_log h (e # es) = org_entry (org_before h (fst e)) (hd h) (snd e) @ org_log (org_step h e) es"

section \<open>What a request writes\<close>

inductive org_write :: "org_db \<Rightarrow> org_db \<Rightarrow> admission list \<Rightarrow> org_db \<Rightarrow> bool" for db0 db where
  nothing: "org_write db0 db [] db"
| tick: "org_write db0 db [] (db\<lparr>od_now := n\<rparr>)"
| rename: "org_write db0 db [] (db\<lparr>od_organizations := tbl_update og_id org
    (\<lambda>o'. o'\<lparr>og_name := name, og_updated_at := t\<rparr>) (od_organizations db)\<rparr>)"
| found: "insert_organization db name slug personal = Inr (o', db1) \<Longrightarrow>
    put_member (create_initial_project db1 (og_id o')) (og_id o') user Admin = Inr db2 \<Longrightarrow>
    (personal \<longrightarrow> slug = personal_org_slug user) \<Longrightarrow> org_write db0 db (if personal then [] else [Founded (og_id o') user]) db2"
| owner: "o' \<in> set (od_organizations db0) \<Longrightarrow> og_slug o' = personal_org_slug user \<Longrightarrow>
    put_member db (og_id o') user Admin = Inr db1 \<Longrightarrow> org_write db0 db [] db1"
| delete: "is_personal_org db0 org = Inr False \<Longrightarrow> org_write db0 db [] (org_cascade org db)"
| invite: "invitation_create db0 db org user email role t token = (Inr v, db1) \<Longrightarrow> org_write db0 db [] db1"
| revoke: "org_write db0 db [] (db\<lparr>od_invitations := filter P (od_invitations db)\<rparr>)"
| expire: "org_write db0 db [] (set_invitation i Expired db)"
| accept: "pending_invitation db token = Some v \<Longrightarrow>
    is_personal_org db (iv_organization_id v) = Inr False \<Longrightarrow> od_now db \<le> iv_expires_at v \<Longrightarrow>
    \<not> is_org_member db0 (iv_organization_id v) user \<Longrightarrow>
    put_member db (iv_organization_id v) user (iv_role v) = Inr db1 \<Longrightarrow>
    org_write db0 db [Joined v user (od_now db)] (set_invitation (iv_id v) Accepted db1)"
| remove: "is_personal_org db0 org = Inr False \<Longrightarrow> find_member db org user = Some target \<Longrightarrow>
    \<not> (om_role target = Admin \<and> admin_ids db org = [user]) \<Longrightarrow>
    org_write db0 db [] (db\<lparr>od_members := tbl_delete member_key (org, user) (od_members db)\<rparr>)"
| role: "is_personal_org db0 org = Inr False \<Longrightarrow> find_member db org user = Some target \<Longrightarrow>
    \<not> (om_role target = Admin \<and> r = Member \<and> admin_ids db org = [user]) \<Longrightarrow>
    org_write db0 db [] (db\<lparr>od_members := tbl_update member_key (org, user) (om_role_update (\<lambda>_. r)) (od_members db)\<rparr>)"

lemma org_find_fresh_cases:
  "insert_organization db name slug p = Inr (o', db1) \<Longrightarrow>
   \<exists>db2. put_member (create_initial_project db1 (og_id o')) (og_id o') user r = Inr db2"
  by (auto simp: insert_organization_def put_member_def create_initial_project_def org_find_def tbl_find_None
      Let_def split: if_splits)

lemma insert_error: "insert_organization db name slug p = Inl e \<Longrightarrow> e = UniqueViolation"
  by (auto simp: insert_organization_def Let_def split: if_splits)

lemma create_writes:
  "org_write db0 db (org_entry db0 db (CreateOrganization user name slug)) (snd (create_organization db user name slug))"
proof (cases "name_ok (str_trim name) \<and> name_ok (str_trim slug)")
  case True
  show ?thesis
  proof (cases "insert_organization db (str_trim name) (str_trim slug) False")
    case (Inl e)
    then show ?thesis
      using insert_error [OF Inl] by (simp add: create_organization_def org_create_def Let_def org_write.nothing)
  next
    case (Inr r)
    obtain o' db1 where r: "r = (o', db1)" by fastforce
    obtain db2 where db2: "put_member (create_initial_project db1 (og_id o')) (og_id o') user Admin = Inr db2"
      using org_find_fresh_cases [OF Inr [unfolded r]] by blast
    from org_write.found [OF Inr [unfolded r] db2] show ?thesis
      using Inr db2 r True by (simp add: create_organization_def org_create_def Let_def)
  qed
next
  case False
  then show ?thesis by (auto simp: create_organization_def Let_def org_write.nothing)
qed

lemma sign_in_writes: "org_write db0 db [] (snd (ensure_personal_org_and_admin_membership db0 db user hint))"
proof (cases "find_organization_by_slug db0 (personal_org_slug user)")
  case None
  show ?thesis
  proof (cases "insert_organization db (personal_org_name hint user) (personal_org_slug user) True")
    case (Inl e)
    then show ?thesis
      using None by (simp add: ensure_personal_org_and_admin_membership_def Let_def org_write.nothing)
  next
    case (Inr r)
    obtain o' db1 where r: "r = (o', db1)" by fastforce
    obtain db2 where db2: "put_member (create_initial_project db1 (og_id o')) (og_id o') user Admin = Inr db2"
      using org_find_fresh_cases [OF Inr [unfolded r]] by blast
    from org_write.found [OF Inr [unfolded r] db2] show ?thesis
      using None Inr db2 r by (simp add: ensure_personal_org_and_admin_membership_def Let_def)
  qed
next
  case (Some o')
  then have o': "o' \<in> set (od_organizations db0)" "og_slug o' = personal_org_slug user"
    using tbl_find_Some by (fastforce simp: find_organization_by_slug_def)+
  show ?thesis
    using Some org_write.owner [OF o'] org_write.nothing
    by (simp add: ensure_personal_org_and_admin_membership_def Let_def split: sum.split)
qed

lemma accept_writes:
  "org_write db0 db (org_entry db0 db (AcceptInvitation user token)) (snd (accept_invitation db0 db user token))"
proof (cases "pending_invitation db token")
  case None
  then show ?thesis
    by (simp add: pending_invitation_def accept_invitation_def invitation_accept_def org_write.nothing)
next
  case (Some v)
  note find = Some [unfolded pending_invitation_def]
  show ?thesis
  proof (cases "is_personal_org db (iv_organization_id v) = Inr False \<and> \<not> iv_expires_at v < od_now db \<and>
      \<not> is_org_member db0 (iv_organization_id v) user")
    case True
    then obtain o' where o': "org_find db (iv_organization_id v) = Some o'"
      by (auto simp: is_personal_org_def split: option.splits)
    then obtain db1 where db1: "put_member db (iv_organization_id v) user (iv_role v) = Inr db1"
      by (simp add: put_member_def)
    have "fetch_organization (set_invitation (iv_id v) Accepted db1) (iv_organization_id v) = Inr o'"
      using db1 o' by (auto simp: put_member_def fetch_organization_def org_find_def set_invitation_def split: if_splits)
    then show ?thesis
      using org_write.accept [OF Some _ _ _ db1, of db0] True db1 Some find
      by (simp add: accept_invitation_def invitation_accept_def Let_def)
  next
    case False
    then show ?thesis
      using find org_write.nothing org_write.expire
      by (auto simp: accept_invitation_def invitation_accept_def Let_def split: sum.split identity_error.split)
  qed
qed

lemma personal_of_fetch: "fetch_organization db o1 = Inr o' \<Longrightarrow> is_personal_org db o1 = Inr (og_is_personal o')"
  by (auto simp: fetch_organization_def is_personal_org_def split: option.splits)

lemma org_handle_writes: "org_write db0 db (org_entry db0 db r) (org_handle db0 db r)"
proof (cases r)
  case (CreateOrganization user name slug)
  then show ?thesis using create_writes by simp
next
  case (UpdateOrganization user org name)
  show ?thesis
    using org_write.rename org_write.nothing
    by (simp add: UpdateOrganization update_organization_def update_organization_name_def Let_def
        split: sum.split option.split identity_error.split)
next
  case (DeleteOrganization user org)
  show ?thesis
    using org_write.nothing org_write.delete personal_of_fetch
    by (auto simp: DeleteOrganization delete_organization_def org_delete_def split: sum.split identity_error.split)
next
  case (SignIn user hint)
  then show ?thesis using sign_in_writes by simp
next
  case (CreateInvitation user org email role token)
  have "org_write db0 db [] (snd (invitation_create db0 db org u e ro t tok))" for u e ro t tok
  proof (cases "invitation_create db0 db org u e ro t tok")
    case (Pair x db1)
    show ?thesis
    proof (cases x)
      case (Inl e')
      then show ?thesis using Pair org_write.nothing
        by (auto simp: invitation_create_def Let_def split: sum.splits if_splits)
    next
      case (Inr v)
      then show ?thesis using org_write.invite Pair by simp
    qed
  qed
  then show ?thesis using org_write.nothing
    by (auto simp: CreateInvitation create_invitation_def Let_def split: sum.split prod.split) (metis snd_conv)+
next
  case (RevokeInvitation user org i)
  have "snd (revoke_invitation db0 db user org i) = db \<or> snd (revoke_invitation db0 db user org i) = snd (invitation_revoke db0 db org i user)"
    by (simp add: revoke_invitation_def split: prod.split sum.split identity_error.split)
  moreover have "org_write db0 db [] (snd (invitation_revoke db0 db org i user))"
    using org_write.nothing org_write.revoke by (simp add: invitation_revoke_def split: sum.split)
  ultimately show ?thesis using org_write.nothing RevokeInvitation by auto
next
  case (AcceptInvitation user token)
  then show ?thesis using accept_writes by simp
next
  case (RemoveMember user org user_id)
  show ?thesis
    using org_write.nothing org_write.remove
    by (auto simp: RemoveMember org_remove_member_def split: sum.split option.split)
next
  case (UpdateMemberRole user org user_id role)
  show ?thesis
    using org_write.nothing org_write.role
    by (auto simp: UpdateMemberRole update_member_role_def split: sum.split option.split)
next
  case (TimePasses n)
  then show ?thesis using org_write.tick by simp
qed


section \<open>The tables stay consistent\<close>

lemma put_member_cases:
  assumes "put_member db org user r = Inr db1"
  obtains ms where "db1 = db\<lparr>od_members := ms\<rparr>" "org_find db org \<noteq> None"
    "find_member db org user = None"
    "ms = od_members db @ [\<lparr>om_organization_id = org, om_user_id = user, om_role = r, om_joined_at = od_now db\<rparr>]"
  | ms where "db1 = db\<lparr>od_members := ms\<rparr>" "org_find db org \<noteq> None"
    "find_member db org user \<noteq> None" "ms = tbl_update member_key (org, user) (om_role_update (\<lambda>_. r)) (od_members db)"
  using assms by (auto simp: put_member_def split: if_splits)

lemma member_key_role [simp]: "member_key (om_role_update f m) = member_key m"
  by (simp add: member_key_def)

lemma map_key_update [simp]: "(\<And>r. key' (f r) = key' r) \<Longrightarrow> map key' (tbl_update key k f rows) = map key' rows"
  by (simp add: tbl_update_def)

lemma image_key_update: "(\<And>r. key' (f r) = key' r) \<Longrightarrow> key' ` set (tbl_update key k f rows) = key' ` set rows"
  by (metis (no_types, lifting) map_key_update set_map)

lemma org_find_None: "org_find db org = None \<longleftrightarrow> org \<notin> og_id ` set (od_organizations db)"
  by (simp add: org_find_def tbl_find_None)

lemma org_find_Some: "org_find db org = Some o' \<Longrightarrow> o' \<in> set (od_organizations db) \<and> og_id o' = org"
  unfolding org_find_def by (rule tbl_find_Some)

lemma org_tables_put_member:
  assumes "org_tables db" "put_member db org user r = Inr db1"
  shows "org_tables db1"
  using assms(2)
proof (cases rule: put_member_cases)
  case (1 ms)
  then have "(org, user) \<notin> member_key ` set (od_members db)" by (simp add: find_member_def tbl_find_None)
  then show ?thesis using assms(1) 1 org_find_Some [of db org] by (fastforce simp: org_tables_def member_key_def)
next
  case (2 ms)
  then show ?thesis using assms(1) by (auto simp: org_tables_def set_tbl_update)
qed

lemma org_tables_insert:
  assumes inv: "org_tables db" and ins: "insert_organization db name slug p = Inr (o', db1)"
  shows "org_tables (create_initial_project db1 (og_id o'))"
proof -
  have o': "og_id o' = od_next_uuid db" "og_slug o' = slug" "slug \<notin> og_slug ` set (od_organizations db)"
    "db1 = db\<lparr>od_organizations := od_organizations db @ [o'], od_next_uuid := Suc (od_next_uuid db)\<rparr>"
    using ins by (auto simp: insert_organization_def find_organization_by_slug_def tbl_find_None Let_def split: if_splits)
  show ?thesis
    using inv o'(1-3) unfolding o'(4) create_initial_project_def org_tables_def by (auto simp: less_Suc_eq)
qed

lemma set_invitation_rows:
  "v \<in> set (od_invitations (set_invitation i st db)) \<Longrightarrow>
   \<exists>w \<in> set (od_invitations db). iv_id v = iv_id w \<and> iv_organization_id v = iv_organization_id w \<and>
     iv_invited_by_user_id v = iv_invited_by_user_id w \<and> (v = w \<and> iv_id v \<noteq> i \<or> iv_status v = st)"
  by (auto simp: set_invitation_def set_tbl_update)

lemma org_tables_set_invitation:
  assumes inv: "org_tables db" and st: "st \<noteq> Pending"
  shows "org_tables (set_invitation i st db)"
proof -
  let ?vs = "od_invitations (set_invitation i st db)"
  have "v = w" if "v \<in> set ?vs" "w \<in> set ?vs" "pending_twins v w" for v w
    using that inv st set_invitation_rows [of v i st db] set_invitation_rows [of w i st db]
    by (auto simp: pending_twins_def org_tables_def)
  moreover have "iv_id v < od_next_uuid db \<and> iv_organization_id v \<in> og_id ` set (od_organizations db)" if "v \<in> set ?vs" for v
    using that inv set_invitation_rows [of v i st db] by (auto simp: org_tables_def)
  moreover have "map iv_id ?vs = map iv_id (od_invitations db)" "map iv_token ?vs = map iv_token (od_invitations db)"
    "od_organizations (set_invitation i st db) = od_organizations db" "od_members (set_invitation i st db) = od_members db"
    "od_projects (set_invitation i st db) = od_projects db" "od_next_uuid (set_invitation i st db) = od_next_uuid db"
    by (simp_all add: set_invitation_def)
  ultimately show ?thesis using inv unfolding org_tables_def by simp
qed

lemma org_tables_filter:
  assumes "org_tables db" "set ms \<subseteq> set (od_members db)" "distinct (map member_key ms)"
  shows "org_tables (db\<lparr>od_members := ms\<rparr>)" "org_tables (db\<lparr>od_invitations := filter P (od_invitations db)\<rparr>)"
  using assms by (auto simp: org_tables_def distinct_map_filter)

lemma org_tables_cascade:
  assumes "org_tables db"
  shows "org_tables (org_cascade org db)"
  using assms unfolding org_tables_def org_cascade_def
  by (auto simp: distinct_map_filter tbl_delete_def image_iff)

lemma org_tables_invite:
  assumes "org_tables db" "invitation_create db0 db org user email role t token = (Inr v, db1)"
  shows "org_tables db1"
proof -
  have v: "iv_id v = od_next_uuid db" "iv_token v = token" "iv_organization_id v = org"
    "db1 = db\<lparr>od_invitations := od_invitations db @ [v], od_next_uuid := Suc (od_next_uuid db)\<rparr>"
    and new: "\<not> list_ex (\<lambda>w. iv_token w = token \<or> pending_twins v w) (od_invitations db)" and org: "org_find db org \<noteq> None"
    using assms(2) by (auto simp: invitation_create_def Let_def split: sum.splits if_splits)
  have twins: "\<forall>w \<in> set (od_invitations db). \<not> pending_twins w v \<and> \<not> pending_twins v w \<and> iv_token w \<noteq> token"
    using new by (auto simp: list_ex_iff pending_twins_def)
  have org': "org \<in> og_id ` set (od_organizations db)" using org by (simp add: org_find_None)
  show ?thesis
    using assms(1) org' twins v(1-3) unfolding v(4) org_tables_def by (auto simp: less_Suc_eq)
qed

lemma org_tables_write:
  assumes "org_write db0 db es db'" "org_tables db"
  shows "org_tables db'"
  using assms(1)
proof cases
  case (found name slug personal o' db1 user)
  then show ?thesis using org_tables_put_member [OF org_tables_insert [OF assms(2) found(2)]] by blast
next
  case (owner o' user)
  then show ?thesis using org_tables_put_member [OF assms(2)] by blast
next
  case (delete org)
  then show ?thesis using org_tables_cascade [OF assms(2)] by simp
next
  case (invite org user email role t token v)
  then show ?thesis using org_tables_invite [OF assms(2)] by blast
next
  case (accept token v user db1)
  then show ?thesis using org_tables_set_invitation [OF org_tables_put_member [OF assms(2)]] by blast
next
  case (remove org user target)
  then show ?thesis using org_tables_filter(1) [OF assms(2)] assms(2)
    by (auto simp: tbl_delete_def org_tables_def distinct_map_filter)
next
  case (revoke P)
  then show ?thesis using org_tables_filter(2) [OF assms(2), of "od_members db"] assms(2) by (simp add: org_tables_def)
next
  case (expire i)
  then show ?thesis using org_tables_set_invitation [OF assms(2)] by simp
next
  case (rename org g f)
  let ?os = "tbl_update og_id org (\<lambda>o'. o'\<lparr>og_name := f, og_updated_at := g\<rparr>) (od_organizations db)"
  have keys: "map og_id ?os = map og_id (od_organizations db)" "map og_slug ?os = map og_slug (od_organizations db)" by simp_all
  then have ids: "og_id ` set ?os = og_id ` set (od_organizations db)" by (metis set_map)
  moreover have "og_id o' < od_next_uuid db" if "o' \<in> set ?os" for o'
    using that assms(2) by (auto simp: set_tbl_update org_tables_def)
  ultimately show ?thesis using assms(2) keys unfolding rename org_tables_def by simp
next
  case (role org user target r)
  then show ?thesis using assms(2) by (auto simp: org_tables_def set_tbl_update)
qed (use assms(2) in \<open>auto simp: org_tables_def\<close>)


section \<open>Identifiers keep their organization\<close>

lemma insert_cases:
  assumes "insert_organization db name slug p = Inr (o', db1)"
  shows "og_id o' = od_next_uuid db" "og_slug o' = slug" "og_is_personal o' = p"
    "db1 = db\<lparr>od_organizations := od_organizations db @ [o'], od_next_uuid := Suc (od_next_uuid db)\<rparr>"
  using assms by (auto simp: insert_organization_def Let_def split: if_splits)

lemma put_member_keeps:
  assumes "put_member db org user r = Inr db1"
  shows "od_organizations db1 = od_organizations db" "od_next_uuid db1 = od_next_uuid db"
    "od_invitations db1 = od_invitations db"
  using assms by (auto simp: put_member_def split: if_splits)

lemma set_invitation_keeps:
  "od_organizations (set_invitation i st db) = od_organizations db" "od_next_uuid (set_invitation i st db) = od_next_uuid db"
  "od_members (set_invitation i st db) = od_members db"
  by (simp_all add: set_invitation_def)

lemma invitation_create_cases:
  assumes "invitation_create db0 db org user email role t token = (Inr v, db1)"
  shows "is_personal_org db0 org = Inr False" "org_find db org \<noteq> None" "iv_organization_id v = org"
    "assert_admin db0 org user = Inr ()" "iv_status v = Pending" "iv_id v = od_next_uuid db"
    "iv_invited_by_user_id v = Some user"
    "db1 = db\<lparr>od_invitations := od_invitations db @ [v], od_next_uuid := Suc (od_next_uuid db)\<rparr>"
  using assms by (auto simp: invitation_create_def Let_def split: sum.splits if_splits)

definition org_from :: "org_db \<Rightarrow> organization \<Rightarrow> bool" where
  \<comment> \<open>new, or an organization of that state\<close>
  "org_from db o' = (od_next_uuid db \<le> og_id o' \<or>
     (\<exists>q \<in> set (od_organizations db). og_id q = og_id o' \<and> og_is_personal q = og_is_personal o' \<and> og_slug q = og_slug o'))"

lemma org_fromI: "o' \<in> set (od_organizations db) \<Longrightarrow> org_from db o'"
  by (auto simp: org_from_def)

lemma org_write_ids:
  assumes "org_write db0 db es db'"
  shows "od_next_uuid db \<le> od_next_uuid db' \<and> (\<forall>o' \<in> set (od_organizations db'). org_from db o')"
  using assms
proof cases
  case (found name slug personal o' db1 user)
  show ?thesis
    unfolding put_member_keeps [OF found(3)] create_initial_project_def insert_cases(4) [OF found(2)]
    using insert_cases(1) [OF found(2)] by (auto simp: org_fromI) (simp add: org_from_def)
next
  case (owner o' user)
  show ?thesis unfolding put_member_keeps [OF owner(4)] by (simp add: org_fromI)
next
  case (invite org user email role t token v)
  then show ?thesis using invitation_create_cases(8) [OF invite(2)] by (simp add: org_fromI)
next
  case (accept token v user db1)
  show ?thesis unfolding accept(2) set_invitation_keeps put_member_keeps [OF accept(7)] by (simp add: org_fromI)
next
  case (rename org g f)
  then show ?thesis by (auto simp: set_tbl_update org_from_def)
qed (auto simp: org_fromI set_invitation_keeps org_cascade_def set_tbl_delete)

lemma same_kind_write:
  assumes "org_write db0 db es db'" "same_kind s db"
  shows "same_kind s db'"
proof -
  have "og_is_personal o0 = og_is_personal o' \<and> og_slug o0 = og_slug o'"
    if eq: "o0 \<in> set (od_organizations s)" "o' \<in> set (od_organizations db')" "og_id o0 = og_id o'" for o0 o'
  proof (cases "od_next_uuid db \<le> og_id o'")
    case True
    then show ?thesis using assms(2) eq by (fastforce simp: same_kind_def)
  next
    case False
    then obtain q where "q \<in> set (od_organizations db)" "og_id q = og_id o'" "og_is_personal q = og_is_personal o'"
      "og_slug q = og_slug o'"
      using org_write_ids [OF assms(1)] eq(2) by (auto simp: org_from_def)
    then show ?thesis using assms(2) eq unfolding same_kind_def by metis
  qed
  then show ?thesis using org_write_ids [OF assms(1)] assms(2) by (auto simp: same_kind_def)
qed

lemma same_kind_refl: "org_tables db \<Longrightarrow> same_kind db db"
  by (auto simp: same_kind_def org_tables_def distinct_map inj_on_def)

lemma not_personal_later:
  assumes "same_kind db0 db" "is_personal_org db0 org = Inr False" "o' \<in> set (od_organizations db)" "og_id o' = org"
  shows "\<not> og_is_personal o'"
proof -
  obtain q where "q \<in> set (od_organizations db0)" "og_id q = org" "\<not> og_is_personal q"
    using assms(2) org_find_Some by (fastforce simp: is_personal_org_def split: option.splits)
  then show ?thesis using assms(1,3,4) by (auto simp: same_kind_def)
qed

section \<open>Personal organizations stay personal\<close>

definition private_to :: "org_db \<Rightarrow> organization \<Rightarrow> bool" where
  "private_to db o' =
     (\<forall>m \<in> set (od_members db). om_organization_id m = og_id o' \<longrightarrow>
        og_slug o' = personal_org_slug (om_user_id m) \<and> om_role m = Admin)"

lemma personal_private_iff:
  "personal_private db \<longleftrightarrow> (\<forall>o' \<in> set (od_organizations db). og_is_personal o' \<longrightarrow>
     private_to db o' \<and> (\<forall>v \<in> set (od_invitations db). iv_organization_id v \<noteq> og_id o'))"
  by (auto simp: personal_private_def private_to_def list_by_organization_def list_all_iff)

lemma private_put:
  assumes "private_to db o'" "put_member db org user r = Inr db1"
    "og_id o' = org \<Longrightarrow> og_slug o' = personal_org_slug user \<and> r = Admin"
  shows "private_to db1 o'"
  using assms(2)
proof (cases rule: put_member_cases)
  case (1 ms)
  then show ?thesis using assms(1,3) by (auto simp: private_to_def)
next
  case (2 ms)
  then show ?thesis using assms(1,3) by (auto simp: private_to_def set_tbl_update member_key_def)
qed

lemma personal_private_put:
  assumes "personal_private db" "put_member db org user r = Inr db1"
    "\<And>o'. o' \<in> set (od_organizations db) \<Longrightarrow> og_is_personal o' \<Longrightarrow> og_id o' = org \<Longrightarrow>
       og_slug o' = personal_org_slug user \<and> r = Admin"
  shows "personal_private db1"
  using assms(1) private_put [OF _ assms(2)] assms(3) unfolding personal_private_iff put_member_keeps [OF assms(2)]
  by blast

lemma personal_private_insert:
  assumes inv: "personal_private db" "org_tables db" and ins: "insert_organization db name slug p = Inr (o', db1)"
  shows "personal_private (create_initial_project db1 (og_id o'))"
proof -
  have "om_organization_id m \<noteq> og_id o'" if "m \<in> set (od_members db)" for m
    using that inv(2) insert_cases(1) [OF ins] by (fastforce simp: org_tables_def)
  moreover have "iv_organization_id v \<noteq> og_id o'" if "v \<in> set (od_invitations db)" for v
    using that inv(2) insert_cases(1) [OF ins] by (fastforce simp: org_tables_def)
  ultimately show ?thesis
    using inv(1) unfolding insert_cases(4) [OF ins] create_initial_project_def
    by (auto simp: personal_private_iff private_to_def)
qed

lemma personal_private_set_invitation:
  "personal_private db \<Longrightarrow> personal_private (set_invitation i st db)"
  unfolding personal_private_iff private_to_def set_invitation_keeps by (metis set_invitation_rows)

lemma personal_private_write:
  assumes w: "org_write db0 db es db'" and inv: "personal_private db" "org_tables db" and kind: "same_kind db0 db"
  shows "personal_private db'"
  using w
proof cases
  case (found name slug personal o' db1 user)
  let ?db = "create_initial_project db1 (og_id o')"
  have "og_slug q = personal_org_slug user" if q: "q \<in> set (od_organizations ?db)" "og_is_personal q" "og_id q = og_id o'" for q
  proof -
    have "q = o'" using q inv(2) insert_cases [OF found(2)]
      by (auto simp: create_initial_project_def org_tables_def)
    then show ?thesis using q(2) found(4) insert_cases(2,3) [OF found(2)] by simp
  qed
  then show ?thesis using personal_private_put [OF personal_private_insert [OF inv found(2)] found(3)] by blast
next
  case (owner o' user)
  then show ?thesis using personal_private_put [OF inv(1) owner(4)] kind by (auto simp: same_kind_def)
next
  case (accept token v user db1)
  have "\<not> og_is_personal o'" if "o' \<in> set (od_organizations db)" "og_id o' = iv_organization_id v" for o'
    using not_personal_later [OF same_kind_refl [OF inv(2)] accept(4) that] .
  then have "personal_private db1" using personal_private_put [OF inv(1) accept(7)] by blast
  then show ?thesis using accept personal_private_set_invitation by blast
next
  case (invite org user email role t token v)
  note c = invitation_create_cases [OF invite(2)]
  show ?thesis
    using inv(1) not_personal_later [OF kind c(1)] c(3) unfolding c(8)
    by (auto simp: personal_private_iff private_to_def)
next
  case (role org user target r)
  have "\<not> og_is_personal o'" if "o' \<in> set (od_organizations db)" "og_id o' = org" for o'
    using not_personal_later [OF kind role(3) that] .
  then show ?thesis using inv(1) unfolding role(2)
    by (fastforce simp: personal_private_iff private_to_def set_tbl_update member_key_def)
next
  case (expire i)
  then show ?thesis using personal_private_set_invitation [OF inv(1)] by simp
next
  case (rename org g f)
  then show ?thesis using inv(1) by (auto simp: personal_private_iff private_to_def set_tbl_update)
qed (use inv(1) in \<open>auto simp: personal_private_iff private_to_def org_cascade_def set_tbl_delete\<close>)

section \<open>Admins remain\<close>

lemma has_admin_iff: "has_admin db org \<longleftrightarrow> (\<exists>m \<in> set (od_members db). om_organization_id m = org \<and> om_role m = Admin)"
  by (auto simp: has_admin_def list_by_organization_def list_ex_iff)

lemma has_admin_put:
  assumes "put_member db org user r = Inr db1"
  shows "r = Admin \<or> \<not> is_org_member db org user \<Longrightarrow> has_admin db o' \<Longrightarrow> has_admin db1 o'"
    "r = Admin \<Longrightarrow> has_admin db1 org"
  using assms
proof (atomize (full), cases rule: put_member_cases)
  case (1 ms)
  then show "(r = Admin \<or> \<not> is_org_member db org user \<longrightarrow> has_admin db o' \<longrightarrow> has_admin db1 o') \<and> (r = Admin \<longrightarrow> has_admin db1 org)"
    by (auto simp: has_admin_iff)
next
  case (2 ms)
  then obtain m where m: "m \<in> set (od_members db)" "member_key m = (org, user)"
    by (auto simp: find_member_def tbl_find_None)
  have keep: "(if member_key x = (org, user) then om_role_update (\<lambda>_. r) x else x) \<in> set ms" if "x \<in> set (od_members db)" for x
    using that 2(4) by (auto simp: set_tbl_update)
  have "om_role_update (\<lambda>_. r) m \<in> set ms" "om_organization_id (om_role_update (\<lambda>_. r) m) = org"
    using keep [OF m(1)] m(2) by (simp_all add: member_key_def)
  then have "r = Admin \<Longrightarrow> has_admin db1 org" using 2(1) unfolding has_admin_iff by fastforce
  moreover have "has_admin db1 o'" if r: "r = Admin" and old: "has_admin db o'"
  proof -
    obtain x where x: "x \<in> set (od_members db)" "om_organization_id x = o'" "om_role x = Admin"
      using old by (auto simp: has_admin_iff)
    let ?x = "if member_key x = (org, user) then om_role_update (\<lambda>_. r) x else x"
    have "om_organization_id ?x = o'" "om_role ?x = Admin" using x r by simp_all
    moreover have "?x \<in> set (od_members db1)" using keep [OF x(1)] 2(1) by simp
    ultimately show ?thesis unfolding has_admin_iff by blast
  qed
  ultimately show "(r = Admin \<or> \<not> is_org_member db org user \<longrightarrow> has_admin db o' \<longrightarrow> has_admin db1 o') \<and> (r = Admin \<longrightarrow> has_admin db1 org)"
    using 2(3) by (auto simp: is_org_member_def)
qed

lemma all_equal_single: "(\<And>x. x \<in> set xs \<Longrightarrow> x = a) \<Longrightarrow> xs \<noteq> [] \<Longrightarrow> distinct xs \<Longrightarrow> xs = [a]"
  by (cases xs rule: remdups_adj.cases) auto

lemma another_admin:
  assumes inv: "org_tables db" and m: "has_admin db org" "find_member db org user = Some target"
    and guard: "\<not> (om_role target = Admin \<and> admin_ids db org = [user])"
  shows "\<exists>m \<in> set (od_members db). om_organization_id m = org \<and> om_role m = Admin \<and> om_user_id m \<noteq> user"
proof (rule ccontr)
  assume none: "\<not> ?thesis"
  have t: "target \<in> set (od_members db)" "member_key target = (org, user)"
    using m(2) tbl_find_Some unfolding find_member_def by metis+
  let ?as = "filter (\<lambda>m. om_role m = Admin) (list_by_organization db org)"
  have as: "x = target" if "x \<in> set ?as" for x
  proof -
    have "member_key x = member_key target" "x \<in> set (od_members db)"
      using that none t(2) by (auto simp: list_by_organization_def member_key_def)
    then show ?thesis using inv t(1) by (auto simp: org_tables_def distinct_map inj_on_def)
  qed
  moreover have "?as \<noteq> []" using m(1) by (auto simp: has_admin_def list_ex_iff filter_empty_conv)
  moreover have "distinct ?as" using inv by (auto simp: list_by_organization_def org_tables_def distinct_map)
  ultimately have one: "?as = [target]" by (rule all_equal_single)
  then have "target \<in> set ?as" by (metis list.set_intros(1))
  then have "om_role target = Admin" by simp
  then have "om_role target = Admin \<and> admin_ids db org = [user]"
    using one t(2) by (simp add: admin_ids_def member_key_def)
  then show False using guard by simp
qed


lemma admins_remain_iff:
  "admins_remain db \<longleftrightarrow> (\<forall>o' \<in> set (od_organizations db). og_is_personal o' \<or> has_admin db (og_id o'))"
  by (simp add: admins_remain_def list_all_iff)

lemma admins_remain_write:
  assumes w: "org_write db0 db es db'" and inv: "admins_remain db" "org_tables db" and alone: "\<And>v u t. es = [Joined v u t] \<Longrightarrow> db0 = db"
  shows "admins_remain db'"
  using w
proof cases
  case (found name slug personal o' db1 user)
  let ?db = "create_initial_project db1 (og_id o')"
  note ins = insert_cases [OF found(2)]
  have "has_admin ?db i \<longleftrightarrow> has_admin db i" for i by (simp add: has_admin_iff create_initial_project_def ins(4))
  moreover have "od_organizations ?db = od_organizations db @ [o']" by (simp add: create_initial_project_def ins(4))
  ultimately show ?thesis
    using inv(1) has_admin_put [OF found(3)] unfolding admins_remain_iff put_member_keeps [OF found(3)] by auto
next
  case (owner o' user)
  then show ?thesis
    using inv(1) has_admin_put(1) [OF owner(4)] unfolding admins_remain_iff put_member_keeps [OF owner(4)] by auto
next
  case (delete org)
  have "has_admin (org_cascade org db) i \<longleftrightarrow> has_admin db i" if "i \<noteq> org" for i
    using that by (auto simp: has_admin_iff org_cascade_def)
  then show ?thesis using inv(1) unfolding delete admins_remain_iff by (auto simp: org_cascade_def set_tbl_delete)
next
  case (invite org user email role t token v)
  then show ?thesis
    using inv(1) invitation_create_cases(8) [OF invite(2)] by (auto simp: admins_remain_iff has_admin_iff)
next
  case (accept token v user db1)
  have "has_admin (set_invitation (iv_id v) Accepted db1) i \<longleftrightarrow> has_admin db1 i" for i
    by (simp add: has_admin_iff set_invitation_keeps)
  moreover have "\<not> is_org_member db (iv_organization_id v) user" using accept(6) alone [OF accept(1)] by simp
  ultimately show ?thesis
    using inv(1) has_admin_put(1) [OF accept(7)]
    unfolding admins_remain_iff accept(2) set_invitation_keeps put_member_keeps [OF accept(7)] by auto
next
  case (remove org user target)
  have "has_admin db' i" if "has_admin db i" for i
  proof (cases "i = org")
    case True
    then show ?thesis using another_admin [OF inv(2) _ remove(4,5)] that unfolding remove(2)
      by (auto simp: has_admin_iff set_tbl_delete member_key_def)
  next
    case False
    then show ?thesis using that unfolding remove(2) by (auto simp: has_admin_iff set_tbl_delete member_key_def)
  qed
  then show ?thesis using inv(1) unfolding remove(2) by (auto simp: admins_remain_iff)
next
  case (role org user target r)
  have "has_admin db' i" if old: "has_admin db i" for i
  proof -
    have upd: "has_admin db' i" if x: "x \<in> set (od_members db)" "om_organization_id x = i" "om_role x = Admin"
      and k: "member_key x = (org, user) \<Longrightarrow> r = Admin" for x
    proof -
      let ?x = "if member_key x = (org, user) then om_role_update (\<lambda>_. r) x else x"
      have "?x \<in> set (od_members db')" "om_organization_id ?x = i" "om_role ?x = Admin"
        using x k unfolding role(2) by (auto simp: set_tbl_update)
      then show ?thesis unfolding has_admin_iff by blast
    qed
    show ?thesis
    proof (cases "r = Admin \<or> i \<noteq> org")
      case True
      then show ?thesis using old upd by (auto simp: has_admin_iff member_key_def)
    next
      case False
      then have "\<not> (om_role target = Admin \<and> admin_ids db org = [user])" using role(5) by (cases r) auto
      then show ?thesis using another_admin [OF inv(2) _ role(4)] old False upd by (auto simp: member_key_def)
    qed
  qed
  then show ?thesis using inv(1) unfolding role(2) by (auto simp: admins_remain_iff)
next
  case (expire i)
  then show ?thesis using inv(1) by (simp add: admins_remain_iff has_admin_iff set_invitation_keeps)
next
  case (rename org g f)
  then show ?thesis using inv(1) by (auto simp: admins_remain_iff has_admin_iff set_tbl_update)
qed (use inv(1) in \<open>simp_all add: admins_remain_iff has_admin_iff\<close>)

section \<open>Histories\<close>

definition org_history :: "org_db list \<Rightarrow> bool" where
  "org_history h = (h \<noteq> [] \<and> (\<forall>db \<in> set h. org_tables db \<and> personal_private db \<and> same_kind db (hd h)))"

lemma org_before_in: "h \<noteq> [] \<Longrightarrow> org_before h lag \<in> set h"
  unfolding org_before_def by (rule nth_mem) (cases h, auto)

lemma org_history_step:
  assumes "org_history h"
  shows "org_history (org_step h e)"
proof -
  let ?before = "org_before h (fst e)" and ?db = "hd h" and ?db' = "org_handle (org_before h (fst e)) (hd h) (snd e)"
  have w: "org_write ?before ?db (org_entry ?before ?db (snd e)) ?db'" by (rule org_handle_writes)
  have h: "?before \<in> set h" "?db \<in> set h" using assms by (auto simp: org_history_def org_before_in)
  then have db: "org_tables ?db" "personal_private ?db" "same_kind ?before ?db" using assms by (auto simp: org_history_def)
  have new: "org_tables ?db'" "personal_private ?db'"
    using org_tables_write [OF w db(1)] personal_private_write [OF w db(2,1,3)] .
  have "same_kind db ?db'" if "db \<in> set h" for db
    using same_kind_write [OF w] that assms by (auto simp: org_history_def)
  then show ?thesis using assms new same_kind_refl [OF new(1)] by (auto simp: org_step_def org_history_def)
qed

lemma org_history_run:
  assumes "org_tables db" "personal_private db"
  shows "org_history (org_run db es)"
proof -
  have "org_history (foldl org_step h es)" if "org_history h" for h
    using that by (induction es arbitrary: h) (simp_all add: org_history_step)
  moreover have "org_history [db]" using assms same_kind_refl by (simp add: org_history_def)
  ultimately show ?thesis by (simp add: org_run_def)
qed

lemma admins_remain_run:
  assumes "org_history h" "\<forall>db \<in> set h. admins_remain db" "accepts_alone es"
  shows "\<forall>db \<in> set (foldl org_step h es). admins_remain db"
  using assms
proof (induction es arbitrary: h)
  case (Cons e es)
  have h: "hd h \<in> set h" "h \<noteq> []" using Cons.prems(1) by (auto simp: org_history_def)
  have "admins_remain (org_handle (org_before h (fst e)) (hd h) (snd e))"
  proof (rule admins_remain_write [OF org_handle_writes])
    show "admins_remain (hd h)" "org_tables (hd h)" using Cons.prems(1,2) h(1) by (auto simp: org_history_def)
    show "org_before h (fst e) = hd h" if "org_entry (org_before h (fst e)) (hd h) (snd e) = [Joined v u t]" for v u t
    proof -
      have "accepts (snd e)" using that by (cases "snd e") (auto split: sum.splits)
      then show ?thesis
        using Cons.prems(3) h(2) by (cases e) (simp add: accepts_alone_def org_before_def hd_conv_nth)
    qed
  qed
  then have "\<forall>db \<in> set (org_step h e). admins_remain db" using Cons.prems(2) by (simp add: org_step_def)
  then show ?case using Cons.IH [OF org_history_step [OF Cons.prems(1)]] Cons.prems(3) by (simp add: accepts_alone_def)
qed simp


section \<open>Admissions\<close>

definition joined_ids :: "admission list \<Rightarrow> uuid list" where
  "joined_ids es = concat (map (\<lambda>a. case a of Joined v _ _ \<Rightarrow> [iv_id v] | Founded _ _ \<Rightarrow> []) es)"

definition let_in :: "admission list \<Rightarrow> uuid \<Rightarrow> uuid \<Rightarrow> bool" where
  "let_in es org user = list_ex (\<lambda>a. case a of Founded o' u \<Rightarrow> o' = org \<and> u = user
     | Joined v u _ \<Rightarrow> iv_organization_id v = org \<and> u = user) es"

definition owns :: "org_db list \<Rightarrow> uuid \<Rightarrow> uuid \<Rightarrow> bool" where
  "owns h org user = list_ex (\<lambda>db. list_ex (\<lambda>o'. og_id o' = org \<and> og_slug o' = personal_org_slug user) (od_organizations db)) h"

definition invited_by_admin :: "org_db list \<Rightarrow> invitation \<Rightarrow> bool" where
  "invited_by_admin h v = list_ex (\<lambda>db. case iv_invited_by_user_id v of None \<Rightarrow> False
     | Some u \<Rightarrow> check_user_role db (iv_organization_id v) u = Some Admin) h"

definition valid_invitation :: "org_db \<Rightarrow> org_db list \<Rightarrow> invitation \<Rightarrow> bool" where
  "valid_invitation start h v = (iv_id v \<in> iv_id ` set (od_invitations start) \<or> invited_by_admin h v)"

definition member_ok :: "org_db \<Rightarrow> org_db list \<Rightarrow> admission list \<Rightarrow> org_member \<Rightarrow> bool" where
  "member_ok start h log m =
     (is_org_member start (om_organization_id m) (om_user_id m) \<or>
      let_in log (om_organization_id m) (om_user_id m) \<or> owns h (om_organization_id m) (om_user_id m))"

definition admissions_inv :: "org_db \<Rightarrow> org_db list \<Rightarrow> admission list \<Rightarrow> bool" where
  "admissions_inv start h log =
     (h \<noteq> [] \<and>
      (\<forall>m \<in> set (od_members (hd h)). member_ok start h log m) \<and>
      distinct (joined_ids log) \<and>
      (\<forall>i \<in> set (joined_ids log). i < od_next_uuid (hd h) \<and>
         (\<forall>v \<in> set (od_invitations (hd h)). iv_id v = i \<longrightarrow> iv_status v \<noteq> Pending)) \<and>
      (\<forall>v u t. Joined v u t \<in> set log \<longrightarrow> t \<le> iv_expires_at v \<and> valid_invitation start h v) \<and>
      (\<forall>v \<in> set (od_invitations (hd h)). valid_invitation start h v))"

lemma joined_ids_append [simp]: "joined_ids (as @ bs) = joined_ids as @ joined_ids bs"
  by (simp add: joined_ids_def)

lemma joined_ids_simps [simp]:
  "joined_ids [] = []" "joined_ids [Founded a b] = []" "joined_ids [Joined v u t] = [iv_id v]"
  by (simp_all add: joined_ids_def)

lemma member_ok_mono:
  "member_ok start h log m \<Longrightarrow> om_organization_id m' = om_organization_id m \<Longrightarrow> om_user_id m' = om_user_id m \<Longrightarrow>
   member_ok start (db # h) (log @ es) m'"
  by (auto simp: member_ok_def let_in_def owns_def)

lemma valid_mono: "valid_invitation start h v \<Longrightarrow> valid_invitation start (db # h) v"
  by (auto simp: valid_invitation_def invited_by_admin_def)

lemma valid_same:
  "valid_invitation start h w \<Longrightarrow> iv_id v = iv_id w \<Longrightarrow> iv_organization_id v = iv_organization_id w \<Longrightarrow>
   iv_invited_by_user_id v = iv_invited_by_user_id w \<Longrightarrow> valid_invitation start h v"
  by (simp add: valid_invitation_def invited_by_admin_def cong: option.case_cong)

lemma admissionsD:
  assumes "admissions_inv start h log"
  shows "h \<noteq> []" "m \<in> set (od_members (hd h)) \<Longrightarrow> member_ok start h log m" "distinct (joined_ids log)"
    "i \<in> set (joined_ids log) \<Longrightarrow> i < od_next_uuid (hd h)"
    "v \<in> set (od_invitations (hd h)) \<Longrightarrow> iv_id v \<in> set (joined_ids log) \<Longrightarrow> iv_status v \<noteq> Pending"
    "Joined w u t \<in> set log \<Longrightarrow> t \<le> iv_expires_at w \<and> valid_invitation start h w"
    "v \<in> set (od_invitations (hd h)) \<Longrightarrow> valid_invitation start h v"
  using assms unfolding admissions_inv_def by blast+

lemma admissionsI:
  assumes "h \<noteq> []" "\<And>m. m \<in> set (od_members (hd h)) \<Longrightarrow> member_ok start h log m" "distinct (joined_ids log)"
    "\<And>i. i \<in> set (joined_ids log) \<Longrightarrow> i < od_next_uuid (hd h)"
    "\<And>v. v \<in> set (od_invitations (hd h)) \<Longrightarrow> iv_id v \<in> set (joined_ids log) \<Longrightarrow> iv_status v \<noteq> Pending"
    "\<And>w u t. Joined w u t \<in> set log \<Longrightarrow> t \<le> iv_expires_at w \<and> valid_invitation start h w"
    "\<And>v. v \<in> set (od_invitations (hd h)) \<Longrightarrow> valid_invitation start h v"
  shows "admissions_inv start h log"
  using assms unfolding admissions_inv_def by blast

lemma put_member_rows:
  assumes "put_member db org user r = Inr db1" "m \<in> set (od_members db1)"
  shows "(om_organization_id m = org \<and> om_user_id m = user) \<or>
    (\<exists>m0 \<in> set (od_members db). om_organization_id m = om_organization_id m0 \<and> om_user_id m = om_user_id m0)"
  using assms by (auto simp: put_member_def set_tbl_update member_key_def split: if_splits)

text \<open>The members after a write: known ones, and those that the write lets in.\<close>

lemma org_write_members:
  assumes w: "org_write db0 db es db'" and m: "m \<in> set (od_members db')"
  shows "(\<exists>m0 \<in> set (od_members db). om_organization_id m = om_organization_id m0 \<and> om_user_id m = om_user_id m0) \<or>
    let_in es (om_organization_id m) (om_user_id m) \<or> owns [db', db0] (om_organization_id m) (om_user_id m)"
  using w
proof cases
  case (found name slug personal o' db1 user)
  note ins = insert_cases [OF found(2)]
  have same: "od_members (create_initial_project db1 (og_id o')) = od_members db"
    "od_organizations db' = od_organizations db @ [o']"
    using put_member_keeps(1) [OF found(3)] by (simp_all add: create_initial_project_def ins(4))
  show ?thesis
    using put_member_rows [OF found(3) m] found(1,4) ins(2) unfolding same
    by (auto simp: let_in_def owns_def same split: if_splits)
next
  case (owner o' user)
  then show ?thesis using put_member_rows [OF owner(4) m] by (auto simp: owns_def list_ex_iff)
next
  case (accept token v user db1)
  have "m \<in> set (od_members db1)" using m accept(2) by (simp add: set_invitation_keeps)
  from put_member_rows [OF accept(7) this] show ?thesis using accept(1) by (auto simp: let_in_def)
next
  case (invite org user email role t token v)
  then show ?thesis using m invitation_create_cases(8) [OF invite(2)] by auto
next
  case (role org user target r)
  then show ?thesis using m by (auto simp: set_tbl_update)
qed (use m in \<open>auto simp: org_cascade_def set_tbl_delete set_invitation_keeps\<close>)

text \<open>The invitations after a write.\<close>

lemma org_write_invitations:
  assumes w: "org_write db0 db es db'" and v: "v \<in> set (od_invitations db')"
  shows "(\<exists>q \<in> set (od_invitations db). iv_id v = iv_id q \<and> iv_organization_id v = iv_organization_id q \<and>
      iv_invited_by_user_id v = iv_invited_by_user_id q \<and>
      (v = q \<and> iv_id v \<notin> set (joined_ids es) \<or> iv_status v \<noteq> Pending)) \<or>
    (iv_id v = od_next_uuid db \<and> es = [] \<and> invited_by_admin [db0] v)"
  using w
proof cases
  case (found name slug personal o' db1 user)
  have "od_invitations db' = od_invitations db"
    unfolding put_member_keeps [OF found(3)] by (simp add: create_initial_project_def insert_cases(4) [OF found(2)])
  then show ?thesis using v found(1) by auto
next
  case (owner o' user)
  then show ?thesis using v put_member_keeps(3) [OF owner(4)] by auto
next
  case (accept token w user db1)
  then show ?thesis using set_invitation_rows [of v "iv_id w" Accepted db1] v put_member_keeps(3) [OF accept(7)] by auto
next
  case (expire i)
  then show ?thesis using set_invitation_rows [of v i Expired db] v by auto
next
  case (invite org user email role t token w)
  note c = invitation_create_cases [OF invite(2)]
  show ?thesis
    using v c(3,4,6,7) invite(1) unfolding c(8)
    by (auto simp: invited_by_admin_def assert_admin_def split: option.splits member_role.splits)
qed (use v in \<open>auto simp: org_cascade_def\<close>)

lemma org_write_joined:
  assumes "org_write db0 db es db'" "Joined v u t \<in> set es"
  shows "es = [Joined v u t]" "v \<in> set (od_invitations db)" "iv_status v = Pending" "t \<le> iv_expires_at v"
  using assms
  by (cases; auto simp: pending_invitation_def dest!: tbl_find_Some split: if_splits)+

lemma admissions_step:
  assumes w: "org_write db0 db es db'" and inv: "admissions_inv start h log" and h: "hd h = db" "db0 \<in> set h"
    and tables: "org_tables db" "org_tables db'"
  shows "admissions_inv start (db' # h) (log @ es)"
proof -
  have members: "member_ok start (db' # h) (log @ es) m" if m: "m \<in> set (od_members db')" for m
  proof -
    have "owns (db' # h) o1 u" if "owns [db', db0] o1 u" for o1 u
      using that h(2) by (auto simp: owns_def list_ex_iff)
    then have new: "owns [db', db0] (om_organization_id m) (om_user_id m) \<Longrightarrow> ?thesis"
      by (simp add: member_ok_def)
    have added: "let_in es (om_organization_id m) (om_user_id m) \<Longrightarrow> ?thesis"
      by (auto simp: member_ok_def let_in_def)
    from org_write_members [OF w m] show ?thesis
    proof (elim disjE bexE conjE)
      fix m0 assume "m0 \<in> set (od_members db)" "om_organization_id m = om_organization_id m0" "om_user_id m = om_user_id m0"
      then show ?thesis using member_ok_mono [OF admissionsD(2) [OF inv, unfolded h(1)]] by blast
    qed (fact new added)+
  qed
  have valid: "valid_invitation start (db' # h) v" if v: "v \<in> set (od_invitations db')" for v
  proof -
    have "invited_by_admin (db' # h) v" if "invited_by_admin [db0] v"
      using that h(2) by (auto simp: invited_by_admin_def list_ex_iff)
    then show ?thesis
      using org_write_invitations [OF w v] admissionsD(7) [OF inv, unfolded h(1)] valid_mono [of start h _ db']
        valid_same [of start "db' # h" _ v] unfolding valid_invitation_def [of start "db' # h" v] by blast
  qed
  note old = admissionsD [OF inv, unfolded h(1)]
  have later: "od_next_uuid db \<le> od_next_uuid db'" using org_write_ids [OF w] by simp
  have new: "distinct (joined_ids es) \<and> (\<forall>i \<in> set (joined_ids es). i < od_next_uuid db \<and> i \<notin> set (joined_ids log))"
  proof (cases "\<exists>v u t. Joined v u t \<in> set es")
    case True
    then obtain v u t where "Joined v u t \<in> set es" by blast
    note c = org_write_joined [OF w this]
    have "iv_id v < od_next_uuid db" using tables(1) c(2) by (auto simp: org_tables_def)
    then show ?thesis using old(5) [OF c(2)] c(1,3) by auto
  next
    case False
    then have "joined_ids es = []" by (induction es) (auto simp: joined_ids_def split: admission.splits)
    then show ?thesis by simp
  qed
  show ?thesis
  proof (rule admissionsI)
    show "db' # h \<noteq> []" by simp
    show "distinct (joined_ids (log @ es))" using old(3) new by auto
    show "m \<in> set (od_members (hd (db' # h))) \<Longrightarrow> member_ok start (db' # h) (log @ es) m" for m using members by simp
    show "v \<in> set (od_invitations (hd (db' # h))) \<Longrightarrow> valid_invitation start (db' # h) v" for v using valid by simp
    show "i < od_next_uuid (hd (db' # h))" if "i \<in> set (joined_ids (log @ es))" for i
      using that old(4) new later by fastforce
    show "t \<le> iv_expires_at v \<and> valid_invitation start (db' # h) v" if "Joined v u t \<in> set (log @ es)" for v u t
    proof (cases "Joined v u t \<in> set log")
      case True
      then show ?thesis using old(6) valid_mono by blast
    next
      case False
      then have "Joined v u t \<in> set es" using that by simp
      note c = org_write_joined [OF w this]
      show ?thesis using c(4) old(7) [OF c(2)] valid_mono by blast
    qed
    show "iv_status v \<noteq> Pending" if v: "v \<in> set (od_invitations (hd (db' # h)))" "iv_id v \<in> set (joined_ids (log @ es))" for v
    proof -
      have v1: "v \<in> set (od_invitations db')" using v(1) by simp
      from org_write_invitations [OF w v1] show ?thesis
      proof (elim disjE bexE conjE)
        fix q assume q: "q \<in> set (od_invitations db)" "v = q" "iv_id v \<notin> set (joined_ids es)"
        then show ?thesis using old(5) [OF q(1)] v(2) by simp
      next
        assume "iv_id v = od_next_uuid db" "es = []"
        then show ?thesis using old(4) [of "iv_id v"] v(2) by simp
      qed
    qed
  qed
qed

lemma admissions_run:
  assumes "org_history h" "admissions_inv start h log"
  shows "admissions_inv start (foldl org_step h es) (log @ org_log h es)"
  using assms
proof (induction es arbitrary: h log)
  case (Cons e es)
  let ?b = "org_before h (fst e)"
  have b: "?b \<in> set h" "hd h \<in> set h" using Cons.prems(1) by (auto simp: org_history_def org_before_in)
  have "org_tables (hd h)" "org_tables (org_handle ?b (hd h) (snd e))"
    using Cons.prems(1) b(2) org_history_step [OF Cons.prems(1), of e] by (auto simp: org_history_def org_step_def)
  from admissions_step [OF org_handle_writes Cons.prems(2) refl b(1) this]
  have "admissions_inv start (org_step h e) (log @ org_entry ?b (hd h) (snd e))" by (simp add: org_step_def)
  from Cons.IH [OF org_history_step [OF Cons.prems(1)] this] show ?case by simp
qed simp


section \<open>Properties\<close>

definition no_orgs :: org_db where
  "no_orgs = \<lparr>od_organizations = [], od_members = [], od_invitations = [], od_projects = [], od_next_uuid = 1, od_now = 100\<rparr>"

definition org_demo :: "(nat \<times> org_request) list" where
  "org_demo = [(0, CreateOrganization 50 '' Acme'' ''acme''), (0, CreateInvitation (50, None) 1 ''a@b'' Admin 77),
     (0, AcceptInvitation 51 (show_uuid 77)), (0, AcceptInvitation 52 (show_uuid 77)),
     (0, RemoveMember 51 1 50), (1, RemoveMember 50 1 51), (0, SignIn 50 None)]"

lemma no_orgs_ok: "org_tables no_orgs" "personal_private no_orgs" "admins_remain no_orgs" "accepts_alone org_demo"
  by (simp_all add: org_tables_def personal_private_def admins_remain_def accepts_alone_def no_orgs_def org_demo_def)



text \<open>the tables of organizations stay consistent (unique identifiers, slugs, memberships, tokens and
  pending invitations, no reference to a missing organization), and a personal
  organization never has a member but its owner, who is its admin, nor an invitation.\<close>

theorem organizations_consistent:
  assumes "org_tables db" "personal_private db"
  shows "list_all (\<lambda>db. org_tables db \<and> personal_private db) (org_run db es)"
  using org_history_run [OF assms] by (auto simp: org_history_def list_all_iff)

theorem organizations_consistent_witness:
  "list_all (\<lambda>db. org_tables db \<and> personal_private db) (org_run no_orgs org_demo) \<and>
   map (\<lambda>o'. (og_id o', og_is_personal o', og_issue_prefix o')) (od_organizations (hd (org_run no_orgs org_demo))) =
     [(1, False, ''ACM''), (4, True, ''SOR'')]"
  by (intro conjI, rule organizations_consistent [OF no_orgs_ok(1,2)], code_simp)



lemma org_guards:
  assumes "check_user_role db0 org user \<noteq> Some Admin" "check_user_role db org user \<noteq> Some Admin" "org_tables db"
  shows "isl (fst (update_organization db0 db user org name)) \<and> snd (update_organization db0 db user org name) = db"
    and "isl (fst (delete_organization db0 db user org)) \<and> snd (delete_organization db0 db user org) = db"
    and "create_invitation base db0 db (user, uname) org email role token =
      (Inl (error_new FORBIDDEN ''Admin access required''), db)"
    and "list_invitations db user org = Inl (error_new FORBIDDEN ''Admin access required'')"
    and "revoke_invitation db0 db user org i = (Inl (error_new FORBIDDEN ''Admin access required''), db)"
    and "isl (fst (org_remove_member db0 db user org target)) \<and> snd (org_remove_member db0 db user org target) = db"
    and "isl (fst (update_member_role db0 db user org target r)) \<and> snd (update_member_role db0 db user org target r) = db"
    and "check_user_role db org user = None \<Longrightarrow>
      list_org_members db user org = Inl (error_new FORBIDDEN ''Not a member of organization'') \<and>
      get_organization db user org = Inl (error_new NOT_FOUND ''Organization not found'')"
proof -
  have no: "assert_admin db0 org user = Inl IdPermissionDenied" "assert_admin db org user = Inl IdPermissionDenied"
    using assms(1,2) by (auto simp: assert_admin_def split: option.split member_role.split)
  then have ensure: "ensure_admin_access db0 org user = Inl (error_new FORBIDDEN ''Admin access required'')"
    "ensure_admin_access db org user = Inl (error_new FORBIDDEN ''Admin access required'')"
    by (simp_all add: ensure_admin_access_def membership_error_def)
  have none: "\<not> list_ex (\<lambda>m. om_user_id m = user \<and> om_role m = Admin) (list_by_organization db org)"
  proof
    assume "list_ex (\<lambda>m. om_user_id m = user \<and> om_role m = Admin) (list_by_organization db org)"
    then obtain m where m: "m \<in> set (od_members db)" "member_key m = (org, user)" "om_role m = Admin"
      by (auto simp: list_ex_iff list_by_organization_def member_key_def)
    then have "find_member db org user = Some m"
      using assms(3) tbl_find_in_set [of member_key "od_members db" m]
      by (simp add: find_member_def org_tables_def tbl_keys_ok_def)
    then show False using assms(2) m(3) by (simp add: check_user_role_def)
  qed
  show "isl (fst (update_organization db0 db user org name)) \<and> snd (update_organization db0 db user org name) = db"
    by (simp add: update_organization_def update_organization_name_def no Let_def)
  show "isl (fst (delete_organization db0 db user org)) \<and> snd (delete_organization db0 db user org) = db"
    by (simp add: delete_organization_def org_delete_def none split: sum.split identity_error.split)
  show "create_invitation base db0 db (user, uname) org email role token =
      (Inl (error_new FORBIDDEN ''Admin access required''), db)"
    by (simp add: create_invitation_def ensure)
  show "list_invitations db user org = Inl (error_new FORBIDDEN ''Admin access required'')"
    by (simp add: list_invitations_def ensure)
  show "revoke_invitation db0 db user org i = (Inl (error_new FORBIDDEN ''Admin access required''), db)"
    by (simp add: revoke_invitation_def ensure)
  show "isl (fst (org_remove_member db0 db user org target)) \<and> snd (org_remove_member db0 db user org target) = db"
    by (simp add: org_remove_member_def ensure split: sum.split)
  show "isl (fst (update_member_role db0 db user org target r)) \<and> snd (update_member_role db0 db user org target r) = db"
    by (simp add: update_member_role_def ensure split: sum.split)
  show "check_user_role db org user = None \<Longrightarrow>
      list_org_members db user org = Inl (error_new FORBIDDEN ''Not a member of organization'') \<and>
      get_organization db user org = Inl (error_new NOT_FOUND ''Organization not found'')"
    by (simp add: list_org_members_def get_organization_def ensure_member_access_def assert_membership_def
        is_org_member_def check_user_role_def membership_error_def)
qed

text \<open>the handlers of organizations refuse callers who lack the role, and change nothing then: only admins
  rename, delete, invite, list or revoke invitations, remove members or change roles, and only
  members see an organization or its members.\<close>

theorem org_routes_guarded:
  assumes "check_user_role db0 org user \<noteq> Some Admin" "check_user_role db org user \<noteq> Some Admin" "org_tables db"
  shows "isl (fst (update_organization db0 db user org name)) \<and> snd (update_organization db0 db user org name) = db \<and>
    isl (fst (delete_organization db0 db user org)) \<and> snd (delete_organization db0 db user org) = db \<and>
    create_invitation base db0 db (user, uname) org email role token =
      (Inl (error_new FORBIDDEN ''Admin access required''), db) \<and>
    list_invitations db user org = Inl (error_new FORBIDDEN ''Admin access required'') \<and>
    revoke_invitation db0 db user org i = (Inl (error_new FORBIDDEN ''Admin access required''), db) \<and>
    isl (fst (org_remove_member db0 db user org target)) \<and> snd (org_remove_member db0 db user org target) = db \<and>
    isl (fst (update_member_role db0 db user org target r)) \<and> snd (update_member_role db0 db user org target r) = db \<and>
    (check_user_role db org user = None \<longrightarrow>
      list_org_members db user org = Inl (error_new FORBIDDEN ''Not a member of organization'') \<and>
      get_organization db user org = Inl (error_new NOT_FOUND ''Organization not found''))"
  using org_guards [OF assms] by blast

definition acme :: org_db where
  "acme = hd (org_run no_orgs [(0, CreateOrganization 50 ''Acme'' ''acme'')])"

lemma acme_outsider: "check_user_role acme 1 51 \<noteq> Some Admin" "org_tables acme" "check_user_role acme 1 51 = None"
  by code_simp+

theorem org_routes_guarded_witness:
  "delete_organization acme acme 51 1 = (Inl (error_new FORBIDDEN ''Admin access required''), acme) \<and>
   snd (org_remove_member acme acme 51 1 50) = acme \<and>
   get_organization acme 51 1 = Inl (error_new NOT_FOUND ''Organization not found'')"
proof -
  note g = org_routes_guarded [OF acme_outsider(1,1,2), of _ _ _ _ _ _ _ 50]
  have "fst (delete_organization acme acme 51 1) = Inl (error_new FORBIDDEN ''Admin access required'')" by code_simp
  then show ?thesis using g acme_outsider(3) by (metis prod.collapse)
qed

section \<open>Gaps\<close>

text \<open>two acceptances at once can take the last admin's role: the second one asked whether the user is a
  member before the first one made the user an admin, and its upsert then lowers the role.\<close>

theorem interrupted_acceptance_loses_admin:
  "\<not> admins_remain (hd (org_run no_orgs
     [(0, CreateOrganization 50 ''Acme'' ''acme''), (0, CreateInvitation (50, None) 1 ''a@b'' Admin 77),
      (0, CreateInvitation (50, None) 1 ''c@d'' Member 78), (0, AcceptInvitation 51 (show_uuid 77)),
      (0, RemoveMember 51 1 50), (2, AcceptInvitation 51 (show_uuid 78))]))"
  by code_simp

text \<open>an invitation that has expired blocks a new one for the same address: it stays pending until
  somebody tries to accept it, or until an admin revokes it.\<close>

theorem expired_invitation_blocks:
  "fst (create_invitation [] db db (50, None) 1 ''A@b'' Member 78) =
     Inl (error_new BAD_REQUEST ''A pending invitation already exists for this email'')"
  if "db = hd (org_run no_orgs [(0, CreateOrganization 50 ''Acme'' ''acme''),
     (0, CreateInvitation (50, None) 1 ''a@b'' Member 77), (0, TimePasses 800000)])"
  unfolding that by code_simp

text \<open>anybody may create an organization with the slug of somebody's personal organization; when that
  user signs in, the foreign organization is taken for the personal one.\<close>

theorem personal_slug_taken:
  "(case ensure_personal_org_and_admin_membership db db 50 None of
      (Inr o', db') \<Rightarrow> \<not> og_is_personal o' \<and> admin_ids db' (og_id o') = [66, 50] | _ \<Rightarrow> False)"
  if "db = hd (org_run no_orgs [(0, CreateOrganization 66 ''Trap'' (personal_org_slug 50))])"
  unfolding that by code_simp

end
