(* ===== verification/Auth_Sessions.thy ===== *)
theory Auth_Sessions
  imports Organizations Utf8_Decoder
begin

text \<open>
  Signed-in sessions of the Remote server: the tokens (crates/remote/src/auth/jwt.rs), the
  repositories of sessions and of linked accounts (db/auth.rs, db/oauth_accounts.rs, db/users.rs), the
  check of every request (auth/middleware.rs), the validation of provider tokens
  (auth/oauth_token_validator.rs) and the refresh of tokens (routes/tokens.rs).

  jsonwebtoken, AES-GCM, SHA-256, base64, serde_json and chrono's range of dates are libraries and
  parameters (\<open>auth_libs\<close>), the OAuth providers are an environment (\<open>oauth_provider\<close>). A refresh reads the
  session, then the revoked tokens, and then writes; other requests may come between, so it
  takes the three states that it finds. Queries do not fail, except for constraints. Generated
  UUIDs are \<open>au_next_uuid\<close>. Time is in seconds.
\<close>

section \<open>Rows\<close>

record auth_session =
  as_id :: uuid
  as_user_id :: uuid
  as_created_at :: timestamp
  as_last_used_at :: "timestamp option"
  as_revoked_at :: "timestamp option"
  as_refresh_token_id :: "uuid option"
  as_refresh_token_issued_at :: "timestamp option"
  as_previous_refresh_token_id :: "uuid option"
  as_previous_grace_expires_at :: "timestamp option"

record user =
  us_id :: uuid
  us_email :: string
  us_first_name :: "string option"
  us_last_name :: "string option"
  us_username :: "string option"

record oauth_account =
  oa_id :: uuid
  oa_user_id :: uuid
  oa_provider :: string
  oa_provider_user_id :: string
  oa_email :: "string option"
  oa_username :: "string option"
  oa_display_name :: "string option"
  oa_avatar_url :: "string option"
  oa_encrypted_provider_tokens :: "string option"

datatype authorization_status = AuthPending | AuthAuthorized | AuthRedeemed | AuthError | AuthExpired

record oauth_handoff =
  oh_id :: uuid
  oh_provider :: string
  oh_state :: string
  oh_return_to :: string
  oh_app_challenge :: string
  oh_app_code_hash :: "string option"
  oh_status :: authorization_status
  oh_error_code :: "string option"
  oh_expires_at :: timestamp
  oh_authorized_at :: "timestamp option"
  oh_redeemed_at :: "timestamp option"
  oh_user_id :: "uuid option"
  oh_session_id :: "uuid option"
  oh_encrypted_provider_tokens :: "string option"

record auth_db =
  au_sessions :: "auth_session list"
  au_revoked_tokens :: "(uuid \<times> uuid \<times> string) list"  \<comment> \<open>token, user, reason\<close>
  au_users :: "user list"
  au_accounts :: "oauth_account list"
  au_handoffs :: "oauth_handoff list"
  au_orgs :: org_db
  au_next_uuid :: uuid
  au_now :: timestamp

datatype auth_session_error =
  AsNotFound | AsTokenReuseDetected | AsTokenRevoked | AsTokenExpired | AsInvalidToken | AsDatabase db_error

section \<open>Tokens\<close>

datatype jwt_error =
  JwtInvalidToken | JwtInvalidSecret | JwtTokenExpired | JwtTokenReuseDetected | JwtSessionRevoked
| JwtInvalidTokenType | JwtEncryptionError | JwtSerializationError | JwtLib string

record access_token_claims =
  ac_sub :: uuid
  ac_session_id :: uuid
  ac_iat :: int
  ac_exp :: int
  ac_aud :: string

record refresh_token_claims =
  rc_sub :: uuid
  rc_session_id :: uuid
  rc_jti :: uuid
  rc_iat :: int
  rc_exp :: int
  rc_aud :: string
  rc_provider :: "string option"
  rc_provider_tokens_blob :: "string option"

record provider_token_details =
  pt_provider :: string
  pt_access_token :: string
  pt_refresh_token :: "string option"
  pt_expires_at :: "int option"

record jwt_validation =
  jv_audience :: string
  jv_required :: "string list"
  jv_leeway :: nat

record auth_libs =
  al_secret :: string
  al_encode_access :: "string \<Rightarrow> access_token_claims \<Rightarrow> string + string"
  al_encode_refresh :: "string \<Rightarrow> refresh_token_claims \<Rightarrow> string + string"
  al_decode_access :: "string \<Rightarrow> jwt_validation \<Rightarrow> timestamp \<Rightarrow> string \<Rightarrow> string + access_token_claims"
  al_decode_refresh :: "string \<Rightarrow> jwt_validation \<Rightarrow> timestamp \<Rightarrow> string \<Rightarrow> string + refresh_token_claims"
  al_from_timestamp :: "int \<Rightarrow> timestamp option"
  al_std_decode :: "string \<Rightarrow> string option"
  al_url_encode :: "string \<Rightarrow> string"
  al_url_decode :: "string \<Rightarrow> string option"
  al_sha256 :: "string \<Rightarrow> string"
  al_aes_encrypt :: "string \<Rightarrow> string \<Rightarrow> string \<Rightarrow> string option"
  al_aes_decrypt :: "string \<Rightarrow> string \<Rightarrow> string \<Rightarrow> string option"
  al_tokens_to_json :: "provider_token_details \<Rightarrow> string option"
  al_tokens_of_json :: "string \<Rightarrow> provider_token_details option"

record access_token_details =
  ad_user_id :: uuid
  ad_session_id :: uuid
  ad_expires_at :: timestamp

record refresh_token_details =
  rd_user_id :: uuid
  rd_session_id :: uuid
  rd_refresh_token_id :: uuid
  rd_provider :: string
  rd_legacy :: "provider_token_details option"

record tokens =
  tk_access_token :: string
  tk_refresh_token :: string
  tk_refresh_token_id :: uuid

definition access_token_ttl_seconds :: int where
  "access_token_ttl_seconds = 120"

definition refresh_token_ttl_days :: int where
  "refresh_token_ttl_days = 365"

definition default_jwt_leeway_seconds :: nat where
  "default_jwt_leeway_seconds = 60"

definition generate_tokens_for_refresh_token_id ::
  "auth_libs \<Rightarrow> timestamp \<Rightarrow> auth_session \<Rightarrow> uuid \<Rightarrow> string \<Rightarrow> uuid \<Rightarrow> timestamp \<Rightarrow> jwt_error + tokens" where
  "generate_tokens_for_refresh_token_id lb now session user provider refresh_token_id issued_at =
     (let ac = \<lparr>ac_sub = user, ac_session_id = as_id session, ac_iat = int now,
            ac_exp = int now + access_token_ttl_seconds, ac_aud = ''access''\<rparr>;
          rc = \<lparr>rc_sub = user, rc_session_id = as_id session, rc_jti = refresh_token_id, rc_iat = int issued_at,
            rc_exp = int issued_at + refresh_token_ttl_days * 24 * 60 * 60, rc_aud = ''refresh'',
            rc_provider = Some provider, rc_provider_tokens_blob = None\<rparr> in
      case al_encode_access lb (al_secret lb) ac of Inl e \<Rightarrow> Inl (JwtLib e) | Inr at \<Rightarrow>
      (case al_encode_refresh lb (al_secret lb) rc of Inl e \<Rightarrow> Inl (JwtLib e) | Inr rt \<Rightarrow>
         Inr \<lparr>tk_access_token = at, tk_refresh_token = rt, tk_refresh_token_id = refresh_token_id\<rparr>))"

definition generate_tokens ::
  "auth_libs \<Rightarrow> timestamp \<Rightarrow> auth_session \<Rightarrow> user \<Rightarrow> string \<Rightarrow> uuid \<Rightarrow> jwt_error + tokens" where
  \<comment> \<open>the last argument is the new UUID\<close>
  "generate_tokens lb now session u provider refresh_token_id =
     generate_tokens_for_refresh_token_id lb now session (us_id u) provider refresh_token_id now"

definition decode_access_token :: "auth_libs \<Rightarrow> timestamp \<Rightarrow> string \<Rightarrow> jwt_error + access_token_details" where
  "decode_access_token lb now token =
     (if str_trim token = [] then Inl JwtInvalidToken
      else
       (case al_decode_access lb (al_secret lb) \<lparr>jv_audience = ''access'', jv_required = [''sub'', ''exp'', ''aud''],
            jv_leeway = default_jwt_leeway_seconds\<rparr> now token of
          Inl e \<Rightarrow> Inl (JwtLib e)
        | Inr c \<Rightarrow>
           (case al_from_timestamp lb (ac_exp c) of None \<Rightarrow> Inl JwtInvalidToken
            | Some t \<Rightarrow> Inr \<lparr>ad_user_id = ac_sub c, ad_session_id = ac_session_id c, ad_expires_at = t\<rparr>)))"

definition derive_key :: "auth_libs \<Rightarrow> jwt_error + string" where
  "derive_key lb = (case al_std_decode lb (al_secret lb) of None \<Rightarrow> Inl JwtInvalidSecret | Some b \<Rightarrow> Inr (al_sha256 lb b))"

definition encrypt_data :: "auth_libs \<Rightarrow> string \<Rightarrow> string \<Rightarrow> jwt_error + string" where
  \<comment> \<open>the nonce and the data\<close>
  "encrypt_data lb nonce d =
     (case derive_key lb of Inl e \<Rightarrow> Inl e | Inr key \<Rightarrow>
      (case al_aes_encrypt lb key nonce d of None \<Rightarrow> Inl JwtEncryptionError
       | Some ciphertext \<Rightarrow> Inr (al_url_encode lb (nonce @ ciphertext))))"

definition decrypt_data :: "auth_libs \<Rightarrow> string \<Rightarrow> jwt_error + string" where
  "decrypt_data lb encrypted =
     (case al_url_decode lb encrypted of None \<Rightarrow> Inl JwtInvalidToken | Some decoded \<Rightarrow>
      (if length decoded < 12 then Inl JwtInvalidToken
       else (case derive_key lb of Inl e \<Rightarrow> Inl e | Inr key \<Rightarrow>
        (case al_aes_decrypt lb key (take 12 decoded) (drop 12 decoded) of
           None \<Rightarrow> Inl JwtEncryptionError | Some d \<Rightarrow> Inr d))))"

definition decrypt_provider_tokens :: "auth_libs \<Rightarrow> string \<Rightarrow> jwt_error + provider_token_details" where
  "decrypt_provider_tokens lb blob =
     (case decrypt_data lb blob of Inl e \<Rightarrow> Inl e | Inr d \<Rightarrow>
      (case al_tokens_of_json lb (from_utf8_lossy d) of None \<Rightarrow> Inl JwtInvalidToken | Some t \<Rightarrow> Inr t))"

definition encrypt_provider_tokens :: "auth_libs \<Rightarrow> string \<Rightarrow> provider_token_details \<Rightarrow> jwt_error + string" where
  "encrypt_provider_tokens lb nonce t =
     (case al_tokens_to_json lb t of None \<Rightarrow> Inl JwtSerializationError | Some j \<Rightarrow> encrypt_data lb nonce j)"

definition decode_refresh_token :: "auth_libs \<Rightarrow> timestamp \<Rightarrow> string \<Rightarrow> jwt_error + refresh_token_details" where
  "decode_refresh_token lb now token =
     (if str_trim token = [] then Inl JwtInvalidToken
      else
       (case al_decode_refresh lb (al_secret lb) \<lparr>jv_audience = ''refresh'',
            jv_required = [''sub'', ''exp'', ''aud'', ''jti''], jv_leeway = default_jwt_leeway_seconds\<rparr> now token of
          Inl e \<Rightarrow> Inl (JwtLib e)
        | Inr c \<Rightarrow>
           (let details = (\<lambda>p legacy. \<lparr>rd_user_id = rc_sub c, rd_session_id = rc_session_id c,
                  rd_refresh_token_id = rc_jti c, rd_provider = p, rd_legacy = legacy\<rparr>);
                provider = (case rc_provider c of Some p \<Rightarrow> (if str_trim p = [] then None else Some p) | None \<Rightarrow> None) in
            case provider of
              Some p \<Rightarrow> Inr (details p None)
            | None \<Rightarrow>
               (case rc_provider_tokens_blob c of
                  None \<Rightarrow> Inl JwtInvalidToken
                | Some blob \<Rightarrow>
                   (case decrypt_provider_tokens lb blob of Inl e \<Rightarrow> Inl e
                    | Inr t \<Rightarrow> Inr (details (pt_provider t) (Some t)))))))"

section \<open>The repository of sessions\<close>

definition user_find :: "auth_db \<Rightarrow> uuid \<Rightarrow> user option" where
  "user_find db i = tbl_find us_id i (au_users db)"

definition session_find :: "auth_db \<Rightarrow> uuid \<Rightarrow> auth_session option" where
  "session_find db i = tbl_find as_id i (au_sessions db)"

definition update_session :: "(auth_session \<Rightarrow> bool) \<Rightarrow> (auth_session \<Rightarrow> auth_session) \<Rightarrow> auth_db \<Rightarrow> auth_db" where
  \<comment> \<open>an \<open>UPDATE auth_sessions\<close>; a trigger sets \<open>last_used_at\<close> in every updated row\<close>
  "update_session P f db = db\<lparr>au_sessions :=
     map (\<lambda>s. if P s then (f s)\<lparr>as_last_used_at := Some (au_now db)\<rparr> else s) (au_sessions db)\<rparr>"

definition session_create :: "auth_db \<Rightarrow> uuid \<Rightarrow> uuid option \<Rightarrow> auth_session_error + (auth_session \<times> auth_db)" where
  "session_create db user refresh_token_id =
     (let s = \<lparr>as_id = au_next_uuid db, as_user_id = user, as_created_at = au_now db, as_last_used_at = None,
            as_revoked_at = None, as_refresh_token_id = refresh_token_id, as_refresh_token_issued_at = None,
            as_previous_refresh_token_id = None, as_previous_grace_expires_at = None\<rparr> in
      if user_find db user = None then Inl (AsDatabase ForeignKeyViolation)
      else Inr (s, db\<lparr>au_sessions := au_sessions db @ [s], au_next_uuid := Suc (au_next_uuid db)\<rparr>))"

definition session_touch :: "auth_db \<Rightarrow> uuid \<Rightarrow> auth_db" where
  \<comment> \<open>the trigger replaces the truncated time\<close>
  "session_touch db i =
     (let day = au_now db div 86400 * 86400 in
      update_session (\<lambda>s. as_id s = i \<and> (case as_last_used_at s of None \<Rightarrow> True | Some t \<Rightarrow> t < day))
        (\<lambda>s. s\<lparr>as_last_used_at := Some day\<rparr>) db)"

definition note_revoked :: "(uuid \<times> uuid \<times> string) list \<Rightarrow> auth_db \<Rightarrow> auth_db" where
  \<comment> \<open>\<open>INSERT \<dots> ON CONFLICT (token_id) DO NOTHING\<close>\<close>
  "note_revoked ts db = db\<lparr>au_revoked_tokens :=
     foldl (\<lambda>rows t. if fst t \<in> fst ` set rows then rows else rows @ [t]) (au_revoked_tokens db) ts\<rparr>"

definition rotate_tokens :: "auth_db \<Rightarrow> uuid \<Rightarrow> uuid \<Rightarrow> uuid \<Rightarrow> nat \<Rightarrow> auth_session_error + auth_db" where
  "rotate_tokens db session_id old_id new_id overlap_secs =
     (case List.find (\<lambda>s. as_id s = session_id \<and> as_refresh_token_id s = Some old_id) (au_sessions db) of
        None \<Rightarrow> Inl AsTokenReuseDetected
      | Some row \<Rightarrow>
          Inr (note_revoked [(old_id, as_user_id row, ''token_rotation'')]
            (update_session (\<lambda>s. as_id s = session_id \<and> as_refresh_token_id s = Some old_id)
              (\<lambda>s. s\<lparr>as_refresh_token_id := Some new_id, as_refresh_token_issued_at := Some (au_now db),
                 as_previous_refresh_token_id := Some old_id,
                 as_previous_grace_expires_at := Some (au_now db + overlap_secs)\<rparr>) db)))"

definition set_current_refresh_token :: "auth_db \<Rightarrow> uuid \<Rightarrow> uuid \<Rightarrow> auth_db" where
  "set_current_refresh_token db session_id refresh_token_id =
     update_session (\<lambda>s. as_id s = session_id)
       (\<lambda>s. s\<lparr>as_refresh_token_id := Some refresh_token_id, as_refresh_token_issued_at := Some (au_now db),
          as_previous_refresh_token_id := None, as_previous_grace_expires_at := None\<rparr>) db"

definition session_tokens :: "auth_session \<Rightarrow> (uuid \<times> uuid \<times> string) list" where
  "session_tokens s = map (\<lambda>t. (t, as_user_id s, ''reuse_of_revoked_token''))
     (case (as_refresh_token_id s, as_previous_refresh_token_id s) of
        (Some a, Some b) \<Rightarrow> [a, b] | (Some a, None) \<Rightarrow> [a] | (None, Some b) \<Rightarrow> [b] | (None, None) \<Rightarrow> [])"

definition revoke_sessions :: "(auth_session \<Rightarrow> bool) \<Rightarrow> auth_db \<Rightarrow> nat \<times> auth_db" where
  "revoke_sessions P db =
     (length (filter (\<lambda>s. P s \<and> as_revoked_at s = None) (au_sessions db)),
      update_session (\<lambda>s. P s \<and> as_revoked_at s = None) (\<lambda>s. s\<lparr>as_revoked_at := Some (au_now db)\<rparr>)
        (note_revoked (concat (map session_tokens (filter P (au_sessions db)))) db))"

definition revoke_auth_session :: "auth_db \<Rightarrow> uuid \<Rightarrow> nat \<times> auth_db" where
  "revoke_auth_session db i = revoke_sessions (\<lambda>s. as_id s = i) db"

definition revoke_all_user_sessions :: "auth_db \<Rightarrow> uuid \<Rightarrow> nat \<times> auth_db" where
  "revoke_all_user_sessions db user = revoke_sessions (\<lambda>s. as_user_id s = user) db"

definition is_refresh_token_revoked :: "auth_db \<Rightarrow> uuid \<Rightarrow> bool" where
  "is_refresh_token_revoked db t = (t \<in> fst ` set (au_revoked_tokens db))"

definition session_revoke :: "auth_db \<Rightarrow> uuid \<Rightarrow> auth_db" where
  "session_revoke db i = update_session (\<lambda>s. as_id s = i) (\<lambda>s. s\<lparr>as_revoked_at := Some (au_now db)\<rparr>) db"

definition is_previous_within_grace :: "timestamp \<Rightarrow> auth_session \<Rightarrow> uuid \<Rightarrow> bool" where
  "is_previous_within_grace now s t =
     (as_previous_refresh_token_id s = Some t \<and>
      (case as_previous_grace_expires_at s of None \<Rightarrow> False | Some g \<Rightarrow> now < g))"

definition max_session_inactivity :: nat where
  "max_session_inactivity = 365 * 24 * 60 * 60"

definition last_activity_at :: "auth_session \<Rightarrow> timestamp" where
  "last_activity_at s = unwrap_or (as_last_used_at s) (as_created_at s)"

definition inactivity_duration :: "auth_session \<Rightarrow> timestamp \<Rightarrow> int" where
  "inactivity_duration s now = int now - int (last_activity_at s)"

section \<open>The check of every request\<close>

record request_context =
  cx_user :: user
  cx_session_id :: uuid
  cx_expires_at :: timestamp

definition request_context_from_auth_session_id :: "auth_db \<Rightarrow> uuid \<Rightarrow> (nat + request_context) \<times> auth_db" where
  \<comment> \<open>an HTTP status, or the context\<close>
  "request_context_from_auth_session_id db session_id =
     (case session_find db session_id of None \<Rightarrow> (Inl 401, db) | Some session \<Rightarrow>
      (if as_revoked_at session \<noteq> None then (Inl 401, db)
       else if int max_session_inactivity < inactivity_duration session (au_now db)
       then (Inl 401, session_revoke db (as_id session))
       else (case user_find db (as_user_id session) of None \<Rightarrow> (Inl 401, db) | Some u \<Rightarrow>
          (Inr \<lparr>cx_user = u, cx_session_id = as_id session, cx_expires_at = au_now db\<rparr>,
           session_touch db (as_id session)))))"

definition request_context_from_access_token ::
  "auth_libs \<Rightarrow> auth_db \<Rightarrow> string \<Rightarrow> (nat + request_context) \<times> auth_db" where
  "request_context_from_access_token lb db access_token =
     (case decode_access_token lb (au_now db) access_token of Inl _ \<Rightarrow> (Inl 401, db) | Inr identity \<Rightarrow>
      (case request_context_from_auth_session_id db (ad_session_id identity) of
         (Inl e, db) \<Rightarrow> (Inl e, db)
       | (Inr ctx, db) \<Rightarrow>
          (if us_id (cx_user ctx) \<noteq> ad_user_id identity then (Inl 401, db)
           else (Inr (ctx\<lparr>cx_expires_at := ad_expires_at identity\<rparr>), db))))"

section \<open>Provider tokens\<close>

definition get_by_provider_user :: "auth_db \<Rightarrow> string \<Rightarrow> string \<Rightarrow> oauth_account option" where
  "get_by_provider_user db provider i =
     List.find (\<lambda>a. oa_provider a = provider \<and> oa_provider_user_id a = i) (au_accounts db)"

definition get_by_user_provider :: "auth_db \<Rightarrow> uuid \<Rightarrow> string \<Rightarrow> oauth_account option" where
  "get_by_user_provider db user provider =
     List.find (\<lambda>a. oa_user_id a = user \<and> oa_provider a = provider) (au_accounts db)"

definition update_encrypted_provider_tokens :: "auth_db \<Rightarrow> uuid \<Rightarrow> string \<Rightarrow> string \<Rightarrow> auth_db" where
  "update_encrypted_provider_tokens db user provider enc = db\<lparr>au_accounts :=
     map (\<lambda>a. if oa_user_id a = user \<and> oa_provider a = provider
              then a\<lparr>oa_encrypted_provider_tokens := Some enc\<rparr> else a) (au_accounts db)\<rparr>"

datatype token_validation_error = InvalidOrRevoked | Temporary string

record authorization_grant =
  gr_access_token :: string
  gr_refresh_token :: "string option"
  gr_expires_in :: "nat option"

record provider_user =
  pu_id :: string
  pu_login :: "string option"
  pu_email :: "string option"
  pu_name :: "string option"
  pu_avatar_url :: "string option"

record provider_error =
  pv_message :: string
  pv_forbidden :: bool  \<comment> \<open>the provider answered 403\<close>

record oauth_provider =
  op_name :: string
  op_authorize_url :: "string \<Rightarrow> string \<Rightarrow> provider_error + string"
  op_exchange_code :: "string \<Rightarrow> string \<Rightarrow> provider_error + authorization_grant"
  op_fetch_user :: "nat \<Rightarrow> string \<Rightarrow> provider_error + provider_user"  \<comment> \<open>by attempt\<close>
  op_validate_token :: "provider_token_details \<Rightarrow> token_validation_error + provider_token_details option"

type_synonym provider_registry = "(string \<times> oauth_provider) list"

definition registry_register :: "oauth_provider \<Rightarrow> provider_registry \<Rightarrow> provider_registry" where
  "registry_register p reg = (str_lower (op_name p), p) # filter (\<lambda>e. fst e \<noteq> str_lower (op_name p)) reg"

definition registry_get :: "provider_registry \<Rightarrow> string \<Rightarrow> oauth_provider option" where
  "registry_get reg provider = map_of reg (str_lower provider)"

datatype oauth_token_validation_error =
  ProviderAccountNotLinked | ProviderTokenValidationFailed | ValidationUnavailable string

definition verify_inner ::
  "auth_libs \<Rightarrow> provider_registry \<Rightarrow> string \<Rightarrow> string \<Rightarrow> uuid \<Rightarrow> auth_db \<Rightarrow>
   (oauth_token_validation_error + unit) \<times> auth_db" where
  "verify_inner lb reg nonce provider_name user db =
     (case get_by_user_provider db user provider_name of None \<Rightarrow> (Inl ProviderAccountNotLinked, db) | Some account \<Rightarrow>
      (case oa_encrypted_provider_tokens account of None \<Rightarrow> (Inl ProviderTokenValidationFailed, db) | Some enc \<Rightarrow>
      (case decrypt_provider_tokens lb enc of Inl _ \<Rightarrow> (Inl ProviderTokenValidationFailed, db) | Inr details \<Rightarrow>
      (if pt_provider details \<noteq> provider_name then (Inl ProviderTokenValidationFailed, db)
       else (case registry_get reg provider_name of None \<Rightarrow> (Inl ProviderTokenValidationFailed, db) | Some p \<Rightarrow>
      (case op_validate_token p details of
         Inr None \<Rightarrow> (Inr (), db)
       | Inr (Some updated) \<Rightarrow>
          (case encrypt_provider_tokens lb nonce updated of
             Inl _ \<Rightarrow> (Inl (ValidationUnavailable ''failed to encrypt provider token''), db)
           | Inr e \<Rightarrow> (Inr (), update_encrypted_provider_tokens db user provider_name e))
       | Inl InvalidOrRevoked \<Rightarrow> (Inl ProviderTokenValidationFailed, db)
       | Inl (Temporary reason) \<Rightarrow> (Inl (ValidationUnavailable reason), db)))))))"

definition oauth_validate ::
  "auth_libs \<Rightarrow> provider_registry \<Rightarrow> string \<Rightarrow> string \<Rightarrow> uuid \<Rightarrow> auth_db \<Rightarrow>
   (oauth_token_validation_error + unit) \<times> auth_db" where
  "oauth_validate lb reg nonce provider user db =
     (case verify_inner lb reg nonce provider user db of
        (Inr u, db) \<Rightarrow> (Inr u, db)
      | (Inl (ValidationUnavailable r), db) \<Rightarrow> (Inl (ValidationUnavailable r), db)
      | (Inl e, db) \<Rightarrow> (Inl e, snd (revoke_all_user_sessions db user)))"

section \<open>Refreshing tokens\<close>

datatype token_refresh_error =
  TrInvalidToken | TrSessionRevoked | TrTokenExpired | TrTokenReuseDetected | TrProviderTokenRevoked
| TrProviderValidationUnavailable string | TrJwt jwt_error | TrIdentity identity_error

definition refresh_error_response :: "token_refresh_error \<Rightarrow> nat \<times> string" where
  "refresh_error_response e = (case e of
      TrInvalidToken \<Rightarrow> (401, ''invalid_token'') | TrTokenExpired \<Rightarrow> (401, ''expired_token'')
    | TrSessionRevoked \<Rightarrow> (401, ''session_revoked'') | TrTokenReuseDetected \<Rightarrow> (401, ''token_reuse_detected'')
    | TrProviderTokenRevoked \<Rightarrow> (401, ''provider_token_revoked'')
    | TrProviderValidationUnavailable _ \<Rightarrow> (503, ''provider_validation_unavailable'')
    | TrJwt _ \<Rightarrow> (401, ''invalid_token'') | TrIdentity _ \<Rightarrow> (401, ''identity_error''))"

definition validation_refresh_error :: "oauth_token_validation_error \<Rightarrow> token_refresh_error" where
  "validation_refresh_error e = (case e of ProviderAccountNotLinked \<Rightarrow> TrProviderTokenRevoked
     | ProviderTokenValidationFailed \<Rightarrow> TrProviderTokenRevoked
     | ValidationUnavailable r \<Rightarrow> TrProviderValidationUnavailable r)"

definition is_local_provider :: "string \<Rightarrow> bool" where
  "is_local_provider p = (p = ''local'')"

definition current_session_tokens_response ::
  "auth_libs \<Rightarrow> timestamp \<Rightarrow> auth_session \<Rightarrow> uuid \<Rightarrow> string \<Rightarrow> token_refresh_error + tokens" where
  "current_session_tokens_response lb now session user provider =
     (case as_refresh_token_id session of None \<Rightarrow> Inl TrSessionRevoked | Some i \<Rightarrow>
      (case as_refresh_token_issued_at session of None \<Rightarrow> Inl TrSessionRevoked | Some issued_at \<Rightarrow>
      (case generate_tokens_for_refresh_token_id lb now session user provider i issued_at of
         Inl e \<Rightarrow> Inl (TrJwt e) | Inr t \<Rightarrow> Inr t)))"

definition backfill_legacy_tokens ::
  "auth_libs \<Rightarrow> string \<Rightarrow> refresh_token_details \<Rightarrow> auth_db \<Rightarrow> token_refresh_error + auth_db" where
  "backfill_legacy_tokens lb nonce d db =
     (case rd_legacy d of None \<Rightarrow> Inr db | Some legacy \<Rightarrow>
      (case get_by_user_provider db (rd_user_id d) (rd_provider d) of None \<Rightarrow> Inr db | Some account \<Rightarrow>
      (if oa_encrypted_provider_tokens account \<noteq> None then Inr db
       else (case encrypt_provider_tokens lb nonce legacy of Inl e \<Rightarrow> Inl (TrJwt e)
         | Inr enc \<Rightarrow> Inr (update_encrypted_provider_tokens db (rd_user_id d) (rd_provider d) enc)))))"

definition rotate_or_answer ::
  "auth_libs \<Rightarrow> nat \<Rightarrow> refresh_token_details \<Rightarrow> auth_session \<Rightarrow> user \<Rightarrow> auth_db \<Rightarrow>
   (token_refresh_error + tokens) \<times> auth_db" where
  "rotate_or_answer lb overlap d session u db =
     (let new_id = au_next_uuid db; old_id = rd_refresh_token_id d; db = db\<lparr>au_next_uuid := Suc (au_next_uuid db)\<rparr> in
      case generate_tokens lb (au_now db) session u (rd_provider d) new_id of Inl e \<Rightarrow> (Inl (TrJwt e), db) | Inr ts \<Rightarrow>
      (case rotate_tokens db (as_id session) old_id new_id overlap of
         Inr db \<Rightarrow> (Inr ts, db)
       | Inl _ \<Rightarrow>
          (case session_find db (rd_session_id d) of None \<Rightarrow> (Inl TrSessionRevoked, db) | Some latest \<Rightarrow>
           (if as_revoked_at latest = None \<and> is_previous_within_grace (au_now db) latest old_id
            then (current_session_tokens_response lb (au_now db) latest (us_id u) (rd_provider d), db)
            else (Inl TrTokenReuseDetected, snd (revoke_auth_session db (rd_session_id d)))))))"

definition refresh_checked ::
  "auth_libs \<Rightarrow> provider_registry \<Rightarrow> nat \<Rightarrow> string \<Rightarrow> string \<Rightarrow> refresh_token_details \<Rightarrow> auth_session \<Rightarrow> bool \<Rightarrow> auth_db \<Rightarrow>
   (token_refresh_error + tokens) \<times> auth_db" where
  \<comment> \<open>after the checks of the token\<close>
  "refresh_checked lb reg overlap nonce1 nonce2 d session is_previous db =
     (case backfill_legacy_tokens lb nonce1 d db of Inl e \<Rightarrow> (Inl e, db) | Inr db \<Rightarrow>
      (case (if is_local_provider (rd_provider d) then (Inr (), db)
             else oauth_validate lb reg nonce2 (rd_provider d) (rd_user_id d) db) of
         (Inl e, db) \<Rightarrow> (Inl (validation_refresh_error e), db)
       | (Inr _, db) \<Rightarrow>
      (case user_find db (rd_user_id d) of None \<Rightarrow> (Inl (TrIdentity IdNotFound), db) | Some u \<Rightarrow>
       (if is_previous
        then (current_session_tokens_response lb (au_now db) session (us_id u) (rd_provider d), db)
        else rotate_or_answer lb overlap d session u db))))"

definition refresh_token ::
  "auth_libs \<Rightarrow> provider_registry \<Rightarrow> nat \<Rightarrow> string \<Rightarrow> string \<Rightarrow> auth_db \<Rightarrow> auth_db \<Rightarrow> auth_db \<Rightarrow> string \<Rightarrow>
   (token_refresh_error + tokens) \<times> auth_db" where
  \<comment> \<open>the session is read in \<open>db0\<close>, the revoked tokens in \<open>db1\<close>\<close>
  "refresh_token lb reg overlap nonce1 nonce2 db0 db1 db token =
     (case decode_refresh_token lb (au_now db0) token of
        Inl JwtTokenExpired \<Rightarrow> (Inl TrTokenExpired, db)
      | Inl _ \<Rightarrow> (Inl TrInvalidToken, db)
      | Inr d \<Rightarrow>
      (case session_find db0 (rd_session_id d) of None \<Rightarrow> (Inl TrSessionRevoked, db) | Some session \<Rightarrow>
      (if as_revoked_at session \<noteq> None then (Inl TrSessionRevoked, db)
       else
        (let is_current = (as_refresh_token_id session = Some (rd_refresh_token_id d));
             is_previous = is_previous_within_grace (au_now db0) session (rd_refresh_token_id d);
             is_revoked = is_refresh_token_revoked db1 (rd_refresh_token_id d) in
         if (is_revoked \<or> \<not> is_current) \<and> \<not> is_previous
         then (Inl TrTokenReuseDetected, snd (revoke_auth_session db (rd_session_id d)))
         else refresh_checked lb reg overlap nonce1 nonce2 d session is_previous db))))"

definition logout :: "auth_db \<Rightarrow> request_context \<Rightarrow> nat \<times> auth_db" where
  "logout db ctx = (204, session_revoke db (cx_session_id ctx))"

end
