(* ===== verification/Auth_Sign_In.thy ===== *)
theory Auth_Sign_In
  imports Auth_Sessions
begin

text \<open>
  Signing in to the Remote server: the OAuth handoff between a client, the server and a provider
  (crates/remote/src/auth/handoff.rs, db/oauth.rs), the users and linked accounts it writes
  (db/users.rs, db/oauth_accounts.rs), the local login (auth/local.rs) and the errors of the routes
  (routes/oauth.rs).

  The URL parser is a parameter; states, codes and nonces are random and inputs. The callback and
  the redemption read the handoff in one state (\<open>db0\<close>) and write in a later one (\<open>db\<close>): in between
  the callback talks to the provider.
\<close>

section \<open>Users and accounts\<close>

definition fetch_user_by_email :: "auth_db \<Rightarrow> string \<Rightarrow> user option" where
  "fetch_user_by_email db email = List.find (\<lambda>u. str_lower (us_email u) = str_lower email) (au_users db)"

definition upsert_user :: "auth_db \<Rightarrow> user \<Rightarrow> identity_error + (user \<times> auth_db)" where
  "upsert_user db u =
     (if list_ex (\<lambda>w. us_id w \<noteq> us_id u \<and> us_email w = us_email u) (au_users db)
      then Inl (IdDatabase UniqueViolation)
      else Inr (u, db\<lparr>au_users :=
        (if user_find db (us_id u) = None then au_users db @ [u]
         else tbl_update us_id (us_id u) (\<lambda>_. u) (au_users db))\<rparr>))"

record account_insert =
  oi_user_id :: uuid
  oi_provider :: string
  oi_provider_user_id :: string
  oi_email :: "string option"
  oi_username :: "string option"
  oi_display_name :: "string option"
  oi_avatar_url :: "string option"
  oi_tokens :: "string option"

definition account_upsert :: "auth_db \<Rightarrow> account_insert \<Rightarrow> auth_db" where
  "account_upsert db a =
     (if get_by_provider_user db (oi_provider a) (oi_provider_user_id a) = None
      then db\<lparr>au_accounts := au_accounts db @ [\<lparr>oa_id = au_next_uuid db, oa_user_id = oi_user_id a,
            oa_provider = oi_provider a, oa_provider_user_id = oi_provider_user_id a, oa_email = oi_email a,
            oa_username = oi_username a, oa_display_name = oi_display_name a, oa_avatar_url = oi_avatar_url a,
            oa_encrypted_provider_tokens = oi_tokens a\<rparr>],
          au_next_uuid := Suc (au_next_uuid db)\<rparr>
      else db\<lparr>au_accounts := map (\<lambda>r.
          if oa_provider r = oi_provider a \<and> oa_provider_user_id r = oi_provider_user_id a
          then r\<lparr>oa_email := oi_email a, oa_username := oi_username a, oa_display_name := oi_display_name a,
               oa_avatar_url := oi_avatar_url a,
               oa_encrypted_provider_tokens := opt_or (oi_tokens a) (oa_encrypted_provider_tokens r)\<rparr>
          else r) (au_accounts db)\<rparr>)"

definition ensure_personal_org :: "auth_db \<Rightarrow> uuid \<Rightarrow> string option \<Rightarrow> (identity_error + organization) \<times> auth_db" where
  \<comment> \<open>the tables of organizations are part of the database\<close>
  "ensure_personal_org db user hint =
     (let od = (au_orgs db)\<lparr>od_now := au_now db\<rparr> in
      case ensure_personal_org_and_admin_membership od od user hint of (r, od) \<Rightarrow> (r, db\<lparr>au_orgs := od\<rparr>))"

section \<open>Handoffs\<close>

datatype oauth_handoff_error = HoNotFound | HoNotAuthorized | HoAlreadyRedeemed

datatype handoff_error =
  HeUnsupportedProvider string | HeInvalidReturnUrl string | HeInvalidChallenge | HeNotFound | HeExpired
| HeDenied | HeFailed string | HeProvider provider_error | HeIdentity identity_error
| HeSession auth_session_error | HeJwt jwt_error | HeAuthorization oauth_handoff_error

definition status_as_str :: "authorization_status \<Rightarrow> string" where
  "status_as_str s = (case s of AuthPending \<Rightarrow> ''pending'' | AuthAuthorized \<Rightarrow> ''authorized''
     | AuthRedeemed \<Rightarrow> ''redeemed'' | AuthError \<Rightarrow> ''error'' | AuthExpired \<Rightarrow> ''expired'')"

definition status_from_str :: "string \<Rightarrow> authorization_status option" where
  "status_from_str s = (if s = ''pending'' then Some AuthPending else if s = ''authorized'' then Some AuthAuthorized
     else if s = ''redeemed'' then Some AuthRedeemed else if s = ''error'' then Some AuthError
     else if s = ''expired'' then Some AuthExpired else None)"

definition handoff_find :: "auth_db \<Rightarrow> uuid \<Rightarrow> oauth_handoff option" where
  "handoff_find db i = tbl_find oh_id i (au_handoffs db)"

definition handoff_by_state :: "auth_db \<Rightarrow> string \<Rightarrow> oauth_handoff option" where
  "handoff_by_state db s = tbl_find oh_state s (au_handoffs db)"

definition update_handoff :: "uuid \<Rightarrow> (oauth_handoff \<Rightarrow> oauth_handoff) \<Rightarrow> auth_db \<Rightarrow> auth_db" where
  "update_handoff i f db = db\<lparr>au_handoffs := tbl_update oh_id i f (au_handoffs db)\<rparr>"

definition handoff_create ::
  "auth_db \<Rightarrow> string \<Rightarrow> string \<Rightarrow> string \<Rightarrow> string \<Rightarrow> timestamp \<Rightarrow> oauth_handoff \<times> auth_db" where
  "handoff_create db provider state return_to app_challenge expires_at =
     (let h = \<lparr>oh_id = au_next_uuid db, oh_provider = provider, oh_state = state, oh_return_to = return_to,
            oh_app_challenge = app_challenge, oh_app_code_hash = None, oh_status = AuthPending,
            oh_error_code = None, oh_expires_at = expires_at, oh_authorized_at = None, oh_redeemed_at = None,
            oh_user_id = None, oh_session_id = None, oh_encrypted_provider_tokens = None\<rparr> in
      (h, db\<lparr>au_handoffs := au_handoffs db @ [h], au_next_uuid := Suc (au_next_uuid db)\<rparr>))"

definition set_handoff_status :: "uuid \<Rightarrow> authorization_status \<Rightarrow> string option \<Rightarrow> auth_db \<Rightarrow> auth_db" where
  "set_handoff_status i s code = update_handoff i (\<lambda>h. h\<lparr>oh_status := s, oh_error_code := code\<rparr>)"

definition mark_authorized :: "uuid \<Rightarrow> uuid \<Rightarrow> uuid \<Rightarrow> string \<Rightarrow> string option \<Rightarrow> auth_db \<Rightarrow> auth_db" where
  "mark_authorized i user session app_code_hash enc db =
     update_handoff i (\<lambda>h. h\<lparr>oh_status := AuthAuthorized, oh_error_code := None, oh_user_id := Some user,
       oh_session_id := Some session, oh_app_code_hash := Some app_code_hash, oh_encrypted_provider_tokens := enc,
       oh_authorized_at := Some (au_now db)\<rparr>) db"

definition mark_redeemed :: "uuid \<Rightarrow> auth_db \<Rightarrow> oauth_handoff_error + auth_db" where
  "mark_redeemed i db =
     (if list_ex (\<lambda>h. oh_id h = i \<and> oh_status h = AuthAuthorized) (au_handoffs db)
      then Inr (update_handoff i (\<lambda>h. if oh_status h = AuthAuthorized
          then h\<lparr>oh_status := AuthRedeemed, oh_encrypted_provider_tokens := None,
                 oh_redeemed_at := Some (au_now db)\<rparr> else h) db)
      else Inl HoAlreadyRedeemed)"

definition ensure_redeemable :: "auth_db \<Rightarrow> uuid \<Rightarrow> oauth_handoff_error + unit" where
  "ensure_redeemable db i =
     (case handoff_find db i of None \<Rightarrow> Inl HoNotFound
      | Some h \<Rightarrow> (case oh_status h of AuthAuthorized \<Rightarrow> Inr () | AuthPending \<Rightarrow> Inl HoNotAuthorized
          | _ \<Rightarrow> Inl HoAlreadyRedeemed))"

section \<open>Helpers of the handoff service\<close>

definition jwt_error_text :: "jwt_error \<Rightarrow> string" where
  "jwt_error_text e = (case e of JwtInvalidToken \<Rightarrow> ''invalid token'' | JwtInvalidSecret \<Rightarrow> ''invalid jwt secret''
     | JwtTokenExpired \<Rightarrow> ''token expired''
     | JwtTokenReuseDetected \<Rightarrow> ''refresh token reused - possible theft detected''
     | JwtSessionRevoked \<Rightarrow> ''session revoked'' | JwtInvalidTokenType \<Rightarrow> ''token type mismatch''
     | JwtEncryptionError \<Rightarrow> ''encryption error'' | JwtSerializationError \<Rightarrow> ''serialization error''
     | JwtLib m \<Rightarrow> m)"

definition handoff_ttl :: nat where
  "handoff_ttl = 10 * 60"

definition handoff_expired :: "timestamp \<Rightarrow> oauth_handoff \<Rightarrow> bool" where
  "handoff_expired now h = (oh_expires_at h \<le> now)"

definition ascii_hexdigit :: "char \<Rightarrow> bool" where
  "ascii_hexdigit c = (let n = of_char c :: nat in
     (48 \<le> n \<and> n \<le> 57) \<or> (65 \<le> n \<and> n \<le> 70) \<or> (97 \<le> n \<and> n \<le> 102))"

definition is_valid_challenge :: "string \<Rightarrow> bool" where
  "is_valid_challenge s = (s \<noteq> [] \<and> length s = 64 \<and> list_all ascii_hexdigit s)"

record parsed_url =
  ur_scheme :: string
  ur_host :: "string option"
  ur_text :: string

definition is_allowed_return_to :: "(string \<Rightarrow> parsed_url option) \<Rightarrow> parsed_url \<Rightarrow> string \<Rightarrow> bool" where
  \<comment> \<open>other URLs are logged and allowed\<close>
  "is_allowed_return_to parse_url url public_origin =
     (if ur_scheme url = ''http'' \<and> ur_host url \<in> {Some ''127.0.0.1'', Some ''localhost'', Some ''[::1]''} then True
      else if ur_scheme url = ''https'' \<and>
        (case parse_url public_origin of None \<Rightarrow> False
         | Some p \<Rightarrow> ur_scheme p = ''https'' \<and> ur_host p \<noteq> None \<and> ur_host url = ur_host p) then True
      else True)"

definition hash_sha256_hex :: "auth_libs \<Rightarrow> string \<Rightarrow> string" where
  "hash_sha256_hex lb s = concat (map (\<lambda>b. hex_digits 2 (of_char b)) (al_sha256 lb s))"

definition ensure_email :: "string \<Rightarrow> provider_user \<Rightarrow> string" where
  "ensure_email provider p =
     (case pu_email p of Some e \<Rightarrow> e
      | None \<Rightarrow> pu_id p @ (if provider = ''github'' then ''@users.noreply.github.com''
          else if provider = ''google'' then ''@users.noreply.google.com'' else ''@oauth.local''))"

definition derive_username :: "string \<Rightarrow> provider_user \<Rightarrow> string option" where
  "derive_username provider p =
     (case pu_login p of Some l \<Rightarrow> Some l
      | None \<Rightarrow> (case pu_email p of Some e \<Rightarrow> Some (takeWhile (\<lambda>c. c \<noteq> CHR ''@'') e)
          | None \<Rightarrow> Some (provider @ ''-'' @ pu_id p)))"

definition split_name :: "string option \<Rightarrow> string option \<times> string option" where
  "split_name name =
     (case name of None \<Rightarrow> (None, None)
      | Some s \<Rightarrow> (case ws_words [] s of [] \<Rightarrow> (None, None)
          | w # ws \<Rightarrow> (Some w, if ws = [] then None else Some (join_with '' '' ws))))"

fun fetch_user_attempts :: "oauth_provider \<Rightarrow> string \<Rightarrow> nat \<Rightarrow> handoff_error + provider_user" where
  \<comment> \<open>the attempts left, of five\<close>
  "fetch_user_attempts p tok 0 = Inl (HeFailed ''user_fetch_failed'')"
| "fetch_user_attempts p tok (Suc n) =
     (case op_fetch_user p (5 - n) tok of Inr u \<Rightarrow> Inr u
      | Inl e \<Rightarrow> (if 0 < n \<and> pv_forbidden e then fetch_user_attempts p tok n else Inl (HeProvider e)))"

definition fetch_user_with_retries :: "oauth_provider \<Rightarrow> string \<Rightarrow> handoff_error + provider_user" where
  "fetch_user_with_retries p tok = fetch_user_attempts p tok 5"

definition upsert_identity ::
  "oauth_provider \<Rightarrow> provider_user \<Rightarrow> string option \<Rightarrow> auth_db \<Rightarrow> (handoff_error + user) \<times> auth_db" where
  "upsert_identity p prof enc db =
     (let email = ensure_email (op_name p) prof; username = derive_username (op_name p) prof;
          names = split_name (pu_name prof);
          (user_id, db) = (case get_by_provider_user db (op_name p) (pu_id prof) of
             Some a \<Rightarrow> (oa_user_id a, db)
           | None \<Rightarrow> (au_next_uuid db, db\<lparr>au_next_uuid := Suc (au_next_uuid db)\<rparr>)) in
      case upsert_user db \<lparr>us_id = user_id, us_email = email, us_first_name = fst names, us_last_name = snd names,
             us_username = username\<rparr> of
        Inl e \<Rightarrow> (Inl (HeIdentity e), db)
      | Inr (u, db) \<Rightarrow>
      (case ensure_personal_org db (us_id u) username of
         (Inl e, db) \<Rightarrow> (Inl (HeIdentity e), db)
       | (Inr _, db) \<Rightarrow>
         (Inr u, account_upsert db \<lparr>oi_user_id = us_id u, oi_provider = op_name p, oi_provider_user_id = pu_id prof,
            oi_email = Some email, oi_username = username, oi_display_name = pu_name prof,
            oi_avatar_url = pu_avatar_url prof, oi_tokens = enc\<rparr>)))"

section \<open>The handoff service\<close>

definition trim_end_slash :: "string \<Rightarrow> string" where
  "trim_end_slash s = rev (dropWhile (\<lambda>c. c = CHR ''/'') (rev s))"

definition initiate ::
  "(string \<Rightarrow> parsed_url option) \<Rightarrow> provider_registry \<Rightarrow> string \<Rightarrow> string \<Rightarrow> auth_db \<Rightarrow> string \<Rightarrow> string \<Rightarrow> string \<Rightarrow>
   (handoff_error + (uuid \<times> string \<times> timestamp)) \<times> auth_db" where
  \<comment> \<open>the origin of the server and the random state\<close>
  "initiate parse_url reg public_origin state db provider return_to app_challenge =
     (let origin = trim_end_slash public_origin in
      case registry_get reg provider of None \<Rightarrow> (Inl (HeUnsupportedProvider provider), db) | Some p \<Rightarrow>
      (case parse_url return_to of None \<Rightarrow> (Inl (HeInvalidReturnUrl return_to), db) | Some url \<Rightarrow>
      (if \<not> is_allowed_return_to parse_url url origin then (Inl (HeInvalidReturnUrl return_to), db)
       else if \<not> is_valid_challenge app_challenge then (Inl HeInvalidChallenge, db)
       else (case handoff_create db (op_name p) state (ur_text url) app_challenge (au_now db + handoff_ttl) of
         (h, db) \<Rightarrow> (Inr (oh_id h, origin @ ''/v1/oauth/'' @ op_name p @ ''/start?handoff_id='' @ show_uuid (oh_id h),
            oh_expires_at h), db)))))"

definition authorize_url ::
  "provider_registry \<Rightarrow> string \<Rightarrow> auth_db \<Rightarrow> string \<Rightarrow> uuid \<Rightarrow> (handoff_error + string) \<times> auth_db" where
  "authorize_url reg public_origin db provider handoff_id =
     (case registry_get reg provider of None \<Rightarrow> (Inl (HeUnsupportedProvider provider), db) | Some p \<Rightarrow>
      (case handoff_find db handoff_id of None \<Rightarrow> (Inl (HeAuthorization HoNotFound), db) | Some h \<Rightarrow>
      (if oh_provider h \<noteq> op_name p then (Inl (HeUnsupportedProvider (oh_provider h)), db)
       else if handoff_expired (au_now db) h
       then (Inl HeExpired, set_handoff_status (oh_id h) AuthExpired (Some ''expired'') db)
       else if oh_status h \<noteq> AuthPending then (Inl (HeFailed ''invalid_state''), db)
       else (case op_authorize_url p (oh_state h)
             (trim_end_slash public_origin @ ''/v1/oauth/'' @ op_name p @ ''/callback'') of
           Inl e \<Rightarrow> (Inl (HeProvider e), db) | Inr url \<Rightarrow> (Inr url, db)))))"

datatype callback_result =
    CallbackSuccess uuid string string
  | CallbackError "uuid option" "string option" string

definition handle_callback ::
  "auth_libs \<Rightarrow> provider_registry \<Rightarrow> string \<Rightarrow> string \<Rightarrow> string \<Rightarrow> auth_db \<Rightarrow> auth_db \<Rightarrow>
   string \<Rightarrow> string option \<Rightarrow> string option \<Rightarrow> string option \<Rightarrow> (handoff_error + callback_result) \<times> auth_db" where
  \<comment> \<open>the origin, the nonce of the encryption and the random app code\<close>
  "handle_callback lb reg public_origin nonce app_code db0 db provider_name state code err =
     (case registry_get reg provider_name of None \<Rightarrow> (Inl (HeUnsupportedProvider provider_name), db) | Some p \<Rightarrow>
      (case state of None \<Rightarrow> (Inr (CallbackError None None ''missing_state''), db) | Some st \<Rightarrow>
      (case handoff_by_state db0 st of None \<Rightarrow> (Inl (HeAuthorization HoNotFound), db) | Some h \<Rightarrow>
      (if oh_provider h \<noteq> op_name p then (Inl (HeUnsupportedProvider (oh_provider h)), db)
       else if handoff_expired (au_now db0) h
       then (Inl HeExpired, set_handoff_status (oh_id h) AuthExpired (Some ''expired'') db)
       else (case err of
           Some e \<Rightarrow> (Inr (CallbackError (Some (oh_id h)) (Some (oh_return_to h)) e),
              set_handoff_status (oh_id h) AuthError (Some e) db)
         | None \<Rightarrow>
      (case code of None \<Rightarrow> (Inl (HeFailed ''missing_code''), db) | Some c \<Rightarrow>
      (case op_exchange_code p c (trim_end_slash public_origin @ ''/v1/oauth/'' @ op_name p @ ''/callback'') of
         Inl e \<Rightarrow> (Inl (HeProvider e), db) | Inr grant \<Rightarrow>
      (case encrypt_provider_tokens lb nonce \<lparr>pt_provider = op_name p, pt_access_token = gr_access_token grant,
             pt_refresh_token = gr_refresh_token grant,
             pt_expires_at = map_option (\<lambda>d. int (au_now db) + int d) (gr_expires_in grant)\<rparr> of
         Inl e \<Rightarrow> (Inl (HeFailed (''Failed to encrypt provider token: '' @ jwt_error_text e)), db) | Inr enc \<Rightarrow>
      (case fetch_user_with_retries p (gr_access_token grant) of Inl e \<Rightarrow> (Inl e, db) | Inr prof \<Rightarrow>
      (case upsert_identity p prof (Some enc) db of (Inl e, db) \<Rightarrow> (Inl e, db) | (Inr u, db) \<Rightarrow>
      (case session_create db (us_id u) None of Inl e \<Rightarrow> (Inl (HeSession e), db) | Inr (session, db) \<Rightarrow>
         (Inr (CallbackSuccess (oh_id h) (oh_return_to h) app_code),
          mark_authorized (oh_id h) (us_id u) (as_id session) (hash_sha256_hex lb app_code) (Some enc) db))))))))))))"

record redeem_response =
  rr_access_token :: string
  rr_refresh_token :: string
  rr_user_id :: uuid
  rr_email :: string

definition redeem_session ::
  "auth_libs \<Rightarrow> oauth_handoff \<Rightarrow> auth_session \<Rightarrow> user \<Rightarrow> auth_db \<Rightarrow> (handoff_error + redeem_response) \<times> auth_db" where
  \<comment> \<open>after the checks\<close>
  "redeem_session lb h session u db =
     (case ensure_personal_org db (us_id u) (us_username u) of
        (Inl e, db) \<Rightarrow> (Inl (HeIdentity e), db)
      | (Inr _, db) \<Rightarrow>
      (let new_id = au_next_uuid db; db = db\<lparr>au_next_uuid := Suc (au_next_uuid db)\<rparr> in
       case generate_tokens lb (au_now db) session u (oh_provider h) new_id of
         Inl e \<Rightarrow> (Inl (HeJwt e), db)
       | Inr ts \<Rightarrow>
      (let db = session_touch (set_current_refresh_token db (as_id session) (tk_refresh_token_id ts)) (as_id session) in
       case mark_redeemed (oh_id h) db of
         Inl e \<Rightarrow> (Inl (HeAuthorization e), db)
       | Inr db \<Rightarrow> (Inr \<lparr>rr_access_token = tk_access_token ts, rr_refresh_token = tk_refresh_token ts,
             rr_user_id = us_id u, rr_email = us_email u\<rparr>, db))))"

definition redeem ::
  "auth_libs \<Rightarrow> auth_db \<Rightarrow> auth_db \<Rightarrow> uuid \<Rightarrow> string \<Rightarrow> string \<Rightarrow> (handoff_error + redeem_response) \<times> auth_db" where
  "redeem lb db0 db handoff_id app_code app_verifier =
     (case ensure_redeemable db0 handoff_id of Inl e \<Rightarrow> (Inl (HeAuthorization e), db) | Inr _ \<Rightarrow>
      (case handoff_find db0 handoff_id of None \<Rightarrow> (Inl (HeAuthorization HoNotFound), db) | Some h \<Rightarrow>
      (if handoff_expired (au_now db0) h
       then (Inl HeExpired, set_handoff_status (oh_id h) AuthExpired (Some ''expired'') db)
       else (case oh_app_code_hash h of None \<Rightarrow> (Inl (HeFailed ''missing_app_code''), db) | Some expected \<Rightarrow>
      (if hash_sha256_hex lb app_code \<noteq> expected then (Inl (HeFailed ''invalid_app_code''), db)
       else if hash_sha256_hex lb app_verifier \<noteq> oh_app_challenge h then (Inl (HeFailed ''invalid_app_verifier''), db)
       else (case oh_session_id h of None \<Rightarrow> (Inl (HeFailed ''missing_session''), db) | Some session_id \<Rightarrow>
      (case oh_user_id h of None \<Rightarrow> (Inl (HeFailed ''missing_user''), db) | Some user_id \<Rightarrow>
      (case session_find db0 session_id of None \<Rightarrow> (Inl (HeSession AsNotFound), db) | Some session \<Rightarrow>
      (if as_revoked_at session \<noteq> None then (Inl HeDenied, db)
       else if int max_session_inactivity < inactivity_duration session (au_now db0)
       then (Inl HeDenied, session_revoke db (as_id session))
       else (case user_find db user_id of None \<Rightarrow> (Inl (HeIdentity IdNotFound), db)
         | Some u \<Rightarrow> redeem_session lb h session u db))))))))))"

section \<open>The local login\<close>

datatype local_auth_error = LocalDisabled | LocalInvalidCredentials | LocalInternal

definition local_login ::
  "auth_libs \<Rightarrow> (string \<times> string) option \<Rightarrow> auth_db \<Rightarrow> string \<Rightarrow> string \<Rightarrow>
   (local_auth_error + (string \<times> string)) \<times> auth_db" where
  \<comment> \<open>the configured address and password\<close>
  "local_login lb cfg db email password =
     (case cfg of None \<Rightarrow> (Inl LocalDisabled, db) | Some (cfg_email, cfg_password) \<Rightarrow>
      (let normalized = str_lower (str_trim cfg_email) in
       if str_lower (str_trim email) \<noteq> normalized \<or> password \<noteq> cfg_password
       then (Inl LocalInvalidCredentials, db)
       else
        (let existing = fetch_user_by_email db normalized;
             (user_id, db) = (case existing of Some u \<Rightarrow> (us_id u, db)
                | None \<Rightarrow> (au_next_uuid db, db\<lparr>au_next_uuid := Suc (au_next_uuid db)\<rparr>));
             username = Option.bind existing us_username in
         case upsert_user db \<lparr>us_id = user_id, us_email = normalized,
                us_first_name = Option.bind existing us_first_name, us_last_name = Option.bind existing us_last_name,
                us_username = username\<rparr> of
           Inl _ \<Rightarrow> (Inl LocalInternal, db)
         | Inr (u, db) \<Rightarrow>
         (case ensure_personal_org db (us_id u) username of (Inl _, db) \<Rightarrow> (Inl LocalInternal, db) | (Inr _, db) \<Rightarrow>
         (case session_create db (us_id u) None of Inl _ \<Rightarrow> (Inl LocalInternal, db) | Inr (session, db) \<Rightarrow>
         (let new_id = au_next_uuid db; db = db\<lparr>au_next_uuid := Suc (au_next_uuid db)\<rparr> in
          case generate_tokens lb (au_now db) session u ''local'' new_id of
            Inl _ \<Rightarrow> (Inl LocalInternal, db)
          | Inr ts \<Rightarrow> (Inr (tk_access_token ts, tk_refresh_token ts),
               set_current_refresh_token db (as_id session) (tk_refresh_token_id ts))))))))"

section \<open>Errors of the routes\<close>

definition classify_handoff_error :: "handoff_error \<Rightarrow> nat \<times> string" where
  "classify_handoff_error e = (case e of
      HeUnsupportedProvider _ \<Rightarrow> (400, ''unsupported_provider'')
    | HeInvalidReturnUrl _ \<Rightarrow> (400, ''invalid_return_url'') | HeInvalidChallenge \<Rightarrow> (400, ''invalid_challenge'')
    | HeNotFound \<Rightarrow> (404, ''not_found'') | HeExpired \<Rightarrow> (410, ''expired'') | HeDenied \<Rightarrow> (403, ''access_denied'')
    | HeFailed reason \<Rightarrow> (400, reason) | HeProvider _ \<Rightarrow> (502, ''provider_error'')
    | HeIdentity _ \<Rightarrow> (500, ''internal_error'') | HeSession _ \<Rightarrow> (500, ''internal_error'')
    | HeJwt _ \<Rightarrow> (500, ''internal_error'')
    | HeAuthorization HoNotAuthorized \<Rightarrow> (410, ''not_authorized'')
    | HeAuthorization HoAlreadyRedeemed \<Rightarrow> (410, ''already_redeemed'')
    | HeAuthorization HoNotFound \<Rightarrow> (404, ''not_found''))"

definition local_auth_response :: "local_auth_error \<Rightarrow> nat \<times> string" where
  "local_auth_response e = (case e of LocalDisabled \<Rightarrow> (404, ''not_found'')
     | LocalInvalidCredentials \<Rightarrow> (401, ''invalid_credentials'') | LocalInternal \<Rightarrow> (500, ''internal_error''))"

end
