(* ===== verification/Auth_Rotation.thy ===== *)
theory Auth_Rotation
  imports Auth_Sign_In
begin

text \<open>
  Histories of requests against the sessions of the Remote server, in which other requests come
  between the questions of a handler and its write, and what every request writes: nothing but
  revocations, a new session, a first token, or rotations. The invariant says what the
  rotations leave behind.
\<close>

section \<open>Requests and histories\<close>

record auth_env =
  ae_libs :: auth_libs
  ae_registry :: provider_registry
  ae_overlap :: nat
  ae_origin :: string
  ae_parse_url :: "string \<Rightarrow> parsed_url option"
  ae_local :: "(string \<times> string) option"

datatype auth_request =
    Initiate string string string string
  | AuthorizeUrl string uuid
  | Callback string "string option" "string option" "string option" string string
  | Redeem uuid string string
  | LocalLogin string string
  | RefreshTokens string string string
  | Access string
  | Logout string
  | AuthTime nat

datatype auth_answer =
    Refreshed uuid uuid uuid timestamp  \<comment> \<open>session, token, its successor, and when the answer was decided\<close>
  | Entered uuid
  | Redeemed uuid uuid  \<comment> \<open>handoff and session\<close>

fun auth_handle :: "auth_env \<Rightarrow> auth_db \<Rightarrow> auth_db \<Rightarrow> auth_db \<Rightarrow> auth_request \<Rightarrow> auth_db" where
  "auth_handle env db0 db1 db (Initiate p r ch st) =
     snd (initiate (ae_parse_url env) (ae_registry env) (ae_origin env) st db p r ch)"
| "auth_handle env db0 db1 db (AuthorizeUrl p i) = snd (authorize_url (ae_registry env) (ae_origin env) db p i)"
| "auth_handle env db0 db1 db (Callback p st code err nonce app_code) =
     snd (handle_callback (ae_libs env) (ae_registry env) (ae_origin env) nonce app_code db0 db p st code err)"
| "auth_handle env db0 db1 db (Redeem i code ver) = snd (redeem (ae_libs env) db0 db i code ver)"
| "auth_handle env db0 db1 db (LocalLogin email pw) = snd (local_login (ae_libs env) (ae_local env) db email pw)"
| "auth_handle env db0 db1 db (RefreshTokens n1 n2 t) =
     snd (refresh_token (ae_libs env) (ae_registry env) (ae_overlap env) n1 n2 db0 db1 db t)"
| "auth_handle env db0 db1 db (Access t) = snd (request_context_from_access_token (ae_libs env) db t)"
| "auth_handle env db0 db1 db (Logout t) =
     (case request_context_from_access_token (ae_libs env) db t of
        (Inl _, db) \<Rightarrow> db | (Inr ctx, db) \<Rightarrow> snd (logout db ctx))"
| "auth_handle env db0 db1 db (AuthTime n) = db\<lparr>au_now := au_now db + n\<rparr>"

text \<open>The session that a refresh finds in the state where it succeeds: the one that it read, when
  the token was the previous one, and otherwise the one that it has rotated or read again.\<close>

fun auth_log :: "auth_env \<Rightarrow> auth_db \<Rightarrow> auth_db \<Rightarrow> auth_db \<Rightarrow> auth_request \<Rightarrow> auth_answer list" where
  "auth_log env db0 db1 db (RefreshTokens n1 n2 t) =
     (case (decode_refresh_token (ae_libs env) (au_now db0) t,
            fst (refresh_token (ae_libs env) (ae_registry env) (ae_overlap env) n1 n2 db0 db1 db t)) of
        (Inr d, Inr ts) \<Rightarrow> [Refreshed (rd_session_id d) (rd_refresh_token_id d) (tk_refresh_token_id ts)
           (if (case session_find db0 (rd_session_id d) of None \<Rightarrow> False
                | Some s \<Rightarrow> is_previous_within_grace (au_now db0) s (rd_refresh_token_id d)) then au_now db0 else au_now db)]
      | _ \<Rightarrow> [])"
| "auth_log env db0 db1 db (Access t) =
     (case fst (request_context_from_access_token (ae_libs env) db t) of
        Inr ctx \<Rightarrow> [Entered (cx_session_id ctx)] | Inl _ \<Rightarrow> [])"
| "auth_log env db0 db1 db (Redeem i code ver) =
     (case (fst (redeem (ae_libs env) db0 db i code ver), handoff_find db0 i) of
        (Inr _, Some h) \<Rightarrow> [Redeemed i (the (oh_session_id h))] | _ \<Rightarrow> [])"
| "auth_log env db0 db1 db _ = []"

type_synonym auth_event = "nat \<times> nat \<times> auth_request"  \<comment> \<open>how many states ago it read, twice\<close>

definition auth_before :: "auth_db list \<Rightarrow> nat \<Rightarrow> auth_db" where
  "auth_before h lag = h ! min lag (length h - 1)"

definition auth_step :: "auth_env \<Rightarrow> auth_db list \<Rightarrow> auth_event \<Rightarrow> auth_db list" where
  "auth_step env h e =
     auth_handle env (auth_before h (fst e)) (auth_before h (fst (snd e))) (hd h) (snd (snd e)) # h"

definition auth_run :: "auth_env \<Rightarrow> auth_db list \<Rightarrow> auth_event list \<Rightarrow> auth_db list" where
  "auth_run env = foldl (auth_step env)"

fun auth_answers :: "auth_env \<Rightarrow> auth_db list \<Rightarrow> auth_event list \<Rightarrow> auth_answer list" where
  "auth_answers env h [] = []"
| "auth_answers env h (e # es) =
     auth_log env (auth_before h (fst e)) (auth_before h (fst (snd e))) (hd h) (snd (snd e)) @
     auth_answers env (auth_step env h e) es"

section \<open>What a request writes to the sessions\<close>

definition token_view :: "auth_session \<Rightarrow> uuid \<times> uuid option \<times> uuid option \<times> timestamp option" where
  "token_view s = (as_id s, as_refresh_token_id s, as_previous_refresh_token_id s, as_previous_grace_expires_at s)"

definition quiet :: "auth_db \<Rightarrow> auth_db \<Rightarrow> bool" where
  \<comment> \<open>no token of a session changes\<close>
  "quiet db db' = (map token_view (au_sessions db') = map token_view (au_sessions db) \<and>
     list_all2 (\<lambda>s s'. as_revoked_at s \<noteq> None \<longrightarrow> as_revoked_at s' \<noteq> None) (au_sessions db) (au_sessions db') \<and>
     au_next_uuid db \<le> au_next_uuid db' \<and> au_now db \<le> au_now db')"

type_synonym rotation = "uuid \<times> uuid \<times> uuid \<times> timestamp"

inductive auth_writes :: "nat \<Rightarrow> auth_db \<Rightarrow> rotation list \<Rightarrow> auth_db \<Rightarrow> bool" for ov db where
  nothing: "auth_writes ov db [] db"
| quietly: "auth_writes ov db rs db1 \<Longrightarrow> quiet db1 db2 \<Longrightarrow> auth_writes ov db rs db2"
| create: "auth_writes ov db rs db1 \<Longrightarrow> session_create db1 u None = Inr (s, db2) \<Longrightarrow> auth_writes ov db rs db2"
| set_current: "auth_writes ov db rs db1 \<Longrightarrow>
    auth_writes ov db rs (set_current_refresh_token (db1\<lparr>au_next_uuid := Suc (au_next_uuid db1)\<rparr>) i (au_next_uuid db1))"
| rotate: "auth_writes ov db rs db1 \<Longrightarrow>
    rotate_tokens (db1\<lparr>au_next_uuid := Suc (au_next_uuid db1)\<rparr>) i t (au_next_uuid db1) ov = Inr db2 \<Longrightarrow>
    auth_writes ov db (rs @ [(i, t, au_next_uuid db1, au_now db1)]) db2"


lemma quiet_refl [simp]: "quiet db db"
  by (simp add: quiet_def list_all2_refl)

lemma quiet_same: "au_sessions db' = au_sessions db \<Longrightarrow> au_next_uuid db \<le> au_next_uuid db' \<Longrightarrow> au_now db \<le> au_now db' \<Longrightarrow> quiet db db'"
  by (simp add: quiet_def list_all2_refl)

lemma quiet_trans: "quiet db db1 \<Longrightarrow> quiet db1 db2 \<Longrightarrow> quiet db db2"
  unfolding quiet_def list_all2_conv_all_nth by simp

lemma quiet_update:
  assumes "\<And>s. P s \<Longrightarrow> token_view (f s) = token_view s \<and> (as_revoked_at s \<noteq> None \<longrightarrow> as_revoked_at (f s) \<noteq> None)"
  shows "quiet db (update_session P f db)"
  using assms
  by (auto simp: quiet_def update_session_def list_all2_conv_all_nth token_view_def)

lemma update_session_keeps [simp]:
  "au_next_uuid (update_session P f db) = au_next_uuid db" "au_now (update_session P f db) = au_now db"
  by (simp_all add: update_session_def)

lemma note_revoked_keeps [simp]:
  "au_sessions (note_revoked ts db) = au_sessions db" "au_next_uuid (note_revoked ts db) = au_next_uuid db"
  "au_now (note_revoked ts db) = au_now db"
  by (simp_all add: note_revoked_def)

lemma quiet_revoke: "quiet db (snd (revoke_sessions P db))"
proof -
  have "quiet (note_revoked (concat (map session_tokens (filter P (au_sessions db)))) db) (snd (revoke_sessions P db))"
    unfolding revoke_sessions_def by (simp, rule quiet_update) (simp add: token_view_def)
  then show ?thesis by (rule quiet_trans [OF quiet_same, rotated 3]) simp_all
qed

lemma quiet_session_revoke: "quiet db (session_revoke db i)"
  unfolding session_revoke_def by (rule quiet_update) (simp add: token_view_def)

lemma quiet_touch: "quiet db (session_touch db i)"
  unfolding session_touch_def Let_def by (rule quiet_update) (simp add: token_view_def)

lemma quiet_context_session: "quiet db (snd (request_context_from_auth_session_id db i))"
  by (simp add: request_context_from_auth_session_id_def quiet_session_revoke quiet_touch split: option.split)

lemma quiet_context: "quiet db (snd (request_context_from_access_token lb db t))"
proof (cases "decode_access_token lb (au_now db) t")
  case (Inr d)
  show ?thesis
    using quiet_context_session [of db "ad_session_id d"] Inr
    by (cases "request_context_from_auth_session_id db (ad_session_id d)")
      (simp add: request_context_from_access_token_def split: sum.split)
qed (simp add: request_context_from_access_token_def)

lemma quiet_validate: "quiet db (snd (oauth_validate lb reg n p u db))"
proof -
  have "quiet db (snd (verify_inner lb reg n p u db))"
    by (auto simp: verify_inner_def update_encrypted_provider_tokens_def intro!: quiet_same
        split: option.split sum.split token_validation_error.split)
  then show ?thesis
    using quiet_trans [OF _ quiet_revoke]
    by (auto simp: oauth_validate_def revoke_all_user_sessions_def split: prod.split sum.split oauth_token_validation_error.split)
qed

lemma validate_ok_keeps:
  assumes "oauth_validate lb reg n p u db = (Inr x, db')"
  shows "au_sessions db' = au_sessions db \<and> au_next_uuid db' = au_next_uuid db \<and> au_now db' = au_now db"
  using assms
  by (auto simp: oauth_validate_def verify_inner_def update_encrypted_provider_tokens_def
      split: prod.splits sum.splits option.splits if_splits token_validation_error.splits oauth_token_validation_error.splits)

lemma backfill_keeps:
  assumes "backfill_legacy_tokens lb n d db = Inr db'"
  shows "au_sessions db' = au_sessions db" "au_next_uuid db' = au_next_uuid db" "au_now db' = au_now db"
  using assms
  by (auto simp: backfill_legacy_tokens_def update_encrypted_provider_tokens_def split: option.splits sum.splits if_splits)

section \<open>A refresh\<close>

definition previous_in :: "auth_db \<Rightarrow> uuid \<Rightarrow> uuid \<Rightarrow> uuid \<Rightarrow> timestamp \<Rightarrow> bool" where
  "previous_in db i t c now = (now = au_now db \<and> (\<exists>s g. s \<in> set (au_sessions db) \<and> as_id s = i \<and> as_revoked_at s = None \<and>
     as_refresh_token_id s = Some c \<and> as_previous_refresh_token_id s = Some t \<and>
     as_previous_grace_expires_at s = Some g \<and> now < g))"

lemma previous_inI:
  assumes "session_find db i = Some s" "as_revoked_at s = None" "is_previous_within_grace (au_now db) s t" "as_refresh_token_id s = Some c"
  shows "previous_in db i t c (au_now db)"
  using assms tbl_find_Some [of as_id i "au_sessions db" s]
  by (auto simp: previous_in_def session_find_def is_previous_within_grace_def split: option.splits)

lemma answer_id:
  "current_session_tokens_response lb now s u p = Inr ts \<Longrightarrow> as_refresh_token_id s = Some (tk_refresh_token_id ts)"
  by (auto simp: current_session_tokens_response_def generate_tokens_for_refresh_token_id_def Let_def
      split: option.splits sum.splits)

lemma generated_id: "generate_tokens lb now s u p i = Inr ts \<Longrightarrow> tk_refresh_token_id ts = i"
  by (auto simp: generate_tokens_def generate_tokens_for_refresh_token_id_def Let_def split: sum.splits)

definition refresh_effect ::
  "nat \<Rightarrow> auth_db \<Rightarrow> auth_db \<Rightarrow> uuid \<Rightarrow> uuid \<Rightarrow> token_refresh_error + tokens \<Rightarrow> timestamp \<Rightarrow> auth_db \<Rightarrow> bool" where
  \<comment> \<open>nothing but revocations, or an answer with the successor, or a rotation\<close>
  "refresh_effect ov db0 db i t r now db' =
     (quiet db db' \<and> (\<forall>ts. r = Inr ts \<longrightarrow> previous_in db0 i t (tk_refresh_token_id ts) now \<or>
        previous_in db i t (tk_refresh_token_id ts) now) \<or>
      (\<exists>db1 ts. quiet db db1 \<and> au_now db1 = au_now db \<and> r = Inr ts \<and> now = au_now db \<and> tk_refresh_token_id ts = au_next_uuid db1 \<and>
        rotate_tokens (db1\<lparr>au_next_uuid := Suc (au_next_uuid db1)\<rparr>) i t (au_next_uuid db1) ov = Inr db'))"

lemma rotate_or_answer_effect:
  assumes "as_id session = rd_session_id d" and q: "quiet db0 db" "au_now db = au_now db0" "au_sessions db = au_sessions db0"
    and r: "rotate_or_answer lb ov d session u db = (r, db')"
  shows "refresh_effect ov db1 db0 (rd_session_id d) (rd_refresh_token_id d) r (au_now db0) db'"
proof -
  let ?db = "db\<lparr>au_next_uuid := Suc (au_next_uuid db)\<rparr>" and ?i = "rd_session_id d" and ?t = "rd_refresh_token_id d"
  have q1: "quiet db0 ?db" by (rule quiet_trans [OF q(1) quiet_same]) simp_all
  show ?thesis
  proof (cases "generate_tokens lb (au_now db) session u (rd_provider d) (au_next_uuid db)")
    case (Inl e)
    then show ?thesis using r q1 by (auto simp: rotate_or_answer_def Let_def refresh_effect_def)
  next
    case (Inr ts)
    note id = generated_id [OF Inr]
    show ?thesis
    proof (cases "rotate_tokens ?db ?i ?t (au_next_uuid db) ov")
      case (Inr db2)
      then have "r = Inr ts" "db' = db2" using r \<open>generate_tokens _ _ _ _ _ _ = _\<close> assms(1)
        by (simp_all add: rotate_or_answer_def Let_def)
      then show ?thesis using q(1,2) Inr id unfolding refresh_effect_def by blast
    next
      case (Inl e)
      have quiet_answer: "refresh_effect ov db1 db0 ?i ?t r (au_now db0) db'"
        if "isl r" "quiet ?db db'" using that quiet_trans [OF q1] by (auto simp: refresh_effect_def)
      show ?thesis
      proof (cases "session_find ?db ?i")
        case None
        then show ?thesis using r Inl Inr assms(1) quiet_answer by (auto simp: rotate_or_answer_def Let_def)
      next
        case (Some latest)
        have find: "session_find db0 ?i = Some latest" using Some q(3) by (simp add: session_find_def)
        show ?thesis
        proof (cases "as_revoked_at latest = None \<and> is_previous_within_grace (au_now db) latest ?t")
          case True
          then have r': "r = current_session_tokens_response lb (au_now db) latest (us_id u) (rd_provider d)" "db' = ?db"
            using r Inl Inr assms(1) Some by (simp_all add: rotate_or_answer_def Let_def)
          have "previous_in db0 ?i ?t (tk_refresh_token_id x) (au_now db0)" if "r = Inr x" for x
            using previous_inI [OF find] True answer_id [of lb _ latest] that r'(1) q(2) by auto
          then show ?thesis using q1 r'(2) by (auto simp: refresh_effect_def)
        next
          case False
          then have "r = Inl TrTokenReuseDetected \<and> db' = snd (revoke_auth_session ?db ?i)"
            using r Inl Inr assms(1) Some by (auto simp: rotate_or_answer_def Let_def)
          then show ?thesis using quiet_answer quiet_revoke by (simp add: revoke_auth_session_def)
        qed
      qed
    qed
  qed
qed


lemma refresh_checked_effect:
  assumes find: "session_find db0 (rd_session_id d) = Some session" and live: "as_revoked_at session = None"
    and prev: "p = is_previous_within_grace (au_now db0) session (rd_refresh_token_id d)"
    and r: "refresh_checked lb reg ov n1 n2 d session p db = (r, db')"
  shows "refresh_effect ov db0 db (rd_session_id d) (rd_refresh_token_id d) r (if p then au_now db0 else au_now db) db'"
proof (cases "backfill_legacy_tokens lb n1 d db")
  case (Inl e)
  then show ?thesis using r by (auto simp: refresh_checked_def refresh_effect_def)
next
  case (Inr db1)
  note kept = backfill_keeps [OF Inr]
  have q1: "quiet db db1" using kept by (intro quiet_same) simp_all
  define v where "v = (if is_local_provider (rd_provider d) then (Inr (), db1)
    else oauth_validate lb reg n2 (rd_provider d) (rd_user_id d) db1)"
  have q2: "quiet db1 (snd v)" by (simp add: v_def quiet_validate)
  have checked: "(r, db') = (case v of (Inl e, db) \<Rightarrow> (Inl (validation_refresh_error e), db)
     | (Inr _, db) \<Rightarrow> (case user_find db (rd_user_id d) of None \<Rightarrow> (Inl (TrIdentity IdNotFound), db) | Some u \<Rightarrow>
       (if p then (current_session_tokens_response lb (au_now db) session (us_id u) (rd_provider d), db)
        else rotate_or_answer lb ov d session u db)))"
    using r Inr by (simp add: refresh_checked_def v_def)
  show ?thesis
  proof (cases "fst v")
    case (Inl e)
    then obtain db2 where "v = (Inl e, db2)" by (cases v) simp
    then show ?thesis using checked quiet_trans [OF q1 q2] by (simp add: refresh_effect_def)
  next
    case (Inr x)
    then obtain db2 where v: "v = (Inr x, db2)" by (cases v) simp
    then have keeps: "au_sessions db2 = au_sessions db" "au_now db2 = au_now db" "au_next_uuid db2 = au_next_uuid db"
      using kept validate_ok_keeps by (auto simp: v_def split: if_splits)
    have q: "quiet db db2" using quiet_trans [OF q1 q2] v by simp
    note checked = checked [unfolded v, simplified]
    have id: "as_id session = rd_session_id d" using tbl_find_Some [OF find [unfolded session_find_def]] by simp
    show ?thesis
    proof (cases "user_find db2 (rd_user_id d)")
      case None
      then show ?thesis using checked q by (simp add: refresh_effect_def)
    next
      case (Some u)
      show ?thesis
      proof (cases p)
        case True
        then have "r = current_session_tokens_response lb (au_now db2) session (us_id u) (rd_provider d)" "db' = db2"
          using checked Some by simp_all
        then show ?thesis using q True prev answer_id previous_inI [OF find live] by (auto simp: refresh_effect_def)
      next
        case False
        then show ?thesis using rotate_or_answer_effect [OF id q keeps(2,1)] checked Some by simp
      qed
    qed
  qed
qed

lemma refresh_token_effect:
  assumes r: "refresh_token lb reg ov n1 n2 db0 db1 db t = (r, db')"
  shows "(quiet db db' \<and> isl r) \<or>
    (\<exists>d s. decode_refresh_token lb (au_now db0) t = Inr d \<and> session_find db0 (rd_session_id d) = Some s \<and>
       as_revoked_at s = None \<and>
       refresh_effect ov db0 db (rd_session_id d) (rd_refresh_token_id d) r
         (if is_previous_within_grace (au_now db0) s (rd_refresh_token_id d) then au_now db0 else au_now db) db')"
proof (cases "decode_refresh_token lb (au_now db0) t")
  case (Inl e)
  then show ?thesis using r by (auto simp: refresh_token_def split: jwt_error.splits)
next
  case (Inr d)
  show ?thesis
  proof (cases "session_find db0 (rd_session_id d)")
    case None
    then show ?thesis using r Inr by (auto simp: refresh_token_def)
  next
    case (Some s)
    show ?thesis
    proof (cases "as_revoked_at s = None")
      case True
      show ?thesis
        using r Inr Some True refresh_checked_effect [OF Some True refl] quiet_revoke
        by (auto simp: refresh_token_def revoke_auth_session_def Let_def split: if_splits)
    qed (use r Inr Some in \<open>auto simp: refresh_token_def\<close>)
  qed
qed

section \<open>Every request\<close>

definition log_ok :: "auth_db \<Rightarrow> auth_db \<Rightarrow> rotation list \<Rightarrow> auth_answer list \<Rightarrow> bool" where
  "log_ok db0 db rs as = (\<forall>i t c \<tau>. Refreshed i t c \<tau> \<in> set as \<longrightarrow>
     (i, t, c, \<tau>) \<in> set rs \<or> previous_in db0 i t c \<tau> \<or> previous_in db i t c \<tau>)"

lemma quiet_writes: "quiet db db' \<Longrightarrow> auth_writes ov db [] db'"
  by (rule auth_writes.quietly [OF auth_writes.nothing])

lemma personal_org_quiet: "quiet db (snd (ensure_personal_org db u h))"
  by (auto simp: ensure_personal_org_def Let_def intro!: quiet_same split: prod.split)

lemma upsert_identity_keeps:
  assumes "upsert_identity p prof enc db = (r, db')"
  shows "quiet db db'"
  using assms
  by (auto simp: upsert_identity_def upsert_user_def ensure_personal_org_def account_upsert_def Let_def
      intro!: quiet_same split: option.splits sum.splits prod.splits if_splits)

lemma update_handoff_quiet: "quiet db (update_handoff i f db)"
  by (simp add: update_handoff_def quiet_same)

lemma set_status_quiet: "quiet db (set_handoff_status i s c db)"
  by (simp add: set_handoff_status_def update_handoff_quiet)

lemma mark_redeemed_quiet: "mark_redeemed i db = Inr db' \<Longrightarrow> quiet db db'"
  by (auto simp: mark_redeemed_def update_handoff_quiet split: if_splits)


lemma initiate_quiet: "quiet db (snd (initiate pu reg og st db p r ch))"
  by (auto simp: initiate_def handoff_create_def Let_def intro!: quiet_same split: option.split)

lemma authorize_url_quiet: "quiet db (snd (authorize_url reg og db p i))"
  by (auto simp: authorize_url_def set_status_quiet split: option.split sum.split)

lemma callback_writes: "auth_writes ov db [] (snd (handle_callback lb reg og n ac db0 db p st c e))"
proof -
  have entered: "auth_writes ov db [] (mark_authorized i (us_id u) (as_id s) hc enc db2)"
    if "upsert_identity pr prof en db = (Inr u, db1)" "session_create db1 (us_id u) None = Inr (s, db2)"
    for pr prof en u db1 s db2 i hc enc
    using auth_writes.create [OF quiet_writes [OF upsert_identity_keeps [OF that(1)]] that(2)]
    by (rule auth_writes.quietly) (simp add: mark_authorized_def update_handoff_quiet)
  show ?thesis
    unfolding handle_callback_def
    by (simp add: quiet_writes set_status_quiet split: option.split sum.split prod.split)
      (auto intro: entered quiet_writes upsert_identity_keeps)
qed

lemma redeem_session_writes:
  assumes "redeem_session lb h s u db = (r, db')"
  shows "auth_writes ov db [] db'"
proof -
  obtain e od where org: "ensure_personal_org db (us_id u) (us_username u) = (e, od)" by fastforce
  then have q: "quiet db od" using personal_org_quiet [of db "us_id u" "us_username u"] by simp
  let ?od = "od\<lparr>au_next_uuid := Suc (au_next_uuid od)\<rparr>"
  have q': "quiet db ?od" by (rule quiet_trans [OF q quiet_same]) simp_all
  let ?set = "set_current_refresh_token ?od (as_id s) (au_next_uuid od)"
  have "auth_writes ov db [] ?set" by (rule auth_writes.set_current [OF quiet_writes [OF q]])
  then have w: "auth_writes ov db [] (session_touch ?set (as_id s))" by (rule auth_writes.quietly) (rule quiet_touch)
  show ?thesis
    using assms org q q' w auth_writes.quietly [OF w mark_redeemed_quiet] generated_id
    by (auto simp: redeem_session_def Let_def intro: quiet_writes split: sum.splits)
qed

lemma redeem_writes: "auth_writes ov db [] (snd (redeem lb db0 db i c v))"
  unfolding redeem_def
  using redeem_session_writes [OF surjective_pairing]
  by (simp add: quiet_writes set_status_quiet quiet_session_revoke split: option.split sum.split)

lemma local_login_writes: "auth_writes ov db [] (snd (local_login lb cfg db email pw))"
proof -
  have upsert: "quiet db db'" if "upsert_user db u = Inr (w, db')" for db u w db'
    using that by (auto simp: upsert_user_def intro!: quiet_same split: if_splits)
  have fresh: "quiet db (db\<lparr>au_next_uuid := Suc (au_next_uuid db)\<rparr>)" for db by (rule quiet_same) simp_all
  have entered: "auth_writes ov db [] (set_current_refresh_token (db4\<lparr>au_next_uuid := Suc (au_next_uuid db4)\<rparr>) i t)"
      "auth_writes ov db [] (db4\<lparr>au_next_uuid := Suc (au_next_uuid db4)\<rparr>)"
    if "quiet db db1" "session_create db1 w None = Inr (s, db4)" "t = au_next_uuid db4" for db1 w s db4 i t
    using auth_writes.create [OF quiet_writes [OF that(1)] that(2)] that(3)
    by (auto intro: auth_writes.set_current auth_writes.quietly fresh)
  have run: "auth_writes ov db [] (snd (case upsert_user db0 u of Inl _ \<Rightarrow> (Inl LocalInternal, db0)
       | Inr (u, db) \<Rightarrow>
         (case ensure_personal_org db (us_id u) n of (Inl _, db) \<Rightarrow> (Inl LocalInternal, db) | (Inr _, db) \<Rightarrow>
         (case session_create db (us_id u) None of Inl _ \<Rightarrow> (Inl LocalInternal, db) | Inr (session, db) \<Rightarrow>
          (let new_id = au_next_uuid db; db = db\<lparr>au_next_uuid := Suc (au_next_uuid db)\<rparr> in
           case generate_tokens lb (au_now db) session u ''local'' new_id of
             Inl _ \<Rightarrow> (Inl LocalInternal, db)
           | Inr ts \<Rightarrow> (Inr (tk_access_token ts, tk_refresh_token ts),
                set_current_refresh_token db (as_id session) (tk_refresh_token_id ts)))))))"
    if q0: "quiet db db0" for db0 u n
  proof (cases "upsert_user db0 u")
    case (Inr r)
    then obtain w db1 where up: "upsert_user db0 u = Inr (w, db1)" by (cases r) auto
    obtain e db2 where pers: "ensure_personal_org db1 (us_id w) n = (e, db2)" by fastforce
    have q2: "quiet db db2" using quiet_trans [OF quiet_trans [OF q0 upsert [OF up]] personal_org_quiet [of db1 "us_id w" n]] pers by simp
    show ?thesis
      using up pers entered [OF q2] generated_id
      by (cases e; cases "session_create db2 (us_id w) None")
        (auto simp: quiet_writes [OF q2] Let_def split: prod.split sum.split)
  qed (simp add: quiet_writes q0)
  show ?thesis
    unfolding local_login_def
    by (auto simp: Let_def quiet_writes run fresh split: option.split)
qed

lemma rotation_writes:
  assumes "refresh_effect ov db0 db i t r now db'"
  shows "\<exists>rs. auth_writes ov db rs db' \<and> (\<forall>ts. r = Inr ts \<longrightarrow> (i, t, tk_refresh_token_id ts, now) \<in> set rs \<or>
    previous_in db0 i t (tk_refresh_token_id ts) now \<or> previous_in db i t (tk_refresh_token_id ts) now)"
  using assms unfolding refresh_effect_def
proof (elim disjE exE conjE)
  fix db1 ts
  assume "quiet db db1" "au_now db1 = au_now db" "r = Inr ts" "now = au_now db" "tk_refresh_token_id ts = au_next_uuid db1"
    and rot: "rotate_tokens (db1\<lparr>au_next_uuid := Suc (au_next_uuid db1)\<rparr>) i t (au_next_uuid db1) ov = Inr db'"
  then show ?thesis
    using auth_writes.rotate [OF quiet_writes rot]
    by (intro exI [of _ "[(i, t, au_next_uuid db1, au_now db)]"]) auto
qed (use quiet_writes in blast)


lemma logout_quiet: "quiet db (snd (logout db ctx))"
  by (simp add: logout_def quiet_session_revoke)

lemma log_ok_Nil [simp]: "log_ok db0 db rs []"
  by (simp add: log_ok_def)

lemma handle_writes:
  "\<exists>rs. auth_writes (ae_overlap env) db rs (auth_handle env db0 db1 db q) \<and>
     log_ok db0 db rs (auth_log env db0 db1 db q)"
proof (cases q)
  case (RefreshTokens n1 n2 t)
  obtain r db' where r: "refresh_token (ae_libs env) (ae_registry env) (ae_overlap env) n1 n2 db0 db1 db t = (r, db')"
    by fastforce
  show ?thesis
    using refresh_token_effect [OF r]
  proof (elim disjE exE conjE)
    assume "quiet db db'" "isl r"
    then show ?thesis using RefreshTokens r quiet_writes by (auto simp: isl_def split: sum.split)
  next
    fix d s
    assume d: "decode_refresh_token (ae_libs env) (au_now db0) t = Inr d" "session_find db0 (rd_session_id d) = Some s"
      and eff: "refresh_effect (ae_overlap env) db0 db (rd_session_id d) (rd_refresh_token_id d) r
         (if is_previous_within_grace (au_now db0) s (rd_refresh_token_id d) then au_now db0 else au_now db) db'"
    from rotation_writes [OF eff] show ?thesis
      using RefreshTokens r d by (auto simp: log_ok_def split: sum.split)
  qed
next
  case (Callback p st code err nonce app_code)
  then show ?thesis by (auto intro!: exI [of _ "[]"] callback_writes)
next
  case (Redeem i code ver)
  then show ?thesis by (auto intro!: exI [of _ "[]"] redeem_writes simp: log_ok_def split: sum.split option.split)
next
  case (LocalLogin email pw)
  then show ?thesis by (auto intro!: exI [of _ "[]"] local_login_writes)
next
  case (Access t)
  then show ?thesis
    by (auto intro!: exI [of _ "[]"] quiet_writes [OF quiet_context] simp: log_ok_def split: sum.split)
next
  case (Logout t)
  have "quiet db (auth_handle env db0 db1 db q)"
    using Logout quiet_context [of db "ae_libs env" t] logout_quiet quiet_trans
    by (auto split: prod.split sum.split)
  then show ?thesis using Logout quiet_writes by auto
next
  case (AuthTime n)
  have "quiet db (db\<lparr>au_now := au_now db + n\<rparr>)" by (rule quiet_same) simp_all
  then show ?thesis using AuthTime quiet_writes by auto
qed (auto intro!: exI [of _ "[]"] quiet_writes initiate_quiet authorize_url_quiet)

section \<open>What the rotations leave in the sessions\<close>

type_synonym token_row = "uuid \<times> uuid option \<times> uuid option \<times> timestamp option"

definition row_ok :: "nat \<Rightarrow> rotation list \<Rightarrow> uuid \<Rightarrow> timestamp \<Rightarrow> token_row \<Rightarrow> bool" where
  \<comment> \<open>the current token has been generated; the previous one has been rotated into it and is good for the overlap\<close>
  "row_ok ov R n now v = (case v of (i, cur, prev, g) \<Rightarrow>
     (\<forall>c. cur = Some c \<longrightarrow> c < n) \<and>
     (\<forall>p. prev = Some p \<longrightarrow> (\<exists>c t. cur = Some c \<and> g = Some (t + ov) \<and> t \<le> now \<and> (i, p, c, t) \<in> set R)))"

definition rotated_ok :: "uuid \<Rightarrow> timestamp \<Rightarrow> token_row set \<Rightarrow> rotation \<Rightarrow> bool" where
  \<comment> \<open>a rotated token is never current again\<close>
  "rotated_ok n now V r = (case r of (i, t, c, \<tau>) \<Rightarrow>
     t < n \<and> \<tau> \<le> now \<and> (\<forall>prev g. (i, Some t, prev, g) \<notin> V))"

definition auth_inv :: "nat \<Rightarrow> rotation list \<Rightarrow> auth_db \<Rightarrow> bool" where
  "auth_inv ov R db = (let V = token_view ` set (au_sessions db) in
     (\<forall>v \<in> V. row_ok ov R (au_next_uuid db) (au_now db) v) \<and>
     (\<forall>r \<in> set R. rotated_ok (au_next_uuid db) (au_now db) V r) \<and>
     distinct (map (\<lambda>(i, t, _). (i, t)) R))"

lemma row_ok_mono:
  "row_ok ov R n now v \<Longrightarrow> set R \<subseteq> set R' \<Longrightarrow> n \<le> n' \<Longrightarrow> now \<le> now' \<Longrightarrow> row_ok ov R' n' now' v"
  unfolding row_ok_def by (cases v) (fastforce intro: less_le_trans order_trans)

lemma rotated_ok_mono:
  assumes r: "rotated_ok n now V r" and le: "n \<le> n'" "now \<le> now'"
    and rows: "\<And>s c. s \<in> S \<Longrightarrow> as_refresh_token_id s = Some c \<Longrightarrow> c < n \<Longrightarrow> \<exists>p h. (as_id s, Some c, p, h) \<in> V"
  shows "rotated_ok n' now' (token_view ` S) r"
proof -
  obtain i t c \<tau> where [simp]: "r = (i, t, c, \<tau>)" by (cases r)
  have "\<forall>s \<in> S. as_id s = i \<longrightarrow> as_refresh_token_id s \<noteq> Some t"
    using rows [of _ t] r unfolding rotated_ok_def by auto
  then show ?thesis using r le by (auto simp: rotated_ok_def token_view_def)
qed

lemma auth_inv_step:
  assumes inv: "auth_inv ov R db" and mono: "au_next_uuid db \<le> au_next_uuid db'" "au_now db \<le> au_now db'"
    and rows: "\<And>s. s \<in> set (au_sessions db') \<Longrightarrow>
      token_view s \<in> token_view ` set (au_sessions db) \<or>
      (row_ok ov R (au_next_uuid db') (au_now db') (token_view s) \<and>
       (\<forall>c. as_refresh_token_id s = Some c \<longrightarrow> au_next_uuid db \<le> c))"
  shows "auth_inv ov R db'"
  unfolding auth_inv_def Let_def
proof (intro conjI ballI)
  fix v assume "v \<in> token_view ` set (au_sessions db')"
  then obtain s where s: "s \<in> set (au_sessions db')" "v = token_view s" by auto
  show "row_ok ov R (au_next_uuid db') (au_now db') v"
    using rows [OF s(1)] inv row_ok_mono [OF _ subset_refl mono, of ov R "token_view s"]
    unfolding auth_inv_def Let_def s(2) by (metis (no_types, lifting))
next
  fix r assume "r \<in> set R"
  then have "rotated_ok (au_next_uuid db) (au_now db) (token_view ` set (au_sessions db)) r"
    using inv by (simp add: auth_inv_def Let_def)
  then show "rotated_ok (au_next_uuid db') (au_now db') (token_view ` set (au_sessions db')) r"
    by (rule rotated_ok_mono [OF _ mono]) (use rows in \<open>fastforce simp: token_view_def\<close>)
qed (use inv in \<open>simp add: auth_inv_def Let_def\<close>)

lemma quiet_views: "quiet db db' \<Longrightarrow> token_view ` set (au_sessions db') = token_view ` set (au_sessions db)"
  unfolding quiet_def by (metis set_map)

lemma auth_inv_quiet:
  assumes q: "quiet db db'" and inv: "auth_inv ov R db"
  shows "auth_inv ov R db'"
  by (rule auth_inv_step [OF inv], use q quiet_views [OF q] in \<open>auto simp: quiet_def\<close>)

lemma auth_inv_create:
  assumes c: "session_create db u None = Inr (s, db')" and inv: "auth_inv ov R db"
  shows "auth_inv ov R db'"
proof (rule auth_inv_step [OF inv])
  have db': "au_sessions db' = au_sessions db @ [s]" "token_view s = (au_next_uuid db, None, None, None)"
    "au_next_uuid db \<le> au_next_uuid db'" "au_now db' = au_now db"
    using c by (auto simp: session_create_def Let_def token_view_def split: if_splits)
  then show "au_next_uuid db \<le> au_next_uuid db'" "au_now db \<le> au_now db'" by simp_all
  show "token_view r \<in> token_view ` set (au_sessions db) \<or>
      row_ok ov R (au_next_uuid db') (au_now db') (token_view r) \<and>
      (\<forall>c. as_refresh_token_id r = Some c \<longrightarrow> au_next_uuid db \<le> c)" if "r \<in> set (au_sessions db')" for r
    using that db' by (auto simp: row_ok_def) (simp add: token_view_def)
qed

lemma token_view_used [simp]: "token_view (s\<lparr>as_last_used_at := t\<rparr>) = token_view s"
  by (simp add: token_view_def)

lemma auth_inv_set_current:
  "auth_inv ov R db \<Longrightarrow>
   auth_inv ov R (set_current_refresh_token (db\<lparr>au_next_uuid := Suc (au_next_uuid db)\<rparr>) i (au_next_uuid db))"
  by (rule auth_inv_step [where db = db])
    (auto simp: set_current_refresh_token_def update_session_def row_ok_def token_view_def)

lemma auth_inv_rotate:
  assumes r: "rotate_tokens (db\<lparr>au_next_uuid := Suc (au_next_uuid db)\<rparr>) i t (au_next_uuid db) ov = Inr db'"
    and inv: "auth_inv ov R db"
  shows "auth_inv ov (R @ [(i, t, au_next_uuid db, au_now db)]) db'"
proof -
  let ?R = "R @ [(i, t, au_next_uuid db, au_now db)]"
  have s': "au_sessions db' = map (\<lambda>s. if as_id s = i \<and> as_refresh_token_id s = Some t
      then s\<lparr>as_refresh_token_id := Some (au_next_uuid db), as_refresh_token_issued_at := Some (au_now db),
        as_previous_refresh_token_id := Some t, as_previous_grace_expires_at := Some (au_now db + ov),
        as_last_used_at := Some (au_now db)\<rparr> else s) (au_sessions db)"
    and n': "au_next_uuid db' = Suc (au_next_uuid db)" "au_now db' = au_now db"
    and found: "\<exists>s \<in> set (au_sessions db). as_id s = i \<and> as_refresh_token_id s = Some t"
    using r by (auto simp: rotate_tokens_def update_session_def find_Some_iff split: option.splits intro: nth_mem)
  have new: "t < au_next_uuid db" "(i, t) \<notin> (\<lambda>(i, t, _). (i, t)) ` set R"
    using found inv unfolding auth_inv_def Let_def row_ok_def rotated_ok_def
    by (fastforce simp: token_view_def image_iff)+
  have "auth_inv ov R db" by (rule inv)
  show ?thesis
    unfolding auth_inv_def Let_def
  proof (intro conjI ballI)
    fix v assume "v \<in> token_view ` set (au_sessions db')"
    then obtain s where "s \<in> set (au_sessions db)" "v = token_view s \<or>
        v = (i, Some (au_next_uuid db), Some t, Some (au_now db + ov))"
      unfolding s' by (auto simp: token_view_def split: if_splits)
    moreover have "row_ok ov ?R (au_next_uuid db') (au_now db') (token_view s)" if "s \<in> set (au_sessions db)" for s
      using inv that n' by (intro row_ok_mono [of ov R "au_next_uuid db" "au_now db" "token_view s" ?R])
        (auto simp: auth_inv_def Let_def)
    moreover have "row_ok ov ?R (au_next_uuid db') (au_now db') (i, Some (au_next_uuid db), Some t, Some (au_now db + ov))"
      using n' by (auto simp: row_ok_def)
    ultimately show "row_ok ov ?R (au_next_uuid db') (au_now db') v" by metis
  next
    fix r assume "r \<in> set ?R"
    then consider "r \<in> set R" | "r = (i, t, au_next_uuid db, au_now db)" by auto
    then show "rotated_ok (au_next_uuid db') (au_now db') (token_view ` set (au_sessions db')) r"
    proof cases
      case 1
      then have "rotated_ok (au_next_uuid db) (au_now db) (token_view ` set (au_sessions db)) r"
        using inv by (simp add: auth_inv_def Let_def)
      then show ?thesis
      proof (rule rotated_ok_mono)
        fix s k assume "s \<in> set (au_sessions db')" "as_refresh_token_id s = Some k" "k < au_next_uuid db"
        then have "s \<in> set (au_sessions db)" by (auto simp: s' split: if_splits)
        from imageI [OF this, of token_view]
        show "\<exists>p h. (as_id s, Some k, p, h) \<in> token_view ` set (au_sessions db)"
          using \<open>as_refresh_token_id s = _\<close> unfolding token_view_def by auto
      qed (use n' in simp_all)
    next
      case 2
      have "\<forall>s \<in> set (au_sessions db'). as_id s = i \<longrightarrow> as_refresh_token_id s \<noteq> Some t"
        unfolding s' set_map ball_simps using new(1) by (intro ballI) simp
      then have "(i, Some t, prev, g) \<notin> token_view ` set (au_sessions db')" for prev g
        by (auto simp: token_view_def)
      then show ?thesis using new(1) n' by (simp add: 2 rotated_ok_def)
    qed
  next
    show "distinct (map (\<lambda>(i, t, _). (i, t)) ?R)"
      using inv new(2) by (simp add: auth_inv_def Let_def)
  qed
qed

lemma auth_inv_writes: "auth_writes ov db rs db' \<Longrightarrow> auth_inv ov R db \<Longrightarrow> auth_inv ov (R @ rs) db'"
proof (induction rule: auth_writes.induct)
  case (rotate rs db1 i t db2)
  then show ?case using auth_inv_rotate [OF rotate.hyps(2), of "R @ rs"] by simp
qed (simp_all add: auth_inv_quiet auth_inv_create auth_inv_set_current)


section \<open>Histories\<close>

lemma auth_before_in: "h \<noteq> [] \<Longrightarrow> auth_before h l \<in> set h"
  unfolding auth_before_def by (rule nth_mem) (simp add: min_less_iff_disj)

lemma auth_run_not_empty: "h \<noteq> [] \<Longrightarrow> auth_run env h es \<noteq> []"
  by (induction es arbitrary: h) (simp_all add: auth_run_def auth_step_def)

definition grace_ok :: "nat \<Rightarrow> rotation list \<Rightarrow> auth_db \<Rightarrow> bool" where
  "grace_ok ov R db = (\<forall>i t c now. previous_in db i t c now \<longrightarrow>
     (\<exists>\<tau>. (i, t, c, \<tau>) \<in> set R \<and> \<tau> \<le> now \<and> now < \<tau> + ov))"

lemma auth_inv_grace: "auth_inv ov R db \<Longrightarrow> grace_ok ov R db"
  unfolding auth_inv_def Let_def row_ok_def grace_ok_def previous_in_def token_view_def by fastforce

lemma grace_ok_mono: "grace_ok ov R db \<Longrightarrow> set R \<subseteq> set R' \<Longrightarrow> grace_ok ov R' db"
  unfolding grace_ok_def by blast

definition logged :: "nat \<Rightarrow> rotation list \<Rightarrow> auth_answer list \<Rightarrow> bool" where
  \<comment> \<open>every answer to a refresh gives the successor of the token, within the overlap\<close>
  "logged ov R as = (\<forall>i t c now. Refreshed i t c now \<in> set as \<longrightarrow>
     (\<exists>\<tau>. (i, t, c, \<tau>) \<in> set R \<and> \<tau> \<le> now \<and> now \<le> \<tau> + ov))"

lemma auth_step_inv:
  assumes h: "h \<noteq> []" "auth_inv (ae_overlap env) R (hd h)" "\<forall>db \<in> set h. grace_ok (ae_overlap env) R db"
  shows "\<exists>rs. auth_inv (ae_overlap env) (R @ rs) (hd (auth_step env h e)) \<and>
    (\<forall>db \<in> set (auth_step env h e). grace_ok (ae_overlap env) (R @ rs) db) \<and>
    logged (ae_overlap env) (R @ rs)
      (auth_log env (auth_before h (fst e)) (auth_before h (fst (snd e))) (hd h) (snd (snd e)))"
proof -
  let ?db0 = "auth_before h (fst e)" and ?db1 = "auth_before h (fst (snd e))"
  obtain rs where rs: "auth_writes (ae_overlap env) (hd h) rs (auth_handle env ?db0 ?db1 (hd h) (snd (snd e)))"
    and log: "log_ok ?db0 (hd h) rs (auth_log env ?db0 ?db1 (hd h) (snd (snd e)))"
    using handle_writes by blast
  have inv: "auth_inv (ae_overlap env) (R @ rs) (hd (auth_step env h e))"
    using auth_inv_writes [OF rs h(2)] by (simp add: auth_step_def)
  have grace: "grace_ok (ae_overlap env) (R @ rs) db" if "db \<in> set (auth_step env h e)" for db
    using that auth_inv_grace [OF inv] h(3) grace_ok_mono by (fastforce simp: auth_step_def)
  have "\<exists>\<tau>. (i, t, c, \<tau>) \<in> set (R @ rs) \<and> \<tau> \<le> now \<and> now \<le> \<tau> + ae_overlap env"
    if "Refreshed i t c now \<in> set (auth_log env ?db0 ?db1 (hd h) (snd (snd e)))" for i t c now
  proof -
    have "(i, t, c, now) \<in> set rs \<or> (\<exists>db \<in> set h. previous_in db i t c now)"
      using that log auth_before_in [OF h(1), of "fst e"] h(1) unfolding log_ok_def by (metis hd_in_set)
    then show ?thesis using h(3) unfolding grace_ok_def by (metis UnCI less_imp_le le_add1 order_refl set_append)
  qed
  then show ?thesis
    using inv grace by (intro exI [of _ rs] conjI ballI) (auto simp: logged_def)
qed

lemma logged_mono: "logged ov R as \<Longrightarrow> set R \<subseteq> set R' \<Longrightarrow> logged ov R' as"
  unfolding logged_def by blast

lemma auth_run_inv:
  assumes "h \<noteq> []" "auth_inv (ae_overlap env) R (hd h)" "\<forall>db \<in> set h. grace_ok (ae_overlap env) R db"
  shows "\<exists>rs. auth_inv (ae_overlap env) (R @ rs) (hd (auth_run env h es)) \<and>
    (\<forall>db \<in> set (auth_run env h es). grace_ok (ae_overlap env) (R @ rs) db) \<and>
    logged (ae_overlap env) (R @ rs) (auth_answers env h es)"
  using assms
proof (induction es arbitrary: h R)
  case Nil
  then show ?case by (intro exI [of _ "[]"]) (simp add: auth_run_def logged_def)
next
  case (Cons e es)
  obtain rs where rs: "auth_inv (ae_overlap env) (R @ rs) (hd (auth_step env h e))"
      "\<forall>db \<in> set (auth_step env h e). grace_ok (ae_overlap env) (R @ rs) db"
      "logged (ae_overlap env) (R @ rs)
        (auth_log env (auth_before h (fst e)) (auth_before h (fst (snd e))) (hd h) (snd (snd e)))"
    using auth_step_inv [OF Cons.prems, of e] by blast
  have "auth_step env h e \<noteq> []" by (simp add: auth_step_def)
  from Cons.IH [OF this rs(1,2)] obtain rs' where
    rs': "auth_inv (ae_overlap env) (R @ rs @ rs') (hd (auth_run env (auth_step env h e) es))"
      "\<forall>db \<in> set (auth_run env (auth_step env h e) es). grace_ok (ae_overlap env) (R @ rs @ rs') db"
      "logged (ae_overlap env) (R @ rs @ rs') (auth_answers env (auth_step env h e) es)"
    by auto
  have "logged (ae_overlap env) (R @ rs @ rs')
      (auth_log env (auth_before h (fst e)) (auth_before h (fst (snd e))) (hd h) (snd (snd e)))"
    by (rule logged_mono [OF rs(3)]) auto
  then show ?case
    using rs' by (intro exI [of _ "rs @ rs'"]) (auto simp: auth_run_def logged_def)
qed

lemma fresh_run_inv:
  assumes "au_sessions db = []"
  obtains R where "auth_inv (ae_overlap env) R (hd (auth_run env [db] es))"
    "logged (ae_overlap env) R (auth_answers env [db] es)"
proof -
  have "auth_inv (ae_overlap env) [] db" using assms by (simp add: auth_inv_def)
  then show thesis
    using auth_run_inv [of "[db]" env "[]" es] auth_inv_grace that by auto
qed

end
