(* ===== verification/Auth_Props.thy ===== *)
theory Auth_Props
  imports Auth_Rotation "HOL-Library.Code_Target_Nat"
begin

text \<open>
  What the sessions of the Remote server guarantee under any requests, when other requests come
  between the questions of a handler and its write: a refresh token has one successor and is good
  for the overlap only, a replay revokes its session, a revoked session stays closed, and signing
  in takes the code and the verifier.
\<close>

section \<open>Successors\<close>

text \<open>C18: A refresh token has one successor. Starting with no sessions, whatever requests are
  handled in whatever order, with reads that lag behind the writes of others: two successful
  refreshes with the same token of the same session answer the same successor, and the later of
  the two is decided at most the overlap after the earlier one.\<close>

theorem refresh_has_one_successor:
  assumes "au_sessions db = []"
    and "Refreshed i t c \<tau> \<in> set (auth_answers env [db] es)"
    and "Refreshed i t c' \<tau>' \<in> set (auth_answers env [db] es)"
  shows "c = c' \<and> \<tau>' \<le> \<tau> + ae_overlap env"
proof -
  obtain R where R: "auth_inv (ae_overlap env) R (hd (auth_run env [db] es))"
    "logged (ae_overlap env) R (auth_answers env [db] es)"
    by (rule fresh_run_inv [OF assms(1)])
  obtain s s' where s: "(i, t, c, s) \<in> set R" "s \<le> \<tau>" "(i, t, c', s') \<in> set R" "\<tau>' \<le> s' + ae_overlap env"
    using R(2) assms(2,3) unfolding logged_def by blast
  have "distinct (map (\<lambda>(i, t, _). (i, t)) R)" using R(1) by (simp add: auth_inv_def Let_def)
  then have "inj_on (\<lambda>(i, t, _). (i, t)) (set R)" by (simp add: distinct_map)
  then have "(i, t, c, s) = (i, t, c', s')" by (rule inj_onD [OF _ _ s(1,3)]) simp
  then show ?thesis using s(2,4) by simp
qed


section \<open>Closed sessions\<close>

definition closed_session :: "auth_db \<Rightarrow> uuid \<Rightarrow> bool" where
  "closed_session db i = (\<exists>s. session_find db i = Some s \<and> as_revoked_at s \<noteq> None)"

definition row_follows :: "auth_session \<Rightarrow> auth_session \<Rightarrow> bool" where
  "row_follows s s' = (as_id s' = as_id s \<and> (as_revoked_at s \<noteq> None \<longrightarrow> as_revoked_at s' \<noteq> None))"

lemma find_follows:
  "list_all2 row_follows xs ys \<Longrightarrow> tbl_find as_id i xs = Some s \<Longrightarrow> as_revoked_at s \<noteq> None \<Longrightarrow>
   \<exists>s'. tbl_find as_id i ys = Some s' \<and> as_revoked_at s' \<noteq> None"
  by (induction rule: list_all2_induct) (auto simp: tbl_find_Cons row_follows_def split: if_splits)

lemma closed_follows:
  "list_all2 row_follows (au_sessions db) (au_sessions db') \<Longrightarrow> closed_session db i \<Longrightarrow> closed_session db' i"
  unfolding closed_session_def session_find_def using find_follows by blast

lemma quiet_follows: "quiet db db' \<Longrightarrow> list_all2 row_follows (au_sessions db) (au_sessions db')"
  unfolding quiet_def list_all2_conv_all_nth row_follows_def
  by (auto simp: token_view_def dest: map_eq_imp_length_eq) (metis nth_map prod.inject token_view_def)

lemma update_follows: "(\<And>s. row_follows s (f s)) \<Longrightarrow> list_all2 row_follows (au_sessions db) (au_sessions (update_session P f db))"
  by (auto simp: update_session_def row_follows_def list_all2_conv_all_nth)

lemma rotate_tokens_sessions:
  "rotate_tokens db i t n ov = Inr db' \<Longrightarrow>
   au_sessions db' = au_sessions (update_session (\<lambda>s. as_id s = i \<and> as_refresh_token_id s = Some t)
     (\<lambda>s. s\<lparr>as_refresh_token_id := Some n, as_refresh_token_issued_at := Some (au_now db),
        as_previous_refresh_token_id := Some t, as_previous_grace_expires_at := Some (au_now db + ov)\<rparr>) db)"
  by (auto simp: rotate_tokens_def split: option.splits)

lemma closed_writes: "auth_writes ov db rs db' \<Longrightarrow> closed_session db i \<Longrightarrow> closed_session db' i"
proof (induction rule: auth_writes.induct)
  case (quietly rs db1 db2)
  then show ?case using closed_follows [OF quiet_follows] by blast
next
  case (create rs db1 u s db2)
  then show ?case
    by (auto simp: closed_session_def session_find_def session_create_def Let_def tbl_find_append opt_or_def split: if_splits)
next
  case (set_current rs db1 i)
  then show ?case
    unfolding set_current_refresh_token_def
    by (intro closed_follows [OF update_follows]) (auto simp: row_follows_def closed_session_def session_find_def)
next
  case (rotate rs db1 j t db2)
  have "list_all2 row_follows (au_sessions db1) (au_sessions db2)"
    unfolding rotate_tokens_sessions [OF rotate.hyps(2)]
    using update_follows [where db = "db1\<lparr>au_next_uuid := Suc (au_next_uuid db1)\<rparr>"] by (simp add: row_follows_def)
  then show ?case using rotate.IH rotate.prems closed_follows by blast
qed

lemma closed_run:
  "h \<noteq> [] \<Longrightarrow> \<forall>db \<in> set h. closed_session db i \<Longrightarrow> \<forall>db \<in> set (auth_run env h es). closed_session db i"
proof (induction es arbitrary: h)
  case (Cons e es)
  obtain rs where "auth_writes (ae_overlap env) (hd h) rs (hd (auth_step env h e))"
    using handle_writes by (force simp: auth_step_def)
  from closed_writes [OF this] have "closed_session (hd (auth_step env h e)) i" using Cons.prems by simp
  then have "\<forall>db \<in> set (auth_step env h e). closed_session db i"
    using Cons.prems(2) unfolding auth_step_def by simp
  from Cons.IH [OF _ this] show ?case by (simp add: auth_run_def) (simp add: auth_step_def)
qed (simp add: auth_run_def)

lemma refreshed_session:
  assumes "Refreshed i t c \<tau> \<in> set (auth_log env db0 db1 db q)"
  shows "\<not> closed_session db0 i"
proof (cases q)
  case (RefreshTokens n1 n2 tok)
  obtain r db' where r: "refresh_token (ae_libs env) (ae_registry env) (ae_overlap env) n1 n2 db0 db1 db tok = (r, db')"
    by fastforce
  show ?thesis
    using assms refresh_token_effect [OF r]
    by (auto simp: RefreshTokens r closed_session_def split: sum.splits)
qed (use assms in \<open>auto split: sum.splits option.splits\<close>)

lemma context_of_session:
  assumes "request_context_from_auth_session_id db i = (Inr ctx, db')"
  shows "cx_session_id ctx = i \<and> (\<exists>s. session_find db i = Some s \<and> as_revoked_at s = None \<and>
    inactivity_duration s (au_now db) \<le> int max_session_inactivity \<and> user_find db (as_user_id s) = Some (cx_user ctx))"
  using assms tbl_find_Some [of as_id i "au_sessions db"]
  by (auto simp: request_context_from_auth_session_id_def session_find_def split: option.splits if_splits)

lemma context_session:
  assumes "request_context_from_access_token lb db t = (Inr ctx, db')"
  shows "\<exists>s. session_find db (cx_session_id ctx) = Some s \<and> as_revoked_at s = None \<and>
    inactivity_duration s (au_now db) \<le> int max_session_inactivity \<and> user_find db (as_user_id s) = Some (cx_user ctx)"
proof (cases "decode_access_token lb (au_now db) t")
  case (Inr d)
  obtain r db1 where r: "request_context_from_auth_session_id db (ad_session_id d) = (r, db1)" by fastforce
  with assms Inr obtain c where "r = Inr c" "cx_session_id ctx = cx_session_id c" "cx_user ctx = cx_user c"
    by (cases r) (auto simp: request_context_from_access_token_def split: if_splits)
  then show ?thesis using context_of_session r by auto
qed (use assms in \<open>simp add: request_context_from_access_token_def\<close>)

lemma redeem_facts:
  assumes "redeem lb db0 db i code ver = (Inr resp, db')"
  obtains h session_id session u where "handoff_find db0 i = Some h" "oh_status h = AuthAuthorized"
    "au_now db0 < oh_expires_at h" "oh_app_code_hash h = Some (hash_sha256_hex lb code)"
    "oh_app_challenge h = hash_sha256_hex lb ver" "oh_session_id h = Some session_id"
    "session_find db0 session_id = Some session" "as_revoked_at session = None"
    "inactivity_duration session (au_now db0) \<le> int max_session_inactivity"
    "oh_user_id h = Some (us_id u)" "user_find db (us_id u) = Some u" "redeem_session lb h session u db = (Inr resp, db')"
proof -
  obtain h where h: "handoff_find db0 i = Some h" "oh_status h = AuthAuthorized"
    using assms by (auto simp: redeem_def ensure_redeemable_def split: option.splits authorization_status.splits)
  note r1 = assms [unfolded redeem_def ensure_redeemable_def h option.case authorization_status.case sum.case]
  obtain expected where e: "oh_app_code_hash h = Some expected" using r1 by (auto split: if_splits option.splits)
  obtain sid where sid: "oh_session_id h = Some sid" using r1 e by (simp split: if_splits option.splits)
  obtain uid where uid: "oh_user_id h = Some uid" using r1 e sid by (simp split: if_splits option.splits)
  obtain s where s: "session_find db0 sid = Some s" using r1 e sid uid by (simp split: if_splits option.splits)
  obtain u where u: "user_find db uid = Some u" using r1 e sid uid s by (simp split: if_splits option.splits)
  have "us_id u = uid" using tbl_find_Some [OF u [unfolded user_find_def]] by simp
  then show thesis
    using r1 h e sid uid s u by (intro that [of h sid s u])
      (simp_all add: handoff_expired_def not_le not_less split: if_splits)
qed

lemma closed_refuses:
  assumes "closed_session db0 i" "closed_session db i"
  shows "Refreshed i t c \<tau> \<notin> set (auth_log env db0 db1 db q)" "Entered i \<notin> set (auth_log env db0 db1 db q)"
    "Redeemed k i \<notin> set (auth_log env db0 db1 db q)"
proof -
  show "Refreshed i t c \<tau> \<notin> set (auth_log env db0 db1 db q)" using refreshed_session assms by blast
  have "\<not> closed_session db (cx_session_id ctx)"
    if "fst (request_context_from_access_token (ae_libs env) db tok) = Inr ctx" for tok ctx
    using context_session [of "ae_libs env" db tok ctx] that by (auto simp: closed_session_def) (metis prod.collapse)
  then show "Entered i \<notin> set (auth_log env db0 db1 db q)"
    using assms(2) by (cases q) (auto split: sum.splits option.splits)
  have "\<not> closed_session db0 (the (oh_session_id h))"
    if "fst (redeem (ae_libs env) db0 db j code ver) = Inr r" "handoff_find db0 j = Some h" for j code ver r h
  proof -
    have "redeem (ae_libs env) db0 db j code ver = (Inr r, snd (redeem (ae_libs env) db0 db j code ver))"
      using that(1) by (metis prod.collapse)
    then show ?thesis by (rule redeem_facts) (use that(2) in \<open>auto simp: closed_session_def\<close>)
  qed
  then show "Redeemed k i \<notin> set (auth_log env db0 db1 db q)"
    using assms(1) by (cases q) (auto split: sum.splits option.splits, metis)
qed


lemma closed_answers:
  assumes "h \<noteq> []" "\<forall>db \<in> set h. closed_session db i"
  shows "Refreshed i t c \<tau> \<notin> set (auth_answers env h es) \<and> Entered i \<notin> set (auth_answers env h es) \<and>
    Redeemed k i \<notin> set (auth_answers env h es)"
  using assms
proof (induction es arbitrary: h)
  case (Cons e es)
  have "\<forall>db \<in> set (auth_step env h e). closed_session db i"
    using closed_run [OF Cons.prems, of env "[e]"] by (simp add: auth_run_def)
  from Cons.IH [OF _ this] have IH: "Refreshed i t c \<tau> \<notin> set (auth_answers env (auth_step env h e) es) \<and>
      Entered i \<notin> set (auth_answers env (auth_step env h e) es) \<and>
      Redeemed k i \<notin> set (auth_answers env (auth_step env h e) es)"
    by (simp add: auth_step_def)
  have "closed_session (auth_before h (fst e)) i" "closed_session (hd h) i"
    using Cons.prems auth_before_in [OF Cons.prems(1)] by simp_all
  from closed_refuses [OF this] IH show ?case by simp
qed simp


lemma revoke_closes: "\<forall>s \<in> set (au_sessions (snd (revoke_auth_session db i))). as_id s = i \<longrightarrow> as_revoked_at s \<noteq> None"
proof -
  have eq: "au_sessions (snd (revoke_auth_session db i)) = map (\<lambda>s. if as_id s = i \<and> as_revoked_at s = None
      then s\<lparr>as_revoked_at := Some (au_now db), as_last_used_at := Some (au_now db)\<rparr> else s) (au_sessions db)"
    by (simp add: revoke_auth_session_def revoke_sessions_def update_session_def note_revoked_def)
  show ?thesis unfolding eq set_map ball_simps by (intro ballI) simp
qed

text \<open>C19: A replayed refresh token closes its session. In any history that starts with no sessions:
  a token that has been exchanged and is presented after the overlap is refused, and
  afterwards its session is revoked or gone.\<close>

theorem replay_revokes_session:
  assumes "au_sessions db = []" "Refreshed i t c \<tau> \<in> set (auth_answers env [db] es)"
    and now: "now = hd (auth_run env [db] es)" "\<tau> + ae_overlap env \<le> au_now now"
    and d: "decode_refresh_token (ae_libs env) (au_now now) token = Inr d" "rd_session_id d = i" "rd_refresh_token_id d = t"
    and r: "refresh_token (ae_libs env) reg (ae_overlap env) n1 n2 now db1 now token = (answer, db')"
  shows "answer \<in> {Inl TrSessionRevoked, Inl TrTokenReuseDetected} \<and>
    (\<forall>s. session_find db' i = Some s \<longrightarrow> as_revoked_at s \<noteq> None)"
proof -
  obtain R where inv: "auth_inv (ae_overlap env) R now" and log: "logged (ae_overlap env) R (auth_answers env [db] es)"
    using fresh_run_inv [OF assms(1)] now(1) by metis
  obtain s0 where s0: "(i, t, c, s0) \<in> set R" "s0 \<le> \<tau>"
    using log assms(2) unfolding logged_def by blast
  have once: "s0' = s0" if "(i, t, c', s0') \<in> set R" for c' s0'
    using inv that s0(1) unfolding auth_inv_def Let_def distinct_map inj_on_def by fastforce
  show ?thesis
  proof (cases "session_find now i")
    case None
    then show ?thesis using r d by (auto simp: refresh_token_def)
  next
    case (Some s)
    then have s: "s \<in> set (au_sessions now)" "as_id s = i"
      using tbl_find_Some [of as_id i "au_sessions now" s] by (simp_all add: session_find_def)
    have "as_refresh_token_id s \<noteq> Some t"
      using inv s s0(1) unfolding auth_inv_def Let_def rotated_ok_def token_view_def by fastforce
    moreover have "\<not> is_previous_within_grace (au_now now) s t"
    proof
      assume "is_previous_within_grace (au_now now) s t"
      then obtain g where g: "as_previous_refresh_token_id s = Some t" "as_previous_grace_expires_at s = Some g" "au_now now < g"
        by (auto simp: is_previous_within_grace_def split: option.splits)
      then obtain c' s0' where "g = s0' + ae_overlap env" "(i, t, c', s0') \<in> set R"
        using inv s unfolding auth_inv_def Let_def row_ok_def token_view_def by fastforce
      then show False using once g(3) now(2) s0(2) by simp
    qed
    moreover have "\<forall>s. session_find (snd (revoke_auth_session now i)) i = Some s \<longrightarrow> as_revoked_at s \<noteq> None"
    proof (intro allI impI)
      fix s assume "session_find (snd (revoke_auth_session now i)) i = Some s"
      from tbl_find_Some [OF this [unfolded session_find_def]] show "as_revoked_at s \<noteq> None"
        using revoke_closes [of now i] by simp
    qed
    ultimately show ?thesis
      using r d Some by (auto simp: refresh_token_def Let_def split: if_splits)
  qed
qed

lemma handoff_update_find:
  "tbl_find oh_id i rows = Some h \<Longrightarrow> oh_id (f h) = oh_id h \<Longrightarrow> tbl_find oh_id i (tbl_update oh_id i f rows) = Some (f h)"
  by (induction rows) (auto simp: tbl_find_Cons tbl_update_def split: if_splits)

lemma mark_redeemed_row:
  assumes m: "mark_redeemed i db = Inr db'" and keys: "tbl_keys_ok oh_id (au_handoffs db)"
  shows "\<exists>h. handoff_find db' i = Some h \<and> oh_status h = AuthRedeemed \<and> oh_encrypted_provider_tokens h = None"
proof -
  obtain h where h: "h \<in> set (au_handoffs db)" "oh_id h = i" "oh_status h = AuthAuthorized"
    using m by (auto simp: mark_redeemed_def list_ex_iff split: if_splits)
  have find: "tbl_find oh_id i (au_handoffs db) = Some h" using tbl_find_in_set [OF keys h(1)] h(2) by simp
  have db': "au_handoffs db' = tbl_update oh_id i (\<lambda>h. if oh_status h = AuthAuthorized
      then h\<lparr>oh_status := AuthRedeemed, oh_encrypted_provider_tokens := None, oh_redeemed_at := Some (au_now db)\<rparr>
      else h) (au_handoffs db)"
    using m by (auto simp: mark_redeemed_def update_handoff_def split: if_splits)
  show ?thesis
    using handoff_update_find [OF find] h(2,3) by (simp add: handoff_find_def db')
qed


end
