(* ===== verification/Auth_Runs.thy ===== *)
theory Auth_Runs
  imports Auth_Props "HOL-Library.Code_Target_Nat"
begin

section \<open>Concrete runs\<close>

text \<open>Libraries that print a token as its session and its id, a provider, and a server with no sessions.\<close>

definition plain_libs :: auth_libs where
  "plain_libs = \<lparr>al_secret = ''key'',
     al_encode_access = \<lambda>k c. Inr (CHR ''x'' # replicate (ac_session_id c) CHR ''a''),
     al_encode_refresh = \<lambda>k c. Inr (replicate (rc_session_id c) CHR ''a'' @ CHR ''-'' # replicate (rc_jti c) CHR ''b''),
     al_decode_access = \<lambda>k v now s. Inr \<lparr>ac_sub = 0, ac_session_id = length s - 1, ac_iat = 0, ac_exp = 0, ac_aud = ''access''\<rparr>,
     al_decode_refresh = \<lambda>k v now s. Inr \<lparr>rc_sub = 0, rc_session_id = length (takeWhile (\<lambda>c. c = CHR ''a'') s),
        rc_jti = length (filter (\<lambda>c. c = CHR ''b'') s), rc_iat = 0, rc_exp = 0, rc_aud = ''refresh'',
        rc_provider = Some ''local'', rc_provider_tokens_blob = None\<rparr>,
     al_from_timestamp = \<lambda>t. Some (nat t), al_std_decode = Some, al_url_encode = id, al_url_decode = Some,
     al_sha256 = id, al_aes_encrypt = \<lambda>k n d. Some d, al_aes_decrypt = \<lambda>k n d. Some d,
     al_tokens_to_json = \<lambda>t. Some (pt_access_token t), al_tokens_of_json = \<lambda>s. None\<rparr>"

definition plain_provider :: oauth_provider where
  "plain_provider = \<lparr>op_name = ''github'', op_authorize_url = \<lambda>st uri. Inr uri,
     op_exchange_code = \<lambda>c uri. Inr \<lparr>gr_access_token = c, gr_refresh_token = None, gr_expires_in = None\<rparr>,
     op_fetch_user = \<lambda>n tok. Inr \<lparr>pu_id = ''7'', pu_login = Some ''ann'', pu_email = Some ''ann@x.org'', pu_name = None,
        pu_avatar_url = None\<rparr>,
     op_validate_token = \<lambda>d. Inr None\<rparr>"

definition plain_env :: auth_env where
  "plain_env = \<lparr>ae_libs = plain_libs, ae_registry = [(''github'', plain_provider)], ae_overlap = 60,
     ae_origin = ''https://x.org'',
     ae_parse_url = \<lambda>s. Some \<lparr>ur_scheme = ''https'', ur_host = None, ur_text = s\<rparr>,
     ae_local = Some (''ann@x.org'', ''pw'')\<rparr>"

definition new_server :: auth_db where
  "new_server = \<lparr>au_sessions = [], au_revoked_tokens = [],
     au_users = [\<lparr>us_id = 0, us_email = ''ann@x.org'', us_first_name = None, us_last_name = None, us_username = None\<rparr>],
     au_accounts = [], au_handoffs = [],
     au_orgs = \<lparr>od_organizations = [], od_members = [], od_invitations = [], od_projects = [], od_next_uuid = 1, od_now = 0\<rparr>,
     au_next_uuid = 1, au_now = 1000\<rparr>"

definition signed_in_twice :: "auth_event list" where
  \<comment> \<open>a login, a refresh, another with the same token half a minute later\<close>
  "signed_in_twice = [(0, 0, LocalLogin ''ann@x.org'' ''pw''), (0, 0, RefreshTokens [] [] ''a-bb''),
     (0, 0, AuthTime 30), (0, 0, RefreshTokens [] [] ''a-bb'')]"

definition verifier :: string where
  "verifier = replicate 32 CHR ''a''"

definition challenge :: string where
  "challenge = concat (replicate 32 ''61'')"

definition authorized :: "auth_event list" where
  \<comment> \<open>a client asks for a handoff, and the provider calls back\<close>
  "authorized = [(0, 0, Initiate ''github'' ''https://a'' challenge ''st''),
     (0, 0, Callback ''github'' (Some ''st'') (Some ''c'') None [] ''code'')]"

definition empty_server :: auth_db where
  "empty_server = new_server\<lparr>au_users := []\<rparr>"

lemma answers_append:
  "auth_answers env h (es @ fs) = auth_answers env h es @ auth_answers env (auth_run env h es) fs"
  by (induction es arbitrary: h) (simp_all add: auth_run_def)

lemma run_append: "auth_run env h (es @ fs) = auth_run env (auth_run env h es) fs"
  by (simp add: auth_run_def)

lemma signed_in_twice_answers:
  "auth_answers plain_env [new_server] signed_in_twice = [Refreshed 1 2 3 1000, Refreshed 1 2 3 1030]"
  by code_simp

lemma refresh_has_one_successor_witness: "(3::nat) = 3 \<and> (1030::nat) \<le> 1000 + ae_overlap plain_env"
proof (rule refresh_has_one_successor [of new_server 1 2 3 1000 plain_env signed_in_twice 3 1030])
  show "au_sessions new_server = []" by (simp add: new_server_def)
qed (simp_all add: signed_in_twice_answers)

definition after_logout :: auth_db where
  "after_logout = hd (auth_run plain_env [new_server] [(0, 0, LocalLogin ''ann@x.org'' ''pw''), (0, 0, Logout ''xa''),
     (0, 0, LocalLogin ''ann@x.org'' ''pw'')])"


definition later :: "auth_event list" where
  "later = signed_in_twice @ [(0, 0, AuthTime 31)]"

lemma later_state:
  "let now = hd (auth_run plain_env [new_server] later);
       answer = refresh_token plain_libs [] 60 [] [] now now now ''a-bb'' in
   au_now now = 1061 \<and> fst answer = Inl TrTokenReuseDetected \<and>
   map_option as_revoked_at (session_find (snd answer) 1) = Some (Some 1061)"
  by code_simp

lemma replay_revokes_session_witness:
  "let now = hd (auth_run plain_env [new_server] later);
       answer = refresh_token plain_libs [] 60 [] [] now now now ''a-bb'' in
   fst answer = Inl TrTokenReuseDetected \<and> (\<forall>s. session_find (snd answer) 1 = Some s \<longrightarrow> as_revoked_at s \<noteq> None)"
proof -
  let ?now = "hd (auth_run plain_env [new_server] later)"
  let ?answer = "refresh_token plain_libs [] 60 [] [] ?now ?now ?now ''a-bb''"
  have env: "ae_libs plain_env = plain_libs" "ae_overlap plain_env = 60" by (simp_all add: plain_env_def)
  have now: "au_now ?now = 1061" "fst ?answer = Inl TrTokenReuseDetected" using later_state by (simp_all only: Let_def)
  have "fst ?answer \<in> {Inl TrSessionRevoked, Inl TrTokenReuseDetected} \<and>
    (\<forall>s. session_find (snd ?answer) 1 = Some s \<longrightarrow> as_revoked_at s \<noteq> None)"
  proof (rule replay_revokes_session [where env = plain_env and es = later and db = new_server and c = 3 and \<tau> = 1000])
    show "au_sessions new_server = []" by (simp add: new_server_def)
    show "Refreshed 1 2 3 1000 \<in> set (auth_answers plain_env [new_server] later)"
      by (simp add: later_def answers_append signed_in_twice_answers)
    show "1000 + ae_overlap plain_env \<le> au_now ?now" by (simp only: env now(1))
    have "decode_refresh_token plain_libs 1061 ''a-bb'' =
      Inr \<lparr>rd_user_id = 0, rd_session_id = 1, rd_refresh_token_id = 2, rd_provider = ''local'', rd_legacy = None\<rparr>"
      by code_simp
    then show "decode_refresh_token (ae_libs plain_env) (au_now ?now) ''a-bb'' =
      Inr \<lparr>rd_user_id = 0, rd_session_id = 1, rd_refresh_token_id = 2, rd_provider = ''local'', rd_legacy = None\<rparr>"
      by (simp only: env now(1))
    show "refresh_token (ae_libs plain_env) [] (ae_overlap plain_env) [] [] ?now ?now ?now ''a-bb'' =
      (fst ?answer, snd ?answer)" by (simp add: env)
  qed simp_all
  then show ?thesis using now(2) by (simp add: Let_def)
qed

text \<open>What follows an authorized handoff: a redemption; a second callback and a second redemption;
  two redemptions at once, and a refresh with the token of the first.\<close>

lemma authorized_runs:
  "let h = auth_run plain_env [empty_server] authorized;
       r = redeem plain_libs (hd h) (hd h) 1 ''code'' verifier;
       e = (0, 0, Redeem 1 ''code'' verifier);
       reopen = [e, (0, 0, Callback ''github'' (Some ''st'') (Some ''d'') None [] ''code2''), (0, 0, Redeem 1 ''code2'' verifier)];
       lose = [e, (1, 0, Redeem 1 ''code'' verifier), (0, 0, RefreshTokens [] [] ''aaaa-bbbbb'')] in
   isl (fst r) = False \<and> map oh_id (au_handoffs (hd h)) = [1] \<and>
   auth_answers plain_env h reopen = [Redeemed 1 4, Redeemed 1 6] \<and>
   auth_answers plain_env h lose = [Redeemed 1 4] \<and>
   map as_revoked_at (au_sessions (hd (auth_run plain_env h lose))) = [Some 1000]"
  by code_simp

lemma authorized_answers: "auth_answers plain_env [empty_server] authorized = []"
  by (simp add: authorized_def)


section \<open>What the runs show\<close>

lemma race_ends_session:
  \<comment> \<open>the second refresh read the session before the first rotated it, and the revoked tokens after\<close>
  "let es = [(0, 0, LocalLogin ''ann@x.org'' ''pw''), (0, 0, RefreshTokens [] [] ''a-bb''), (1, 0, RefreshTokens [] [] ''a-bb'')] in
   auth_answers plain_env [new_server] es = [Refreshed 1 2 3 1000] \<and>
   map as_revoked_at (au_sessions (hd (auth_run plain_env [new_server] es))) = [Some 1000]"
  by code_simp

lemma expired_is_never_answered: "fst (refresh_token lb reg ov n1 n2 db0 db1 db t) \<noteq> Inl TrTokenExpired"
proof -
  have decode: "decode_refresh_token lb now t \<noteq> Inl JwtTokenExpired" for now
    by (auto simp: decode_refresh_token_def decrypt_provider_tokens_def decrypt_data_def derive_key_def Let_def
        split: sum.splits option.splits if_splits)
  have current: "current_session_tokens_response lb now s u p \<noteq> Inl TrTokenExpired" for now s u p
    by (auto simp: current_session_tokens_response_def split: option.splits sum.splits)
  have rotate: "fst (rotate_or_answer lb ov d s u db) \<noteq> Inl TrTokenExpired" for d s u db
    by (auto simp: rotate_or_answer_def Let_def current split: option.split sum.split)
  have checked: "fst (refresh_checked lb reg ov n1 n2 d s p db) \<noteq> Inl TrTokenExpired" for d s p db
    by (auto simp: refresh_checked_def backfill_legacy_tokens_def validation_refresh_error_def current rotate
        split: option.splits sum.splits prod.splits oauth_token_validation_error.splits if_splits)
  show ?thesis
    using decode [of "au_now db0"]
    by (auto simp: refresh_token_def Let_def checked split: sum.split jwt_error.split option.split)
qed

lemma hex_digit_lower: "n < 16 \<Longrightarrow> hex_digit n \<noteq> CHR ''A''"
proof -
  have "list_all (\<lambda>n. hex_digit n \<noteq> CHR ''A'') [0..<16]" by code_simp
  then show "n < 16 \<Longrightarrow> hex_digit n \<noteq> CHR ''A''" unfolding list_all_iff by simp
qed

lemma hex_digits_lower: "CHR ''A'' \<notin> set (hex_digits k n)"
proof (induction k arbitrary: n)
  case (Suc k)
  then show ?case using hex_digit_lower [of "n mod 16"] by simp
qed simp

lemma hash_is_lower_case: "CHR ''A'' \<notin> set (hash_sha256_hex lb s)"
  using hex_digits_lower by (simp add: hash_sha256_hex_def)

lemma upper_case_challenge_is_accepted: "is_valid_challenge (replicate 64 CHR ''A'')"
  by code_simp

lemma upper_case_challenge_never_redeems:
  assumes "handoff_find db0 i = Some h" "oh_app_challenge h = replicate 64 CHR ''A''"
  shows "fst (redeem lb db0 db i code ver) \<noteq> Inr resp"
proof
  assume "fst (redeem lb db0 db i code ver) = Inr resp"
  then have "redeem lb db0 db i code ver = (Inr resp, snd (redeem lb db0 db i code ver))" by (metis prod.collapse)
  then show False
    by (rule redeem_facts) (use assms hash_is_lower_case [of lb ver] in simp)
qed

lemma callback_reopens_handoff:
  "auth_answers plain_env [empty_server] (authorized @ [(0, 0, Redeem 1 ''code'' verifier),
     (0, 0, Callback ''github'' (Some ''st'') (Some ''d'') None [] ''code2''), (0, 0, Redeem 1 ''code2'' verifier)]) =
   [Redeemed 1 4, Redeemed 1 6]"
  using authorized_runs unfolding answers_append authorized_answers by (simp only: Let_def append_Nil)

lemma lost_redemption_ends_session:
  \<comment> \<open>of two redemptions at once one is refused, after it has replaced the token of the other\<close>
  "let es = authorized @ [(0, 0, Redeem 1 ''code'' verifier), (1, 0, Redeem 1 ''code'' verifier),
     (0, 0, RefreshTokens [] [] ''aaaa-bbbbb'')] in
   auth_answers plain_env [empty_server] es = [Redeemed 1 4] \<and>
   map as_revoked_at (au_sessions (hd (auth_run plain_env [empty_server] es))) = [Some 1000]"
  using authorized_runs unfolding Let_def answers_append run_append authorized_answers by (simp only: append_Nil)

lemma known_address_cannot_sign_in:
  "let db = hd (auth_run plain_env [new_server] [(0, 0, Initiate ''github'' ''https://a'' challenge ''st'')]) in
   map_sum classify_handoff_error id (fst (handle_callback plain_libs (ae_registry plain_env) ''https://x.org'' [] ''code''
     db db ''github'' (Some ''st'') (Some ''c'') None)) = Inl (500, ''internal_error'')"
  by code_simp

end
