(* ===== verification/Autopilots.thy ===== *)
theory Autopilots
  imports Squad_Exec
begin

text \<open>
  Autopilots of the Remote server: schedules that create issues and enqueue agent tasks, or run
  squads. Their repository (crates/remote/src/db/autopilots.rs), the scheduler that claims what is
  due and dispatches it (crates/remote/src/scheduler.rs) and the handlers
  (crates/remote/src/routes/autopilots.rs).

  The cron and chrono-tz crates, the format of a date and the order of the database's collation are
  parameters (\<open>cron_lib\<close>). A date beyond chrono's range is a panic, which is None. A dispatch runs in a task of
  its own: it creates its run row and counts the active tasks at one moment (\<open>dispatch_begin\<close>) and does
  the rest at a later one (\<open>dispatch_finish\<close>); other requests may come between. Queries do not
  fail, except for constraints.
\<close>

section \<open>Rows\<close>

datatype execution_mode = CreateIssue | RunOnly

datatype concurrency_policy = PolicySkip | PolicyQueue

datatype autopilot_run_status = ApQueued | ApRunning | ApCompleted | ApFailed | ApSkipped

record autopilot =
  ap_id :: uuid
  ap_project_id :: uuid
  ap_name :: string
  ap_agent_id :: "uuid option"
  ap_squad_id :: "uuid option"
  ap_enabled :: bool
  ap_execution_mode :: execution_mode
  ap_cron_expression :: string
  ap_timezone :: string
  ap_concurrency_policy :: concurrency_policy
  ap_issue_title_template :: string
  ap_issue_description_template :: string
  ap_next_run_at :: "timestamp option"
  ap_last_run_at :: "timestamp option"
  ap_created_at :: timestamp
  ap_updated_at :: timestamp

record autopilot_run =
  ar_id :: uuid
  ar_autopilot_id :: uuid
  ar_status :: autopilot_run_status
  ar_planned_at :: timestamp
  ar_started_at :: "timestamp option"
  ar_completed_at :: "timestamp option"
  ar_issue_id :: "uuid option"
  ar_agent_task_id :: "uuid option"
  ar_error_message :: "string option"
  ar_created_at :: timestamp

record autopilot_db =
  sd_board :: remote_db
  sd_autopilots :: "autopilot list"
  sd_runs :: "autopilot_run list"

datatype autopilot_error = ApDatabase db_error | ApPanic

definition sd_now :: "autopilot_db \<Rightarrow> timestamp" where
  "sd_now db = db_now (sd_board db)"

section \<open>Schedules\<close>

record cron_lib =
  cl_timezone :: "string \<Rightarrow> string option"  \<comment> \<open>a name of the time zone database\<close>
  cl_next :: "string \<Rightarrow> string \<Rightarrow> timestamp \<Rightarrow> timestamp option"
    \<comment> \<open>the next time of a schedule in a zone, None when it does not parse or has no more\<close>
  cl_max :: timestamp  \<comment> \<open>the last time of chrono\<close>
  cl_date :: "timestamp \<Rightarrow> string"
  cl_collation :: "string \<Rightarrow> nat"  \<comment> \<open>the rank of a name\<close>
  cl_simple_id :: "uuid \<Rightarrow> string"  \<comment> \<open>the number that a trigger gives to an issue\<close>
  cl_issue_updated :: "uuid \<Rightarrow> timestamp"  \<comment> \<open>the column \<open>updated_at\<close> of the issues\<close>

definition time_add :: "cron_lib \<Rightarrow> timestamp \<Rightarrow> nat \<Rightarrow> timestamp option" where
  \<comment> \<open>\<open>from + Duration\<close>, which panics beyond the last time\<close>
  "time_add lib from d = (if from + d \<le> cl_max lib then Some (from + d) else None)"

definition parse_positive_i64 :: "string \<Rightarrow> nat option" where
  \<comment> \<open>\<open>parse::<i64>\<close> with a result above zero\<close>
  "parse_positive_i64 s =
     (let ds = (case s of [] \<Rightarrow> [] | c # cs \<Rightarrow> if c = CHR ''+'' then cs else s);
          digits = map (\<lambda>c. of_char c :: nat) ds;
          n = foldl (\<lambda>acc d. 10 * acc + (d - 48)) 0 digits in
      if ds \<noteq> [] \<and> (\<forall>d \<in> set digits. 48 \<le> d \<and> d \<le> 57) \<and> 0 < n \<and> n < 2 ^ 63 then Some n else None)"

definition every_n :: "string \<Rightarrow> nat option" where
  \<comment> \<open>the N of \<open>*/N\<close>\<close>
  "every_n field = (case strip_prefix ''*/'' field of None \<Rightarrow> None | Some s \<Rightarrow> parse_positive_i64 s)"

definition fallback_interval :: "string list \<Rightarrow> nat" where
  \<comment> \<open>in seconds\<close>
  "fallback_interval parts =
     (case parts of
        minute # hour # _ \<Rightarrow>
          (case every_n minute of Some n \<Rightarrow> n * 60
           | None \<Rightarrow>
              (if minute \<noteq> ''0'' then 3600
               else (case every_n hour of Some n \<Rightarrow> n * 3600
                 | None \<Rightarrow> (if hour = ''*'' then 3600 else if hour = ''0'' then 86400 else 3600))))
      | _ \<Rightarrow> 3600)"

definition advance_cron_tz :: "cron_lib \<Rightarrow> string \<Rightarrow> string \<Rightarrow> timestamp \<Rightarrow> timestamp option" where
  "advance_cron_tz lib cron_expr timezone from =
     (let expr = str_trim cron_expr in
      if expr = ''@hourly'' then time_add lib from 3600
      else if expr = ''@daily'' \<or> expr = ''@midnight'' then time_add lib from 86400
      else if expr = ''@weekly'' then time_add lib from 604800
      else
       (let tz = unwrap_or (cl_timezone lib timezone) ''UTC'';
            schedule_expr = (if length (ws_words [] expr) = 5 then ''0 '' @ expr else expr) in
        case cl_next lib schedule_expr tz from of
          Some next \<Rightarrow> Some next
        | None \<Rightarrow> time_add lib from (fallback_interval (ws_words [] expr))))"

definition advance_cron :: "cron_lib \<Rightarrow> string \<Rightarrow> timestamp \<Rightarrow> timestamp option" where
  "advance_cron lib cron_expr from = advance_cron_tz lib cron_expr ''UTC'' from"

definition render_autopilot_template :: "cron_lib \<Rightarrow> timestamp \<Rightarrow> string \<Rightarrow> autopilot \<Rightarrow> string" where
  "render_autopilot_template lib now template ap =
     str_replace ''{{agent_id}}'' (case ap_agent_id ap of None \<Rightarrow> [] | Some a \<Rightarrow> show_uuid a) 0
       (str_replace ''{{project_id}}'' (show_uuid (ap_project_id ap)) 0
         (str_replace ''{{autopilot_name}}'' (ap_name ap) 0
           (str_replace ''{{date}}'' (cl_date lib now) 0 template)))"

section \<open>The repository\<close>

definition autopilot_find :: "autopilot_db \<Rightarrow> uuid \<Rightarrow> autopilot option" where
  "autopilot_find db i = tbl_find ap_id i (sd_autopilots db)"

definition autopilot_list :: "cron_lib \<Rightarrow> autopilot_db \<Rightarrow> uuid \<Rightarrow> autopilot list" where
  "autopilot_list lib db proj =
     sort_key (cl_collation lib \<circ> ap_name) (filter (\<lambda>a. ap_project_id a = proj) (sd_autopilots db))"

definition autopilot_refs_ok :: "autopilot_db \<Rightarrow> autopilot \<Rightarrow> bool" where
  \<comment> \<open>the foreign keys\<close>
  "autopilot_refs_ok db a =
     (project_find (sd_board db) (ap_project_id a) \<noteq> None \<and>
      (case ap_agent_id a of None \<Rightarrow> True | Some i \<Rightarrow> agent_find (sd_board db) i \<noteq> None) \<and>
      (case ap_squad_id a of None \<Rightarrow> True | Some i \<Rightarrow> tbl_find sq_id i (db_squads (sd_board db)) \<noteq> None))"

record create_autopilot_request =
  ca_id :: "uuid option"
  ca_project_id :: uuid
  ca_name :: string
  ca_agent_id :: "uuid option"
  ca_squad_id :: "uuid option"
  ca_enabled :: "bool option"
  ca_execution_mode :: "execution_mode option"
  ca_cron_expression :: "string option"
  ca_timezone :: "string option"
  ca_concurrency_policy :: "concurrency_policy option"
  ca_issue_title_template :: "string option"
  ca_issue_description_template :: "string option"

definition new_autopilot :: "uuid \<Rightarrow> timestamp \<Rightarrow> create_autopilot_request \<Rightarrow> autopilot" where
  \<comment> \<open>the row, with the defaults of the handler\<close>
  "new_autopilot i now rq =
     \<lparr>ap_id = i, ap_project_id = ca_project_id rq, ap_name = ca_name rq, ap_agent_id = ca_agent_id rq,
      ap_squad_id = ca_squad_id rq, ap_enabled = unwrap_or (ca_enabled rq) True,
      ap_execution_mode = unwrap_or (ca_execution_mode rq) CreateIssue,
      ap_cron_expression = unwrap_or (ca_cron_expression rq) ''0 * * * *'',
      ap_timezone = unwrap_or (ca_timezone rq) ''UTC'',
      ap_concurrency_policy = unwrap_or (ca_concurrency_policy rq) PolicySkip,
      ap_issue_title_template = unwrap_or (ca_issue_title_template rq) ''Autopilot run {{date}}'',
      ap_issue_description_template = unwrap_or (ca_issue_description_template rq) [],
      ap_next_run_at = None, ap_last_run_at = None, ap_created_at = now, ap_updated_at = now\<rparr>"

definition autopilot_create ::
  "cron_lib \<Rightarrow> autopilot_db \<Rightarrow> create_autopilot_request \<Rightarrow> autopilot_error + (autopilot \<times> autopilot_db)" where
  "autopilot_create lib db rq =
     (let i = unwrap_or (ca_id rq) (fresh_uuid (map ap_id (sd_autopilots db)) (sd_board db));
          a = new_autopilot i (sd_now db) rq in
      case advance_cron_tz lib (ap_cron_expression a) (ap_timezone a) (sd_now db) of
        None \<Rightarrow> Inl ApPanic
      | Some next \<Rightarrow>
          (let a = a\<lparr>ap_next_run_at := Some next\<rparr> in
           if autopilot_find db i \<noteq> None then Inl (ApDatabase UniqueViolation)
           else if \<not> autopilot_refs_ok db a then Inl (ApDatabase ForeignKeyViolation)
           else Inr (a, db\<lparr>sd_autopilots := sd_autopilots db @ [a],
                  sd_board := (sd_board db)\<lparr>db_next_uuid := max (Suc i) (db_next_uuid (sd_board db))\<rparr>\<rparr>)))"

record update_autopilot_request =
  ua_name :: "string option"
  ua_agent_id :: "uuid option option"
  ua_squad_id :: "uuid option option"
  ua_enabled :: "bool option"
  ua_execution_mode :: "execution_mode option"
  ua_cron_expression :: "string option"
  ua_timezone :: "string option"
  ua_concurrency_policy :: "concurrency_policy option"
  ua_issue_title_template :: "string option"
  ua_issue_description_template :: "string option"

definition autopilot_apply :: "timestamp \<Rightarrow> update_autopilot_request \<Rightarrow> autopilot \<Rightarrow> autopilot" where
  "autopilot_apply now rq a =
     a\<lparr>ap_name := unwrap_or (ua_name rq) (ap_name a),
       ap_agent_id := patch_field (ua_agent_id rq) (ap_agent_id a),
       ap_squad_id := patch_field (ua_squad_id rq) (ap_squad_id a),
       ap_enabled := unwrap_or (ua_enabled rq) (ap_enabled a),
       ap_execution_mode := unwrap_or (ua_execution_mode rq) (ap_execution_mode a),
       ap_cron_expression := unwrap_or (ua_cron_expression rq) (ap_cron_expression a),
       ap_timezone := unwrap_or (ua_timezone rq) (ap_timezone a),
       ap_concurrency_policy := unwrap_or (ua_concurrency_policy rq) (ap_concurrency_policy a),
       ap_issue_title_template := unwrap_or (ua_issue_title_template rq) (ap_issue_title_template a),
       ap_issue_description_template :=
         unwrap_or (ua_issue_description_template rq) (ap_issue_description_template a),
       ap_updated_at := now\<rparr>"

definition set_autopilot :: "autopilot_db \<Rightarrow> uuid \<Rightarrow> (autopilot \<Rightarrow> autopilot) \<Rightarrow> autopilot_db" where
  "set_autopilot db i f = db\<lparr>sd_autopilots := tbl_update ap_id i f (sd_autopilots db)\<rparr>"

definition autopilot_update ::
  "cron_lib \<Rightarrow> autopilot_db \<Rightarrow> uuid \<Rightarrow> update_autopilot_request \<Rightarrow> autopilot_error + (autopilot \<times> autopilot_db)" where
  "autopilot_update lib db i rq =
     (let now = sd_now db in
      case autopilot_find db i of None \<Rightarrow> Inl (ApDatabase RowNotFound) | Some old \<Rightarrow>
      (let a = autopilot_apply now rq old in
       if \<not> autopilot_refs_ok db a then Inl (ApDatabase ForeignKeyViolation)
       else if ua_cron_expression rq = None \<and> ua_timezone rq = None
       then Inr (a, set_autopilot db i (\<lambda>_. a))
       else (case advance_cron_tz lib (ap_cron_expression a) (ap_timezone a) now of
          None \<Rightarrow> Inl ApPanic
        | Some next \<Rightarrow> (let a = a\<lparr>ap_next_run_at := Some next\<rparr> in Inr (a, set_autopilot db i (\<lambda>_. a))))))"

definition autopilot_delete :: "autopilot_db \<Rightarrow> uuid \<Rightarrow> autopilot_db" where
  \<comment> \<open>the runs go with it\<close>
  "autopilot_delete db i = db\<lparr>sd_autopilots := tbl_delete ap_id i (sd_autopilots db),
     sd_runs := filter (\<lambda>r. ar_autopilot_id r \<noteq> i) (sd_runs db)\<rparr>"

definition due :: "timestamp \<Rightarrow> autopilot \<Rightarrow> bool" where
  "due now a = (ap_enabled a \<and> (case ap_next_run_at a of None \<Rightarrow> False | Some t \<Rightarrow> t \<le> now))"

definition advance_row :: "cron_lib \<Rightarrow> timestamp \<Rightarrow> autopilot \<Rightarrow> autopilot option" where
  \<comment> \<open>the update of a claimed row\<close>
  "advance_row lib now a = map_option (\<lambda>next. a\<lparr>ap_last_run_at := Some now, ap_next_run_at := Some next, ap_updated_at := now\<rparr>)
     (advance_cron_tz lib (ap_cron_expression a) (ap_timezone a) now)"

definition claim_due :: "cron_lib \<Rightarrow> uuid list \<Rightarrow> autopilot_db \<Rightarrow> (autopilot list \<times> autopilot_db) option" where
  \<comment> \<open>\<open>locked\<close> are the rows that \<open>SKIP LOCKED\<close> skips; None when a date panics and the transaction is lost\<close>
  "claim_due lib locked db =
     (let now = sd_now db; picked = (\<lambda>a. due now a \<and> ap_id a \<notin> set locked) in
      if list_ex (\<lambda>a. picked a \<and> advance_row lib now a = None) (sd_autopilots db) then None
      else Some (sort_key (\<lambda>a. unwrap_or (ap_next_run_at a) 0) (filter picked (sd_autopilots db)),
        db\<lparr>sd_autopilots := map (\<lambda>a. if picked a then unwrap_or (advance_row lib now a) a else a) (sd_autopilots db)\<rparr>))"

definition find_due :: "cron_lib \<Rightarrow> uuid list \<Rightarrow> autopilot_db \<Rightarrow> (autopilot list \<times> autopilot_db) option" where
  "find_due = claim_due"

definition advance_schedule :: "autopilot_db \<Rightarrow> uuid \<Rightarrow> timestamp \<Rightarrow> timestamp \<Rightarrow> autopilot_db" where
  "advance_schedule db i last_run next_run =
     set_autopilot db i (\<lambda>a. a\<lparr>ap_last_run_at := Some last_run, ap_next_run_at := Some next_run, ap_updated_at := sd_now db\<rparr>)"

definition run_create_row :: "autopilot_db \<Rightarrow> uuid \<Rightarrow> db_error + (autopilot_run \<times> autopilot_db)" where
  \<comment> \<open>\<open>create_run\<close>\<close>
  "run_create_row db autopilot =
     (let i = fresh_uuid (map ar_id (sd_runs db)) (sd_board db);
          r = \<lparr>ar_id = i, ar_autopilot_id = autopilot, ar_status = ApQueued, ar_planned_at = sd_now db,
            ar_started_at = None, ar_completed_at = None, ar_issue_id = None, ar_agent_task_id = None,
            ar_error_message = None, ar_created_at = sd_now db\<rparr> in
      if autopilot_find db autopilot = None then Inl ForeignKeyViolation
      else Inr (r, db\<lparr>sd_runs := sd_runs db @ [r],
             sd_board := (sd_board db)\<lparr>db_next_uuid := max (Suc i) (db_next_uuid (sd_board db))\<rparr>\<rparr>))"

definition run_terminal :: "autopilot_run_status \<Rightarrow> bool" where
  "run_terminal s = (s \<in> {ApCompleted, ApFailed, ApSkipped})"

definition run_apply ::
  "timestamp \<Rightarrow> autopilot_run_status \<Rightarrow> uuid option \<Rightarrow> uuid option \<Rightarrow> string option \<Rightarrow> autopilot_run \<Rightarrow> autopilot_run" where
  "run_apply now s issue task err r =
     r\<lparr>ar_status := s, ar_issue_id := opt_or issue (ar_issue_id r), ar_agent_task_id := opt_or task (ar_agent_task_id r),
       ar_error_message := opt_or err (ar_error_message r),
       ar_started_at := (if s = ApRunning then opt_or (ar_started_at r) (Some now) else ar_started_at r),
       ar_completed_at := (if run_terminal s then Some now else ar_completed_at r)\<rparr>"

definition update_run ::
  "autopilot_db \<Rightarrow> uuid \<Rightarrow> autopilot_run_status \<Rightarrow> uuid option \<Rightarrow> uuid option \<Rightarrow> string option \<Rightarrow> autopilot_db" where
  \<comment> \<open>the callers ignore an error, here that of a foreign key\<close>
  "update_run db i s issue task err =
     (if (case issue of None \<Rightarrow> False | Some k \<Rightarrow> issue_find (sd_board db) k = None) \<or>
         (case task of None \<Rightarrow> False | Some k \<Rightarrow> task_find (sd_board db) k = None) then db
      else db\<lparr>sd_runs := tbl_update ar_id i (run_apply (sd_now db) s issue task err) (sd_runs db)\<rparr>)"

definition list_runs :: "autopilot_db \<Rightarrow> uuid \<Rightarrow> nat \<Rightarrow> autopilot_run list" where
  "list_runs db autopilot limit = take limit
     (sort_key (\<lambda>r. - int (ar_created_at r)) (filter (\<lambda>r. ar_autopilot_id r = autopilot) (sd_runs db)))"


section \<open>Dispatch\<close>

datatype dispatch = ToSquad uuid | ToAgent uuid bool | ToNobody  \<comment> \<open>with: the agent is busy\<close>

definition agent_busy :: "remote_db \<Rightarrow> uuid \<Rightarrow> bool" where
  "agent_busy db a = list_ex (\<lambda>t. at_agent_id t = a \<and> task_active t) (db_tasks db)"

definition dispatch_begin :: "autopilot_db \<Rightarrow> autopilot \<Rightarrow> db_error + ((uuid \<times> dispatch) \<times> autopilot_db)" where
  "dispatch_begin db a =
     (case run_create_row db (ap_id a) of
        Inl e \<Rightarrow> Inl e
      | Inr (r, db) \<Rightarrow>
          Inr ((ar_id r, case ap_squad_id a of Some s \<Rightarrow> ToSquad s
             | None \<Rightarrow> (case ap_agent_id a of None \<Rightarrow> ToNobody
                | Some g \<Rightarrow> ToAgent g (ap_concurrency_policy a = PolicySkip \<and> agent_busy (sd_board db) g))), db))"

definition create_issue_from_template ::
  "cron_lib \<Rightarrow> remote_db \<Rightarrow> autopilot \<Rightarrow> uuid \<Rightarrow> (db_error + uuid) \<times> remote_db" where
  "create_issue_from_template lib db a agent =
     (case sort_key ps_sort_order (filter (\<lambda>s. ps_project_id s = ap_project_id a) (db_statuses db)) of
        [] \<Rightarrow> (Inl RowNotFound, db)
      | st # _ \<Rightarrow>
          (let i = fresh_uuid (map is_id (db_issues db)) db;
               iss = \<lparr>is_id = i, is_project_id = ap_project_id a, is_status_id = ps_id st,
                  is_simple_id = cl_simple_id lib i,
                  is_title = str_replace ''{{date}}'' (cl_date lib (db_now db)) 0
                    (render_autopilot_template lib (db_now db) (ap_issue_title_template a) a),
                  is_description = Some (render_autopilot_template lib (db_now db) (ap_issue_description_template a) a),
                  is_creator_user_id = None\<rparr>;
               db = db\<lparr>db_issues := db_issues db @ [iss], db_next_uuid := max (Suc i) (db_next_uuid db)\<rparr>;
               k = fresh_uuid (map ia_id (db_assignees db)) db in
           if agent_find db agent = None then (Inl ForeignKeyViolation, db)
           else (Inr i, db\<lparr>db_assignees := db_assignees db @ [\<lparr>ia_id = k, ia_issue_id = i, ia_user_id = None,
                  ia_agent_id = Some agent, ia_squad_id = None\<rparr>]\<rparr>)))"

definition find_or_create_run_only_issue ::
  "cron_lib \<Rightarrow> remote_db \<Rightarrow> autopilot \<Rightarrow> uuid \<Rightarrow> (db_error + uuid) \<times> remote_db" where
  "find_or_create_run_only_issue lib db a agent =
     (case sort_key (\<lambda>i. - int (cl_issue_updated lib (is_id i)))
             (filter (\<lambda>i. is_project_id i = ap_project_id a \<and>
                list_ex (\<lambda>x. ia_issue_id x = is_id i \<and> ia_agent_id x = Some agent) (db_assignees db)) (db_issues db)) of
        i # _ \<Rightarrow> (Inr (is_id i), db)
      | [] \<Rightarrow> create_issue_from_template lib db a agent)"

definition do_dispatch ::
  "cron_lib \<Rightarrow> run_env \<Rightarrow> autopilot_db \<Rightarrow> autopilot \<Rightarrow> uuid \<Rightarrow> bool \<Rightarrow> uuid \<Rightarrow> (string + unit) \<times> autopilot_db" where
  "do_dispatch lib en db a agent busy run =
     (if busy then (Inr (), update_run db run ApSkipped None None (Some ''skipped: active task running''))
      else
       (let db = update_run db run ApRunning None None None in
        case (case ap_execution_mode a of
                CreateIssue \<Rightarrow> create_issue_from_template lib (sd_board db) a agent
              | RunOnly \<Rightarrow> find_or_create_run_only_issue lib (sd_board db) a agent) of
          (Inl e, board) \<Rightarrow> (Inl (et_db (en_texts en) e), db\<lparr>sd_board := board\<rparr>)
        | (Inr i, board) \<Rightarrow>
            (case enqueue board None agent i Autopilot 0 False None False None None None of
               Inl e \<Rightarrow> (Inl (et_db (en_texts en) e), db\<lparr>sd_board := board\<rparr>)
             | Inr (t, board) \<Rightarrow>
                 (Inr (), update_run (db\<lparr>sd_board := board\<rparr>) run ApCompleted (Some i) (Some (at_id t)) None))))"

definition execute_squad_pipeline ::
  "run_env \<Rightarrow> walk_event list \<Rightarrow> remote_db \<Rightarrow> squad \<Rightarrow> run_squad_request \<Rightarrow> uuid option \<Rightarrow>
   ((run_error + run_squad_response) \<times> remote_db) option" where
  \<comment> \<open>with what happens during the walk; None when the walk has not returned by then\<close>
  "execute_squad_pipeline en evs db sq rq actor =
     (case execute_start en db sq rq of
        Inl e \<Rightarrow> Some (Inl e, db)
      | Inr (cx, roots, db) \<Rightarrow>
          (let w = walk_run cx (init_world db 0 (rq_start_from_node_id rq) roots) evs in
           case walk_finished w of
             None \<Rightarrow> None
           | Some (Inl e) \<Rightarrow> Some (Inl (WalkFailed e), sh_db (fst w))
           | Some (Inr _) \<Rightarrow> (case execute_finish en cx rq actor (fst w) of (resp, db) \<Rightarrow> Some (Inr resp, db))))"

definition do_dispatch_squad ::
  "run_env \<Rightarrow> walk_event list \<Rightarrow> autopilot_db \<Rightarrow> autopilot \<Rightarrow> uuid \<Rightarrow> uuid \<Rightarrow> ((string + unit) \<times> autopilot_db) option" where
  "do_dispatch_squad en evs db a squad_id run =
     (let db = update_run db run ApRunning None None None in
      case tbl_find sq_id squad_id (db_squads (sd_board db)) of
        None \<Rightarrow> Some (Inl (''squad '' @ show_uuid squad_id @ '' not found''), db)
      | Some sq \<Rightarrow>
          (if sq_project_id sq \<noteq> ap_project_id a
           then Some (Inl ''squad does not belong to autopilot project'', db)
           else (case execute_squad_pipeline en evs (sd_board db) sq default_request None of
              None \<Rightarrow> None
            | Some (Inl e, board) \<Rightarrow> Some (Inl (run_error_text (en_texts en) e), db\<lparr>sd_board := board\<rparr>)
            | Some (Inr resp, board) \<Rightarrow>
                Some (Inr (), update_run (db\<lparr>sd_board := board\<rparr>) run ApCompleted (Some (rs_issue_id resp))
                  (case rs_agent_task_ids resp of [] \<Rightarrow> None | t # _ \<Rightarrow> Some t) None))))"

definition dispatch_finish ::
  "cron_lib \<Rightarrow> run_env \<Rightarrow> walk_event list \<Rightarrow> autopilot_db \<Rightarrow> autopilot \<Rightarrow> uuid \<Rightarrow> dispatch \<Rightarrow>
   ((string + unit) \<times> autopilot_db) option" where
  "dispatch_finish lib en evs db a run d =
     (let settle = (\<lambda>(r, db). (r, case r of Inl e \<Rightarrow> update_run db run ApFailed None None (Some e) | Inr _ \<Rightarrow> db)) in
      case d of
        ToSquad s \<Rightarrow> map_option settle (do_dispatch_squad en evs db a s run)
      | ToAgent g busy \<Rightarrow> Some (settle (do_dispatch lib en db a g busy run))
      | ToNobody \<Rightarrow> Some (Inr (), update_run db run ApSkipped None None (Some ''skipped: no squad_id or agent_id'')))"

definition dispatch_autopilot ::
  "cron_lib \<Rightarrow> run_env \<Rightarrow> walk_event list \<Rightarrow> autopilot_db \<Rightarrow> autopilot \<Rightarrow> ((string + unit) \<times> autopilot_db) option" where
  \<comment> \<open>with nothing in between\<close>
  "dispatch_autopilot lib en evs db a =
     (case dispatch_begin db a of
        Inl e \<Rightarrow> Some (Inl (et_db (en_texts en) e), db)
      | Inr ((run, d), db) \<Rightarrow> dispatch_finish lib en evs db a run d)"

section \<open>Handlers\<close>

definition load_autopilot :: "autopilot_db \<Rightarrow> uuid \<Rightarrow> uuid \<Rightarrow> error_response + autopilot" where
  \<comment> \<open>\<open>load_and_authorize\<close>\<close>
  "load_autopilot db user i =
     (case autopilot_find db i of
        None \<Rightarrow> Inl (error_new NOT_FOUND ''autopilot not found'')
      | Some a \<Rightarrow> (case ensure_project_access (sd_board db) user (ap_project_id a) of Inl e \<Rightarrow> Inl e | Inr _ \<Rightarrow> Inr a))"

definition list_autopilots :: "cron_lib \<Rightarrow> autopilot_db \<Rightarrow> uuid \<Rightarrow> uuid \<Rightarrow> error_response + autopilot list" where
  "list_autopilots lib db user proj =
     (case ensure_project_access (sd_board db) user proj of Inl e \<Rightarrow> Inl e | Inr _ \<Rightarrow> Inr (autopilot_list lib db proj))"

definition get_autopilot :: "autopilot_db \<Rightarrow> uuid \<Rightarrow> uuid \<Rightarrow> error_response + autopilot" where
  "get_autopilot db user i = load_autopilot db user i"

definition autopilot_response :: "string \<Rightarrow> autopilot_error \<Rightarrow> error_response option" where
  \<comment> \<open>None when the handler panics\<close>
  "autopilot_response fallback e = (case e of ApPanic \<Rightarrow> None | ApDatabase e \<Rightarrow> Some (db_error_response e fallback))"

definition create_autopilot ::
  "cron_lib \<Rightarrow> autopilot_db \<Rightarrow> uuid \<Rightarrow> create_autopilot_request \<Rightarrow> error_response option + (autopilot \<times> autopilot_db)" where
  "create_autopilot lib db user rq =
     (case ensure_project_access (sd_board db) user (ca_project_id rq) of
        Inl e \<Rightarrow> Inl (Some e)
      | Inr _ \<Rightarrow> map_sum (autopilot_response ''failed to create autopilot'') id (autopilot_create lib db rq))"

definition update_autopilot ::
  "cron_lib \<Rightarrow> autopilot_db \<Rightarrow> uuid \<Rightarrow> uuid \<Rightarrow> update_autopilot_request \<Rightarrow>
   error_response option + (autopilot \<times> autopilot_db)" where
  "update_autopilot lib db user i rq =
     (case load_autopilot db user i of
        Inl e \<Rightarrow> Inl (Some e)
      | Inr _ \<Rightarrow> map_sum (autopilot_response ''failed to update autopilot'') id (autopilot_update lib db i rq))"

definition delete_autopilot :: "autopilot_db \<Rightarrow> uuid \<Rightarrow> uuid \<Rightarrow> error_response + autopilot_db" where
  "delete_autopilot db user i =
     (case load_autopilot db user i of Inl e \<Rightarrow> Inl e | Inr _ \<Rightarrow> Inr (autopilot_delete db i))"

definition trigger_autopilot :: "autopilot_db \<Rightarrow> uuid \<Rightarrow> uuid \<Rightarrow> error_response + autopilot" where
  \<comment> \<open>the autopilot whose dispatch is spawned\<close>
  "trigger_autopilot db user i = load_autopilot db user i"

definition list_autopilot_runs :: "autopilot_db \<Rightarrow> uuid \<Rightarrow> uuid \<Rightarrow> error_response + autopilot_run list" where
  "list_autopilot_runs db user i =
     (case load_autopilot db user i of Inl e \<Rightarrow> Inl e | Inr _ \<Rightarrow> Inr (list_runs db i 50))"

end
