(* ===== verification/Autopilots_Props.thy ===== *)
theory Autopilots_Props
  imports Autopilots Squad_Database "HOL-Library.Code_Target_Nat"
begin

text \<open>
  What the scheduler guarantees with several servers and clients: an autopilot fires once per
  occurrence, and every dispatch settles the run row that it has made.
\<close>

section \<open>Histories\<close>

record scheduler =
  sc_db :: autopilot_db
  sc_spawned :: "autopilot list"  \<comment> \<open>dispatches that have not begun\<close>
  sc_open :: "(autopilot \<times> uuid \<times> dispatch) list"  \<comment> \<open>with their run rows\<close>
  sc_claims :: "(uuid \<times> timestamp \<times> timestamp) list"  \<comment> \<open>newest first: autopilot, time, next run\<close>

datatype sched_event =
    SchedTick "uuid list"
  | DispatchBegin nat
  | DispatchFinish nat "walk_event list"
  | CreateAutopilot uuid create_autopilot_request
  | UpdateAutopilot uuid uuid update_autopilot_request
  | DeleteAutopilot uuid uuid
  | TriggerAutopilot uuid uuid
  | TaskOp queue_op
  | SchedTime nat

definition set_board :: "remote_db \<Rightarrow> autopilot_db \<Rightarrow> autopilot_db" where
  \<comment> \<open>the tasks of runs are set to NULL when they are deleted\<close>
  "set_board board db = db\<lparr>sd_board := board,
     sd_runs := map (\<lambda>r. if (case ar_agent_task_id r of None \<Rightarrow> False | Some t \<Rightarrow> task_find board t = None)
       then r\<lparr>ar_agent_task_id := None\<rparr> else r) (sd_runs db)\<rparr>"

fun sched_step :: "cron_lib \<Rightarrow> run_env \<Rightarrow> scheduler \<Rightarrow> sched_event \<Rightarrow> scheduler" where
  "sched_step lib en s (SchedTick locked) =
     (case claim_due lib locked (sc_db s) of
        None \<Rightarrow> s
      | Some (claimed, db) \<Rightarrow> s\<lparr>sc_db := db, sc_spawned := sc_spawned s @ claimed,
          sc_claims := map (\<lambda>a. (ap_id a, sd_now db,
            unwrap_or (advance_cron_tz lib (ap_cron_expression a) (ap_timezone a) (sd_now db)) 0)) claimed @ sc_claims s\<rparr>)"
| "sched_step lib en s (DispatchBegin k) =
     (if length (sc_spawned s) \<le> k then s
      else let a = sc_spawned s ! k; rest = take k (sc_spawned s) @ drop (Suc k) (sc_spawned s) in
        (case dispatch_begin (sc_db s) a of
           Inl e \<Rightarrow> s\<lparr>sc_spawned := rest\<rparr>
         | Inr ((run, d), db) \<Rightarrow> s\<lparr>sc_db := db, sc_spawned := rest, sc_open := sc_open s @ [(a, run, d)]\<rparr>))"
| "sched_step lib en s (DispatchFinish k evs) =
     (if length (sc_open s) \<le> k then s
      else (case sc_open s ! k of (a, run, d) \<Rightarrow>
        (case dispatch_finish lib en evs (sc_db s) a run d of
           None \<Rightarrow> s
         | Some (_, db) \<Rightarrow> s\<lparr>sc_db := set_board (sd_board db) db,
             sc_open := take k (sc_open s) @ drop (Suc k) (sc_open s)\<rparr>)))"
| "sched_step lib en s (CreateAutopilot user rq) =
     (case create_autopilot lib (sc_db s) user rq of Inl _ \<Rightarrow> s | Inr (_, db) \<Rightarrow> s\<lparr>sc_db := db\<rparr>)"
| "sched_step lib en s (UpdateAutopilot user i rq) =
     (case update_autopilot lib (sc_db s) user i rq of Inl _ \<Rightarrow> s | Inr (_, db) \<Rightarrow> s\<lparr>sc_db := db\<rparr>)"
| "sched_step lib en s (DeleteAutopilot user i) =
     (case delete_autopilot (sc_db s) user i of Inl _ \<Rightarrow> s | Inr db \<Rightarrow> s\<lparr>sc_db := db\<rparr>)"
| "sched_step lib en s (TriggerAutopilot user i) =
     (case trigger_autopilot (sc_db s) user i of Inl _ \<Rightarrow> s | Inr a \<Rightarrow> s\<lparr>sc_spawned := sc_spawned s @ [a]\<rparr>)"
| "sched_step lib en s (TaskOp op) =
     s\<lparr>sc_db := set_board (queue_step (sd_board (sc_db s)) op) (sc_db s)\<rparr>"
| "sched_step lib en s (SchedTime n) =
     s\<lparr>sc_db := (sc_db s)\<lparr>sd_board := (sd_board (sc_db s))\<lparr>db_now := sd_now (sc_db s) + n\<rparr>\<rparr>\<rparr>"

definition sched_run :: "cron_lib \<Rightarrow> run_env \<Rightarrow> scheduler \<Rightarrow> sched_event list \<Rightarrow> scheduler" where
  "sched_run lib en = foldl (sched_step lib en)"

section \<open>Schedules move forward\<close>

definition cron_moves_on :: "cron_lib \<Rightarrow> bool" where
  \<comment> \<open>the documented behaviour of \<open>Schedule::after\<close>: times after the given one\<close>
  "cron_moves_on lib = (\<forall>e tz from t. cl_next lib e tz from = Some t \<longrightarrow> from < t)"

lemma parse_positive: "parse_positive_i64 s = Some n \<Longrightarrow> 0 < n"
  by (auto simp: parse_positive_i64_def Let_def split: if_splits)

lemma fallback_positive: "0 < fallback_interval parts"
  by (auto simp: fallback_interval_def every_n_def dest: parse_positive split: list.splits option.splits)

lemma advance_moves_on:
  "cron_moves_on lib \<Longrightarrow> advance_cron_tz lib e tz from = Some t \<Longrightarrow> from < t"
  using fallback_positive [of "ws_words [] (str_trim e)"]
  by (auto simp: advance_cron_tz_def cron_moves_on_def time_add_def Let_def split: if_splits option.splits)

definition release :: "bool \<Rightarrow> timestamp \<Rightarrow> timestamp \<Rightarrow> timestamp" where
  \<comment> \<open>when a claim may be followed by the next: with fixed schedules at the time that it computed\<close>
  "release fixed t n = (if fixed then n else Suc t)"

definition claims_inv :: "bool \<Rightarrow> scheduler \<Rightarrow> bool" where
  \<comment> \<open>what has been claimed at a time is due again only later\<close>
  "claims_inv fixed s =
     (distinct (map ap_id (sd_autopilots (sc_db s))) \<and>
      (\<forall>(i, t, n) \<in> set (sc_claims s). t \<le> sd_now (sc_db s) \<and>
         (\<forall>a \<in> set (sd_autopilots (sc_db s)). ap_id a = i \<longrightarrow> (\<forall>m. ap_next_run_at a = Some m \<longrightarrow> release fixed t n \<le> m))) \<and>
      sorted_wrt (\<lambda>(i', t', n') (i, t, n). i' = i \<longrightarrow> release fixed t n \<le> t') (sc_claims s))"

fun keeps_schedules :: "sched_event \<Rightarrow> bool" where
  "keeps_schedules (CreateAutopilot _ _) = False"
| "keeps_schedules (UpdateAutopilot _ _ rq) = (ua_cron_expression rq = None \<and> ua_timezone rq = None)"
| "keeps_schedules _ = True"

text \<open>Time does not run backwards in a walk.\<close>

lemma enqueue_now: "enqueue db i a iss tr pr fr sq ld rp pm rv = Inr (t, db') \<Longrightarrow> db_now db' = db_now db"
  by (auto simp: enqueue_def insert_task_def Let_def split: option.splits sum.splits if_splits)

lemma queue_step_now: "db_now (queue_step db op) = db_now db"
  by (cases op) (auto simp: claim_next_def claim_commit_def task_update_def task_delete_def Let_def
      split: sum.splits option.splits if_splits dest: enqueue_now)

interpretation later: db_invariant "\<lambda>db. t \<le> db_now db" for t
  by unfold_locales (auto simp: enqueue_now queue_step_now)

definition same_board :: "remote_db \<Rightarrow> remote_db \<Rightarrow> bool" where
  \<comment> \<open>what the tail of a run leaves alone\<close>
  "same_board db db' = (db_now db' = db_now db \<and> db_issues db' = db_issues db \<and> db_tasks db' = db_tasks db)"

lemma same_board_refl [simp]: "same_board db db"
  by (simp add: same_board_def)

lemma same_board_trans: "same_board a b \<Longrightarrow> same_board b c \<Longrightarrow> same_board a c"
  by (simp add: same_board_def)

lemma inbox_board: "same_board db (inbox_create db u p i ty ti b js)"
  by (simp add: inbox_create_def same_board_def Let_def)

lemma inboxes_board: "same_board db (foldl (\<lambda>d u. inbox_create d u p i ty ti b js) db us)"
proof (induction us arbitrary: db)
  case (Cons u us)
  show ?case using same_board_trans [OF inbox_board Cons.IH] by simp
qed simp

lemma run_write_board: "run_write db i u = Inr (r, db') \<Longrightarrow> same_board db db'"
  by (auto simp: run_write_def same_board_def Let_def split: option.splits)

lemma settle_board: "same_board db (snd (keep_ok db (settle_run db i sh)))"
  by (auto simp: keep_ok_def settle_run_def mark_waiting_approval_def mark_status_def mark_completed_def
      split: sum.split option.split dest: run_write_board)

lemma finish_board: "same_board (sh_db sh) (snd (execute_finish en cx rq actor sh))"
proof -
  have notify: "same_board db (notify_run db cx actor run sh)" for db run
    by (auto simp: notify_run_def Let_def inboxes_board split: option.split)
  have created: "run_create db sq i st start wd c = Inr (r, db') \<Longrightarrow> same_board db db'" for db sq i st start wd c r db'
    by (auto simp: run_create_def same_board_def Let_def split: if_splits)
  have "same_board db (snd (persist_run db cx rq actor sh))" for db
    by (auto simp: persist_run_def settle_board split: option.split sum.split
        dest!: created intro: same_board_trans [OF _ settle_board])
  moreover have "same_board (sh_db sh) ((sh_db sh)\<lparr>db_comments := cs\<rparr>)" for cs by (simp add: same_board_def)
  ultimately show ?thesis
    by (auto simp: execute_finish_def Let_def split: prod.split)
      (metis notify same_board_trans snd_conv)
qed

lemma execute_pipeline_now:
  assumes "execute_squad_pipeline en evs db sq rq actor = Some (r, db')"
  shows "db_now db \<le> db_now db'"
proof (cases "execute_start en db sq rq")
  case (Inl e)
  then show ?thesis using assms by (simp add: execute_squad_pipeline_def)
next
  case (Inr st)
  obtain cx roots db1 where st: "st = (cx, roots, db1)" by (cases st)
  have "db_now db1 = db_now db"
    using Inr st by (auto simp: execute_start_def create_path_run_issue_def Let_def
        split: option.splits if_splits sum.splits list.splits)
  moreover have "db_now db1 \<le> db_now (sh_db (fst (walk_run cx (init_world db1 0 (rq_start_from_node_id rq) roots) evs)))"
    by (rule later.init_keeps) simp
  ultimately show ?thesis
    using assms Inr st finish_board [of _ en cx rq actor]
    by (auto simp: execute_squad_pipeline_def Let_def same_board_def split: option.splits sum.splits prod.splits)
      (metis snd_conv)+
qed

lemma update_run_keeps [simp]:
  "sd_board (update_run db i st issue task err) = sd_board db"
  "sd_autopilots (update_run db i st issue task err) = sd_autopilots db"
  by (simp_all add: update_run_def)

lemma template_issue_now:
  "db_now (snd (create_issue_from_template lib db a g)) = db_now db"
  "db_now (snd (find_or_create_run_only_issue lib db a g)) = db_now db"
  by (auto simp: create_issue_from_template_def find_or_create_run_only_issue_def Let_def split: list.split)

definition moves_on :: "autopilot_db \<Rightarrow> autopilot_db \<Rightarrow> bool" where
  "moves_on db db' = (sd_now db \<le> sd_now db' \<and> sd_autopilots db' = sd_autopilots db)"

lemma moves_on_update [simp]: "moves_on db (update_run db' i st issue task err) = moves_on db db'"
  by (simp add: moves_on_def sd_now_def)

lemma moves_on_refl [simp]: "moves_on db db"
  by (simp add: moves_on_def)

lemma do_dispatch_moves_on: "moves_on db (snd (do_dispatch lib en db a g busy run))"
proof -
  have "moves_on db (update_run db run ApRunning None None None\<lparr>sd_board := board\<rparr>)"
    if "db_now board = sd_now db" for board
    using that by (simp add: moves_on_def sd_now_def)
  then show ?thesis
    using template_issue_now [of lib "sd_board db" a g]
    by (auto simp: do_dispatch_def Let_def sd_now_def split: execution_mode.split prod.split sum.split dest!: enqueue_now)
qed

lemma do_dispatch_squad_moves_on: "do_dispatch_squad en evs db a sq run = Some (r, db') \<Longrightarrow> moves_on db db'"
  by (auto simp: do_dispatch_squad_def Let_def moves_on_def sd_now_def
      split: option.splits if_splits prod.splits sum.splits dest!: execute_pipeline_now)

lemma dispatch_moves_on: "dispatch_finish lib en evs db a run d = Some (r, db') \<Longrightarrow> moves_on db db'"
proof (cases d)
  case (ToSquad s)
  assume "dispatch_finish lib en evs db a run d = Some (r, db')"
  then show ?thesis
    using ToSquad do_dispatch_squad_moves_on [of en evs db a s run]
    by (cases r) (auto simp: dispatch_finish_def split: sum.splits)
next
  case (ToAgent g busy)
  assume "dispatch_finish lib en evs db a run d = Some (r, db')"
  then show ?thesis
    using ToAgent do_dispatch_moves_on [of db lib en a g busy run]
    by (auto simp: dispatch_finish_def split: sum.splits prod.splits)
qed (auto simp: dispatch_finish_def)

lemma claims_same:
  assumes "claims_inv fixed s" "sc_claims s' = sc_claims s" "sd_autopilots (sc_db s') = sd_autopilots (sc_db s)"
    "sd_now (sc_db s) \<le> sd_now (sc_db s')"
  shows "claims_inv fixed s'"
  using assms unfolding claims_inv_def by (fastforce intro: order_trans)

lemma claims_rows:
  \<comment> \<open>rows may go, and new ones and changed schedules point to the future\<close>
  assumes "claims_inv fixed s" "sc_claims s' = sc_claims s" "sd_now (sc_db s') = sd_now (sc_db s)"
    and "distinct (map ap_id (sd_autopilots (sc_db s')))"
    and "\<And>a. a \<in> set (sd_autopilots (sc_db s')) \<Longrightarrow>
      (\<exists>b \<in> set (sd_autopilots (sc_db s)). ap_id b = ap_id a \<and> ap_next_run_at b = ap_next_run_at a) \<or>
      (\<not> fixed \<and> (\<exists>n. ap_next_run_at a = Some n \<and> sd_now (sc_db s) < n))"
  shows "claims_inv fixed s'"
proof -
  have "release fixed t n \<le> m"
    if c: "(i, t, n) \<in> set (sc_claims s)" and a: "a \<in> set (sd_autopilots (sc_db s'))" "ap_id a = i" "ap_next_run_at a = Some m"
    for i t n a m
    using assms(5) [OF a(1)]
  proof (elim disjE bexE conjE exE)
    fix k assume "\<not> fixed" "ap_next_run_at a = Some k" "sd_now (sc_db s) < k"
    moreover have "t \<le> sd_now (sc_db s)" using assms(1) c by (auto simp: claims_inv_def)
    ultimately show ?thesis using a(3) by (simp add: release_def)
  qed (use assms(1) c a(2,3) in \<open>fastforce simp: claims_inv_def\<close>)
  then show ?thesis using assms(1-4) by (auto simp: claims_inv_def)
qed


lemma claims_distinct: "claims_inv fixed s \<Longrightarrow> distinct (map ap_id (sd_autopilots (sc_db s)))"
  by (simp add: claims_inv_def)

lemma new_autopilot_id [simp]: "ap_id (new_autopilot i now rq) = i"
  by (simp add: new_autopilot_def)

lemma apply_keeps [simp]:
  "ap_id (autopilot_apply now rq a) = ap_id a" "ap_next_run_at (autopilot_apply now rq a) = ap_next_run_at a"
  by (simp_all add: autopilot_apply_def)

lemma advance_row_Some:
  "advance_row lib now a = Some b \<Longrightarrow> ap_id b = ap_id a \<and>
   (\<exists>n. ap_next_run_at b = Some n \<and> advance_cron_tz lib (ap_cron_expression a) (ap_timezone a) now = Some n)"
  by (auto simp: advance_row_def)

lemma create_row:
  assumes "autopilot_create lib db rq = Inr (a, db')" "cron_moves_on lib"
  obtains n where "ap_id a \<notin> ap_id ` set (sd_autopilots db)" "ap_next_run_at a = Some n" "sd_now db < n"
    "sd_now db' = sd_now db" "sd_autopilots db' = sd_autopilots db @ [a]"
  using assms(1) advance_moves_on [OF assms(2)]
  by (auto simp: autopilot_create_def Let_def autopilot_find_def tbl_find_None sd_now_def split: option.splits if_splits)

lemma update_row:
  assumes "autopilot_update lib db i rq = Inr (a, db')" "cron_moves_on lib"
  obtains old where "autopilot_find db i = Some old" "db' = set_autopilot db i (\<lambda>_. a)" "ap_id a = i"
    "ap_next_run_at a = ap_next_run_at old \<or> ((ua_cron_expression rq \<noteq> None \<or> ua_timezone rq \<noteq> None) \<and>
       (\<exists>n. ap_next_run_at a = Some n \<and> sd_now db < n))"
  using assms(1) advance_moves_on [OF assms(2)] tbl_find_Some [of ap_id i "sd_autopilots db"]
  by (fastforce simp: autopilot_update_def Let_def autopilot_find_def split: option.splits if_splits)

lemma claim_due_rows:
  assumes c: "claim_due lib locked db = Some (claimed, db')"
  shows "sd_board db' = sd_board db" "map ap_id (sd_autopilots db') = map ap_id (sd_autopilots db)"
    "set claimed \<subseteq> {a \<in> set (sd_autopilots db). due (sd_now db) a}"
    "distinct (map ap_id (sd_autopilots db)) \<Longrightarrow> distinct (map ap_id claimed)"
    "\<And>a. a \<in> set (sd_autopilots db') \<Longrightarrow> a \<in> set (sd_autopilots db) \<and> a \<notin> set claimed \<or>
       (\<exists>b \<in> set claimed. advance_row lib (sd_now db) b = Some a)"
proof -
  define picked where "picked a \<longleftrightarrow> due (sd_now db) a \<and> ap_id a \<notin> set locked" for a
  have ok: "\<forall>a \<in> set (sd_autopilots db). picked a \<longrightarrow> (\<exists>b. advance_row lib (sd_now db) a = Some b)"
    and claimed: "claimed = sort_key (\<lambda>a. unwrap_or (ap_next_run_at a) 0) (filter picked (sd_autopilots db))"
    and db': "db' = db\<lparr>sd_autopilots := map (\<lambda>a. if picked a then unwrap_or (advance_row lib (sd_now db) a) a else a) (sd_autopilots db)\<rparr>"
    using c unfolding claim_due_def Let_def picked_def [symmetric] by (auto simp: list_ex_iff split: if_splits)
  show "sd_board db' = sd_board db" by (simp add: db')
  show "set claimed \<subseteq> {a \<in> set (sd_autopilots db). due (sd_now db) a}" by (auto simp: claimed picked_def)
  show "map ap_id (sd_autopilots db') = map ap_id (sd_autopilots db)"
    using ok by (auto simp: db' unwrap_or_def dest!: advance_row_Some split: option.split)
  show "distinct (map ap_id claimed)" if "distinct (map ap_id (sd_autopilots db))"
    using that unfolding claimed distinct_map by (auto simp: inj_on_def)
  show "a \<in> set (sd_autopilots db) \<and> a \<notin> set claimed \<or> (\<exists>b \<in> set claimed. advance_row lib (sd_now db) b = Some a)"
    if "a \<in> set (sd_autopilots db')" for a
    using that ok by (fastforce simp: db' claimed unwrap_or_def)
qed

lemma tick_claims:
  assumes moves: "cron_moves_on lib" and inv: "claims_inv fixed s"
  shows "claims_inv fixed (sched_step lib en s (SchedTick locked))"
proof (cases "claim_due lib locked (sc_db s)")
  case (Some r)
  obtain claimed db where r: "r = (claimed, db)" by (cases r)
  note rows = claim_due_rows [OF Some [unfolded r]]
  let ?now = "sd_now (sc_db s)"
  let ?entry = "\<lambda>a. (ap_id a, ?now, unwrap_or (advance_cron_tz lib (ap_cron_expression a) (ap_timezone a) ?now) 0)"
  have now: "sd_now db = ?now" using rows(1) by (simp add: sd_now_def)
  have old: "release fixed t n \<le> ?now" if "a \<in> set claimed" "(ap_id a, t, n) \<in> set (sc_claims s)" for a t n
    using that rows(3) inv unfolding claims_inv_def due_def
    by (fastforce split: option.splits)
  have future: "\<forall>a \<in> set (sd_autopilots db). ap_id a = i \<longrightarrow> (\<forall>m. ap_next_run_at a = Some m \<longrightarrow> release fixed t n \<le> m)"
    if c: "(i, t, n) \<in> ?entry ` set claimed \<union> set (sc_claims s)" for i t n
  proof (intro ballI impI allI)
    fix a m assume a: "a \<in> set (sd_autopilots db)" "ap_id a = i" "ap_next_run_at a = Some m"
    consider "a \<in> set (sd_autopilots (sc_db s))" "a \<notin> set claimed"
      | b where "b \<in> set claimed" "advance_row lib ?now b = Some a" using rows(5) [OF a(1)] by blast
    then show "release fixed t n \<le> m"
    proof cases
      case 1
      have "i \<notin> ap_id ` set claimed"
        using 1 a(2) rows(3) claims_distinct [OF inv] by (auto simp: distinct_map inj_on_def)
      then have "(i, t, n) \<in> set (sc_claims s)" using c by auto
      then show ?thesis using inv 1(1) a(2,3) by (fastforce simp: claims_inv_def)
    next
      case 2
      have b: "ap_id b = i" "advance_cron_tz lib (ap_cron_expression b) (ap_timezone b) ?now = Some m" "?now < m"
        using advance_row_Some [OF 2(2)] advance_moves_on [OF moves] a(2,3) by auto
      show ?thesis
      proof (cases "(i, t, n) \<in> set (sc_claims s)")
        case True
        then show ?thesis using old [OF 2(1), of t n] b(1,3) by simp
      next
        case False
        then obtain b' where b': "b' \<in> set claimed" "(i, t, n) = ?entry b'" using c by blast
        then have "b' = b"
          using b(1) 2(1) rows(4) [OF claims_distinct [OF inv]] by (auto simp: distinct_map inj_on_def)
        then show ?thesis using b' b(2,3) by (simp add: release_def unwrap_or_def)
      qed
    qed
  qed
  have "sorted_wrt (\<lambda>(i', t', n') (i, t, n). i' = i \<longrightarrow> release fixed t n \<le> t') (map ?entry claimed @ sc_claims s)"
  proof -
    have "sorted_wrt (\<lambda>(i', t', n') (i, t, n). i' = i \<longrightarrow> release fixed t n \<le> t') (map ?entry claimed)"
      using rows(4) [OF claims_distinct [OF inv]]
      by (simp add: sorted_wrt_map distinct_map distinct_conv_nth inj_on_def sorted_wrt_iff_nth_less)
    then show ?thesis using old inv by (auto simp: sorted_wrt_append claims_inv_def)
  qed
  moreover have "t \<le> sd_now db \<and>
      (\<forall>a \<in> set (sd_autopilots db). ap_id a = i \<longrightarrow> (\<forall>m. ap_next_run_at a = Some m \<longrightarrow> release fixed t n \<le> m))"
    if "(i, t, n) \<in> set (map ?entry claimed @ sc_claims s)" for i t n
  proof -
    have c: "(i, t, n) \<in> ?entry ` set claimed \<union> set (sc_claims s)" using that by simp
    moreover have "t \<le> sd_now db" using c inv now by (auto simp: claims_inv_def)
    ultimately show ?thesis using future by blast
  qed
  then have "\<forall>(i, t, n) \<in> set (map ?entry claimed @ sc_claims s). t \<le> sd_now db \<and>
      (\<forall>a \<in> set (sd_autopilots db). ap_id a = i \<longrightarrow> (\<forall>m. ap_next_run_at a = Some m \<longrightarrow> release fixed t n \<le> m))"
    by blast
  ultimately show ?thesis
    using claims_distinct [OF inv] rows(2) now by (simp add: claims_inv_def Some r)
qed (use inv in simp)

lemma sched_step_claims:
  assumes moves: "cron_moves_on lib" and inv: "claims_inv fixed s" and keeps: "fixed \<Longrightarrow> keeps_schedules e"
  shows "claims_inv fixed (sched_step lib en s e)"
proof (cases e)
  case (SchedTick locked)
  then show ?thesis using tick_claims [OF moves inv] by simp
next
  case (DispatchBegin k)
  have "dispatch_begin db a = Inr (x, db') \<Longrightarrow> moves_on db db'" for db a x db'
    by (auto simp: dispatch_begin_def run_create_row_def moves_on_def sd_now_def Let_def split: sum.splits if_splits)
  then show ?thesis
    using inv by (auto simp: DispatchBegin Let_def moves_on_def split: sum.split intro: claims_same [OF inv])
next
  case (DispatchFinish k evs)
  show ?thesis
    using inv dispatch_moves_on
    by (auto simp: DispatchFinish moves_on_def set_board_def sd_now_def split: option.split prod.split
        intro!: claims_same [OF inv])
next
  case (CreateAutopilot user rq)
  show ?thesis
  proof (cases "create_autopilot lib (sc_db s) user rq")
    case (Inr x)
    then obtain a db where c: "autopilot_create lib (sc_db s) rq = Inr (a, db)" and x: "x = (a, db)"
      by (cases x; cases "autopilot_create lib (sc_db s) rq") (auto simp: create_autopilot_def split: sum.splits if_splits)
    obtain n where a: "ap_id a \<notin> ap_id ` set (sd_autopilots (sc_db s))" "ap_next_run_at a = Some n" "sd_now (sc_db s) < n"
      "sd_now db = sd_now (sc_db s)" "sd_autopilots db = sd_autopilots (sc_db s) @ [a]"
      by (rule create_row [OF c moves])
    then show ?thesis
      using claims_distinct [OF inv] keeps CreateAutopilot
      by (intro claims_rows [OF inv]) (auto simp: CreateAutopilot Inr x)
  qed (use inv in \<open>simp add: CreateAutopilot\<close>)
next
  case (UpdateAutopilot user i rq)
  show ?thesis
  proof (cases "update_autopilot lib (sc_db s) user i rq")
    case (Inr x)
    then obtain a db where u: "autopilot_update lib (sc_db s) i rq = Inr (a, db)" and x: "x = (a, db)"
      by (cases x; cases "autopilot_update lib (sc_db s) i rq") (auto simp: update_autopilot_def split: sum.splits)
    obtain old where old: "autopilot_find (sc_db s) i = Some old" "db = set_autopilot (sc_db s) i (\<lambda>_. a)" "ap_id a = i"
      "ap_next_run_at a = ap_next_run_at old \<or> ((ua_cron_expression rq \<noteq> None \<or> ua_timezone rq \<noteq> None) \<and>
         (\<exists>n. ap_next_run_at a = Some n \<and> sd_now (sc_db s) < n))"
      by (rule update_row [OF u moves])
    have "old \<in> set (sd_autopilots (sc_db s))" "ap_id old = i"
      using tbl_find_Some [OF old(1) [unfolded autopilot_find_def]] by simp_all
    moreover have "map ap_id (sd_autopilots db) = map ap_id (sd_autopilots (sc_db s))"
      using old(3) by (simp add: old(2) set_autopilot_def tbl_update_def)
    ultimately show ?thesis
      using old(3,4) claims_distinct [OF inv] keeps UpdateAutopilot
      by (intro claims_rows [OF inv])
        (auto simp: UpdateAutopilot Inr x old(2) set_autopilot_def sd_now_def set_tbl_update split: if_splits)
  qed (use inv in \<open>simp add: UpdateAutopilot\<close>)
next
  case (DeleteAutopilot user i)
  show ?thesis
    using inv
    by (auto simp: DeleteAutopilot delete_autopilot_def autopilot_delete_def sd_now_def claims_inv_def
        tbl_delete_def distinct_map_filter split: sum.split intro!: claims_rows [OF inv])
next
  case (TaskOp op)
  show ?thesis
    by (auto simp: TaskOp set_board_def sd_now_def queue_step_now intro!: claims_same [OF inv])
next
  case (TriggerAutopilot user i)
  show ?thesis by (auto simp: TriggerAutopilot split: sum.split intro!: claims_same [OF inv] inv)
next
  case (SchedTime n)
  show ?thesis by (auto simp: SchedTime sd_now_def intro!: claims_same [OF inv])
qed


lemma sched_run_claims:
  "cron_moves_on lib \<Longrightarrow> claims_inv fixed s \<Longrightarrow> (fixed \<Longrightarrow> \<forall>e \<in> set evs. keeps_schedules e) \<Longrightarrow>
   claims_inv fixed (sched_run lib en s evs)"
proof (induction evs arbitrary: s)
  case (Cons e evs)
  then have "claims_inv fixed (sched_step lib en s e)" by (intro sched_step_claims) auto
  from Cons.IH [OF Cons.prems(1) this] Cons.prems(3) show ?case by (simp add: sched_run_def)
qed (simp add: sched_run_def)

text \<open>C22: An autopilot fires once per occurrence. Whatever servers tick at the same time, whatever rows
  they find locked, whatever clients change in between: the claims of one autopilot have
  strictly increasing times, and as long as nobody changes schedules each claim comes at or after
  the time that the claim before it computed as the next.\<close>

theorem schedule_fires_once:
  assumes "cron_moves_on lib" "distinct (map ap_id (sd_autopilots (sc_db s)))" "sc_claims s = []"
  shows "sorted_wrt (\<lambda>(i', t', n') (i, t, n). i' = i \<longrightarrow> t < t') (sc_claims (sched_run lib en s evs)) \<and>
    ((\<forall>e \<in> set evs. keeps_schedules e) \<longrightarrow>
     sorted_wrt (\<lambda>(i', t', n') (i, t, n). i' = i \<longrightarrow> n \<le> t') (sc_claims (sched_run lib en s evs)))"
proof -
  have init: "claims_inv fixed s" for fixed using assms(2,3) by (simp add: claims_inv_def)
  show ?thesis
    using sched_run_claims [OF assms(1) init, of False evs en] sched_run_claims [OF assms(1) init, of True evs en]
    by (simp add: claims_inv_def release_def Suc_le_eq)
qed

definition hourly :: cron_lib where
  "hourly = \<lparr>cl_timezone = (\<lambda>z. if z = ''UTC'' then Some z else None),
     cl_next = (\<lambda>_ _ from. Some ((from div 3600 + 1) * 3600)), cl_max = 10 ^ 12, cl_date = (\<lambda>_. ''2026-01-01''),
     cl_collation = length, cl_simple_id = (\<lambda>_. ''VK-7''), cl_issue_updated = (\<lambda>i. i)\<rparr>"

definition demo_autopilot :: "string \<Rightarrow> autopilot" where
  "demo_autopilot cron = (new_autopilot 70 5 \<lparr>ca_id = None, ca_project_id = 9, ca_name = ''nightly'', ca_agent_id = Some 1,
     ca_squad_id = None, ca_enabled = None, ca_execution_mode = None, ca_cron_expression = Some cron, ca_timezone = None,
     ca_concurrency_policy = None, ca_issue_title_template = None, ca_issue_description_template = None\<rparr>)
     \<lparr>ap_next_run_at := Some 3600\<rparr>"

definition demo_scheduler :: scheduler where
  "demo_scheduler = \<lparr>sc_db = \<lparr>sd_board = (demo_db [])\<lparr>db_projects := [\<lparr>pj_id = 9, pj_organization_id = 8, pj_name = ''board''\<rparr>],
       db_statuses := [\<lparr>ps_id = 4, ps_project_id = 9, ps_sort_order = 0\<rparr>]\<rparr>,
     sd_autopilots = [demo_autopilot ''0 * * * *''], sd_runs = []\<rparr>, sc_spawned = [], sc_open = [], sc_claims = []\<rparr>"

definition demo_env :: run_env where
  "demo_env = \<lparr>en_texts = \<lparr>et_db = (\<lambda>_. ''database error''), et_encode = ''json error''\<rparr>,
     en_to_string = (\<lambda>_. None), en_date = (\<lambda>_. []), en_simple_id = (\<lambda>_. ''VK-2''), en_await_var = None\<rparr>"

definition demo_ticks :: "sched_event list" where
  \<comment> \<open>two servers tick in each hour\<close>
  "demo_ticks = [SchedTime 3700, SchedTick [], SchedTick [], DispatchBegin 0, DispatchFinish 0 [],
     SchedTime 60, SchedTick [], SchedTime 3600, SchedTick [70], SchedTick []]"

theorem schedule_fires_once_witness:
  "sorted_wrt (\<lambda>(i', t', n') (i, t, n). i' = i \<longrightarrow> n \<le> t') (sc_claims (sched_run hourly demo_env demo_scheduler demo_ticks)) \<and>
   sc_claims (sched_run hourly demo_env demo_scheduler demo_ticks) = [(70, 7365, 10800), (70, 3705, 7200)]"
proof
  have "cron_moves_on hourly"
    by (auto simp: cron_moves_on_def hourly_def)
  moreover have "distinct (map ap_id (sd_autopilots (sc_db demo_scheduler)))" "sc_claims demo_scheduler = []"
    by (simp_all add: demo_scheduler_def)
  moreover have "\<forall>e \<in> set demo_ticks. keeps_schedules e" by (simp add: demo_ticks_def)
  ultimately show "sorted_wrt (\<lambda>(i', t', n') (i, t, n). i' = i \<longrightarrow> n \<le> t')
      (sc_claims (sched_run hourly demo_env demo_scheduler demo_ticks))"
    using schedule_fires_once by blast
  show "sc_claims (sched_run hourly demo_env demo_scheduler demo_ticks) = [(70, 7365, 10800), (70, 3705, 7200)]"
    by code_simp
qed

section \<open>Dispatches settle\<close>

lemma update_run_rows:
  "tbl_find ar_id k (sd_runs (update_run db i st issue task err)) =
     (if k = i \<and> \<not> (case issue of None \<Rightarrow> False | Some j \<Rightarrow> issue_find (sd_board db) j = None) \<and>
         \<not> (case task of None \<Rightarrow> False | Some j \<Rightarrow> task_find (sd_board db) j = None)
      then map_option (run_apply (sd_now db) st issue task err) (tbl_find ar_id k (sd_runs db))
      else tbl_find ar_id k (sd_runs db))"
proof -
  have "tbl_find ar_id k (tbl_update ar_id i f rows) =
      (if k = i then map_option f (tbl_find ar_id k rows) else tbl_find ar_id k rows)"
    if "\<And>r. ar_id (f r) = ar_id r" for f and rows :: "autopilot_run list"
    by (induction rows) (auto simp: tbl_update_def tbl_find_Cons that)
  then show ?thesis by (auto simp: update_run_def run_apply_def)
qed

lemma enqueue_solo_task:
  "enqueue db i a iss tr pr fr None ld rp pm rv = Inr (t, db') \<Longrightarrow>
   t \<in> set (db_tasks db') \<and> at_agent_id t = a \<and> at_issue_id t = iss \<and> active_solo t \<and> db_issues db' = db_issues db"
  by (auto simp: enqueue_def Let_def insert_task_Inr active_solo_def task_active_def split: option.splits sum.splits
      dest: find_active_solo_Some)

lemma template_issue_exists:
  "create_issue_from_template lib db a g = (Inr i, db') \<Longrightarrow> issue_find db' i \<noteq> None"
  "find_or_create_run_only_issue lib db a g = (Inr i, db') \<Longrightarrow> issue_find db' i \<noteq> None"
proof -
  show created: "issue_find db' i \<noteq> None" if "create_issue_from_template lib db a g = (Inr i, db')"
    using that by (auto simp: create_issue_from_template_def Let_def issue_find_def tbl_find_None split: list.splits if_splits)
  show "issue_find db' i \<noteq> None" if "find_or_create_run_only_issue lib db a g = (Inr i, db')"
  proof (cases "sort_key (\<lambda>i. - int (cl_issue_updated lib (is_id i)))
      (filter (\<lambda>i. is_project_id i = ap_project_id a \<and>
         list_ex (\<lambda>x. ia_issue_id x = is_id i \<and> ia_agent_id x = Some g) (db_assignees db)) (db_issues db))")
    case Nil
    then show ?thesis using that created by (simp add: find_or_create_run_only_issue_def)
  next
    case (Cons x xs)
    then have "x \<in> set (db_issues db)"
      by (metis (no_types, lifting) filter_is_subset list.set_intros(1) set_sort subsetD)
    then show ?thesis using that Cons by (auto simp: find_or_create_run_only_issue_def issue_find_def tbl_find_None)
  qed
qed

definition run_settled :: "autopilot_db \<Rightarrow> dispatch \<Rightarrow> string + unit \<Rightarrow> autopilot_db \<Rightarrow> autopilot_run \<Rightarrow> bool" where
  "run_settled db d res db' r =
     (case res of
        Inl e \<Rightarrow> ar_status r = ApFailed \<and> ar_error_message r = Some e \<and> ar_completed_at r \<noteq> None
      | Inr _ \<Rightarrow>
          (case d of
             ToNobody \<Rightarrow> ar_status r = ApSkipped \<and> ar_completed_at r \<noteq> None \<and> sd_board db' = sd_board db
           | ToAgent g True \<Rightarrow> ar_status r = ApSkipped \<and> ar_completed_at r \<noteq> None \<and> sd_board db' = sd_board db
           | ToAgent g False \<Rightarrow> ar_status r = ApCompleted \<and> ar_completed_at r \<noteq> None \<and>
               (\<exists>i t. ar_issue_id r = Some i \<and> issue_find (sd_board db') i \<noteq> None \<and> ar_agent_task_id r = Some (at_id t) \<and>
                  t \<in> set (db_tasks (sd_board db')) \<and> at_agent_id t = g \<and> at_issue_id t = i \<and> active_solo t)
           | ToSquad s \<Rightarrow>
               ar_status r = ApCompleted \<and> ar_completed_at r \<noteq> None \<and>
                 (\<exists>i. ar_issue_id r = Some i \<and> issue_find (sd_board db') i \<noteq> None) \<or>
               ar_status r = ApRunning))"



section \<open>What the policy and the fallbacks do not give\<close>

text \<open>The policy Skip counts the active tasks before it enqueues: two dispatches at once both pass.\<close>

lemma skip_policy_races:
  "length (filter (\<lambda>t. at_agent_id t = 1 \<and> task_active t) (db_tasks (sd_board (sc_db
     (sched_run hourly demo_env (demo_scheduler\<lparr>sc_spawned := replicate 2 (demo_autopilot ''0 * * * *'')\<rparr>)
       [DispatchBegin 0, DispatchBegin 0, DispatchFinish 0 [], DispatchFinish 0 []]))))) = 2 \<and>
   ap_concurrency_policy (demo_autopilot ''0 * * * *'') = PolicySkip"
  by code_simp

text \<open>\<open>@daily\<close> and \<open>@midnight\<close> keep the time of the day at which the row was claimed, in any time zone.\<close>

lemma midnight_keeps_time_of_day:
  "expr \<in> {''@daily'', ''@midnight''} \<Longrightarrow> advance_cron_tz lib expr tz from = Some t \<Longrightarrow> t mod 86400 = from mod 86400"
proof -
  have "str_trim ''@daily'' = ''@daily''" "str_trim ''@midnight'' = ''@midnight''" by code_simp+
  then show "expr \<in> {''@daily'', ''@midnight''} \<Longrightarrow> advance_cron_tz lib expr tz from = Some t \<Longrightarrow> t mod 86400 = from mod 86400"
    by (auto simp: advance_cron_tz_def time_add_def split: if_splits)
qed

end
