(* ===== verification/Log_Patches.thy ===== *)
theory Log_Patches
  imports Msg_Store
begin

text \<open>
  How the output of a coding agent becomes the entries of a conversation: JSON patches for entries
  (crates/executors/src/logs/utils/patch.rs), the counter of entry indexes
  (crates/executors/src/logs/utils/entry_index.rs), the processor of plain text
  (crates/executors/src/logs/plain_text_processor.rs) and of standard error
  (stderr_processor.rs), and what the server makes of the patches
  (crates/services/src/services/container.rs, crates/server/src/routes/execution_processes.rs).

  Entries (\<open>'e\<close>) and diffs (\<open>'d\<close>) are types of their own. The functions that a processor is built
  with are fields of \<open>text_config\<close>; all closures of the source are pure. A \<open>Duration\<close> is a number of
  milliseconds.
\<close>

section \<open>Patches\<close>

datatype ('e, 'd) patch_type =
    NormalizedEntry 'e | PtStdout string | PtStderr string | PtDiff 'd
  | PtDiffs "(string \<times> 'd) list"  \<comment> \<open>the object of \<open>replace_repo_diffs\<close>\<close>

datatype 'v patch_operation = Add string 'v | Replace string 'v | Remove string
  | OtherOperation string  \<comment> \<open>move, copy and test\<close>

type_synonym ('e, 'd) patch = "('e, 'd) patch_type patch_operation list"

fun op_path :: "'v patch_operation \<Rightarrow> string" where
  "op_path (Add p _) = p"
| "op_path (Replace p _) = p"
| "op_path (Remove p) = p"
| "op_path (OtherOperation p) = p"

fun escape_json_pointer_segment :: "string \<Rightarrow> string" where
  "escape_json_pointer_segment [] = []"
| "escape_json_pointer_segment (c # cs) =
     (if c = CHR ''~'' then ''~0'' else if c = CHR ''/'' then ''~1'' else [c]) @ escape_json_pointer_segment cs"

definition entry_path :: "nat \<Rightarrow> string" where
  "entry_path i = ''/entries/'' @ show_nat i"

definition repo_path :: "string \<Rightarrow> string \<Rightarrow> string" where
  "repo_path repo_key file_path =
     ''/entries/'' @ escape_json_pointer_segment repo_key @ ''/'' @ escape_json_pointer_segment file_path"

definition add_normalized_entry_patch :: "nat \<Rightarrow> 'e \<Rightarrow> ('e, 'd) patch" where
  "add_normalized_entry_patch entry_index entry = [Add (entry_path entry_index) (NormalizedEntry entry)]"

definition add_stdout :: "nat \<Rightarrow> string \<Rightarrow> ('e, 'd) patch" where
  "add_stdout entry_index entry = [Add (entry_path entry_index) (PtStdout entry)]"

definition add_stderr :: "nat \<Rightarrow> string \<Rightarrow> ('e, 'd) patch" where
  "add_stderr entry_index entry = [Add (entry_path entry_index) (PtStderr entry)]"

definition remove_diff :: "string \<Rightarrow> ('e, 'd) patch" where
  "remove_diff entry_index = [Remove (''/entries/'' @ entry_index)]"

definition add_repo_diff :: "string \<Rightarrow> string \<Rightarrow> 'd \<Rightarrow> ('e, 'd) patch" where
  "add_repo_diff repo_key file_path diff = [Add (repo_path repo_key file_path) (PtDiff diff)]"

definition remove_repo_diff :: "string \<Rightarrow> string \<Rightarrow> ('e, 'd) patch" where
  "remove_repo_diff repo_key file_path = [Remove (repo_path repo_key file_path)]"

definition replace_repo_diffs :: "string \<Rightarrow> (string \<times> 'd) list \<Rightarrow> ('e, 'd) patch" where
  "replace_repo_diffs repo_key diffs =
     [Replace (''/entries/'' @ escape_json_pointer_segment repo_key) (PtDiffs diffs)]"

definition replace_patch :: "nat \<Rightarrow> 'e \<Rightarrow> ('e, 'd) patch" where
  "replace_patch entry_index entry = [Replace (entry_path entry_index) (NormalizedEntry entry)]"

definition remove_patch :: "nat \<Rightarrow> ('e, 'd) patch" where
  "remove_patch entry_index = [Remove (entry_path entry_index)]"

definition entry_index_of :: "string \<Rightarrow> nat option" where
  "entry_index_of path = Option.bind (strip_prefix ''/entries/'' path) parse_u64"

fun normalized_entry_of :: "('e, 'd) patch_type patch_operation \<Rightarrow> (nat \<times> 'e) option" where
  "normalized_entry_of (Add p (NormalizedEntry e)) = map_option (\<lambda>i. (i, e)) (entry_index_of p)"
| "normalized_entry_of (Replace p (NormalizedEntry e)) = map_option (\<lambda>i. (i, e)) (entry_index_of p)"
| "normalized_entry_of _ = None"

fun find_mapped :: "('a \<Rightarrow> 'b option) \<Rightarrow> 'a list \<Rightarrow> 'b option" where
  "find_mapped f [] = None"
| "find_mapped f (x # xs) = (case f x of None \<Rightarrow> find_mapped f xs | Some y \<Rightarrow> Some y)"

definition extract_normalized_entry_from_patch :: "('e, 'd) patch \<Rightarrow> (nat \<times> 'e) option" where
  "extract_normalized_entry_from_patch patch = find_mapped normalized_entry_of (rev patch)"

definition patch_entry_path :: "('e, 'd) patch \<Rightarrow> string option" where
  "patch_entry_path patch = (case patch of [] \<Rightarrow> None | op # _ \<Rightarrow> Some (op_path op))"

definition is_add_or_replace :: "('e, 'd) patch \<Rightarrow> bool" where
  "is_add_or_replace patch = list_all (\<lambda>op. case op of Add _ _ \<Rightarrow> True | Replace _ _ \<Rightarrow> True | _ \<Rightarrow> False) patch"

fun fix_operation :: "bool \<Rightarrow> 'v patch_operation \<Rightarrow> 'v patch_operation" where
  "fix_operation sent (Add p v) = (if sent then Replace p v else Add p v)"
| "fix_operation sent (Replace p v) = (if sent then Replace p v else Add p v)"
| "fix_operation sent op = op"

fun fix_patch_ops :: "('e, 'd) patch \<Rightarrow> string set \<Rightarrow> ('e, 'd) patch \<times> string set" where
  "fix_patch_ops [] sent_paths = ([], sent_paths)"
| "fix_patch_ops (op # ops) sent_paths =
     (case fix_patch_ops ops (insert (op_path op) sent_paths) of
        (fixed, sent) \<Rightarrow> (fix_operation (op_path op \<in> sent_paths) op # fixed, sent))"

section \<open>Entry indexes\<close>

text \<open>The counter is a \<open>usize\<close> that several tasks share.\<close>

definition index_next :: "nat \<Rightarrow> nat \<times> nat" where
  "index_next provider = (provider, (provider + 1) mod 2 ^ 64)"

definition index_current :: "nat \<Rightarrow> nat" where
  "index_current provider = provider"

definition index_reset :: "nat \<Rightarrow> nat" where
  "index_reset provider = 0"

fun added_index :: "'v patch_operation \<Rightarrow> nat option" where
  "added_index (Add p _) = entry_index_of p"
| "added_index _ = None"

fun patch_index :: "('e, 'd) patch log_msg \<Rightarrow> nat option" where
  "patch_index (JsonPatch patch) = find_mapped added_index patch"
| "patch_index _ = None"

definition start_from :: "('e, 'd) patch log_msg list \<Rightarrow> nat" where
  \<comment> \<open>with the history of the store\<close>
  "start_from history =
     (case List.map_filter patch_index history of [] \<Rightarrow> 0 | i # is \<Rightarrow> sat_add (foldl max i is) 1)"

definition upsert_normalized_entry :: "('e, 'd) patch list \<Rightarrow> nat \<Rightarrow> 'e \<Rightarrow> bool \<Rightarrow> ('e, 'd) patch list" where
  \<comment> \<open>with the patches that have been pushed to the store\<close>
  "upsert_normalized_entry pushed index entry is_new =
     pushed @ [if is_new then add_normalized_entry_patch index entry else replace_patch index entry]"

definition add_normalized_entry :: "('e, 'd) patch list \<Rightarrow> nat \<Rightarrow> 'e \<Rightarrow> nat \<times> nat \<times> ('e, 'd) patch list" where
  "add_normalized_entry pushed provider entry =
     (case index_next provider of (index, provider) \<Rightarrow> (index, provider, upsert_normalized_entry pushed index entry True))"

definition replace_normalized_entry :: "('e, 'd) patch list \<Rightarrow> nat \<Rightarrow> 'e \<Rightarrow> ('e, 'd) patch list" where
  "replace_normalized_entry pushed index entry = upsert_normalized_entry pushed index entry False"

section \<open>The text buffer\<close>

datatype message_boundary = Split nat | IncompleteContent

record text_buffer =
  tb_lines :: "string list"
  tb_total_len :: nat

definition text_buffer_new :: text_buffer where
  "text_buffer_new = \<lparr>tb_lines = [], tb_total_len = 0\<rparr>"

definition ends_line :: "string \<Rightarrow> bool" where
  "ends_line l = (l \<noteq> [] \<and> last l = CHR 0x0A)"

fun split_inclusive :: "string \<Rightarrow> string list" where
  \<comment> \<open>\<open>split_inclusive('\n')\<close>\<close>
  "split_inclusive [] = []"
| "split_inclusive (c # cs) =
     (if c = CHR 0x0A then [c] # split_inclusive cs
      else (case split_inclusive cs of [] \<Rightarrow> [[c]] | l # ls \<Rightarrow> (c # l) # ls))"

definition partial_line :: "text_buffer \<Rightarrow> string option" where
  "partial_line b = (if tb_lines b \<noteq> [] \<and> \<not> ends_line (last (tb_lines b)) then Some (last (tb_lines b)) else None)"

definition ingest :: "string \<Rightarrow> text_buffer \<Rightarrow> text_buffer" where
  "ingest text_chunk b =
     (let (ls, tot, current_partial) = (case partial_line b of
            Some p \<Rightarrow> (butlast (tb_lines b), tb_total_len b - length p, p)
          | None \<Rightarrow> (tb_lines b, tb_total_len b, []));
          combined_text = current_partial @ text_chunk in
      \<lparr>tb_lines = ls @ split_inclusive combined_text, tb_total_len = tot + length combined_text\<rparr>)"

definition drain_lines :: "nat \<Rightarrow> text_buffer \<Rightarrow> string list \<times> text_buffer" where
  "drain_lines n b =
     (let drained = take n (tb_lines b) in
      (drained, \<lparr>tb_lines = drop n (tb_lines b),
         tb_total_len = foldl (\<lambda>t l. t - length l) (tb_total_len b) drained\<rparr>))"

fun drain_count :: "nat \<Rightarrow> nat \<Rightarrow> nat \<Rightarrow> string list \<Rightarrow> nat" where
  "drain_count len drained_len lines_to_drain [] = lines_to_drain"
| "drain_count len drained_len lines_to_drain (l # ls) =
     (if len \<le> drained_len \<and> 0 < lines_to_drain then lines_to_drain
      else drain_count len (drained_len + length l) (Suc lines_to_drain) ls)"

definition drain_size :: "nat \<Rightarrow> text_buffer \<Rightarrow> string list \<times> text_buffer" where
  "drain_size len b = drain_lines (drain_count len 0 0 (tb_lines b)) b"

definition buffer_flush :: "text_buffer \<Rightarrow> string list \<times> text_buffer" where
  "buffer_flush b = (tb_lines b, text_buffer_new)"

definition recompute_len :: "text_buffer \<Rightarrow> text_buffer" where
  "recompute_len b = b\<lparr>tb_total_len := sum_list (map length (tb_lines b))\<rparr>"

definition buffer_is_empty :: "text_buffer \<Rightarrow> bool" where
  "buffer_is_empty b = (tb_total_len b = 0)"

section \<open>The processor\<close>

record 'e text_config =
  tc_entry_size_threshold :: "nat option"
  tc_time_gap :: "nat option"
  tc_format_chunk :: "(string option \<Rightarrow> string \<Rightarrow> string) option"
  tc_transform_lines :: "(string list \<Rightarrow> string list) option"
  tc_message_boundary_predicate :: "(string list \<Rightarrow> message_boundary option) option"
  tc_normalized_entry_producer :: "string \<Rightarrow> 'e"

record text_processor =
  tp_buffer :: text_buffer
  tp_last_chunk_arrival_time :: nat
  tp_current_entry_index :: "nat option"

definition text_config_new ::
  "(string \<Rightarrow> 'e) \<Rightarrow> nat option \<Rightarrow> nat option \<Rightarrow> (string option \<Rightarrow> string \<Rightarrow> string) option \<Rightarrow>
   (string list \<Rightarrow> string list) option \<Rightarrow> (string list \<Rightarrow> message_boundary option) option \<Rightarrow> 'e text_config" where
  "text_config_new normalized_entry_producer size_threshold time_gap format_chunk transform_lines message_boundary_predicate =
     \<lparr>tc_entry_size_threshold = (if size_threshold = None \<and> time_gap = None then Some (8 * 1024) else size_threshold),
      tc_time_gap = time_gap, tc_format_chunk = format_chunk, tc_transform_lines = transform_lines,
      tc_message_boundary_predicate = message_boundary_predicate,
      tc_normalized_entry_producer = normalized_entry_producer\<rparr>"

definition text_processor_new :: "nat \<Rightarrow> text_processor" where
  "text_processor_new now =
     \<lparr>tp_buffer = text_buffer_new, tp_last_chunk_arrival_time = now, tp_current_entry_index = None\<rparr>"

definition create_patch ::
  "'e text_config \<Rightarrow> nat \<Rightarrow> text_processor \<Rightarrow> string list \<Rightarrow> ('e, 'd) patch \<times> nat \<times> text_processor" where
  "create_patch cfg provider tp ls =
     (let entry = tc_normalized_entry_producer cfg (concat ls) in
      case tp_current_entry_index tp of
        Some i \<Rightarrow> (replace_patch i entry, provider, tp)
      | None \<Rightarrow> (case index_next provider of (i, provider) \<Rightarrow>
          (add_normalized_entry_patch i entry, provider, tp\<lparr>tp_current_entry_index := Some i\<rparr>)))"

type_synonym ('e, 'd) processed = "('e, 'd) patch list \<times> nat \<times> text_processor"

partial_function (option) boundary_loop ::
  "'e text_config \<Rightarrow> ('e, 'd) processed \<Rightarrow> (('e, 'd) processed \<times> bool) option" where
  \<comment> \<open>None when the loop does not end; the flag says that the content is complete\<close>
  "boundary_loop cfg st =
     (case st of (patches, provider, tp) \<Rightarrow>
       (case Option.bind (tc_message_boundary_predicate cfg) (\<lambda>predicate. predicate (tb_lines (tp_buffer tp))) of
          None \<Rightarrow> Some (st, True)
        | Some IncompleteContent \<Rightarrow> Some (st, False)
        | Some (Split line_idx) \<Rightarrow>
            (case drain_lines line_idx (tp_buffer tp) of (ls, b) \<Rightarrow>
              if ls = [] then boundary_loop cfg (patches, provider, tp\<lparr>tp_buffer := b\<rparr>)
              else (case create_patch cfg provider (tp\<lparr>tp_buffer := b\<rparr>) ls of (patch, provider, tp) \<Rightarrow>
                boundary_loop cfg (patches @ [patch], provider, tp\<lparr>tp_current_entry_index := None\<rparr>)))))"

declare boundary_loop.simps [code]

function size_loop :: "'e text_config \<Rightarrow> nat \<Rightarrow> ('e, 'd) processed \<Rightarrow> ('e, 'd) processed" where
  "size_loop cfg size_threshold (patches, provider, tp) =
     (if size_threshold \<le> tb_total_len (tp_buffer tp) then
        (case drain_size size_threshold (tp_buffer tp) of (ls, b) \<Rightarrow>
          if ls = [] then (patches, provider, tp\<lparr>tp_buffer := b\<rparr>)
          else (case create_patch cfg provider (tp\<lparr>tp_buffer := b\<rparr>) ls of (patch, provider, tp) \<Rightarrow>
            size_loop cfg size_threshold (patches @ [patch], provider, tp\<lparr>tp_current_entry_index := None\<rparr>)))
      else (patches, provider, tp))"
  by pat_completeness auto
termination
  by (relation "measure (\<lambda>(_, _, _, _, tp). length (tb_lines (tp_buffer tp)))")
    (auto simp: drain_size_def drain_lines_def Let_def create_patch_def index_next_def split: option.splits)

declare size_loop.simps [simp del]

definition emit_text :: "'e text_config \<Rightarrow> ('e, 'd) processed \<Rightarrow> ('e, 'd) processed option" where
  \<comment> \<open>what follows the buffering of a chunk\<close>
  "emit_text cfg st =
     (case boundary_loop cfg st of
        None \<Rightarrow> None
      | Some (st, False) \<Rightarrow> Some st
      | Some (st, True) \<Rightarrow>
          (case (case tc_entry_size_threshold cfg of None \<Rightarrow> st | Some n \<Rightarrow> size_loop cfg n st) of
             (patches, provider, tp) \<Rightarrow>
               (if buffer_is_empty (tp_buffer tp) then Some (patches, provider, tp)
                else (case create_patch cfg provider tp (tb_lines (tp_buffer tp)) of
                  (patch, provider, tp) \<Rightarrow> Some (patches @ [patch], provider, tp)))))"

definition gap_passed :: "'e text_config \<Rightarrow> nat \<Rightarrow> text_processor \<Rightarrow> bool" where
  "gap_passed cfg now tp = (\<not> buffer_is_empty (tp_buffer tp) \<and>
     (case tc_time_gap cfg of None \<Rightarrow> False | Some g \<Rightarrow> g \<le> now - tp_last_chunk_arrival_time tp))"

definition process_buffered ::
  "'e text_config \<Rightarrow> nat \<Rightarrow> nat \<Rightarrow> text_processor \<Rightarrow> string \<Rightarrow> ('e, 'd) processed option" where
  "process_buffered cfg now provider tp text_chunk =
     (let tp = tp\<lparr>tp_last_chunk_arrival_time := now\<rparr>;
          formatted_chunk = (case tc_format_chunk cfg of None \<Rightarrow> text_chunk
            | Some f \<Rightarrow> f (partial_line (tp_buffer tp)) text_chunk) in
      if formatted_chunk = [] then Some ([], provider, tp)
      else
       (let b = ingest formatted_chunk (tp_buffer tp) in
        case tc_transform_lines cfg of
          None \<Rightarrow> emit_text cfg ([], provider, tp\<lparr>tp_buffer := b\<rparr>)
        | Some f \<Rightarrow>
            (let b = recompute_len (b\<lparr>tb_lines := f (tb_lines b)\<rparr>) in
             if buffer_is_empty b then Some ([], provider, tp\<lparr>tp_buffer := b\<rparr>)
             else emit_text cfg ([], provider, tp\<lparr>tp_buffer := b\<rparr>))))"

definition process_text ::
  "'e text_config \<Rightarrow> nat \<Rightarrow> nat \<Rightarrow> text_processor \<Rightarrow> string \<Rightarrow> ('e, 'd) processed option" where
  \<comment> \<open>None when the call does not return\<close>
  "process_text cfg now provider tp text_chunk =
     (if text_chunk = [] then Some ([], provider, tp)
      else if gap_passed cfg now tp then
        (case buffer_flush (tp_buffer tp) of (ls, b) \<Rightarrow>
          if ls \<noteq> [] then
            (case create_patch cfg provider (tp\<lparr>tp_buffer := b\<rparr>) ls of (patch, provider, tp) \<Rightarrow> Some ([patch], provider, tp))
          else process_buffered cfg now provider (tp\<lparr>tp_buffer := b, tp_current_entry_index := None\<rparr>) text_chunk)
      else process_buffered cfg now provider tp text_chunk)"

definition stderr_config :: "(string \<Rightarrow> string) \<Rightarrow> (string \<Rightarrow> 'e) \<Rightarrow> 'e text_config" where
  \<comment> \<open>of \<open>normalize_stderr_logs\<close>, with \<open>strip_str\<close> and the entry of an error message\<close>
  "stderr_config strip_ansi error_message =
     text_config_new (error_message \<circ> strip_ansi) None (Some 2000) None None None"

text \<open>A stream of chunks with their times; another task may take an index before a chunk is processed.\<close>

fun process_all ::
  "'e text_config \<Rightarrow> nat \<Rightarrow> text_processor \<Rightarrow> (nat \<times> nat \<times> string) list \<Rightarrow> ('e, 'd) patch list \<Rightarrow>
   ('e, 'd) processed option" where
  \<comment> \<open>each chunk with its time and the indexes taken by others before it\<close>
  "process_all cfg provider tp [] pushed = Some (pushed, provider, tp)"
| "process_all cfg provider tp ((now, others, chunk) # chunks) pushed =
     (case process_text cfg now (provider + others) tp chunk of
        None \<Rightarrow> None
      | Some (patches, provider, tp) \<Rightarrow> process_all cfg provider tp chunks (pushed @ patches))"

section \<open>What the server makes of the patches\<close>

fun insert_index :: "nat \<Rightarrow> 'e \<Rightarrow> (nat \<times> 'e) list \<Rightarrow> (nat \<times> 'e) list" where
  \<comment> \<open>\<open>BTreeMap::insert\<close>\<close>
  "insert_index i e [] = [(i, e)]"
| "insert_index i e ((j, f) # rest) =
     (if i < j then (i, e) # (j, f) # rest else if i = j then (i, e) # rest else (j, f) # insert_index i e rest)"

definition by_index_step :: "(nat \<times> 'e) list \<Rightarrow> ('e, 'd) patch \<Rightarrow> (nat \<times> 'e) list" where
  "by_index_step entries patch =
     (case extract_normalized_entry_from_patch patch of None \<Rightarrow> entries | Some (i, e) \<Rightarrow> insert_index i e entries)"

fun by_index :: "(nat \<times> 'e) list \<Rightarrow> ('e, 'd) patch log_msg list \<Rightarrow> (nat \<times> 'e) list" where
  \<comment> \<open>the stream is read up to \<open>Finished\<close>\<close>
  "by_index entries [] = entries"
| "by_index entries (Finished # msgs) = entries"
| "by_index entries (JsonPatch patch # msgs) = by_index (by_index_step entries patch) msgs"
| "by_index entries (_ # msgs) = by_index entries msgs"

record 'e normalized_logs_response =
  nl_total_count :: nat
  nl_offset :: nat
  nl_has_more :: bool
  nl_entries :: "'e list"

definition normalized_logs_max_limit :: nat where
  "normalized_logs_max_limit = 500"

definition get_normalized_logs ::
  "('e \<Rightarrow> bool) \<Rightarrow> ('e, 'd) patch log_msg list option \<Rightarrow> bool option \<Rightarrow> nat option \<Rightarrow> nat option \<Rightarrow>
   'e normalized_logs_response" where
  "get_normalized_logs is_noise stream skip_noise_param offset_param limit_param =
     (let skip_noise = unwrap_or skip_noise_param True;
          offset = unwrap_or offset_param 0;
          limit = min (unwrap_or limit_param normalized_logs_max_limit) normalized_logs_max_limit;
          filtered = filter (\<lambda>e. \<not> (skip_noise \<and> is_noise e))
            (map snd (case stream of None \<Rightarrow> [] | Some msgs \<Rightarrow> by_index [] msgs));
          entries = take limit (drop offset filtered) in
      \<lparr>nl_total_count = length filtered, nl_offset = offset,
       nl_has_more = (sat_add offset (length entries) < length filtered), nl_entries = entries\<rparr>)"

definition merges_with :: "('e, 'd) patch \<Rightarrow> ('e, 'd) patch \<Rightarrow> bool" where
  "merges_with prev patch = (patch_entry_path patch = patch_entry_path prev \<and> is_add_or_replace patch \<and> is_add_or_replace prev)"

fun replay_patches ::
  "('e, 'd) patch option \<Rightarrow> string set \<Rightarrow> ('e, 'd) patch log_msg list \<Rightarrow> ('e, 'd) patch list" where
  \<comment> \<open>the patches of a historic replay, with the buffered one\<close>
  "replay_patches None sent [] = []"
| "replay_patches (Some prev) sent [] = [fst (fix_patch_ops prev sent)]"
| "replay_patches buffered sent (JsonPatch patch # msgs) =
     (case buffered of
        None \<Rightarrow> replay_patches (Some patch) sent msgs
      | Some prev \<Rightarrow>
          (if merges_with prev patch then replay_patches (Some patch) sent msgs
           else (case fix_patch_ops prev sent of (fixed, sent) \<Rightarrow> fixed # replay_patches (Some patch) sent msgs)))"
| "replay_patches buffered sent (_ # msgs) = replay_patches buffered sent msgs"

definition historic_stream :: "('e, 'd) patch log_msg list \<Rightarrow> ('e, 'd) patch log_msg list" where
  "historic_stream history = map JsonPatch (replay_patches None {} history) @ [Finished]"

end
