(* ===== verification/Log_Patches_Props.thy ===== *)
theory Log_Patches_Props
  imports Log_Patches "HOL-Library.Code_Target_Nat"
begin

text \<open>
  What a reader of the patches sees: as long as no pause passes the time gap the entries of a
  processor are its text, cut into pieces, and a historic replay shows what the whole history shows.
\<close>

section \<open>Paths\<close>

lemma entry_index_path [simp]: "i < 2 ^ 64 \<Longrightarrow> entry_index_of (entry_path i) = Some i"
  by (simp add: entry_index_of_def entry_path_def parse_u64_show_nat)

lemma entry_path_inj: "entry_path i = entry_path j \<Longrightarrow> i = j"
  by (simp add: entry_path_def show_nat_inj)

lemma extract_single [simp]:
  "i < 2 ^ 64 \<Longrightarrow> extract_normalized_entry_from_patch (add_normalized_entry_patch i e) = Some (i, e)"
  "i < 2 ^ 64 \<Longrightarrow> extract_normalized_entry_from_patch (replace_patch i e) = Some (i, e)"
  "extract_normalized_entry_from_patch (remove_patch i) = None"
  by (simp_all add: extract_normalized_entry_from_patch_def add_normalized_entry_patch_def replace_patch_def remove_patch_def)

lemma insert_index_end: "\<forall>j \<in> fst ` set es. j < i \<Longrightarrow> insert_index i e es = es @ [(i, e)]"
  by (induction es) auto

lemma insert_index_last: "\<forall>j \<in> fst ` set es. j < i \<Longrightarrow> insert_index i e (es @ [(i, f)]) = es @ [(i, e)]"
  by (induction es) auto

section \<open>The buffer\<close>

lemma concat_split_inclusive [simp]: "concat (split_inclusive s) = s"
  by (induction s) (auto split: list.splits)

lemma split_inclusive_parts: "[] \<notin> set (split_inclusive s)"
  by (induction s) (auto split: list.splits)

definition buffer_ok :: "text_buffer \<Rightarrow> bool" where
  "buffer_ok b = (tb_total_len b = length (concat (tb_lines b)) \<and> [] \<notin> set (tb_lines b))"

lemma buffer_ok_new [simp]: "buffer_ok text_buffer_new"
  by (simp add: buffer_ok_def text_buffer_new_def)

lemma ingest_ok:
  assumes "buffer_ok b"
  shows "buffer_ok (ingest s b)" "concat (tb_lines (ingest s b)) = concat (tb_lines b) @ s"
proof -
  have "tb_lines b \<noteq> [] \<Longrightarrow> concat (tb_lines b) = concat (butlast (tb_lines b)) @ last (tb_lines b)"
    by (metis append_butlast_last_id concat.simps concat_append append_Nil2)
  then show "concat (tb_lines (ingest s b)) = concat (tb_lines b) @ s" "buffer_ok (ingest s b)"
    using assms split_inclusive_parts in_set_butlastD
    by (fastforce simp: ingest_def partial_line_def buffer_ok_def Let_def simp del: concat_append
        simp: concat_append split: option.splits)+
qed

lemma drain_total: "foldl (\<lambda>t l. t - length l) t (ls :: string list) = t - length (concat ls)"
  by (induction ls arbitrary: t) auto

lemma drain_ok:
  assumes "drain_lines n b = (ls, b')" "buffer_ok b"
  shows "buffer_ok b'" "concat ls @ concat (tb_lines b') = concat (tb_lines b)" "[] \<notin> set ls"
    "ls \<noteq> [] \<Longrightarrow> length (tb_lines b') < length (tb_lines b)" "ls = [] \<Longrightarrow> b' = b"
proof -
  have ls: "ls = take n (tb_lines b)" "tb_lines b' = drop n (tb_lines b)"
    "tb_total_len b' = tb_total_len b - length (concat ls)"
    using assms(1) by (auto simp: drain_lines_def Let_def drain_total)
  have whole: "concat ls @ concat (tb_lines b') = concat (tb_lines b)"
    unfolding ls(1,2) concat_append [symmetric] append_take_drop_id ..
  then show "concat ls @ concat (tb_lines b') = concat (tb_lines b)" .
  show "[] \<notin> set ls" using assms(2) ls(1) by (auto simp: buffer_ok_def dest: in_set_takeD)
  have "length (concat (tb_lines b)) = length (concat ls) + length (concat (tb_lines b'))"
    unfolding whole [symmetric] by simp
  then show "buffer_ok b'" using assms(2) ls by (auto simp: buffer_ok_def dest: in_set_dropD)
  show "ls \<noteq> [] \<Longrightarrow> length (tb_lines b') < length (tb_lines b)" using ls by auto
  show "ls = [] \<Longrightarrow> b' = b" using assms(1) by (auto simp: drain_lines_def Let_def)
qed

lemma buffer_empty_iff: "buffer_ok b \<Longrightarrow> buffer_is_empty b \<longleftrightarrow> tb_lines b = []"
  by (cases "tb_lines b") (auto simp: buffer_is_empty_def buffer_ok_def)

section \<open>Entries show the text\<close>

definition shown :: "'e text_config \<Rightarrow> nat \<Rightarrow> (nat \<times> 'e) list \<Rightarrow> string list \<Rightarrow> bool" where
  "shown cfg provider entries pieces =
     (map snd entries = map (tc_normalized_entry_producer cfg) pieces \<and>
      sorted_wrt (<) (map fst entries) \<and> (\<forall>i \<in> fst ` set entries. i < provider))"

definition text_inv ::
  "'e text_config \<Rightarrow> string \<Rightarrow> nat \<Rightarrow> (nat \<times> 'e) list \<Rightarrow> nat \<Rightarrow> text_processor \<Rightarrow> bool" where
  \<comment> \<open>\<open>text\<close> is what has been entered; the entry at the current index may be out of date\<close>
  "text_inv cfg text rest entries provider tp =
     (buffer_ok (tp_buffer tp) \<and> (tb_lines (tp_buffer tp) = [] \<longrightarrow> tp_current_entry_index tp = None) \<and>
      provider + length (concat (tb_lines (tp_buffer tp))) + rest < 2 ^ 64 + (if tp_current_entry_index tp = None then 0 else 1) \<and>
      (\<exists>closed. concat closed @ concat (tb_lines (tp_buffer tp)) = text \<and> [] \<notin> set closed \<and>
         (case tp_current_entry_index tp of
            None \<Rightarrow> shown cfg provider entries closed
          | Some i \<Rightarrow> (\<exists>old e. entries = old @ [(i, e)] \<and> i < provider \<and> (\<forall>j \<in> fst ` set old. j < i) \<and>
              shown cfg provider old closed))))"

lemma shown_later: "shown cfg p es ps \<Longrightarrow> p \<le> q \<Longrightarrow> shown cfg q es ps"
  by (fastforce simp: shown_def)

lemma create_patch_shows:
  assumes inv: "text_inv cfg text rest es provider tp" and nonempty: "tb_lines (tp_buffer tp) \<noteq> []"
    and c: "create_patch cfg provider tp' ls = (patch, provider', tp'')"
    and tp': "tp_current_entry_index tp' = tp_current_entry_index tp"
  obtains i old closed where "tp'' = tp'\<lparr>tp_current_entry_index := Some i\<rparr>"
    "by_index_step es patch = old @ [(i, tc_normalized_entry_producer cfg (concat ls))]"
    "i < provider'" "\<forall>j \<in> fst ` set old. j < i" "shown cfg provider' old closed" "[] \<notin> set closed"
    "concat closed @ concat (tb_lines (tp_buffer tp)) = text"
    "provider' + length (concat (tb_lines (tp_buffer tp))) + rest < 2 ^ 64 + 1" "provider \<le> provider'"
proof (cases "tp_current_entry_index tp")
  case None
  have len: "0 < length (concat (tb_lines (tp_buffer tp)))"
    using inv nonempty by (cases "tb_lines (tp_buffer tp)") (auto simp: text_inv_def buffer_ok_def)
  moreover have "provider + length (concat (tb_lines (tp_buffer tp))) + rest < 2 ^ 64" using inv None by (simp add: text_inv_def)
  ultimately have bound: "provider + 1 < 2 ^ 64" by linarith
  then have "patch = add_normalized_entry_patch provider (tc_normalized_entry_producer cfg (concat ls))"
    "provider' = provider + 1" "tp'' = tp'\<lparr>tp_current_entry_index := Some provider\<rparr>"
    using c None tp' by (auto simp: create_patch_def index_next_def)
  moreover obtain closed where "concat closed @ concat (tb_lines (tp_buffer tp)) = text" "[] \<notin> set closed"
    "shown cfg provider es closed" using inv None by (auto simp: text_inv_def)
  moreover have "\<forall>j \<in> fst ` set es. j < provider" using \<open>shown cfg provider es closed\<close> by (simp add: shown_def)
  ultimately show ?thesis
    using that [of provider es closed] inv None bound
    by (simp add: by_index_step_def insert_index_end shown_later [of cfg provider] text_inv_def)
next
  case (Some i)
  then obtain closed old e where *: "concat closed @ concat (tb_lines (tp_buffer tp)) = text" "[] \<notin> set closed"
    "es = old @ [(i, e)]" "i < provider" "\<forall>j \<in> fst ` set old. j < i" "shown cfg provider old closed"
    using inv by (auto simp: text_inv_def)
  have len: "0 < length (concat (tb_lines (tp_buffer tp)))"
    using inv nonempty by (cases "tb_lines (tp_buffer tp)") (auto simp: text_inv_def buffer_ok_def)
  then have "i < 2 ^ 64" using inv Some * by (simp add: text_inv_def)
  then show ?thesis
    using that [of i old closed] * inv Some c tp'
    by (auto simp: create_patch_def by_index_step_def insert_index_last text_inv_def)
qed

lemma create_patch_arrival:
  "create_patch cfg provider tp ls = (patch, provider', tp') \<Longrightarrow>
   tp_last_chunk_arrival_time tp' = tp_last_chunk_arrival_time tp"
  by (auto simp: create_patch_def index_next_def Let_def split: option.splits)

lemma close_entry:
  assumes inv: "text_inv cfg text rest es provider tp" and d: "drain_lines n (tp_buffer tp) = (ls, b)" "ls \<noteq> []"
    and c: "create_patch cfg provider (tp\<lparr>tp_buffer := b\<rparr>) ls = (patch, provider', tp')"
  shows "text_inv cfg text rest (by_index_step es patch) provider' (tp'\<lparr>tp_current_entry_index := None\<rparr>)"
    "tp_buffer tp' = b"
proof -
  have ok: "buffer_ok (tp_buffer tp)" using inv by (simp add: text_inv_def)
  note drained = drain_ok [OF d(1) ok]
  have "tb_lines (tp_buffer tp) \<noteq> []" using drained(4) [OF d(2)] by auto
  then obtain i old closed where *:
    "tp' = tp\<lparr>tp_buffer := b, tp_current_entry_index := Some i\<rparr>"
    "by_index_step es patch = old @ [(i, tc_normalized_entry_producer cfg (concat ls))]"
    "i < provider'" "\<forall>j \<in> fst ` set old. j < i" "shown cfg provider' old closed" "[] \<notin> set closed"
    "concat closed @ concat (tb_lines (tp_buffer tp)) = text"
    "provider' + length (concat (tb_lines (tp_buffer tp))) + rest < 2 ^ 64 + 1" "provider \<le> provider'"
    by (rule create_patch_shows [OF inv _ c]) simp_all
  have piece: "concat ls \<noteq> []" using d(2) drained(3) by (cases ls) auto
  have "length (concat (tb_lines (tp_buffer tp))) = length (concat ls) + length (concat (tb_lines b))"
    unfolding drained(2) [symmetric] by simp
  then have "provider' + length (concat (tb_lines b)) + rest < 2 ^ 64"
    using *(8) piece by (cases "concat ls") auto
  moreover have "concat (closed @ [concat ls]) @ concat (tb_lines b) = text"
    using *(7) drained(2) by simp
  moreover have "shown cfg provider' (by_index_step es patch) (closed @ [concat ls])"
    using *(2-5) by (auto simp: shown_def sorted_wrt_append)
  moreover have "[] \<notin> set (closed @ [concat ls])" using *(6) piece by auto
  ultimately show "text_inv cfg text rest (by_index_step es patch) provider' (tp'\<lparr>tp_current_entry_index := None\<rparr>)"
    using drained(1) *(1) unfolding text_inv_def
    by (intro conjI exI [of _ "closed @ [concat ls]"]) simp_all
  show "tp_buffer tp' = b" using *(1) by simp
qed

definition plain_config :: "'e text_config \<Rightarrow> bool" where
  \<comment> \<open>the text is not rewritten, and the predicate splits off lines and holds nothing back\<close>
  "plain_config cfg = (tc_format_chunk cfg = None \<and> tc_transform_lines cfg = None \<and>
     (\<forall>f ls. tc_message_boundary_predicate cfg = Some f \<longrightarrow>
        f ls \<noteq> Some IncompleteContent \<and> (\<forall>n. f ls = Some (Split n) \<longrightarrow> 0 < n \<and> ls \<noteq> [])))"

lemma boundary_loop_inv:
  assumes plain: "plain_config (cfg :: 'e text_config)"
  shows "text_inv cfg text rest (foldl by_index_step es (patches :: ('e, 'd) patch list)) provider tp \<Longrightarrow>
    \<exists>new provider' tp'. boundary_loop cfg (patches, provider, tp) = Some ((patches @ new, provider', tp'), True) \<and>
      text_inv cfg text rest (foldl by_index_step es (patches @ new)) provider' tp' \<and>
      tp_last_chunk_arrival_time tp' = tp_last_chunk_arrival_time tp"
proof (induction "length (tb_lines (tp_buffer tp))" arbitrary: patches provider tp rule: less_induct)
  case less
  show ?case
  proof (cases "Option.bind (tc_message_boundary_predicate cfg) (\<lambda>f. f (tb_lines (tp_buffer tp)))")
    case None
    then show ?thesis using less.prems by (subst boundary_loop.simps) auto
  next
    case (Some boundary)
    then obtain f n where f: "tc_message_boundary_predicate cfg = Some f" "f (tb_lines (tp_buffer tp)) = Some (Split n)"
      "boundary = Split n" "0 < n" "tb_lines (tp_buffer tp) \<noteq> []"
      using plain by (cases boundary) (auto simp: plain_config_def bind_eq_Some_conv)
    obtain ls b where d: "drain_lines n (tp_buffer tp) = (ls, b)" by fastforce
    then have ls: "ls \<noteq> []" using f(4,5) by (auto simp: drain_lines_def Let_def)
    obtain patch :: "('e, 'd) patch" and provider' tp'
      where c: "create_patch cfg provider (tp\<lparr>tp_buffer := b\<rparr>) ls = (patch, provider', tp')"
      by (metis prod_cases3)
    note closed = close_entry [OF less.prems d ls c]
    have shorter: "length (tb_lines (tp_buffer (tp'\<lparr>tp_current_entry_index := None\<rparr>))) < length (tb_lines (tp_buffer tp))"
      using drain_ok(4) [OF d] less.prems ls closed(2) by (simp add: text_inv_def)
    have "tp_last_chunk_arrival_time tp' = tp_last_chunk_arrival_time tp"
      using create_patch_arrival [OF c] by simp
    moreover have "boundary_loop cfg (patches, provider, tp)
        = boundary_loop cfg (patches @ [patch], provider', tp'\<lparr>tp_current_entry_index := None\<rparr>)"
      using Some f(3) d ls c by (subst boundary_loop.simps) simp
    moreover have "text_inv cfg text rest (foldl by_index_step es (patches @ [patch])) provider' (tp'\<lparr>tp_current_entry_index := None\<rparr>)"
      using closed(1) by simp
    from less.hyps [OF shorter this] obtain new provider'' tp'' where
      "boundary_loop cfg (patches @ [patch], provider', tp'\<lparr>tp_current_entry_index := None\<rparr>)
         = Some (((patches @ [patch]) @ new, provider'', tp''), True)"
      "text_inv cfg text rest (foldl by_index_step es ((patches @ [patch]) @ new)) provider'' tp''"
      "tp_last_chunk_arrival_time tp'' = tp_last_chunk_arrival_time tp'" by auto
    ultimately show ?thesis by (intro exI [of _ "patch # new"]) auto
  qed
qed

lemma size_loop_inv:
  "text_inv (cfg :: 'e text_config) text rest (foldl by_index_step es (patches :: ('e, 'd) patch list)) provider tp \<Longrightarrow>
    \<exists>new provider' tp'. size_loop cfg n (patches, provider, tp) = (patches @ new, provider', tp') \<and>
      text_inv cfg text rest (foldl by_index_step es (patches @ new)) provider' tp' \<and>
      tp_last_chunk_arrival_time tp' = tp_last_chunk_arrival_time tp"
proof (induction "length (tb_lines (tp_buffer tp))" arbitrary: patches provider tp rule: less_induct)
  case less
  obtain ls b where d: "drain_size n (tp_buffer tp) = (ls, b)" by fastforce
  have ok: "buffer_ok (tp_buffer tp)" using less.prems by (simp add: text_inv_def)
  show ?case
  proof (cases "n \<le> tb_total_len (tp_buffer tp) \<and> ls \<noteq> []")
    case False
    have "b = tp_buffer tp" if "ls = []" using drain_ok(5) [OF d [unfolded drain_size_def] ok that] .
    then show ?thesis using less.prems False d by (subst size_loop.simps) auto
  next
    case True
    then have ls: "ls \<noteq> []" by simp
    obtain patch :: "('e, 'd) patch" and provider' tp'
      where c: "create_patch cfg provider (tp\<lparr>tp_buffer := b\<rparr>) ls = (patch, provider', tp')"
      by (metis prod_cases3)
    note closed = close_entry [OF less.prems d [unfolded drain_size_def] ls c]
    have shorter: "length (tb_lines (tp_buffer (tp'\<lparr>tp_current_entry_index := None\<rparr>))) < length (tb_lines (tp_buffer tp))"
      using drain_ok(4) [OF d [unfolded drain_size_def] ok ls] closed(2) by simp
    have "tp_last_chunk_arrival_time tp' = tp_last_chunk_arrival_time tp"
      using create_patch_arrival [OF c] by simp
    moreover have "size_loop cfg n (patches, provider, tp)
        = size_loop cfg n (patches @ [patch], provider', tp'\<lparr>tp_current_entry_index := None\<rparr>)"
      using True d c by (subst size_loop.simps) simp
    moreover have "text_inv cfg text rest (foldl by_index_step es (patches @ [patch])) provider' (tp'\<lparr>tp_current_entry_index := None\<rparr>)"
      using closed(1) by simp
    from less.hyps [OF shorter this] obtain new provider'' tp'' where
      "size_loop cfg n (patches @ [patch], provider', tp'\<lparr>tp_current_entry_index := None\<rparr>)
         = ((patches @ [patch]) @ new, provider'', tp'')"
      "text_inv cfg text rest (foldl by_index_step es ((patches @ [patch]) @ new)) provider'' tp''"
      "tp_last_chunk_arrival_time tp'' = tp_last_chunk_arrival_time tp'" by auto
    ultimately show ?thesis by (intro exI [of _ "patch # new"]) auto
  qed
qed

definition up_to_date :: "'e text_config \<Rightarrow> string \<Rightarrow> (nat \<times> 'e) list \<Rightarrow> bool" where
  "up_to_date cfg text es =
     (\<exists>pieces. map snd es = map (tc_normalized_entry_producer cfg) pieces \<and> concat pieces = text \<and> [] \<notin> set pieces)"

lemma emit_text_shows:
  assumes plain: "plain_config (cfg :: 'e text_config)" and inv: "text_inv cfg text rest es provider tp"
  shows "\<exists>(patches :: ('e, 'd) patch list) provider' tp'. emit_text cfg ([], provider, tp) = Some (patches, provider', tp') \<and>
    text_inv cfg text rest (foldl by_index_step es patches) provider' tp' \<and>
    up_to_date cfg text (foldl by_index_step es patches) \<and>
    tp_last_chunk_arrival_time tp' = tp_last_chunk_arrival_time tp"
proof -
  have start: "text_inv cfg text rest (foldl by_index_step es ([] :: ('e, 'd) patch list)) provider tp" using inv by simp
  obtain ps1 :: "('e, 'd) patch list" and pr1 tp1 where b: "boundary_loop cfg ([], provider, tp) = Some ((ps1, pr1, tp1), True)"
    "text_inv cfg text rest (foldl by_index_step es ps1) pr1 tp1"
    "tp_last_chunk_arrival_time tp1 = tp_last_chunk_arrival_time tp"
    using boundary_loop_inv [OF plain start] by auto
  obtain ps2 :: "('e, 'd) patch list" and pr2 tp2 where s:
    "(case tc_entry_size_threshold cfg of None \<Rightarrow> (ps1, pr1, tp1) | Some n \<Rightarrow> size_loop cfg n (ps1, pr1, tp1)) = (ps2, pr2, tp2)"
    "text_inv cfg text rest (foldl by_index_step es ps2) pr2 tp2"
    "tp_last_chunk_arrival_time tp2 = tp_last_chunk_arrival_time tp"
    using size_loop_inv [OF b(2)] b(2,3) by (cases "tc_entry_size_threshold cfg") fastforce+
  have ok: "buffer_ok (tp_buffer tp2)" using s(2) by (simp add: text_inv_def)
  show ?thesis
  proof (cases "buffer_is_empty (tp_buffer tp2)")
    case True
    then have "tb_lines (tp_buffer tp2) = []" "tp_current_entry_index tp2 = None"
      using buffer_empty_iff [OF ok] s(2) by (auto simp: text_inv_def)
    then have "up_to_date cfg text (foldl by_index_step es ps2)"
      using s(2) by (auto simp: text_inv_def up_to_date_def shown_def)
    then show ?thesis using b(1) s True by (simp add: emit_text_def)
  next
    case False
    then have nonempty: "tb_lines (tp_buffer tp2) \<noteq> []" using buffer_empty_iff [OF ok] by simp
    obtain patch :: "('e, 'd) patch" and pr3 tp3 where c: "create_patch cfg pr2 tp2 (tb_lines (tp_buffer tp2)) = (patch, pr3, tp3)"
      by (metis prod_cases3)
    obtain i old closed where *:
      "tp3 = tp2\<lparr>tp_current_entry_index := Some i\<rparr>"
      "by_index_step (foldl by_index_step es ps2) patch
         = old @ [(i, tc_normalized_entry_producer cfg (concat (tb_lines (tp_buffer tp2))))]"
      "i < pr3" "\<forall>j \<in> fst ` set old. j < i" "shown cfg pr3 old closed" "[] \<notin> set closed"
      "concat closed @ concat (tb_lines (tp_buffer tp2)) = text"
      "pr3 + length (concat (tb_lines (tp_buffer tp2))) + rest < 2 ^ 64 + 1" "pr2 \<le> pr3"
      by (rule create_patch_shows [OF s(2) nonempty c refl])
    have "concat (tb_lines (tp_buffer tp2)) \<noteq> []"
      using nonempty ok by (cases "tb_lines (tp_buffer tp2)") (auto simp: buffer_ok_def)
    then have "up_to_date cfg text (foldl by_index_step es (ps2 @ [patch]))"
      unfolding up_to_date_def using *(2,5-7)
      by (intro exI [of _ "closed @ [concat (tb_lines (tp_buffer tp2))]"]) (auto simp: shown_def)
    moreover have "text_inv cfg text rest (foldl by_index_step es (ps2 @ [patch])) pr3 tp3"
      using * ok nonempty by (auto simp: text_inv_def)
    ultimately show ?thesis using b(1) s False c *(1) by (simp add: emit_text_def)
  qed
qed

lemma process_shows:
  assumes plain: "plain_config (cfg :: 'e text_config)" and inv: "text_inv cfg text (length chunk + rest) es provider tp"
    and up: "up_to_date cfg text es" and gap: "\<not> gap_passed cfg now tp"
  shows "\<exists>(patches :: ('e, 'd) patch list) provider' tp'. process_text cfg now provider tp chunk = Some (patches, provider', tp') \<and>
    text_inv cfg (text @ chunk) rest (foldl by_index_step es patches) provider' tp' \<and>
    up_to_date cfg (text @ chunk) (foldl by_index_step es patches) \<and>
    tp_last_chunk_arrival_time tp' = (if chunk = [] then tp_last_chunk_arrival_time tp else now)"
proof (cases "chunk = []")
  case True
  then show ?thesis using inv up by (simp add: process_text_def)
next
  case False
  define tp1 where "tp1 = tp\<lparr>tp_last_chunk_arrival_time := now, tp_buffer := ingest chunk (tp_buffer tp)\<rparr>"
  have ok: "buffer_ok (tp_buffer tp)" using inv by (simp add: text_inv_def)
  note ing = ingest_ok [OF ok, of chunk]
  have "tb_lines (ingest chunk (tp_buffer tp)) \<noteq> []" using ing(2) False by auto
  then have "text_inv cfg (text @ chunk) rest es provider tp1"
    using inv ing unfolding text_inv_def tp1_def by (auto split: option.splits)
  from emit_text_shows [OF plain this] obtain patches :: "('e, 'd) patch list" and provider' tp' where
    "emit_text cfg ([], provider, tp1) = Some (patches, provider', tp')"
    "text_inv cfg (text @ chunk) rest (foldl by_index_step es patches) provider' tp'"
    "up_to_date cfg (text @ chunk) (foldl by_index_step es patches)"
    "tp_last_chunk_arrival_time tp' = now" by (auto simp: tp1_def)
  then show ?thesis
    using False gap plain
    by (simp add: process_text_def process_buffered_def plain_config_def tp1_def Let_def)
qed

fun no_pause :: "'e text_config \<Rightarrow> nat \<Rightarrow> (nat \<times> nat \<times> string) list \<Rightarrow> bool" where
  \<comment> \<open>each chunk comes sooner than the time gap after the one before\<close>
  "no_pause cfg t [] = True"
| "no_pause cfg t ((now, others, chunk) # chunks) =
     ((case tc_time_gap cfg of None \<Rightarrow> True | Some g \<Rightarrow> now - t < g) \<and> no_pause cfg (if chunk = [] then t else now) chunks)"

definition chunk_text :: "(nat \<times> nat \<times> string) list \<Rightarrow> string" where
  "chunk_text chunks = concat (map (\<lambda>(_, _, c). c) chunks)"

definition others_taken :: "(nat \<times> nat \<times> string) list \<Rightarrow> nat" where
  "others_taken chunks = sum_list (map (\<lambda>(_, others, _). others) chunks)"

lemma text_inv_others:
  assumes "text_inv cfg txt (n + rest) es provider tp"
  shows "text_inv cfg txt rest es (provider + n) tp"
proof (cases "tp_current_entry_index tp")
  case None
  then show ?thesis using assms shown_later [of cfg provider _ _ "provider + n"] by (auto simp: text_inv_def)
next
  case (Some i)
  then show ?thesis
    using assms shown_later [of cfg provider _ _ "provider + n"] by (fastforce simp: text_inv_def)
qed

lemma process_all_shows:
  assumes plain: "plain_config (cfg :: 'e text_config)"
  shows "text_inv cfg text (others_taken chunks + length (chunk_text chunks)) (foldl by_index_step es (pushed :: ('e, 'd) patch list)) provider tp \<Longrightarrow>
    up_to_date cfg text (foldl by_index_step es pushed) \<Longrightarrow> no_pause cfg (tp_last_chunk_arrival_time tp) chunks \<Longrightarrow>
    \<exists>patches provider' tp'. process_all cfg provider tp chunks pushed = Some (patches, provider', tp') \<and>
      up_to_date cfg (text @ chunk_text chunks) (foldl by_index_step es patches)"
proof (induction chunks arbitrary: "text" provider tp pushed)
  case (Cons c chunks)
  obtain now others chunk where c: "c = (now, others, chunk)" by (cases c)
  let ?rest = "others_taken chunks + length (chunk_text chunks)"
  have inv: "text_inv cfg text (length chunk + ?rest) (foldl by_index_step es pushed) (provider + others) tp"
    using Cons.prems(1) by (intro text_inv_others) (simp add: c others_taken_def chunk_text_def algebra_simps)
  have gap: "\<not> gap_passed cfg now tp" using Cons.prems(3) by (auto simp: c gap_passed_def split: option.splits)
  obtain patches :: "('e, 'd) patch list" and provider' tp' where
    p: "process_text cfg now (provider + others) tp chunk = Some (patches, provider', tp')"
      "text_inv cfg (text @ chunk) ?rest (foldl by_index_step es (pushed @ patches)) provider' tp'"
      "up_to_date cfg (text @ chunk) (foldl by_index_step es (pushed @ patches))"
      "tp_last_chunk_arrival_time tp' = (if chunk = [] then tp_last_chunk_arrival_time tp else now)"
    using process_shows [OF plain inv Cons.prems(2) gap] by auto
  have "no_pause cfg (tp_last_chunk_arrival_time tp') chunks" using Cons.prems(3) p(4) by (simp add: c)
  from Cons.IH [OF p(2,3) this] show ?case using p(1) by (auto simp: c chunk_text_def)
qed (simp add: chunk_text_def)


section \<open>Pauses\<close>

text \<open>After a pause the chunk that ends it makes no difference: it is dropped.\<close>

lemma gap_drops_chunk:
  assumes "gap_passed cfg now tp" "buffer_ok (tp_buffer tp)" "chunk \<noteq> []" "chunk' \<noteq> []"
  shows "process_text cfg now provider tp chunk = process_text cfg now provider tp chunk'"
proof -
  have "tb_lines (tp_buffer tp) \<noteq> []" using assms(1,2) by (simp add: gap_passed_def buffer_empty_iff)
  then show ?thesis using assms by (simp add: process_text_def buffer_flush_def)
qed

text \<open>The next chunk then replaces the entry of the text before the pause.\<close>

lemma pause_loses_text:
  "map_option (\<lambda>(patches :: (string, unit) patch list, _). foldl by_index_step [] patches)
     (process_all (stderr_config id id) 0 (text_processor_new 0)
       [(0, 0, ''one''), (5000, 0, ''two''), (5001, 0, ''three'')] []) = Some [(0, ''three'')]"
  by code_simp

text \<open>A predicate that splits at 0 keeps the loop from ending.\<close>

lemma boundary_loop_stuck:
  "boundary_loop cfg st = Some r \<Longrightarrow> tc_message_boundary_predicate cfg = Some (\<lambda>_. Some (Split 0)) \<Longrightarrow> False"
proof (induction cfg st r rule: boundary_loop.raw_induct [rotated 1, consumes 1])
  case (1 loop cfg st r)
  obtain patches provider tp where st: "st = (patches, provider, tp)" by (cases st)
  have "loop cfg (patches, provider, tp\<lparr>tp_buffer := snd (drain_lines 0 (tp_buffer tp))\<rparr>) = Some r"
    using 1(2,3) by (simp add: st drain_lines_def Let_def)
  then show ?case by (rule 1(1)) (rule 1(3))
qed

section \<open>Fresh indexes\<close>

lemma start_from_fresh:
  assumes "m \<in> set history" "patch_index m = Some i" "\<forall>m' \<in> set history. \<forall>j. patch_index m' = Some j \<longrightarrow> j < usize_max"
  shows "i < start_from history"
proof -
  have ge: "k \<le> foldl max k js" for k :: nat and js
    by (induction js arbitrary: k) (auto intro: order_trans [OF max.cobounded1])
  have le_max: "j \<le> foldl max k js" if "j \<in> insert k (set js)" for j k :: nat and js
    using that by (induction js arbitrary: k) (auto intro: order_trans [OF _ ge])
  have max_in: "foldl max k js \<in> insert k (set js)" for k :: nat and js
    by (induction js arbitrary: k) (auto simp: max_def)
  have set: "set (List.map_filter patch_index history) = {j. \<exists>m' \<in> set history. patch_index m' = Some j}"
    by (force simp: map_filter_def)
  then obtain k js where js: "List.map_filter patch_index history = k # js"
    using assms(1,2) by (cases "List.map_filter patch_index history") auto
  have "i \<le> foldl max k js" using le_max [of i k js] set js assms(1,2) by auto
  moreover have "foldl max k js < usize_max" using max_in [of k js] set js assms(3) by auto
  ultimately show ?thesis by (simp add: start_from_def js sat_add_def)
qed

section \<open>Historic replays\<close>

definition conversation_patch :: "('e, 'd) patch \<Rightarrow> bool" where
  \<comment> \<open>what the normalizers push\<close>
  "conversation_patch p = (\<exists>i < 2 ^ 64. (\<exists>e. p = add_normalized_entry_patch i e \<or> p = replace_patch i e) \<or> p = remove_patch i)"

lemma conversation_patches:
  "i < 2 ^ 64 \<Longrightarrow> conversation_patch (add_normalized_entry_patch i e)"
  "i < 2 ^ 64 \<Longrightarrow> conversation_patch (replace_patch i e)"
  "i < 2 ^ 64 \<Longrightarrow> conversation_patch (remove_patch i)"
  by (auto simp: conversation_patch_def)

definition patches_of :: "('e, 'd) patch log_msg list \<Rightarrow> ('e, 'd) patch list" where
  "patches_of msgs = List.map_filter (\<lambda>m. case m of JsonPatch p \<Rightarrow> Some p | _ \<Rightarrow> None) msgs"

lemma patches_of_simps [simp]:
  "patches_of [] = []" "patches_of (JsonPatch p # msgs) = p # patches_of msgs"
  "\<forall>p. m \<noteq> JsonPatch p \<Longrightarrow> patches_of (m # msgs) = patches_of msgs"
  by (auto simp: patches_of_def map_filter_def split: log_msg.split)

lemma insert_index_again [simp]: "insert_index i e (insert_index i f es) = insert_index i e es"
  by (induction es) auto

lemma fix_keeps_entry:
  "conversation_patch p \<Longrightarrow> by_index_step es (fst (fix_patch_ops p sent)) = by_index_step es p"
  by (auto simp: conversation_patch_def by_index_step_def add_normalized_entry_patch_def replace_patch_def remove_patch_def
      extract_normalized_entry_from_patch_def)

lemma merged_entry:
  assumes "conversation_patch p" "conversation_patch q" "merges_with p q"
  shows "by_index_step (by_index_step es p) q = by_index_step es q"
  using assms
  by (auto simp: conversation_patch_def merges_with_def by_index_step_def add_normalized_entry_patch_def replace_patch_def
      remove_patch_def patch_entry_path_def is_add_or_replace_def extract_normalized_entry_from_patch_def dest: entry_path_inj)

lemma replay_entries:
  "\<forall>p \<in> set_option buffered \<union> set (patches_of msgs). conversation_patch p \<Longrightarrow>
   foldl by_index_step es (replay_patches buffered sent msgs)
     = foldl by_index_step es ((case buffered of None \<Rightarrow> [] | Some p \<Rightarrow> [p]) @ patches_of msgs)"
proof (induction buffered sent msgs arbitrary: es rule: replay_patches.induct)
  case (3 buffered sent patch msgs)
  show ?case
  proof (cases buffered)
    case (Some prev)
    then show ?thesis
      using 3 fix_keeps_entry [of prev es sent] by (auto simp: merged_entry split: prod.split)
  qed (use 3 in simp)
qed (auto simp: fix_keeps_entry)

lemma by_index_stream: "by_index es (map JsonPatch ps @ [Finished]) = foldl by_index_step es ps"
  by (induction ps arbitrary: es) simp_all

fun op_value :: "'v patch_operation \<Rightarrow> 'v option" where
  "op_value (Add _ v) = Some v"
| "op_value (Replace _ v) = Some v"
| "op_value _ = None"

fun apply_strictly :: "(string \<rightharpoonup> 'v) \<Rightarrow> 'v patch_operation list \<Rightarrow> (string \<rightharpoonup> 'v) option" where
  \<comment> \<open>None when something is added that exists or replaced that does not\<close>
  "apply_strictly doc [] = Some doc"
| "apply_strictly doc (Add p v # ops) = (if p \<in> dom doc then None else apply_strictly (doc(p \<mapsto> v)) ops)"
| "apply_strictly doc (Replace p v # ops) = (if p \<in> dom doc then apply_strictly (doc(p \<mapsto> v)) ops else None)"
| "apply_strictly doc (op # ops) = None"

definition last_values :: "(string \<rightharpoonup> 'v) \<Rightarrow> 'v patch_operation list \<Rightarrow> (string \<rightharpoonup> 'v)" where
  "last_values = foldl (\<lambda>doc op. doc(op_path op := op_value op))"

lemma last_values_simps [simp]:
  "last_values doc [] = doc" "last_values doc (op # ops) = last_values (doc(op_path op := op_value op)) ops"
  by (simp_all add: last_values_def)

lemma fix_applies:
  assumes "conversation_patch p" "is_add_or_replace p" "sent = dom doc"
  shows "\<exists>fixed. fix_patch_ops p sent = ([fixed], insert (op_path (hd p)) sent) \<and> p = [hd p] \<and>
    apply_strictly doc (fixed # ops) = apply_strictly (doc(op_path (hd p) := op_value (hd p))) ops \<and>
    op_value (hd p) \<noteq> None"
  using assms
  by (auto simp: conversation_patch_def add_normalized_entry_patch_def replace_patch_def remove_patch_def is_add_or_replace_def)

lemma replay_applies:
  "\<forall>p \<in> set_option buffered \<union> set (patches_of msgs). conversation_patch p \<and> is_add_or_replace p \<Longrightarrow> sent = dom doc \<Longrightarrow>
   apply_strictly doc (concat (replay_patches buffered sent msgs))
     = Some (last_values doc (concat ((case buffered of None \<Rightarrow> [] | Some p \<Rightarrow> [p]) @ patches_of msgs)))"
proof (induction buffered sent msgs arbitrary: doc rule: replay_patches.induct)
  case (2 prev sent)
  then obtain fixed where "fix_patch_ops prev sent = ([fixed], insert (op_path (hd prev)) sent)" "prev = [hd prev]"
    "apply_strictly doc [fixed] = apply_strictly (doc(op_path (hd prev) := op_value (hd prev))) []"
    using fix_applies [of prev sent doc "[]"] by auto
  then show ?case by (metis apply_strictly.simps(1) append_Nil2 concat.simps fst_conv last_values_simps
      option.simps(5) patches_of_simps(1) replay_patches.simps(2))
next
  case (3 buffered sent patch msgs)
  show ?case
  proof (cases buffered)
    case None
    then show ?thesis using 3 by simp
  next
    case (Some prev)
    have ok: "conversation_patch prev" "is_add_or_replace prev" "conversation_patch patch" "is_add_or_replace patch"
      using 3(4) Some by auto
    show ?thesis
    proof (cases "merges_with prev patch")
      case True
      obtain a b where ab: "prev = [a]" "patch = [b]" using ok(1,3)
        by (auto simp: conversation_patch_def add_normalized_entry_patch_def replace_patch_def remove_patch_def)
      then have "op_path a = op_path b" using True by (simp add: merges_with_def patch_entry_path_def)
      then have "last_values doc (concat ([prev] @ patch # patches_of msgs)) = last_values doc (concat ([patch] @ patches_of msgs))"
        by (simp add: ab)
      then show ?thesis using 3(2) [OF Some True] 3(4,5) Some True by simp
    next
      case False
      let ?rest = "replay_patches (Some patch) (insert (op_path (hd prev)) sent) msgs"
      obtain fixed where f: "fix_patch_ops prev sent = ([fixed], insert (op_path (hd prev)) sent)" "prev = [hd prev]"
        "apply_strictly doc (fixed # concat ?rest) = apply_strictly (doc(op_path (hd prev) := op_value (hd prev))) (concat ?rest)"
        "op_value (hd prev) \<noteq> None"
        using fix_applies [OF ok(1,2) 3(5), of "concat ?rest"] by blast
      have "insert (op_path (hd prev)) sent = dom (doc(op_path (hd prev) := op_value (hd prev)))"
        using 3(5) f(4) by auto
      from 3(3) [OF Some False f(1) [symmetric] _ this] 3(4) ok
      have "apply_strictly (doc(op_path (hd prev) := op_value (hd prev))) (concat ?rest)
          = Some (last_values (doc(op_path (hd prev) := op_value (hd prev))) (concat ([patch] @ patches_of msgs)))"
        by (simp del: fun_upd_apply)
      moreover have "last_values doc (concat ([prev] @ patch # patches_of msgs))
          = last_values (doc(op_path (hd prev) := op_value (hd prev))) (concat ([patch] @ patches_of msgs))"
        by (subst f(2)) simp
      ultimately show ?thesis using Some False f(1,3) by simp
    qed
  qed
qed auto

text \<open>C30: A historic replay shows what the whole history shows, whatever patches for entries it contains: reading the
  shortened stream gives the same entries, and without removals every operation of the stream applies
  to what it finds (nothing is added twice, nothing missing is replaced) and leaves the last value of
  each path.\<close>

theorem replay_shows_history:
  assumes "\<forall>p \<in> set (patches_of history). conversation_patch p"
  shows "by_index [] (historic_stream history) = foldl by_index_step [] (patches_of history) \<and>
    ((\<forall>p \<in> set (patches_of history). is_add_or_replace p) \<longrightarrow>
     apply_strictly Map.empty (concat (replay_patches None {} history)) = Some (last_values Map.empty (concat (patches_of history))))"
  using replay_entries [of None history "[]" "{}"] replay_applies [of None history "{}" Map.empty] assms
  by (simp add: historic_stream_def by_index_stream)

text \<open>The list of entries of a finished process keeps entries that were removed.\<close>

lemma removed_entry_stays:
  "i < 2 ^ 64 \<Longrightarrow> by_index [] [JsonPatch (add_normalized_entry_patch i e), JsonPatch (remove_patch i), Finished] = [(i, e)]"
  by (simp add: by_index_step_def)

section \<open>Examples\<close>

definition demo_config :: "string text_config" where
  "demo_config = text_config_new id (Some 8) (Some 2000) None None
     (Some (\<lambda>ls. case ls of l # _ # _ \<Rightarrow> (if str_contains ''TOOL'' l then Some (Split 1) else None) | _ \<Rightarrow> None))"


theorem replay_shows_history_witness:
  "let history = [Stdout ''x'', JsonPatch (add_normalized_entry_patch 0 ''a''), JsonPatch (replace_patch 0 ''ab''), Finished,
       JsonPatch (add_normalized_entry_patch 1 ''c''), JsonPatch (replace_patch 0 ''abd'')]
     :: (string, unit) patch log_msg list in
   by_index [] (historic_stream history) = foldl by_index_step [] (patches_of history) \<and>
   length (replay_patches None {} history) = 3"
proof -
  define history :: "(string, unit) patch log_msg list" where
    "history = [Stdout ''x'', JsonPatch (add_normalized_entry_patch 0 ''a''), JsonPatch (replace_patch 0 ''ab''), Finished,
       JsonPatch (add_normalized_entry_patch 1 ''c''), JsonPatch (replace_patch 0 ''abd'')]"
  have "\<forall>p \<in> set (patches_of history). conversation_patch p"
    by (simp add: history_def conversation_patches)
  moreover have "length (replay_patches None {} history) = 3" unfolding history_def by code_simp
  ultimately show ?thesis using replay_shows_history [of history] unfolding Let_def history_def by blast
qed

end
