(* ===== verification/Approvals.thy ===== *)
theory Approvals
  imports Vk_Prelude
begin

text \<open>
  Approvals: a coding agent asks for permission to use a tool, or asks a question, and waits; a user
  answers, the time runs out, or the wait is cancelled (crates/services/src/services/approvals.rs,
  approvals/executor_approvals.rs, crates/utils/src/approvals.rs,
  crates/services/src/services/events/patches.rs, crates/server/src/routes/approvals.rs).

  An approval is known by the UUID whose text is its identifier. A one-shot channel is a number; its
  sender is part of the pending approval and its receiver is the shared waiter. Requests, timers and waits
  run at once: what they do to the shared maps in one go is one operation here, and an answer and a
  timer are two operations each. Patches are values, and the order of a DashMap is that of the
  insertions.
\<close>

section \<open>Data\<close>

type_synonym question_answer = "string \<times> string list"

datatype approval_outcome = Approved | Denied "string option" | Answered "question_answer list" | TimedOut

datatype approval_status = StPending | StApproved | StDenied "string option" | StTimedOut

datatype question_status = QsAnswered "question_answer list" | QsTimedOut

datatype approval_error = ApprovalNotFound | AlreadyCompleted | NoExecutorSession string | InvalidStatus

datatype executor_approval_error = SessionNotRegistered | RequestFailed string | ServiceUnavailable | WaitCancelled

record approval_request =
  aq_id :: uuid
  aq_tool_name :: string
  aq_execution_process_id :: uuid
  aq_created_at :: timestamp
  aq_timeout_at :: timestamp

definition approval_timeout_seconds :: nat where
  "approval_timeout_seconds = 36000"

definition approval_request_new :: "uuid \<Rightarrow> timestamp \<Rightarrow> string \<Rightarrow> uuid \<Rightarrow> approval_request" where
  "approval_request_new fresh now tool_name execution_process_id =
     \<lparr>aq_id = fresh, aq_tool_name = tool_name, aq_execution_process_id = execution_process_id,
      aq_created_at = now, aq_timeout_at = now + approval_timeout_seconds\<rparr>"

record pending_approval =
  pa_id :: uuid
  pa_execution_process_id :: uuid
  pa_tool_name :: string
  pa_is_question :: bool
  pa_created_at :: timestamp
  pa_timeout_at :: timestamp
  pa_response_tx :: nat

record approval_info =
  ai_approval_id :: uuid
  ai_tool_name :: string
  ai_execution_process_id :: uuid
  ai_is_question :: bool
  ai_created_at :: timestamp
  ai_timeout_at :: timestamp

datatype approvals_patch = PendingSnapshot "approval_info list" | PendingCreated approval_info | PendingResolved uuid

datatype channel = ChOpen | ChSent approval_outcome | ChDropped

record approvals =
  av_pending :: "pending_approval list"
  av_completed :: "(uuid \<times> approval_outcome) list"
  av_channels :: "channel list"
  av_patches :: "approvals_patch list"  \<comment> \<open>all that was broadcast\<close>

definition approvals_new :: approvals where
  "approvals_new = \<lparr>av_pending = [], av_completed = [], av_channels = [], av_patches = []\<rparr>"

section \<open>The service\<close>

definition info_of :: "pending_approval \<Rightarrow> approval_info" where
  "info_of p = \<lparr>ai_approval_id = pa_id p, ai_tool_name = pa_tool_name p,
     ai_execution_process_id = pa_execution_process_id p, ai_is_question = pa_is_question p,
     ai_created_at = pa_created_at p, ai_timeout_at = pa_timeout_at p\<rparr>"

definition pending_insert :: "pending_approval \<Rightarrow> pending_approval list \<Rightarrow> pending_approval list" where
  "pending_insert p ps =
     (if tbl_find pa_id (pa_id p) ps = None then ps @ [p] else tbl_update pa_id (pa_id p) (\<lambda>_. p) ps)"

definition completed_insert :: "uuid \<Rightarrow> approval_outcome \<Rightarrow> (uuid \<times> approval_outcome) list \<Rightarrow> (uuid \<times> approval_outcome) list" where
  "completed_insert i r cs = (i, r) # filter (\<lambda>c. fst c \<noteq> i) cs"

definition broadcast :: "approvals_patch \<Rightarrow> approvals \<Rightarrow> approvals" where
  "broadcast patch av = av\<lparr>av_patches := av_patches av @ [patch]\<rparr>"

definition channel_set :: "nat \<Rightarrow> channel \<Rightarrow> approvals \<Rightarrow> approvals" where
  "channel_set ch c av = av\<lparr>av_channels := (av_channels av)[ch := c]\<rparr>"

definition create_with_waiter :: "approvals \<Rightarrow> approval_request \<Rightarrow> bool \<Rightarrow> nat \<times> approvals" where
  \<comment> \<open>the waiter; the timer that is spawned is the caller's\<close>
  "create_with_waiter av rq is_question =
     (let ch = length (av_channels av);
          p = \<lparr>pa_id = aq_id rq, pa_execution_process_id = aq_execution_process_id rq, pa_tool_name = aq_tool_name rq,
            pa_is_question = is_question, pa_created_at = aq_created_at rq, pa_timeout_at = aq_timeout_at rq,
            pa_response_tx = ch\<rparr> in
      (ch, broadcast (PendingCreated (info_of p))
        (av\<lparr>av_channels := av_channels av @ [ChOpen], av_pending := pending_insert p (av_pending av)\<rparr>)))"

fun validate_approval_response :: "approval_outcome \<Rightarrow> bool \<Rightarrow> approval_error + unit" where
  "validate_approval_response Approved q = (if q then Inl InvalidStatus else Inr ())"
| "validate_approval_response (Denied _) q = (if q then Inl InvalidStatus else Inr ())"
| "validate_approval_response (Answered _) q = (if q then Inr () else Inl InvalidStatus)"
| "validate_approval_response TimedOut q = Inr ()"

definition respond_take :: "approvals \<Rightarrow> uuid \<Rightarrow> approval_error + (pending_approval \<times> approvals)" where
  \<comment> \<open>\<open>pending.remove\<close>, and the errors\<close>
  "respond_take av i =
     (case tbl_find pa_id i (av_pending av) of
        Some p \<Rightarrow> Inr (p, av\<lparr>av_pending := tbl_delete pa_id i (av_pending av)\<rparr>)
      | None \<Rightarrow> Inl (if i \<in> fst ` set (av_completed av) then AlreadyCompleted else ApprovalNotFound))"

definition respond_finish ::
  "approvals \<Rightarrow> pending_approval \<Rightarrow> approval_outcome \<Rightarrow>
   (approval_error + (approval_outcome \<times> string \<times> uuid)) \<times> approvals" where
  "respond_finish av p status =
     (case validate_approval_response status (pa_is_question p) of
        Inl e \<Rightarrow> (Inl e, av\<lparr>av_pending := pending_insert p (av_pending av)\<rparr>)
      | Inr _ \<Rightarrow>
          (Inr (status, pa_tool_name p, pa_execution_process_id p),
           broadcast (PendingResolved (pa_id p))
             (channel_set (pa_response_tx p) (ChSent status)
               (av\<lparr>av_completed := completed_insert (pa_id p) status (av_completed av)\<rparr>))))"

definition respond ::
  "approvals \<Rightarrow> uuid \<Rightarrow> approval_outcome \<Rightarrow> (approval_error + (approval_outcome \<times> string \<times> uuid)) \<times> approvals" where
  \<comment> \<open>with nothing in between\<close>
  "respond av i status =
     (case respond_take av i of Inl e \<Rightarrow> (Inl e, av) | Inr (p, av) \<Rightarrow> respond_finish av p status)"

definition waiter_outcome :: "approvals \<Rightarrow> nat \<Rightarrow> approval_outcome option" where
  \<comment> \<open>of the shared waiter; None while it waits\<close>
  "waiter_outcome av ch = (case av_channels av ! ch of ChOpen \<Rightarrow> None | ChSent r \<Rightarrow> Some r | ChDropped \<Rightarrow> Some TimedOut)"

definition timeout_select :: "approvals \<Rightarrow> timestamp \<Rightarrow> timestamp \<Rightarrow> nat \<Rightarrow> approval_outcome option" where
  "timeout_select av now deadline ch =
     (case waiter_outcome av ch of Some r \<Rightarrow> Some r | None \<Rightarrow> if deadline \<le> now then Some TimedOut else None)"

definition timeout_finish :: "approvals \<Rightarrow> uuid \<Rightarrow> approval_outcome \<Rightarrow> approvals" where
  "timeout_finish av i outcome =
     (let av = av\<lparr>av_completed := completed_insert i outcome (av_completed av)\<rparr> in
      if outcome = TimedOut then
        (case tbl_find pa_id i (av_pending av) of
           None \<Rightarrow> av
         | Some p \<Rightarrow> channel_set (pa_response_tx p) (ChSent outcome)
             (broadcast (PendingResolved i) (av\<lparr>av_pending := tbl_delete pa_id i (av_pending av)\<rparr>)))
      else av)"

definition approval_cancel :: "approvals \<Rightarrow> uuid \<Rightarrow> approvals" where
  \<comment> \<open>the sender is dropped with the pending approval\<close>
  "approval_cancel av i =
     (case tbl_find pa_id i (av_pending av) of
        None \<Rightarrow> av
      | Some p \<Rightarrow> channel_set (pa_response_tx p) ChDropped
          (broadcast (PendingResolved i)
            (av\<lparr>av_pending := tbl_delete pa_id i (av_pending av),
               av_completed := completed_insert i (Denied (Some ''Cancelled'')) (av_completed av)\<rparr>)))"

definition pending_infos :: "approvals \<Rightarrow> approval_info list" where
  "pending_infos av = map info_of (av_pending av)"

definition get_pending_execution_process_ids :: "approvals \<Rightarrow> uuid list \<Rightarrow> uuid set" where
  "get_pending_execution_process_ids av ids = {e \<in> pa_execution_process_id ` set (av_pending av). e \<in> set ids}"

text \<open>
  A reader of the patches first takes a snapshot and then subscribes. The channel keeps 64 patches; a
  reader that falls behind gets a new snapshot and goes on with the oldest patch that is kept.
\<close>

record patch_reader =
  rd_position :: nat  \<comment> \<open>the patches before have been read\<close>
  rd_received :: "approvals_patch list"

definition patch_snapshot :: "approvals \<Rightarrow> approvals_patch" where
  "patch_snapshot av = PendingSnapshot (pending_infos av)"

definition patch_subscribe :: "approvals \<Rightarrow> approvals_patch \<Rightarrow> patch_reader" where
  "patch_subscribe av snapshot = \<lparr>rd_position = length (av_patches av), rd_received = [snapshot]\<rparr>"

definition patch_receive :: "approvals \<Rightarrow> patch_reader \<Rightarrow> patch_reader" where
  "patch_receive av rd =
     (let n = length (av_patches av) in
      if n - rd_position rd > 64
      then rd\<lparr>rd_position := n - 64, rd_received := rd_received rd @ [patch_snapshot av]\<rparr>
      else if rd_position rd < n
      then rd\<lparr>rd_position := Suc (rd_position rd), rd_received := rd_received rd @ [av_patches av ! rd_position rd]\<rparr>
      else rd)"

fun shown_approvals :: "uuid list \<Rightarrow> approvals_patch list \<Rightarrow> uuid list" where
  \<comment> \<open>what the patches show\<close>
  "shown_approvals ids [] = ids"
| "shown_approvals ids (PendingSnapshot infos # ps) = shown_approvals (map ai_approval_id infos) ps"
| "shown_approvals ids (PendingCreated info # ps) = shown_approvals (List.insert (ai_approval_id info) ids) ps"
| "shown_approvals ids (PendingResolved i # ps) = shown_approvals (filter (\<lambda>j. j \<noteq> i) ids) ps"

section \<open>The bridge of an executor\<close>

record approval_host =
  ah_service :: approvals
  ah_waiters :: "(uuid \<times> nat) list"
  ah_timers :: "(uuid \<times> timestamp \<times> nat) list"  \<comment> \<open>timers that wait, with their deadlines\<close>
  ah_fired :: "(uuid \<times> approval_outcome) list"  \<comment> \<open>timers between their two operations\<close>
  ah_answering :: "(pending_approval \<times> approval_outcome) list"  \<comment> \<open>answers between their two operations\<close>
  ah_waiting :: "(uuid \<times> nat) list"  \<comment> \<open>waits that have taken their waiter\<close>
  ah_next_uuid :: uuid
  ah_now :: timestamp
  ah_notifications :: "(string \<times> string \<times> uuid option) list"
  \<comment> \<open>what has happened\<close>
  ah_created :: "(uuid \<times> bool) list"
  ah_answers :: "(uuid \<times> approval_outcome) list"
  ah_outcomes :: "(uuid \<times> (executor_approval_error + approval_outcome)) list"

definition approval_host_new :: approval_host where
  "approval_host_new = \<lparr>ah_service = approvals_new, ah_waiters = [], ah_timers = [], ah_fired = [], ah_answering = [],
     ah_waiting = [], ah_next_uuid = 0, ah_now = 0, ah_notifications = [], ah_created = [], ah_answers = [], ah_outcomes = []\<rparr>"

definition approval_notification ::
  "(string \<times> uuid) option \<Rightarrow> string \<Rightarrow> nat option \<Rightarrow> string \<times> string \<times> uuid option" where
  \<comment> \<open>with the name and the id of the workspace\<close>
  "approval_notification workspace tool_name question_count =
     (let (workspace_name, workspace_id) = (case workspace of
            None \<Rightarrow> (''Unknown workspace'', None) | Some (n, i) \<Rightarrow> (n, Some i)) in
      case question_count of
        Some count \<Rightarrow>
          (''Question Asked: '' @ workspace_name,
           if count = 1 then ''1 question requires an answer'' else show_nat count @ '' questions require answers'',
           workspace_id)
      | None \<Rightarrow> (''Approval Needed: '' @ workspace_name, ''Tool '' @ [CHR 0x27] @ tool_name @ [CHR 0x27] @ '' requires approval'', workspace_id))"

definition create_internal ::
  "approval_host \<Rightarrow> uuid \<Rightarrow> (string \<times> uuid) option \<Rightarrow> string \<Rightarrow> bool \<Rightarrow> nat option \<Rightarrow> uuid \<times> approval_host" where
  "create_internal h execution_process_id workspace tool_name is_question question_count =
     (let rq = approval_request_new (ah_next_uuid h) (ah_now h) tool_name execution_process_id;
          (ch, av) = create_with_waiter (ah_service h) rq is_question in
      (aq_id rq, h\<lparr>ah_service := av, ah_waiters := (aq_id rq, ch) # ah_waiters h,
         ah_timers := ah_timers h @ [(aq_id rq, aq_timeout_at rq, ch)], ah_next_uuid := Suc (ah_next_uuid h),
         ah_notifications := ah_notifications h @ [approval_notification workspace tool_name question_count],
         ah_created := ah_created h @ [(aq_id rq, is_question)]\<rparr>))"

definition create_tool_approval :: "approval_host \<Rightarrow> uuid \<Rightarrow> (string \<times> uuid) option \<Rightarrow> string \<Rightarrow> uuid \<times> approval_host" where
  "create_tool_approval h execution_process_id workspace tool_name =
     create_internal h execution_process_id workspace tool_name False None"

definition create_question_approval ::
  "approval_host \<Rightarrow> uuid \<Rightarrow> (string \<times> uuid) option \<Rightarrow> string \<Rightarrow> nat \<Rightarrow> uuid \<times> approval_host" where
  "create_question_approval h execution_process_id workspace tool_name question_count =
     create_internal h execution_process_id workspace tool_name True (Some question_count)"

definition wait_take :: "approval_host \<Rightarrow> uuid \<Rightarrow> executor_approval_error + (nat \<times> approval_host)" where
  \<comment> \<open>the first part of \<open>wait_internal\<close>\<close>
  "wait_take h i =
     (case map_of (ah_waiters h) i of
        None \<Rightarrow> Inl (RequestFailed (''no waiter found for approval_id='' @ show_uuid i))
      | Some ch \<Rightarrow> Inr (ch, h\<lparr>ah_waiters := filter (\<lambda>w. fst w \<noteq> i) (ah_waiters h)\<rparr>))"

definition wait_select ::
  "approvals \<Rightarrow> uuid \<Rightarrow> nat \<Rightarrow> bool \<Rightarrow> ((executor_approval_error + approval_outcome) \<times> approvals) option" where
  \<comment> \<open>the rest; \<open>cancelled\<close> when the branch of the token is taken\<close>
  "wait_select av i ch cancelled =
     (if cancelled then Some (Inl WaitCancelled, approval_cancel av i)
      else map_option (\<lambda>r. (Inr r, av)) (waiter_outcome av ch))"

fun tool_status :: "executor_approval_error + approval_outcome \<Rightarrow> executor_approval_error + approval_status" where
  \<comment> \<open>\<open>wait_tool_approval\<close> after \<open>wait_internal\<close>\<close>
  "tool_status (Inl e) = Inl e"
| "tool_status (Inr Approved) = Inr StApproved"
| "tool_status (Inr (Denied reason)) = Inr (StDenied reason)"
| "tool_status (Inr TimedOut) = Inr StTimedOut"
| "tool_status (Inr (Answered _)) = Inl (RequestFailed ''unexpected question response for permission request'')"

fun question_status_of :: "executor_approval_error + approval_outcome \<Rightarrow> executor_approval_error + question_status" where
  \<comment> \<open>\<open>wait_question_answer\<close> after \<open>wait_internal\<close>\<close>
  "question_status_of (Inl e) = Inl e"
| "question_status_of (Inr (Answered answers)) = Inr (QsAnswered answers)"
| "question_status_of (Inr TimedOut) = Inr QsTimedOut"
| "question_status_of (Inr _) = Inl (RequestFailed ''unexpected permission response for question request'')"

definition respond_to_approval :: "approvals \<Rightarrow> uuid \<Rightarrow> approval_outcome \<Rightarrow> (nat + approval_outcome) \<times> approvals" where
  \<comment> \<open>the handler: the status of the error, or the outcome\<close>
  "respond_to_approval av i status =
     (case respond av i status of (Inl _, av) \<Rightarrow> (Inl 500, av) | (Inr (outcome, _), av) \<Rightarrow> (Inr outcome, av))"

section \<open>Histories\<close>

datatype approval_event =
    AskTool uuid "(string \<times> uuid) option" string
  | AskQuestion uuid "(string \<times> uuid) option" string nat
  | TakeAnswer uuid approval_outcome
  | FinishAnswer nat
  | FireTimer nat
  | FinishTimer nat
  | StartWait uuid
  | EndWait nat bool
  | ApprovalTime nat

definition remove_nth :: "nat \<Rightarrow> 'a list \<Rightarrow> 'a list" where
  "remove_nth k xs = take k xs @ drop (Suc k) xs"

fun approval_step :: "approval_host \<Rightarrow> approval_event \<Rightarrow> approval_host" where
  "approval_step h (AskTool ep ws tool) = snd (create_tool_approval h ep ws tool)"
| "approval_step h (AskQuestion ep ws tool n) = snd (create_question_approval h ep ws tool n)"
| "approval_step h (TakeAnswer i status) =
     (case respond_take (ah_service h) i of
        Inl _ \<Rightarrow> h
      | Inr (p, av) \<Rightarrow> h\<lparr>ah_service := av, ah_answering := ah_answering h @ [(p, status)]\<rparr>)"
| "approval_step h (FinishAnswer k) =
     (if length (ah_answering h) \<le> k then h
      else (case ah_answering h ! k of (p, status) \<Rightarrow>
        (case respond_finish (ah_service h) p status of (r, av) \<Rightarrow>
          h\<lparr>ah_service := av, ah_answering := remove_nth k (ah_answering h),
            ah_answers := (case r of Inl _ \<Rightarrow> ah_answers h | Inr _ \<Rightarrow> ah_answers h @ [(pa_id p, status)])\<rparr>)))"
| "approval_step h (FireTimer k) =
     (if length (ah_timers h) \<le> k then h
      else (case ah_timers h ! k of (i, deadline, ch) \<Rightarrow>
        (case timeout_select (ah_service h) (ah_now h) deadline ch of
           None \<Rightarrow> h
         | Some r \<Rightarrow> h\<lparr>ah_timers := remove_nth k (ah_timers h), ah_fired := ah_fired h @ [(i, r)]\<rparr>)))"
| "approval_step h (FinishTimer k) =
     (if length (ah_fired h) \<le> k then h
      else (case ah_fired h ! k of (i, r) \<Rightarrow>
        h\<lparr>ah_service := timeout_finish (ah_service h) i r, ah_fired := remove_nth k (ah_fired h)\<rparr>))"
| "approval_step h (StartWait i) =
     (case wait_take h i of
        Inl e \<Rightarrow> h\<lparr>ah_outcomes := ah_outcomes h @ [(i, Inl e)]\<rparr>
      | Inr (ch, h) \<Rightarrow> h\<lparr>ah_waiting := ah_waiting h @ [(i, ch)]\<rparr>)"
| "approval_step h (EndWait k cancelled) =
     (if length (ah_waiting h) \<le> k then h
      else (case ah_waiting h ! k of (i, ch) \<Rightarrow>
        (case wait_select (ah_service h) i ch cancelled of
           None \<Rightarrow> h
         | Some (r, av) \<Rightarrow> h\<lparr>ah_service := av, ah_waiting := remove_nth k (ah_waiting h),
             ah_outcomes := ah_outcomes h @ [(i, r)]\<rparr>)))"
| "approval_step h (ApprovalTime n) = h\<lparr>ah_now := ah_now h + n\<rparr>"

definition approval_run :: "approval_event list \<Rightarrow> approval_host" where
  "approval_run = foldl approval_step approval_host_new"

end
