(* ===== verification/Approvals_Props.thy ===== *)
theory Approvals_Props
  imports Approvals "HOL-Library.Code_Target_Nat"
begin

text \<open>
  An approval is answered at most once, whoever waits for it gets that answer, and the answer is one
  for its kind. The last section holds runs that show what can go wrong.
\<close>

section \<open>The invariant\<close>

definition channels_ok :: "channel list \<Rightarrow> (uuid \<times> bool) list \<Rightarrow> bool" where
  \<comment> \<open>channel \<open>n\<close> is that of the approval that was created as number \<open>n\<close>\<close>
  "channels_ok chs created = (length chs = length created \<and> distinct (map fst created) \<and>
     (\<forall>ch < length chs. \<forall>r. chs ! ch = ChSent r \<longrightarrow> validate_approval_response r (snd (created ! ch)) = Inr ()))"

definition live_ok :: "pending_approval list \<Rightarrow> channel list \<Rightarrow> (uuid \<times> bool) list \<Rightarrow> bool" where
  \<comment> \<open>the approvals that are pending or being answered\<close>
  "live_ok ps chs created = (distinct (map pa_id ps) \<and>
     (\<forall>p \<in> set ps. pa_response_tx p < length chs \<and> created ! pa_response_tx p = (pa_id p, pa_is_question p) \<and>
        chs ! pa_response_tx p = ChOpen))"

definition resolved_with :: "channel list \<Rightarrow> (uuid \<times> bool) list \<Rightarrow> uuid \<Rightarrow> approval_outcome \<Rightarrow> bool" where
  "resolved_with chs created i r =
     (\<exists>ch < length chs. fst (created ! ch) = i \<and> (chs ! ch = ChSent r \<or> chs ! ch = ChDropped \<and> r = TimedOut))"

definition answered_with :: "channel list \<Rightarrow> (uuid \<times> bool) list \<Rightarrow> uuid \<Rightarrow> approval_outcome \<Rightarrow> bool" where
  "answered_with chs created i r = (\<exists>ch < length chs. fst (created ! ch) = i \<and> chs ! ch = ChSent r)"

definition approval_inv :: "approval_host \<Rightarrow> bool" where
  "approval_inv h =
     (let chs = av_channels (ah_service h); created = ah_created h in
      channels_ok chs created \<and> (\<forall>i \<in> fst ` set created. i < ah_next_uuid h) \<and>
      live_ok (av_pending (ah_service h) @ map fst (ah_answering h)) chs created \<and>
      (\<forall>(i, ch) \<in> set (ah_waiters h) \<union> set (ah_waiting h). ch < length chs \<and> fst (created ! ch) = i) \<and>
      distinct (map fst (ah_answers h)) \<and>
      (\<forall>(i, r) \<in> set (ah_answers h). answered_with chs created i r) \<and>
      (\<forall>i r. (i, Inr r) \<in> set (ah_outcomes h) \<longrightarrow> resolved_with chs created i r))"

text \<open>Channels are only created and resolved.\<close>

definition channels_later :: "channel list \<Rightarrow> channel list \<Rightarrow> bool" where
  "channels_later chs chs' = (length chs \<le> length chs' \<and> (\<forall>ch < length chs. chs ! ch \<noteq> ChOpen \<longrightarrow> chs' ! ch = chs ! ch))"

lemma channels_later_refl [simp]: "channels_later chs chs"
  by (simp add: channels_later_def)

lemma resolved_later:
  assumes "channels_later chs chs'" "length chs = length created"
  shows "resolved_with chs created i r \<Longrightarrow> resolved_with chs' (created @ new) i r"
    "answered_with chs created i r \<Longrightarrow> answered_with chs' (created @ new) i r"
  using assms by (fastforce simp: resolved_with_def answered_with_def channels_later_def nth_append)+

lemma set_remove_nth: "set (remove_nth k xs) \<subseteq> set xs"
  by (auto simp: remove_nth_def dest: in_set_takeD in_set_dropD)

lemma remove_nth_split:
  assumes "k < length xs"
  shows "xs = take k xs @ xs ! k # drop (Suc k) xs" "remove_nth k xs = take k xs @ drop (Suc k) xs"
  using assms by (simp_all add: id_take_nth_drop [symmetric] remove_nth_def)

text \<open>Resolving the channel of a live approval that leaves.\<close>

lemma live_resolve:
  assumes "live_ok ps chs created" "p \<in> set ps" "set qs \<subseteq> set ps - {p}" "distinct (map pa_id qs)"
    and "channels_ok chs created" "c \<noteq> ChOpen" "\<And>r. c = ChSent r \<Longrightarrow> validate_approval_response r (pa_is_question p) = Inr ()"
  shows "live_ok qs (chs[pa_response_tx p := c]) created" "channels_ok (chs[pa_response_tx p := c]) created"
    "channels_later chs (chs[pa_response_tx p := c])"
proof -
  have p: "pa_response_tx p < length chs" "created ! pa_response_tx p = (pa_id p, pa_is_question p)"
    "chs ! pa_response_tx p = ChOpen" using assms(1,2) by (auto simp: live_ok_def)
  have "pa_response_tx p \<noteq> pa_response_tx q" if "q \<in> set qs" for q
  proof
    assume same: "pa_response_tx p = pa_response_tx q"
    have q: "q \<in> set ps" "q \<noteq> p" using assms(3) that by auto
    then have "pa_id q = pa_id p" using assms(1) p(2) same by (auto simp: live_ok_def)
    then show False using assms(1,2) q by (auto simp: live_ok_def distinct_map inj_on_def)
  qed
  then show "live_ok qs (chs[pa_response_tx p := c]) created"
    using assms(1,3,4) by (auto simp: live_ok_def)
  show "channels_ok (chs[pa_response_tx p := c]) created"
    using assms(5,7) p(1,2) by (auto simp: channels_ok_def nth_list_update)
  show "channels_later chs (chs[pa_response_tx p := c])"
    using p(3) by (auto simp: channels_later_def) (metis nth_list_update_neq)
qed

lemma approval_invD:
  assumes "approval_inv h"
  shows "channels_ok (av_channels (ah_service h)) (ah_created h)" "length (av_channels (ah_service h)) = length (ah_created h)"
    "\<forall>i \<in> fst ` set (ah_created h). i < ah_next_uuid h"
    "live_ok (av_pending (ah_service h) @ map fst (ah_answering h)) (av_channels (ah_service h)) (ah_created h)"
    "\<And>i ch. (i, ch) \<in> set (ah_waiters h) \<union> set (ah_waiting h) \<Longrightarrow> ch < length (ah_created h) \<and> fst (ah_created h ! ch) = i"
    "distinct (map fst (ah_answers h))"
    "\<And>i r. (i, r) \<in> set (ah_answers h) \<Longrightarrow> answered_with (av_channels (ah_service h)) (ah_created h) i r"
    "\<And>i r. (i, Inr r) \<in> set (ah_outcomes h) \<Longrightarrow> resolved_with (av_channels (ah_service h)) (ah_created h) i r"
proof -
  note I = assms [unfolded approval_inv_def Let_def]
  show "\<And>i ch. (i, ch) \<in> set (ah_waiters h) \<union> set (ah_waiting h) \<Longrightarrow> ch < length (ah_created h) \<and> fst (ah_created h ! ch) = i"
    using I unfolding channels_ok_def by (metis (mono_tags, lifting) case_prodD)
qed (use assms in \<open>auto simp: approval_inv_def Let_def channels_ok_def\<close>)

lemma created_inj:
  "channels_ok chs created \<Longrightarrow> a < length created \<Longrightarrow> b < length created \<Longrightarrow> fst (created ! a) = fst (created ! b) \<Longrightarrow> a = b"
  unfolding channels_ok_def by (metis length_map nth_eq_iff_index_eq nth_map)

lemma approval_invI:
  assumes inv: "approval_inv h" and created: "ah_created h' = ah_created h" "ah_next_uuid h \<le> ah_next_uuid h'"
    and later: "channels_later (av_channels (ah_service h)) (av_channels (ah_service h'))"
    and chs: "channels_ok (av_channels (ah_service h')) (ah_created h)"
    and live: "live_ok (av_pending (ah_service h') @ map fst (ah_answering h')) (av_channels (ah_service h')) (ah_created h)"
    and waits: "set (ah_waiters h') \<union> set (ah_waiting h') \<subseteq> set (ah_waiters h) \<union> set (ah_waiting h)"
    and answers: "distinct (map fst (ah_answers h'))"
      "\<And>i r. (i, r) \<in> set (ah_answers h') \<Longrightarrow> (i, r) \<in> set (ah_answers h) \<or> answered_with (av_channels (ah_service h')) (ah_created h) i r"
    and outcomes: "\<And>i r. (i, Inr r) \<in> set (ah_outcomes h') \<Longrightarrow>
      (i, Inr r) \<in> set (ah_outcomes h) \<or> resolved_with (av_channels (ah_service h')) (ah_created h) i r"
  shows "approval_inv h'"
proof -
  note old = approval_invD [OF inv]
  have len: "length (av_channels (ah_service h')) = length (ah_created h)" using chs by (simp add: channels_ok_def)
  note keep = resolved_later [OF later old(2), of _ _ "[]", unfolded append_Nil2]
  have "\<forall>(i, r) \<in> set (ah_answers h'). answered_with (av_channels (ah_service h')) (ah_created h) i r"
    using answers(2) keep(2) [OF old(7)] by blast
  moreover have "\<forall>i r. (i, Inr r) \<in> set (ah_outcomes h') \<longrightarrow> resolved_with (av_channels (ah_service h')) (ah_created h) i r"
    using outcomes keep(1) [OF old(8)] by blast
  moreover have "\<forall>(i, ch) \<in> set (ah_waiters h') \<union> set (ah_waiting h').
      ch < length (av_channels (ah_service h')) \<and> fst (ah_created h ! ch) = i"
    using waits old(5) unfolding len by blast
  moreover have "\<forall>i \<in> fst ` set (ah_created h). i < ah_next_uuid h'" using old(3) created(2) by fastforce
  ultimately show ?thesis
    unfolding approval_inv_def Let_def created(1) using chs live answers(1) by blast
qed

lemma tbl_delete_live:
  assumes "live_ok (ps @ qs) chs created" "tbl_find pa_id i ps = Some p"
  shows "p \<in> set ps" "set (tbl_delete pa_id i ps @ qs) = set (ps @ qs) - {p}"
    "distinct (map pa_id (tbl_delete pa_id i ps @ qs))" "pa_id p = i"
proof -
  show p: "p \<in> set ps" "pa_id p = i" using tbl_find_Some [OF assms(2)] by auto
  have d: "distinct (map pa_id (ps @ qs))" using assms(1) by (simp add: live_ok_def)
  then show "set (tbl_delete pa_id i ps @ qs) = set (ps @ qs) - {p}"
    using p by (auto simp: set_tbl_delete distinct_map inj_on_def)
  show "distinct (map pa_id (tbl_delete pa_id i ps @ qs))"
    using d by (auto simp: tbl_delete_def distinct_map_filter)
qed

lemma live_subset:
  "live_ok ps chs created \<Longrightarrow> set qs \<subseteq> set ps \<Longrightarrow> distinct (map pa_id qs) \<Longrightarrow> live_ok qs chs created"
  by (auto simp: live_ok_def)

section \<open>Every event keeps it\<close>

lemma create_inv:
  assumes inv: "approval_inv h"
  shows "approval_inv (snd (create_internal h ep ws tool q count))"
proof -
  note old = approval_invD [OF inv]
  let ?chs = "av_channels (ah_service h)" and ?created = "ah_created h" and ?i = "ah_next_uuid h"
  define p where "p = \<lparr>pa_id = ?i, pa_execution_process_id = ep, pa_tool_name = tool, pa_is_question = q,
    pa_created_at = ah_now h, pa_timeout_at = ah_now h + approval_timeout_seconds, pa_response_tx = length ?chs\<rparr>"
  have fresh: "?i \<notin> fst ` set ?created" using old(3) by auto
  have known: "pa_id p' \<in> fst ` set ?created" if "p' \<in> set (av_pending (ah_service h) @ map fst (ah_answering h))" for p'
    using old(2,4) that unfolding live_ok_def by (metis fst_conv image_eqI nth_mem)
  then have "tbl_find pa_id ?i (av_pending (ah_service h)) = None" using fresh by (auto simp: tbl_find_None)
  then have pending: "pending_insert p (av_pending (ah_service h)) = av_pending (ah_service h) @ [p]"
    by (simp add: pending_insert_def p_def)
  define h' where "h' = snd (create_internal h ep ws tool q count)"
  have h': "ah_created h' = ?created @ [(?i, q)]" "av_channels (ah_service h') = ?chs @ [ChOpen]"
    "av_pending (ah_service h') = av_pending (ah_service h) @ [p]" "ah_answering h' = ah_answering h"
    "ah_waiters h' = (?i, length ?chs) # ah_waiters h" "ah_waiting h' = ah_waiting h" "ah_answers h' = ah_answers h"
    "ah_outcomes h' = ah_outcomes h" "ah_next_uuid h' = Suc ?i"
    using pending
    by (simp_all add: h'_def create_internal_def create_with_waiter_def approval_request_new_def broadcast_def Let_def p_def)
  have later: "channels_later ?chs (?chs @ [ChOpen])" by (simp add: channels_later_def nth_append)
  note keep = resolved_later [OF later old(2)]
  have "channels_ok (?chs @ [ChOpen]) (?created @ [(?i, q)])"
    using old(1) fresh by (auto simp: channels_ok_def nth_append less_Suc_eq)
  moreover have "live_ok (av_pending (ah_service h) @ [p] @ map fst (ah_answering h)) (?chs @ [ChOpen]) (?created @ [(?i, q)])"
  proof -
    have "pa_id p \<notin> pa_id ` set (av_pending (ah_service h) @ map fst (ah_answering h))"
      using known fresh by (metis (no_types, lifting) imageE p_def pending_approval.select_convs(1))
    then show ?thesis using old(2,4) by (auto simp: live_ok_def nth_append p_def ball_Un less_Suc_eq)
  qed
  moreover have "\<forall>(i, ch) \<in> set (ah_waiters h') \<union> set (ah_waiting h'). ch < length (?chs @ [ChOpen]) \<and> fst ((?created @ [(?i, q)]) ! ch) = i"
    using old(2,5) by (fastforce simp: h' nth_append)
  moreover have "\<forall>i \<in> fst ` set (?created @ [(?i, q)]). i < Suc ?i" using old(3) by auto
  ultimately show ?thesis
    using old(6) keep old(7,8) unfolding h'_def [symmetric] by (auto simp: approval_inv_def Let_def h')
qed

lemma remove_nth_set: "x \<in> set (remove_nth k xs) \<Longrightarrow> x \<in> set xs"
  using set_remove_nth by fastforce

lemma live_without:
  assumes "live_ok (ps @ map fst xs) chs created" "k < length xs"
  shows "fst (xs ! k) \<in> set (ps @ map fst xs)"
    "set (ps @ map fst (remove_nth k xs)) = set (ps @ map fst xs) - {fst (xs ! k)}"
    "distinct (map pa_id (ps @ map fst (remove_nth k xs)))"
    "pa_id (fst (xs ! k)) \<notin> pa_id ` set (ps @ map fst (remove_nth k xs))"
proof -
  note split = remove_nth_split [OF assms(2)]
  have d: "distinct (map pa_id (ps @ map fst (take k xs @ xs ! k # drop (Suc k) xs)))"
    using assms(1) by (simp add: live_ok_def split(1) [symmetric])
  then show "distinct (map pa_id (ps @ map fst (remove_nth k xs)))"
    and away: "pa_id (fst (xs ! k)) \<notin> pa_id ` set (ps @ map fst (remove_nth k xs))" unfolding split(2) by auto
  show "fst (xs ! k) \<in> set (ps @ map fst xs)" using assms(2) by simp
  have "set (ps @ map fst xs) = insert (fst (xs ! k)) (set (ps @ map fst (remove_nth k xs)))"
    unfolding split(2) by (subst split(1)) auto
  then show "set (ps @ map fst (remove_nth k xs)) = set (ps @ map fst xs) - {fst (xs ! k)}" using away by auto
qed

lemma finish_answer_inv:
  assumes inv: "approval_inv h" and k: "k < length (ah_answering h)"
  shows "approval_inv (approval_step h (FinishAnswer k))"
proof -
  note old = approval_invD [OF inv]
  obtain p status where a: "ah_answering h ! k = (p, status)" by fastforce
  note gone = live_without [OF old(4) k, unfolded a fst_conv]
  show ?thesis
  proof (cases "validate_approval_response status (pa_is_question p)")
    case (Inl e)
    have "tbl_find pa_id (pa_id p) (av_pending (ah_service h)) = None" using gone(4) by (auto simp: tbl_find_None)
    then have ins: "pending_insert p (av_pending (ah_service h)) = av_pending (ah_service h) @ [p]"
      by (simp add: pending_insert_def)
    have "distinct (map pa_id ((av_pending (ah_service h) @ [p]) @ map fst (remove_nth k (ah_answering h))))"
      using gone(3,4) by auto
    moreover have "set ((av_pending (ah_service h) @ [p]) @ map fst (remove_nth k (ah_answering h)))
        \<subseteq> set (av_pending (ah_service h) @ map fst (ah_answering h))"
      using gone(1,2) by auto
    ultimately have "live_ok ((av_pending (ah_service h) @ [p]) @ map fst (remove_nth k (ah_answering h)))
        (av_channels (ah_service h)) (ah_created h)"
      using live_subset [OF old(4)] by blast
    then show ?thesis
      using k a Inl ins old(1,6) by (intro approval_invI [OF inv]) (auto simp: respond_finish_def)
  next
    case (Inr u)
    let ?chs = "(av_channels (ah_service h))[pa_response_tx p := ChSent status]"
    have sub: "set (av_pending (ah_service h) @ map fst (remove_nth k (ah_answering h)))
        \<subseteq> set (av_pending (ah_service h) @ map fst (ah_answering h)) - {p}" using gone(2) by simp
    note res = live_resolve [OF old(4) gone(1) sub gone(3) old(1), of "ChSent status"]
    have p: "pa_response_tx p < length (av_channels (ah_service h))" "created ! pa_response_tx p = (pa_id p, pa_is_question p)"
      "av_channels (ah_service h) ! pa_response_tx p = ChOpen" if "created = ah_created h" for created
      using old(4) gone(1) that by (auto simp: live_ok_def)
    then have answered: "answered_with ?chs (ah_created h) (pa_id p) status"
      unfolding answered_with_def by (intro exI [of _ "pa_response_tx p"]) simp
    have "pa_id p \<notin> fst ` set (ah_answers h)"
    proof
      assume "pa_id p \<in> fst ` set (ah_answers h)"
      then obtain r where "(pa_id p, r) \<in> set (ah_answers h)" by force
      from old(7) [OF this] obtain ch where ch: "ch < length (av_channels (ah_service h))" "fst (ah_created h ! ch) = pa_id p"
        "av_channels (ah_service h) ! ch = ChSent r" by (auto simp: answered_with_def)
      have "ch = pa_response_tx p"
      proof (rule created_inj [OF old(1)])
        show "fst (ah_created h ! ch) = fst (ah_created h ! pa_response_tx p)" unfolding ch(2) p(2) [OF refl] by simp
      qed (use ch(1) p(1) old(2) in simp_all)
      then show False using ch(3) p(3) by simp
    qed
    then have distinct_answers: "distinct (map fst (ah_answers h @ [(pa_id p, status)]))" using old(6) by simp
    define h' where "h' = approval_step h (FinishAnswer k)"
    have h': "ah_created h' = ah_created h" "ah_next_uuid h' = ah_next_uuid h" "av_channels (ah_service h') = ?chs"
      "av_pending (ah_service h') = av_pending (ah_service h)" "ah_answering h' = remove_nth k (ah_answering h)"
      "ah_waiters h' = ah_waiters h" "ah_waiting h' = ah_waiting h" "ah_outcomes h' = ah_outcomes h"
      "ah_answers h' = ah_answers h @ [(pa_id p, status)]"
      using k a Inr by (simp_all add: h'_def respond_finish_def broadcast_def channel_set_def)
    have "validate_approval_response status (pa_is_question p) = Inr ()" using Inr by simp
    then have res: "live_ok (av_pending (ah_service h) @ map fst (remove_nth k (ah_answering h))) ?chs (ah_created h)"
      "channels_ok ?chs (ah_created h)" "channels_later (av_channels (ah_service h)) ?chs"
      by (auto intro: res)
    have "approval_inv h'"
    proof (rule approval_invI [OF inv])
      fix i r assume "(i, r) \<in> set (ah_answers h')"
      then show "(i, r) \<in> set (ah_answers h) \<or> answered_with (av_channels (ah_service h')) (ah_created h) i r"
        using answered by (auto simp: h')
    qed (use distinct_answers in \<open>simp_all add: h' res\<close>)
    then show ?thesis by (simp add: h'_def)
  qed
qed

lemma take_pending_inv:
  \<comment> \<open>a pending approval whose channel is resolved without an answer\<close>
  assumes inv: "approval_inv h" and p: "tbl_find pa_id i (av_pending (ah_service h)) = Some p"
    and av: "av_pending av = tbl_delete pa_id i (av_pending (ah_service h))"
      "av_channels av = (av_channels (ah_service h))[pa_response_tx p := c]" "c = ChSent TimedOut \<or> c = ChDropped"
    and h': "ah_service h' = av" "ah_answering h' = ah_answering h" "ah_created h' = ah_created h" "ah_next_uuid h' = ah_next_uuid h"
      "ah_waiters h' = ah_waiters h" "set (ah_waiting h') \<subseteq> set (ah_waiting h)" "ah_answers h' = ah_answers h"
      "\<And>i r. (i, Inr r) \<in> set (ah_outcomes h') \<Longrightarrow> (i, Inr r) \<in> set (ah_outcomes h)"
  shows "approval_inv h'"
proof -
  note old = approval_invD [OF inv]
  note gone = tbl_delete_live [OF old(4) p]
  have "p \<in> set (av_pending (ah_service h) @ map fst (ah_answering h))" using gone(1) by simp
  note res = live_resolve [OF old(4) this equalityD1 [OF gone(2)] gone(3) old(1), of c]
  show ?thesis
    using res av h' old(6) by (intro approval_invI [OF inv]) auto
qed

lemma approval_step_inv:
  assumes inv: "approval_inv h"
  shows "approval_inv (approval_step h e)"
proof (cases e)
  case (AskTool ep ws tool)
  then show ?thesis using create_inv [OF inv] by (simp add: create_tool_approval_def)
next
  case (AskQuestion ep ws tool n)
  then show ?thesis using create_inv [OF inv] by (simp add: create_question_approval_def)
next
  note old = approval_invD [OF inv]
  case (TakeAnswer i status)
  show ?thesis
  proof (cases "tbl_find pa_id i (av_pending (ah_service h))")
    case None
    then show ?thesis using inv by (simp add: TakeAnswer respond_take_def)
  next
    case (Some p)
    note gone = tbl_delete_live [OF old(4) Some]
    have "distinct (map pa_id (tbl_delete pa_id i (av_pending (ah_service h)) @ map fst (ah_answering h @ [(p, status)])))"
      using gone old(4) by (auto simp: live_ok_def set_tbl_delete dest: tbl_find_Some [OF Some, THEN conjunct2, symmetric, THEN ssubst])
    moreover have "set (tbl_delete pa_id i (av_pending (ah_service h)) @ map fst (ah_answering h @ [(p, status)]))
        \<subseteq> set (av_pending (ah_service h) @ map fst (ah_answering h))"
      using gone(1,2) by auto
    ultimately have "live_ok (tbl_delete pa_id i (av_pending (ah_service h)) @ map fst (ah_answering h @ [(p, status)]))
        (av_channels (ah_service h)) (ah_created h)"
      using live_subset [OF old(4)] by blast
    then show ?thesis
      using Some old(1,6) by (intro approval_invI [OF inv]) (auto simp: TakeAnswer respond_take_def)
  qed
next
  case (FinishAnswer k)
  then show ?thesis using finish_answer_inv [OF inv] inv by (cases "k < length (ah_answering h)") auto
next
  note old = approval_invD [OF inv]
  case (FireTimer k)
  then show ?thesis
    using inv old(1,4,6) by (auto split: option.split prod.split intro!: approval_invI [OF inv])
next
  note old = approval_invD [OF inv]
  case (FinishTimer k)
  show ?thesis
  proof (cases "k < length (ah_fired h)")
    case True
    obtain i r where f: "ah_fired h ! k = (i, r)" by fastforce
    show ?thesis
    proof (cases "r = TimedOut \<and> tbl_find pa_id i (av_pending (ah_service h)) \<noteq> None")
      case taken: True
      then obtain p where "tbl_find pa_id i (av_pending (ah_service h)) = Some p" by blast
      then show ?thesis
        using True f taken
        by (intro take_pending_inv [OF inv, of i p _ "ChSent TimedOut"])
          (auto simp: FinishTimer timeout_finish_def Let_def broadcast_def channel_set_def)
    next
      case False
      then show ?thesis using True f old(1,4,6)
        by (intro approval_invI [OF inv]) (auto simp: FinishTimer timeout_finish_def Let_def split: option.split)
    qed
  qed (use inv in \<open>simp add: FinishTimer\<close>)
next
  note old = approval_invD [OF inv]
  case (StartWait i)
  show ?thesis
    using inv old(1,4,6) map_of_SomeD [of "ah_waiters h" i]
    by (auto simp: StartWait wait_take_def split: option.split intro!: approval_invI [OF inv])
next
  note old = approval_invD [OF inv]
  case (EndWait k cancelled)
  show ?thesis
  proof (cases "k < length (ah_waiting h)")
    case True
    obtain i ch where w: "ah_waiting h ! k = (i, ch)" by fastforce
    have "(i, ch) \<in> set (ah_waiting h)" using True w by (metis nth_mem)
    then have ch: "ch < length (av_channels (ah_service h))" "fst (ah_created h ! ch) = i" using old(2,5) by auto
    show ?thesis
    proof (cases "cancelled \<and> tbl_find pa_id i (av_pending (ah_service h)) \<noteq> None")
      case taken: True
      then obtain p where "tbl_find pa_id i (av_pending (ah_service h)) = Some p" by blast
      then show ?thesis
        using True w taken remove_nth_set [of _ k "ah_waiting h"]
        by (intro take_pending_inv [OF inv, of i p _ ChDropped])
          (auto simp: EndWait wait_select_def approval_cancel_def broadcast_def channel_set_def)
    next
      case False
      have "resolved_with (av_channels (ah_service h)) (ah_created h) i r" if "waiter_outcome (ah_service h) ch = Some r" for r
        using that ch by (auto simp: waiter_outcome_def resolved_with_def split: channel.splits)
      then show ?thesis using True w False inv old(1,4,6) remove_nth_set [of _ k "ah_waiting h"]
        by (auto simp: EndWait wait_select_def approval_cancel_def split: option.split intro!: approval_invI [OF inv])
    qed
  qed (use inv in \<open>simp add: EndWait\<close>)
next
  note old = approval_invD [OF inv]
  case (ApprovalTime n)
  then show ?thesis using old(1,4,6) by (intro approval_invI [OF inv]) auto
qed

lemma approval_run_inv: "approval_inv (approval_run evs)"
proof (induction evs rule: rev_induct)
  case Nil
  show ?case
    by (simp add: approval_run_def approval_host_new_def approvals_new_def approval_inv_def channels_ok_def live_ok_def)
next
  case (snoc e evs)
  then show ?case using approval_step_inv by (simp add: approval_run_def)
qed

text \<open>C31: An approval is answered at most once, and the answer reaches the agent: whatever users, timers and
  cancelled waits do at once, no two answers to an approval succeed, a wait that ends with an outcome ends with
  the answer that succeeded if there is one, and the outcome is one for its kind: waiting for
  permission to use a tool never meets the answer to a question, nor the other way round.\<close>

theorem approval_answered_once_for_all:
  "distinct (map fst (ah_answers (approval_run evs))) \<and>
   (\<forall>i r r'. (i, r) \<in> set (ah_answers (approval_run evs)) \<and> (i, Inr r') \<in> set (ah_outcomes (approval_run evs)) \<longrightarrow> r' = r) \<and>
   (\<forall>i r. (i, Inr r) \<in> set (ah_outcomes (approval_run evs)) \<longrightarrow>
      ((i, False) \<in> set (ah_created (approval_run evs)) \<longrightarrow> (\<exists>st. tool_status (Inr r) = Inr st)) \<and>
      ((i, True) \<in> set (ah_created (approval_run evs)) \<longrightarrow> (\<exists>st. question_status_of (Inr r) = Inr st)))"
proof -
  let ?h = "approval_run evs"
  note old = approval_invD [OF approval_run_inv [of evs]]
  have chan: "ch = ch'" if "ch < length (ah_created ?h)" "ch' < length (ah_created ?h)" "fst (ah_created ?h ! ch) = fst (ah_created ?h ! ch')" for ch ch'
    using that by (rule created_inj [OF old(1)])
  have "r' = r" if "(i, r) \<in> set (ah_answers ?h)" "(i, Inr r') \<in> set (ah_outcomes ?h)" for i r r'
    using old(7) [OF that(1)] old(8) [OF that(2)] chan old(2) unfolding answered_with_def resolved_with_def
    by (metis channel.distinct(5) channel.inject)
  moreover have "(q \<longrightarrow> (\<exists>st. question_status_of (Inr r) = Inr st)) \<and> (\<not> q \<longrightarrow> (\<exists>st. tool_status (Inr r) = Inr st))"
    if out: "(i, Inr r) \<in> set (ah_outcomes ?h)" and cr: "(i, q) \<in> set (ah_created ?h)" for i r q
  proof -
    obtain ch where ch: "ch < length (ah_created ?h)" "fst (ah_created ?h ! ch) = i"
      "av_channels (ah_service ?h) ! ch = ChSent r \<or> r = TimedOut"
      using old(8) [OF out] old(2) by (auto simp: resolved_with_def)
    moreover obtain ch' where "ch' < length (ah_created ?h)" "ah_created ?h ! ch' = (i, q)"
      using cr by (auto simp: in_set_conv_nth)
    ultimately have "ah_created ?h ! ch = (i, q)" using chan [of ch ch'] by simp
    then have "validate_approval_response r q = Inr ()"
      using ch old(1,2) by (auto simp: channels_ok_def)
    then show ?thesis by (cases r; cases q) auto
  qed
  ultimately show ?thesis using old(6) by blast
qed

theorem approval_answered_once_for_all_witness:
  "let h = approval_run [AskTool 5 None ''Bash'', StartWait 0, TakeAnswer 0 (Answered []), FinishAnswer 0, TakeAnswer 0 Approved,
       TakeAnswer 0 (Denied None), FinishAnswer 0, TakeAnswer 0 (Denied None), EndWait 0 False] in
   (\<forall>i r r'. (i, r) \<in> set (ah_answers h) \<and> (i, Inr r') \<in> set (ah_outcomes h) \<longrightarrow> r' = r) \<and>
   ah_answers h = [(0, Approved)] \<and> ah_outcomes h = [(0, Inr Approved)]"
proof -
  define evs where "evs = [AskTool 5 None ''Bash'', StartWait 0, TakeAnswer 0 (Answered []), FinishAnswer 0, TakeAnswer 0 Approved,
       TakeAnswer 0 (Denied None), FinishAnswer 0, TakeAnswer 0 (Denied None), EndWait 0 False]"
  have "ah_answers (approval_run evs) = [(0, Approved)] \<and> ah_outcomes (approval_run evs) = [(0, Inr Approved)]"
    unfolding evs_def by code_simp
  then show ?thesis using approval_answered_once_for_all [of evs] unfolding Let_def evs_def by blast
qed

section \<open>What can go wrong\<close>

text \<open>An answer of the wrong kind takes the approval out of the map for a moment. A timer that fires then finds nothing, and the
  approval that is put back has no timer: the agent waits for ever, unless somebody answers.\<close>

lemma wrong_answer_disarms_timer:
  "let h = approval_run [AskTool 5 None ''Bash'', StartWait 0, TakeAnswer 0 (Answered []), ApprovalTime 36000, FireTimer 0,
       FinishTimer 0, FinishAnswer 0] in
   map pa_id (av_pending (ah_service h)) = [0] \<and> ah_timers h = [] \<and> ah_fired h = [] \<and>
   waiter_outcome (ah_service h) 0 = None \<and> av_completed (ah_service h) = [(0, TimedOut)]"
  by code_simp

text \<open>The outcome of a cancelled wait is recorded as a time-out.\<close>

lemma cancelled_becomes_timed_out:
  "let h = approval_run [AskTool 5 None ''Bash'', StartWait 0, EndWait 0 True];
       h' = foldl approval_step h [FireTimer 0, FinishTimer 0] in
   av_completed (ah_service h) = [(0, Denied (Some ''Cancelled''))] \<and> av_completed (ah_service h') = [(0, TimedOut)]"
  by code_simp

text \<open>A reader takes its snapshot before it subscribes, and misses an approval that is created in between.\<close>

lemma reader_misses_approval:
  "let snapshot = patch_snapshot (ah_service (approval_run []));
       av = ah_service (approval_run [AskTool 5 None ''Bash'']);
       rd = patch_subscribe av snapshot in
   patch_receive av rd = rd \<and> shown_approvals [] (rd_received rd) = [] \<and> map ai_approval_id (pending_infos av) = [0]"
  by code_simp

end
