(* ===== verification/Spec2Isabelle.thy ===== *)
theory Spec2Isabelle
  imports Squad_Walk_Props Squad_Exec_Props Agent_Task_Routes_Props Issue_Assignees_Props
    Squad_Admin_Props Task_Watcher_Props Session_Queue_Props Msg_Store_Props Dc_Fragment
    Utf8_Decoder Ws_Frames Relay_Pairing_Props
    Organizations_Props Auth_Runs Autopilots_Props
    Log_Patches_Props Approvals_Props
begin

text \<open>
  Hyper Vibe Kanban: the agent-orchestration layer of the Remote server, the local hosts that work
  for it, and the channels between them.

  \<^bold>\<open>The program.\<close> The Remote server (crates/remote) keeps projects, issues, agents and squads in
  PostgreSQL. An agent task is a row that asks an agent to work on an issue; local hosts claim
  queued tasks, run them and report back (crates/remote/src/db/agent_tasks.rs). A squad has a
  pipeline, a graph of steps (agent, wait, if, while, break, fork, join, approval gate, script,
  git operation). POST /squads/{id}/run checks the request, creates a run row and spawns a
  task that walks the pipeline (crates/remote/src/routes/squads.rs): each step enqueues an agent
  task and polls its row until it ends or a deadline passes. The walk ends with a
  completed, failed or waiting row in \<open>squad_runs\<close> (crates/remote/src/db/squad_runs.rs) and,
  when someone has to act, with items in the inboxes (crates/remote/src/db/inbox.rs).
  POST /squads/runs/{id}/approve answers a waiting run and may spawn a second walk behind the
  gate. Assigning an agent or a squad to an issue starts work, too (routes/issue_assignees.rs), and
  a completed task may bring a review (routes/agent_tasks.rs).

  On a local host, a watcher claims tasks, starts a coding agent in a workspace and reports the end
  (crates/local-deployment/src/agent_task_watcher.rs). Follow-up messages that a user types
  meanwhile wait in a queue per session; the output of the processes is decoded as UTF-8 and kept
  in a bounded log that any number of readers follow. A browser reaches the host through a relay
  that it need not trust: requests carry signatures (crates/relay-control), WebSocket frames are
  signed and numbered (crates/relay-ws), and messages of a WebRTC data channel are cut into chunks
  (crates/relay-webrtc).

  \<^bold>\<open>Theories and sources.\<close>
  \<^item> Vk_Prelude: strings as UTF-8 bytes, tables of rows, and the locales shared by the
    components: \<open>keyed_table\<close> (update in place by key), \<open>measured_machine\<close> (a machine whose
    effective steps lower a measure) and \<open>refinement\<close> (a machine that answers every sequence of
    events as an abstract one does).
  \<^item> Squad_Types: the data of crates/api-types/src/squad.rs; the locale \<open>wire_codec\<close> states the
    contract of the \<open>as_str\<close>/\<open>parse\<close> pairs and is interpreted on the four of them.
  \<^item> Remote_Db: the rows and the database state \<open>remote_db\<close>, database and HTTP errors
    (routes/error.rs), access control (routes/organization_members.rs).
  \<^item> Agent_Task_Queue, Agent_Task_Queue_Props: the repository of agent tasks
    (db/agent_tasks.rs): enqueue, claim, update, delete, the lists; the partial unique index is
    \<open>active_unique\<close>, and the two halves \<open>claim_select\<close> and \<open>claim_commit\<close> of a claim show what two
    concurrent transactions can do.
  \<^item> Squad_Graph: the adjacency maps and roots that \<open>execute_squad_pipeline\<close> builds, and
    \<open>topological_order\<close> (db/squads.rs).
  \<^item> Squad_Condition: step results and the condition language of if and while nodes.
  \<^item> Pipeline_Job: the job that a script or git step hands to the local watcher
    (crates/api-types/src/pipeline_job.rs).
  \<^item> Squad_Walk: the state of a walk (\<open>shared\<close> is SharedWalk with the database and a clock,
    \<open>thread\<close> a call stack of \<open>walk_node\<close>), and the part of \<open>walk_node\<close> before its first await, one
    definition per node type. Squad_Machine: the pieces after each await (\<open>ctl_step\<close>), the failure
    of each database call (\<open>ctl_fault\<close>), fork branches as threads, and whole walks under a list of
    events (\<open>walk_run\<close>): a poll of a thread, a failed query, time passing, another client of the
    task table.
  \<^item> Squad_Trace_Text: the texts of the run log and of the plan that a run leaves on its issue.
  \<^item> Squad_Runs: the repositories of runs and of inbox items. Squad_Exec: prepare, walk,
    settle and notify, and the handlers of run and approve.
  \<^item> Agent_Task_Routes: the handlers of agent tasks, the notification at the end of a task and its
    review (routes/agent_tasks.rs). Issue_Assignees: the assignees of issues and the work that an
    assignment starts (db/issue_assignees.rs, routes/issue_assignees.rs). Squad_Admin: the tables
    of squads and members with their constraints, and the handlers (db/squads.rs,
    routes/squads.rs).
  \<^item> Task_Watcher: one round of the watcher and the wait for a coding agent; \<open>watch_env\<close> is
    what the host answers in a round, \<open>remote_call\<close> what the watcher tells the server, and
    \<open>watch_step\<close> runs the calls through the handlers of Agent_Task_Routes.
  \<^item> Session_Queue: the table of queued follow-ups, its routes and the consumer that runs when a
    process exits (crates/db/src/models/session_queued_message.rs,
    crates/server/src/routes/sessions/queue.rs, container.rs). Msg_Store: the log of a process
    and its readers (crates/utils/src/msg_store.rs). Utf8_Decoder: the decoder of process output
    (crates/utils/src/utf8_chunk_decoder.rs).
  \<^item> Relay_Signing: signing sessions and the checks of a signed request
    (crates/relay-control/src/signing.rs). Relay_Pairing: one-time codes, enrollments, trusted
    clients and refreshed sessions (crates/trusted-key-auth/src,
    crates/server/src/relay_pairing/server.rs). Ws_Frames: signed and numbered frames
    (crates/relay-protocol/src/lib.rs, crates/relay-ws/src). Dc_Fragment: fragments of data
    channel messages (crates/relay-webrtc/src/fragment.rs).
  \<^item> Organizations: organizations, members and invitations (db/organizations.rs,
    db/organization_members.rs, db/invitations.rs, routes/organizations.rs,
    routes/organization_members.rs). An operation takes the state that its questions saw and the
    state that its write finds.
  \<^item> Auth_Sessions: tokens, sessions, the check of every request and the refresh (auth/jwt.rs,
    db/auth.rs, auth/middleware.rs, auth/oauth_token_validator.rs, routes/tokens.rs). Auth_Sign_In: the
    OAuth handoff and the local login (auth/handoff.rs, auth/local.rs, db/oauth.rs, db/users.rs,
    db/oauth_accounts.rs). A handler takes the states in which its questions are answered and the
    state in which it writes; \<open>auth_libs\<close> are the libraries of tokens and ciphers.
  \<^item> Autopilots: schedules and their dispatches (db/autopilots.rs, scheduler.rs,
    routes/autopilots.rs). A dispatch has two moments, between which other requests may come;
    \<open>cron_lib\<close> are the cron and time zone libraries.
  \<^item> Log_Patches: the entries of a conversation as JSON patches, the processor that cuts plain text
    into entries, the historic replay and the list of entries (crates/executors/src/logs,
    crates/services/src/services/container.rs, crates/server/src/routes/execution_processes.rs).
    Approvals: the questions of an agent to its user (crates/services/src/services/approvals.rs and
    approvals/executor_approvals.rs); answers and timers are two operations each.
  \<^item> Squad_Scenarios: the concrete database and pipelines that the witnesses run on.

  \<^bold>\<open>The lemmas.\<close>
  \<^item> Squad_Termination and Squad_Progress: \<open>walk_measure\<close>, built from the step budget, the stack of
    every thread and the bound of 20 on every loop, is lowered by every effective step, including
    failures; the walk is an instance of \<open>measured_machine\<close>.
  \<^item> Squad_Liveness: nothing waits longer than \<open>patience\<close>, the larger of the agent deadline and the
    hour of the join barrier, so that polling every thread after that time makes progress and a
    bounded number of such rounds ends the walk.
  \<^item> Squad_Invariants: the locale \<open>potential\<close> bounds what a walk spends; its two interpretations
    bound the enqueued tasks and the recorded visits by the step budget of 256.
  \<^item> Squad_Threads: the shape of every stack, the join gates and the pause, kept by every event.
  \<^item> Squad_Database: the locale \<open>db_invariant\<close> lifts an invariant of the task operations to walks;
    it is interpreted on the invariant of the queue and on the untouched tables.
  \<^item> Agent_Task_Routes_Props, Issue_Assignees_Props and Squad_Admin_Props: what each handler writes
    and whom it tells, who may call it, and invariants of the tables under any requests.
  \<^item> Task_Watcher_Props: every round ends with one update that settles the claimed task
    (\<open>run_claimed_settles\<close>), the earlier ones keep it active, and the server accepts them
    (\<open>update_live_row\<close>); the attempt budget is an invariant of the board.
  \<^item> Session_Queue_Props interprets \<open>refinement\<close> on lists of messages per session, with dense
    positions as the representation invariant. Msg_Store_Props: the bound of the history, and what
    a reader sees that joins while a writer pushes.
  \<^item> Utf8_Decoder, Relay_Signing, Ws_Frames and Dc_Fragment end with their properties: decoding
    does not depend on the chunks, a request is accepted at most once, the accepted frames are a
    prefix of those signed (the adversary delivers whatever it likes), messages cross unchanged.
  \<^item> Relay_Pairing_Props: an invariant that charges every trusted key and every session to a
    code that was made (\<open>pairing_inv\<close>), replayed refreshes, and the rate limits on every window.
  \<^item> Organizations_Props: \<open>org_write\<close> lists what a request can write, with whom it lets in, and the
    invariants are proved once per write; \<open>org_run\<close> is a history in which each request asks its
    questions in some earlier state.
  \<^item> Auth_Rotation: \<open>auth_writes\<close> lists what any request writes to the sessions, \<open>auth_inv\<close> says what
    the rotations of tokens leave behind, and \<open>auth_run\<close> is a history in which the questions of a
    request lag behind. Auth_Props: successors, replays, revoked sessions and redemptions.
    Auth_Runs: their witnesses, and runs that show what can go wrong.
  \<^item> Autopilots_Props: \<open>sched_run\<close> is a history of ticking servers, dispatches and clients;
    \<open>claims_inv\<close> says when an autopilot that was claimed can be due again.
  \<^item> Log_Patches_Props: \<open>text_inv\<close> relates what a reader has seen of a processor to the text that came
    in, and a replay is compared with the whole history. Approvals_Props: \<open>approval_inv\<close> gives every
    approval its channel, which is open as long as the approval can be answered.
  \<^item> Squad_Walk_Props and Squad_Exec_Props, and the last sections of the component theories:
    the properties and their witnesses, on which the other lemmas do not depend.

  \<^bold>\<open>Bounds and fuel.\<close> The walk has no fuel: it is a step function, and \<open>walk_measure\<close> bounds its
  effective steps for every pipeline. \<open>topological_order\<close> is a partial function whose value None
  means that the loop does not end; Squad_Graph shows when it ends and that it may not. So is the
  loop over message boundaries (\<open>boundary_loop\<close>), which ends when the predicate splits off lines. The wait
  for a coding agent polls 720 times, as in the source. Sequence numbers, timestamps and
  lengths on the wire have the width of the source.

  \<^bold>\<open>Not modelled.\<close> The branch of \<open>execute_squad_pipeline\<close> without roots cannot be taken: a graph
  with nodes always has a root (\<open>graph_roots_ok\<close>). Queries of the epilogue that fail are ignored by the source
  (\<open>let _ =\<close>, \<open>.ok()\<close>) and succeed in the model; queries of the walk and of the start can fail.
  serde_json, the texts of third-party errors and the environment variables are parameters. The
  queries of one step are one event, except where the source awaits a task. The axum, sqlx
  and tokio layers are not modelled, nor are the remaining crates listed in the manifest. User
  notifications are values without a table; the Feishu integration, comments written by
  the watcher and registered workspaces are left out, since nothing modelled reads them. The calls
  of the watcher reach the server, which may refuse them. Failures of the database inside a
  handler, and the order in which a HashMap or HashSet is iterated, are not modelled. Ed25519,
  SHA-256, base64, git, the shell and the starting of processes are parameters.
\<close>

end
